(* ===== verification/Prelude.thy ===== *)
theory Prelude
  imports Main "HOL-Library.Word"
begin

text \<open>
  Shared vocabulary of the development: the machine types of the program, results with
  errors, and the part of the Rust standard library the sources use on strings
  (searching, trimming, decimal printing and parsing, UTF-8 validation and lossy
  decoding). An Isabelle \<open>char\<close> is one octet, so \<open>string\<close> models both \<open>Vec<u8>\<close> and the
  UTF-8 bytes of a \<open>String\<close>: \<open>as_bytes\<close>, \<open>len\<close> and byte indices are those of Rust.
\<close>

type_synonym u8 = "8 word"
type_synonym u16 = "16 word"
type_synonym u32 = "32 word"
type_synonym u64 = "64 word"
type_synonym bytes = "char list"

named_theorems str_simps \<open>facts that evaluate the string operations\<close>
named_theorems res_simps \<open>case rules of results with errors\<close>

section \<open>Definitions\<close>

subsection \<open>I/O errors and results\<close>

datatype io_kind =
    NotFound | PermissionDenied | ConnectionRefused | ConnectionAborted | InvalidData | InvalidInput
  | TimedOut | WouldBlock | Interrupted | OtherKind

datatype io_error = IoError (io_error_kind: io_kind) (io_error_text: string)

text \<open>\<open>sbind\<close> is Rust's \<open>?\<close> on a state-passing result: an error returns at once and keeps
  the state reached so far.\<close>

type_synonym ('s, 'e, 'a) sres = "('e + 'a) \<times> 's"

fun sbind :: "('s, 'e, 'a) sres \<Rightarrow> ('a \<Rightarrow> 's \<Rightarrow> ('s, 'e, 'b) sres) \<Rightarrow> ('s, 'e, 'b) sres" where
  "sbind (Inl e, s) f = (Inl e, s)"
| "sbind (Inr x, s) f = f x s"

fun rbind :: "('e + 'a) \<Rightarrow> ('a \<Rightarrow> 'e + 'b) \<Rightarrow> 'e + 'b" where
  "rbind (Inl e) f = Inl e"
| "rbind (Inr x) f = f x"

text \<open>\<open>map_err\<close>, \<open>ok_or_else\<close> and \<open>unwrap_or\<close> of the standard library.\<close>

fun map_err :: "('e \<Rightarrow> 'f) \<Rightarrow> 'e + 'a \<Rightarrow> 'f + 'a" where
  "map_err f (Inl e) = Inl (f e)"
| "map_err f (Inr x) = Inr x"

fun ok_or :: "'e \<Rightarrow> 'a option \<Rightarrow> 'e + 'a" where
  "ok_or e None = Inl e"
| "ok_or e (Some x) = Inr x"

fun unwrap_or :: "'a \<Rightarrow> 'a option \<Rightarrow> 'a" where
  "unwrap_or d None = d"
| "unwrap_or d (Some x) = x"

fun res_ok :: "'e + 'a \<Rightarrow> 'a option" where
  "res_ok (Inl _) = None"
| "res_ok (Inr x) = Some x"

subsection \<open>Searching and slicing strings\<close>

definition starts_with :: "string \<Rightarrow> string \<Rightarrow> bool" where
  "starts_with p s \<longleftrightarrow> take (length p) s = p"

definition strip_prefix :: "string \<Rightarrow> string \<Rightarrow> string option" where
  "strip_prefix p s = (if starts_with p s then Some (drop (length p) s) else None)"

text \<open>\<open>str::find\<close> with a string needle: the byte offset of the first occurrence.\<close>

fun find_str :: "string \<Rightarrow> string \<Rightarrow> nat option" where
  "find_str n [] = (if n = [] then Some 0 else None)"
| "find_str n (c # cs) =
     (if starts_with n (c # cs) then Some 0 else map_option Suc (find_str n cs))"

text \<open>\<open>str::find\<close> with a character predicate.\<close>

fun find_char :: "(char \<Rightarrow> bool) \<Rightarrow> string \<Rightarrow> nat option" where
  "find_char p [] = None"
| "find_char p (c # cs) = (if p c then Some 0 else map_option Suc (find_char p cs))"

definition is_cont :: "char \<Rightarrow> bool" where
  "is_cont c \<longleftrightarrow> 0x80 \<le> (of_char c :: nat) \<and> (of_char c :: nat) < 0xC0"

definition is_char_boundary :: "string \<Rightarrow> nat \<Rightarrow> bool" where
  "is_char_boundary s i \<longleftrightarrow> i = 0 \<or> i = length s \<or> (i < length s \<and> \<not> is_cont (s ! i))"

text \<open>\<open>&s[..i]\<close>: \<open>None\<close> is the panic of a slice index that is out of range or inside a
  code point.\<close>

definition slice_to :: "string \<Rightarrow> nat \<Rightarrow> string option" where
  "slice_to s i = (if is_char_boundary s i then Some (take i s) else None)"

subsection \<open>Trimming\<close>

text \<open>The UTF-8 encodings of the code points with the Unicode property White\_Space.\<close>

definition white_space :: "string list" where
  "white_space =
     [[CHR 0x09], [CHR 0x0A], [CHR 0x0B], [CHR 0x0C], [CHR 0x0D], [CHR 0x20],
      [CHR 0xC2, CHR 0x85], [CHR 0xC2, CHR 0xA0], [CHR 0xE1, CHR 0x9A, CHR 0x80],
      [CHR 0xE2, CHR 0x80, CHR 0x80], [CHR 0xE2, CHR 0x80, CHR 0x81],
      [CHR 0xE2, CHR 0x80, CHR 0x82], [CHR 0xE2, CHR 0x80, CHR 0x83],
      [CHR 0xE2, CHR 0x80, CHR 0x84], [CHR 0xE2, CHR 0x80, CHR 0x85],
      [CHR 0xE2, CHR 0x80, CHR 0x86], [CHR 0xE2, CHR 0x80, CHR 0x87],
      [CHR 0xE2, CHR 0x80, CHR 0x88], [CHR 0xE2, CHR 0x80, CHR 0x89],
      [CHR 0xE2, CHR 0x80, CHR 0x8A], [CHR 0xE2, CHR 0x80, CHR 0xA8],
      [CHR 0xE2, CHR 0x80, CHR 0xA9], [CHR 0xE2, CHR 0x80, CHR 0xAF],
      [CHR 0xE2, CHR 0x81, CHR 0x9F], [CHR 0xE3, CHR 0x80, CHR 0x80]]"

text \<open>Stripping repeatedly one of a list of non-empty prefixes; each round removes at
  least one byte, so the length of the string bounds the rounds.\<close>

fun strip_all :: "nat \<Rightarrow> string list \<Rightarrow> string \<Rightarrow> string" where
  "strip_all 0 ws s = s"
| "strip_all (Suc n) ws s =
     (case List.find (\<lambda>w. starts_with w s) ws of
        None \<Rightarrow> s
      | Some w \<Rightarrow> strip_all n ws (drop (length w) s))"

definition trim :: "string \<Rightarrow> string" where
  "trim s =
     (let s1 = strip_all (length s) white_space s
      in rev (strip_all (length s1) (map rev white_space) (rev s1)))"

subsection \<open>Decimal numbers\<close>

definition is_digit :: "char \<Rightarrow> bool" where
  "is_digit c \<longleftrightarrow> 48 \<le> (of_char c :: nat) \<and> (of_char c :: nat) \<le> 57"

definition digit_char :: "nat \<Rightarrow> char" where
  "digit_char d = char_of (48 + d)"

fun show_nat :: "nat \<Rightarrow> string" where
  "show_nat n =
     (if n < 10 then [digit_char n] else show_nat (n div 10) @ [digit_char (n mod 10)])"

declare show_nat.simps [simp del]

fun parse_digits :: "nat \<Rightarrow> string \<Rightarrow> nat option" where
  "parse_digits acc [] = Some acc"
| "parse_digits acc (c # cs) =
     (if is_digit c then parse_digits (acc * 10 + (of_char c - 48)) cs else None)"

text \<open>\<open>str::parse\<close> for an unsigned type with values below \<open>bnd\<close>: an optional plus sign,
  at least one digit, no overflow.\<close>

definition strip_plus :: "string \<Rightarrow> string" where
  "strip_plus s = (case s of [] \<Rightarrow> [] | c # cs \<Rightarrow> if c = CHR ''+'' then cs else s)"

definition parse_unsigned :: "nat \<Rightarrow> string \<Rightarrow> nat option" where
  "parse_unsigned bnd s =
     (if strip_plus s = [] then None
      else case parse_digits 0 (strip_plus s) of
             None \<Rightarrow> None
           | Some n \<Rightarrow> if n < bnd then Some n else None)"

definition parse_u32 :: "string \<Rightarrow> u32 option" where
  "parse_u32 s = map_option of_nat (parse_unsigned (2 ^ 32) s)"

definition parse_u64 :: "string \<Rightarrow> u64 option" where
  "parse_u64 s = map_option of_nat (parse_unsigned (2 ^ 64) s)"

text \<open>The message of a failed parse: the first offending digit from the left decides.\<close>

fun parse_fault :: "nat \<Rightarrow> nat \<Rightarrow> string \<Rightarrow> string" where
  "parse_fault bnd acc [] = ''invalid digit found in string''"
| "parse_fault bnd acc (c # cs) =
     (if \<not> is_digit c then ''invalid digit found in string''
      else if bnd \<le> acc * 10 + (of_char c - 48) then ''number too large to fit in target type''
      else parse_fault bnd (acc * 10 + (of_char c - 48)) cs)"

definition parse_u32_err :: "string \<Rightarrow> string" where
  "parse_u32_err s =
     (if s = [] then ''cannot parse integer from empty string''
      else parse_fault (2 ^ 32) 0 (strip_plus s))"

text \<open>The double quote, and \<open>u8::try_from\<close> on a \<open>u32\<close>.\<close>

abbreviation DQ :: char where "DQ \<equiv> CHR 0x22"

definition u8_try_from :: "u32 \<Rightarrow> u8 option" where
  "u8_try_from d = (if d < 256 then Some (ucast d) else None)"

definition show_word :: "'a::len word \<Rightarrow> string" where
  "show_word w = show_nat (unat w)"

fun parse_bool :: "string \<Rightarrow> bool option" where
  "parse_bool s = (if s = ''true'' then Some True else if s = ''false'' then Some False else None)"

fun show_bool :: "bool \<Rightarrow> string" where
  "show_bool True = ''true''"
| "show_bool False = ''false''"

subsection \<open>UTF-8\<close>

text \<open>One step of the standard library's UTF-8 decoder: whether the next sequence is
  valid, and how many bytes it (or the ill-formed prefix) takes.\<close>

definition byte_in :: "char \<Rightarrow> nat \<Rightarrow> nat \<Rightarrow> bool" where
  "byte_in c lo hi \<longleftrightarrow> lo \<le> (of_char c :: nat) \<and> (of_char c :: nat) \<le> hi"

definition second_ok :: "nat \<Rightarrow> char \<Rightarrow> bool" where
  "second_ok b c =
     (if b = 0xE0 then byte_in c 0xA0 0xBF
      else if b = 0xED then byte_in c 0x80 0x9F
      else if b = 0xF0 then byte_in c 0x90 0xBF
      else if b = 0xF4 then byte_in c 0x80 0x8F
      else byte_in c 0x80 0xBF)"

definition utf8_width :: "nat \<Rightarrow> nat" where
  "utf8_width b =
     (if b < 0x80 then 1 else if b < 0xC2 then 0 else if b < 0xE0 then 2
      else if b < 0xF0 then 3 else if b < 0xF5 then 4 else 0)"

text \<open>\<open>good_conts n s\<close>: how many of the first \<open>n\<close> bytes are continuation bytes.\<close>

fun good_conts :: "nat \<Rightarrow> string \<Rightarrow> nat" where
  "good_conts 0 s = 0"
| "good_conts (Suc n) [] = 0"
| "good_conts (Suc n) (c # cs) = (if is_cont c then Suc (good_conts n cs) else 0)"

definition utf8_step :: "char \<Rightarrow> string \<Rightarrow> bool \<times> nat" where
  "utf8_step c cs =
     (let b = (of_char c :: nat); w = utf8_width b in
      if w = 0 then (False, 1)
      else if w = 1 then (True, 1)
      else case cs of
             [] \<Rightarrow> (False, 1)
           | d # ds \<Rightarrow>
               if \<not> second_ok b d then (False, 1)
               else let k = good_conts (w - 2) ds in
                    if k = w - 2 then (True, w) else (False, 2 + k))"

text \<open>The number of bytes left bounds the steps, each of which takes at least one byte.\<close>

fun utf8_valid_n :: "nat \<Rightarrow> string \<Rightarrow> bool" where
  "utf8_valid_n 0 s = (s = [])"
| "utf8_valid_n (Suc n) [] = True"
| "utf8_valid_n (Suc n) (c # cs) =
     (case utf8_step c cs of (ok, k) \<Rightarrow> ok \<and> utf8_valid_n n (drop k (c # cs)))"

definition utf8_valid :: "bytes \<Rightarrow> bool" where
  "utf8_valid s = utf8_valid_n (length s) s"

definition from_utf8 :: "bytes \<Rightarrow> string option" where
  "from_utf8 b = (if utf8_valid b then Some b else None)"

fun lossy_n :: "nat \<Rightarrow> bytes \<Rightarrow> string" where
  "lossy_n 0 s = []"
| "lossy_n (Suc n) [] = []"
| "lossy_n (Suc n) (c # cs) =
     (case utf8_step c cs of (ok, k) \<Rightarrow>
        (if ok then take k (c # cs) else [CHR 0xEF, CHR 0xBF, CHR 0xBD])
        @ lossy_n n (drop k (c # cs)))"

definition from_utf8_lossy :: "bytes \<Rightarrow> string" where
  "from_utf8_lossy s = lossy_n (length s) s"

section \<open>Lemmas\<close>

subsection \<open>Results\<close>

lemma sbind_Inr_iff [res_simps]:
  "sbind r f = (Inr y, t) \<longleftrightarrow> (\<exists>x s. r = (Inr x, s) \<and> f x s = (Inr y, t))"
  by (cases r; cases "fst r") auto

lemma rbind_Inr_iff [res_simps]: "rbind r f = Inr y \<longleftrightarrow> (\<exists>x. r = Inr x \<and> f x = Inr y)"
  by (cases r) auto

lemma map_err_Inr_iff [res_simps]: "map_err f r = Inr x \<longleftrightarrow> r = Inr x"
  by (cases r) auto

lemma ok_or_Inr_iff [res_simps]: "ok_or e r = Inr x \<longleftrightarrow> r = Some x"
  by (cases r) auto

subsection \<open>Searching\<close>

lemma starts_with_append [simp]: "starts_with p (p @ s)"
  by (simp add: starts_with_def)

lemma starts_with_iff: "starts_with p s \<longleftrightarrow> (\<exists>t. s = p @ t)"
  unfolding starts_with_def by (metis append_eq_conv_conj append_take_drop_id)

lemma starts_with_Nil [simp]: "starts_with [] s"
  by (simp add: starts_with_def)

lemma starts_with_Cons [simp]:
  "starts_with (p # ps) (c # cs) \<longleftrightarrow> p = c \<and> starts_with ps cs"
  by (auto simp: starts_with_def)

lemma starts_with_Cons_Nil [simp]: "\<not> starts_with (p # ps) []"
  by (simp add: starts_with_def)

lemma strip_prefix_append [simp]: "strip_prefix p (p @ s) = Some s"
  by (simp add: strip_prefix_def)

lemma strip_prefix_Some_iff: "strip_prefix p s = Some t \<longleftrightarrow> s = p @ t"
  by (auto simp: strip_prefix_def starts_with_iff)

lemma find_str_self [simp]: "find_str n (n @ s) = Some 0"
proof (cases "n @ s")
  case (Cons c cs)
  then have "starts_with n (c # cs)" by (metis starts_with_append)
  with Cons show ?thesis by simp
qed simp

lemma find_str_skip:
  assumes "\<And>i. i < length a \<Longrightarrow> \<not> starts_with n (drop i a @ b)"
  shows "find_str n (a @ b) = map_option (\<lambda>k. length a + k) (find_str n b)"
  using assms
proof (induction a)
  case Nil
  then show ?case by (simp add: option.map_ident)
next
  case (Cons c a)
  from Cons.prems [of 0] have no: "\<not> starts_with n (c # a @ b)" by simp
  have "find_str n (a @ b) = map_option (\<lambda>k. length a + k) (find_str n b)"
    using Cons.prems [of "Suc i" for i] by (intro Cons.IH) auto
  with no show ?case by (simp add: option.map_comp comp_def)
qed

lemma find_char_append:
  assumes "\<And>c. c \<in> set a \<Longrightarrow> \<not> p c"
  shows "find_char p (a @ b) = map_option (\<lambda>k. length a + k) (find_char p b)"
  using assms by (cases "find_char p b"; induction a) auto

lemma set_map_filter: "set (List.map_filter f xs) = {y. \<exists>x \<in> set xs. f x = Some y}"
  by (force simp: map_filter_def)

lemma distinct_remdups_adj_sorted: "sorted xs \<Longrightarrow> distinct (remdups_adj (xs :: 'a::linorder list))"
  by (induction xs rule: remdups_adj.induct) (auto simp: order_antisym)

subsection \<open>Decimal round trips\<close>

lemma of_char_digit_char [simp]: "d < 10 \<Longrightarrow> (of_char (digit_char d) :: nat) = 48 + d"
  by (simp add: digit_char_def)

lemma is_digit_digit_char [simp]: "d < 10 \<Longrightarrow> is_digit (digit_char d)"
  by (simp add: is_digit_def)

lemma show_nat_not_Nil [simp]: "show_nat n \<noteq> []"
  by (subst show_nat.simps) simp

lemma show_nat_digits: "c \<in> set (show_nat n) \<Longrightarrow> is_digit c"
proof (induction n rule: show_nat.induct)
  case (1 n)
  then show ?case by (subst (asm) show_nat.simps) (auto split: if_splits)
qed

lemma parse_digits_append:
  "parse_digits acc (xs @ ys) =
     (case parse_digits acc xs of None \<Rightarrow> None | Some a \<Rightarrow> parse_digits a ys)"
  by (induction acc xs rule: parse_digits.induct) auto

lemma parse_digits_show_nat: "parse_digits 0 (show_nat n) = Some n"
proof (induction n rule: show_nat.induct)
  case (1 n)
  show ?case
  proof (cases "n < 10")
    case True
    then show ?thesis by (subst show_nat.simps) simp
  next
    case False
    with 1 have IH: "parse_digits 0 (show_nat (n div 10)) = Some (n div 10)" by simp
    have step: "parse_digits a [digit_char (n mod 10)] = Some (a * 10 + n mod 10)" for a
      by simp
    from False have "show_nat n = show_nat (n div 10) @ [digit_char (n mod 10)]"
      by (subst show_nat.simps) simp
    then have "parse_digits 0 (show_nat n) = Some (n div 10 * 10 + n mod 10)"
      by (simp only: parse_digits_append IH option.case step)
    then show ?thesis by (simp only: div_mult_mod_eq)
  qed
qed

lemma not_digit_plus [simp]: "\<not> is_digit (CHR ''+'')"
  by (simp add: is_digit_def)

lemma strip_plus_digit:
  assumes "\<And>c. c \<in> set s \<Longrightarrow> is_digit c"
  shows "strip_plus s = s"
proof (cases s)
  case (Cons c cs)
  then have "c \<noteq> CHR ''+''" using assms [of c] not_digit_plus by fastforce
  with Cons show ?thesis by (simp add: strip_plus_def)
qed (simp add: strip_plus_def)

lemma strip_plus_show_nat [simp]: "strip_plus (show_nat n) = show_nat n"
  by (rule strip_plus_digit) (rule show_nat_digits)

lemma parse_unsigned_show_nat: "n < bnd \<Longrightarrow> parse_unsigned bnd (show_nat n) = Some n"
  by (simp add: parse_unsigned_def parse_digits_show_nat)

lemma parse_u32_show_word [simp]: "parse_u32 (show_word (w :: u32)) = Some w"
proof -
  have "unat w < 2 ^ LENGTH(32)" by (rule unsigned_less)
  then show ?thesis by (simp add: parse_u32_def show_word_def parse_unsigned_show_nat)
qed

lemma parse_u64_show_word [simp]: "parse_u64 (show_word (w :: u64)) = Some w"
proof -
  have "unat w < 2 ^ LENGTH(64)" by (rule unsigned_less)
  then show ?thesis by (simp add: parse_u64_def show_word_def parse_unsigned_show_nat)
qed

lemma show_nat_inject [simp]: "show_nat m = show_nat n \<longleftrightarrow> m = n"
  by (metis option.inject parse_digits_show_nat)

lemma show_word_inject [simp]: "show_word v = show_word w \<longleftrightarrow> v = w"
  by (simp add: show_word_def word_unat_eq_iff)

lemma show_word_digits: "c \<in> set (show_word w) \<Longrightarrow> is_digit c"
  unfolding show_word_def by (rule show_nat_digits)

lemma show_word_not_Nil [simp]: "show_word w \<noteq> []"
  by (simp add: show_word_def)

subsection \<open>Trimming\<close>

lemma strip_all_id: "List.find (\<lambda>w. starts_with w s) ws = None \<Longrightarrow> strip_all n ws s = s"
  by (cases n) auto

text \<open>A non-empty string whose first and last byte are visible ASCII is its own trim.\<close>

lemma white_space_edges:
  "\<forall>w \<in> set white_space. w \<noteq> [] \<and> \<not> byte_in (hd w) 0x21 0x7E \<and> \<not> byte_in (last w) 0x21 0x7E"
  by (simp add: white_space_def byte_in_def)

lemma trim_id:
  assumes "s \<noteq> []" "byte_in (hd s) 0x21 0x7E" "byte_in (last s) 0x21 0x7E"
  shows "trim s = s"
proof -
  have "\<not> starts_with w s" if "w \<in> set white_space" for w
    using that white_space_edges assms(2) by (auto simp: starts_with_iff)
  then have fwd: "strip_all (length s) white_space s = s"
    by (intro strip_all_id) (auto simp: find_None_iff)
  have "\<not> starts_with (rev w) (rev s)" if w: "w \<in> set white_space" for w
  proof
    assume "starts_with (rev w) (rev s)"
    then obtain t where "rev s = rev w @ t" by (auto simp: starts_with_iff)
    then have "s = rev t @ w" by (metis rev_append rev_rev_ident)
    with w white_space_edges assms(3) show False by auto
  qed
  then have "strip_all (length s) (map rev white_space) (rev s) = rev s"
    by (intro strip_all_id) (auto simp: find_None_iff)
  with fwd show ?thesis by (simp add: trim_def)
qed

lemma trim_show_word [simp]: "trim (show_word w) = show_word w"
proof (rule trim_id)
  show "show_word w \<noteq> []" by simp
  have "is_digit (hd (show_word w))" "is_digit (last (show_word w))"
    using show_word_digits [of _ w] by simp_all
  then show "byte_in (hd (show_word w)) 0x21 0x7E" "byte_in (last (show_word w)) 0x21 0x7E"
    by (simp_all add: is_digit_def byte_in_def)
qed

subsection \<open>UTF-8\<close>

lemma utf8_step_ascii: "(of_char c :: nat) < 0x80 \<Longrightarrow> utf8_step c cs = (True, 1)"
  by (simp add: utf8_step_def utf8_width_def Let_def)

lemma utf8_valid_ascii:
  assumes "\<And>c. c \<in> set s \<Longrightarrow> (of_char c :: nat) < 0x80"
  shows "utf8_valid s"
proof -
  have "utf8_valid_n (length s) s" using assms
    by (induction s) (auto simp: utf8_step_ascii)
  then show ?thesis by (simp add: utf8_valid_def)
qed

lemma lossy_valid: "utf8_valid_n n s \<Longrightarrow> lossy_n n s = s"
proof (induction n s rule: utf8_valid_n.induct)
  case (3 n c cs)
  obtain ok k where st: "utf8_step c cs = (ok, k)" by fastforce
  with 3 have "ok" "lossy_n n (drop k (c # cs)) = drop k (c # cs)" by auto
  with st show ?case by (simp add: append_take_drop_id)
qed auto

lemma from_utf8_lossy_valid: "utf8_valid s \<Longrightarrow> from_utf8_lossy s = s"
  by (simp add: from_utf8_lossy_def utf8_valid_def lossy_valid)

lemma from_utf8_valid [simp]: "utf8_valid s \<Longrightarrow> from_utf8 s = Some s"
  by (simp add: from_utf8_def)

text \<open>Valid strings are the concatenations of well-formed code points. This view carries the
  closure properties: appending, cutting at a boundary, replacing ASCII code points.\<close>

definition code_point :: "bytes \<Rightarrow> bool" where
  "code_point b \<longleftrightarrow> (\<exists>c cs. b = c # cs \<and> utf8_step c cs = (True, length b))"

lemma good_conts_full:
  "good_conts n ds = n \<Longrightarrow> n \<le> length ds \<and> good_conts n (take n ds) = n \<and> good_conts n (ds @ r) = n
     \<and> (\<forall>x \<in> set (take n ds). is_cont x)"
  by (induction n ds rule: good_conts.induct) (auto split: if_splits)

lemma second_ok_cont: "second_ok b d \<Longrightarrow> is_cont d"
  by (auto simp: second_ok_def byte_in_def is_cont_def split: if_splits)

lemma utf8_width_cases: "utf8_width b \<in> {0, 1, 2, 3, 4}"
  by (simp add: utf8_width_def)

lemma utf8_step_True:
  assumes "utf8_step c cs = (True, k)"
  shows "utf8_step c (cs @ r) = (True, k) \<and> 1 \<le> k \<and> k \<le> Suc (length cs)
    \<and> utf8_step c (take (k - 1) cs) = (True, k) \<and> (\<forall>x \<in> set (take (k - 1) cs). is_cont x)
    \<and> \<not> is_cont c \<and> (k \<noteq> 1 \<longrightarrow> 0x80 \<le> (of_char c :: nat))"
proof -
  let ?b = "of_char c :: nat"
  have nc: "utf8_width ?b \<noteq> 0 \<Longrightarrow> \<not> is_cont c" "utf8_width ?b \<noteq> 1 \<Longrightarrow> 0x80 \<le> ?b"
    by (auto simp: utf8_width_def is_cont_def split: if_splits)
  show ?thesis
  proof (cases "utf8_width ?b = 0 \<or> utf8_width ?b = 1")
    case True
    with assms nc show ?thesis by (auto simp: utf8_step_def Let_def)
  next
    case False
    then have w: "2 \<le> utf8_width ?b" using utf8_width_cases [of ?b] by auto
    obtain d ds where cs: "cs = d # ds" using assms False by (cases cs) (auto simp: utf8_step_def Let_def)
    have ok: "second_ok ?b d" "good_conts (utf8_width ?b - 2) ds = utf8_width ?b - 2" "k = utf8_width ?b"
      using assms False cs by (auto simp: utf8_step_def Let_def split: if_splits)
    obtain m where m: "utf8_width ?b = Suc (Suc m)" using w by (metis add_2_eq_Suc le_Suc_ex)
    with ok False cs nc second_ok_cont [OF ok(1)] good_conts_full [of m ds r] show ?thesis
      by (auto simp: utf8_step_def Let_def)
  qed
qed

lemma code_point_append_valid:
  assumes "code_point b" "utf8_valid_n n r" "length b + n \<le> m"
  shows "utf8_valid_n m (b @ r)"
proof -
  obtain c cs where b: "b = c # cs" "utf8_step c cs = (True, length b)" using assms(1) by (auto simp: code_point_def)
  have mono: "utf8_valid_n i t \<Longrightarrow> i \<le> j \<Longrightarrow> utf8_valid_n j t" for i j t
  proof (induction i t arbitrary: j rule: utf8_valid_n.induct)
    case (1 s)
    then show ?case by (cases j) auto
  next
    case (2 n)
    then show ?case by (cases j) auto
  next
    case (3 n c cs)
    obtain k where st: "utf8_step c cs = (True, k)" "utf8_valid_n n (drop k (c # cs))"
      using "3.prems"(1) by (auto split: prod.splits)
    obtain j' where j: "j = Suc j'" "n \<le> j'" using "3.prems"(2) by (cases j) auto
    have "utf8_valid_n j' (drop k (c # cs))" by (rule "3.IH" [OF st(1) [symmetric] st(2) j(2)])
    with j(1) st(1) show ?case by simp
  qed
  obtain m' where m': "m = Suc m'" "n \<le> m'" using assms(3) b(1) by (cases m) auto
  have "utf8_valid_n m' r" using mono [OF assms(2)] m'(2) .
  moreover have "utf8_step c (cs @ r) = (True, Suc (length cs))" using utf8_step_True [OF b(2), of r] b(1) by simp
  ultimately show ?thesis by (simp add: m'(1) b(1))
qed

lemma utf8_valid_blocks: "utf8_valid s \<longleftrightarrow> (\<exists>bs. list_all code_point bs \<and> s = concat bs)"
proof
  have "utf8_valid_n n s \<Longrightarrow> \<exists>bs. list_all code_point bs \<and> s = concat bs" for n s
  proof (induction n s rule: utf8_valid_n.induct)
    case (3 n c cs)
    obtain k where st: "utf8_step c cs = (True, k)" "utf8_valid_n n (drop k (c # cs))"
      using "3.prems" by (auto split: prod.splits)
    with "3.IH" obtain bs where bs: "list_all code_point bs" "drop k (c # cs) = concat bs" by auto
    obtain j where k: "k = Suc j" "j \<le> length cs" using utf8_step_True [OF st(1), of "[]"] by (cases k) auto
    have "code_point (c # take j cs)"
      using utf8_step_True [OF st(1), of "[]"] k by (simp add: code_point_def)
    moreover have "c # cs = (c # take j cs) @ drop k (c # cs)" using k by simp
    ultimately show ?case using bs by (intro exI [of _ "(c # take j cs) # bs"]) simp
  qed (auto intro: exI [of _ "[]"])
  then show "utf8_valid s \<Longrightarrow> \<exists>bs. list_all code_point bs \<and> s = concat bs" by (simp add: utf8_valid_def)
next
  have "list_all code_point bs \<Longrightarrow> utf8_valid_n (length (concat bs)) (concat bs)" for bs
  proof (induction bs)
    case (Cons b bs)
    then show ?case using code_point_append_valid [of b "length (concat bs)" "concat bs"] by simp
  qed simp
  then show "\<exists>bs. list_all code_point bs \<and> s = concat bs \<Longrightarrow> utf8_valid s" by (auto simp: utf8_valid_def)
qed

lemma utf8_valid_append [intro]: "utf8_valid a \<Longrightarrow> utf8_valid b \<Longrightarrow> utf8_valid (a @ b)"
  unfolding utf8_valid_blocks by (metis concat_append list_all_append)

text \<open>A code point is an ASCII byte or a lead byte followed by continuation bytes.\<close>

lemma code_point_cases:
  assumes "code_point b"
  obtains (ascii) c where "b = [c]" "(of_char c :: nat) < 0x80"
        | (multi) c cs where "b = c # cs" "0x80 \<le> (of_char c :: nat)" "\<not> is_cont c" "\<forall>x \<in> set cs. is_cont x"
proof -
  obtain c cs where b: "b = c # cs" "utf8_step c cs = (True, length b)" using assms by (auto simp: code_point_def)
  note st = utf8_step_True [OF b(2), of "[]"]
  show ?thesis
  proof (cases "(of_char c :: nat) < 0x80")
    case True
    with st b(1) have "cs = []" by auto
    with True b(1) ascii show ?thesis by simp
  next
    case False
    with st b(1) multi show ?thesis by auto
  qed
qed

text \<open>Cutting a valid string at a character boundary gives valid pieces.\<close>

lemma utf8_valid_take:
  assumes "utf8_valid s" "is_char_boundary s i"
  shows "utf8_valid (take i s)"
proof -
  have "list_all code_point bs \<Longrightarrow> is_char_boundary (concat bs) i \<Longrightarrow> utf8_valid (take i (concat bs))" for bs
  proof (induction bs arbitrary: i)
    case (Cons b bs)
    then have cp: "code_point b" by simp
    have vb: "utf8_valid b" using cp unfolding utf8_valid_blocks by (intro exI [of _ "[b]"]) simp
    show ?case
    proof (cases "i < length b")
      case True
      have "i = 0"
      proof (rule ccontr)
        assume "i \<noteq> 0"
        from cp True this have cont: "is_cont (b ! i)"
          by (cases rule: code_point_cases) (auto simp: nth_Cons')
        with Cons.prems(2) True \<open>i \<noteq> 0\<close> show False by (auto simp: is_char_boundary_def nth_append)
      qed
      then show ?thesis by (simp add: utf8_valid_def)
    next
      case False
      have "is_char_boundary (concat bs) (i - length b)"
        using Cons.prems(2) False by (auto simp: is_char_boundary_def nth_append)
      with Cons vb False show ?thesis by auto
    qed
  qed (simp add: utf8_valid_def)
  with assms show ?thesis unfolding utf8_valid_blocks by metis
qed

end
