(* ===== verification/Pddb.thy ===== *)
theory Pddb
  imports Prelude "HOL-Library.AList"
begin

text \<open>
  The PDDB, the encrypted key-value service of Xous that the program keeps all its state
  in, seen through the calls the sources make. The service itself is not part of the
  repository: its operations are the fields of the record \<open>pddb\<close>, an argument of every
  definition that uses them, and what the code relies on is the locale \<open>healthy_pddb\<close>.
  \<^item> \<open>pd_fetch\<close>: \<open>get(dict, key, .., create_key = false)\<close> and \<open>read_to_end\<close> on the handle;
  \<^item> \<open>pd_fetch_buf\<close>: the same with one \<open>read\<close> into a buffer of the given size;
  \<^item> \<open>pd_create\<close>: \<open>get(dict, key, .., create_key = true)\<close>;
  \<^item> \<open>pd_write\<close>: \<open>write\<close>/\<open>write_all\<close> on a handle just obtained, hence at position 0;
  \<^item> \<open>pd_delete\<close>, \<open>pd_list\<close>, \<open>pd_sync\<close>, \<open>pd_delete_dict\<close>: the calls of these names.
  A write does not truncate: what lies beyond the written bytes stays, as the comment of
  \<open>Account::set_new\<close> in \<open>src/src/account.rs\<close> records.
\<close>

section \<open>Definitions\<close>

record 's pddb =
  pd_fetch :: "string \<Rightarrow> string \<Rightarrow> 's \<Rightarrow> io_error + bytes"
  pd_fetch_buf :: "string \<Rightarrow> string \<Rightarrow> nat \<Rightarrow> 's \<Rightarrow> io_error + bytes"
  pd_create :: "string \<Rightarrow> string \<Rightarrow> 's \<Rightarrow> ('s, io_error, unit) sres"
  pd_write :: "string \<Rightarrow> string \<Rightarrow> bytes \<Rightarrow> 's \<Rightarrow> ('s, io_error, unit) sres"
  pd_delete :: "string \<Rightarrow> string \<Rightarrow> 's \<Rightarrow> ('s, io_error, unit) sres"
  pd_list :: "string \<Rightarrow> 's \<Rightarrow> io_error + string list"
  pd_sync :: "'s \<Rightarrow> ('s, io_error, unit) sres"
  pd_delete_dict :: "string \<Rightarrow> 's \<Rightarrow> ('s, io_error, unit) sres"

type_synonym kv = "string \<times> string \<rightharpoonup> bytes"

definition overwrite :: "bytes \<Rightarrow> bytes \<Rightarrow> bytes" where
  "overwrite new old = new @ drop (length new) old"

text \<open>\<open>pddb_get_string\<close>, which \<open>send.rs\<close>, \<open>outgoing.rs\<close>, \<open>peers.rs\<close> and \<open>prekeys.rs\<close>
  define in the same words.\<close>

definition pddb_get_string :: "'s pddb \<Rightarrow> string \<Rightarrow> string \<Rightarrow> 's \<Rightarrow> string option" where
  "pddb_get_string P dict key s =
     (case pd_fetch P dict key s of
        Inl _ \<Rightarrow> None
      | Inr buf \<Rightarrow> from_utf8 buf)"

text \<open>The delete, create, write and sync sequence with which the sources replace a value.
  The two stages that can fail keep their own error.\<close>

datatype write_error = GetFailed io_error | WriteFailed io_error

definition pddb_replace ::
  "'s pddb \<Rightarrow> string \<Rightarrow> string \<Rightarrow> bytes \<Rightarrow> 's \<Rightarrow> ('s, write_error, unit) sres" where
  "pddb_replace P dict key data s =
     (case pd_create P dict key (snd (pd_delete P dict key s)) of
        (Inl e, s1) \<Rightarrow> (Inl (GetFailed e), s1)
      | (Inr _, s1) \<Rightarrow>
          (case pd_write P dict key data s1 of
             (Inl e, s2) \<Rightarrow> (Inl (WriteFailed e), s2)
           | (Inr _, s2) \<Rightarrow> (Inr (), snd (pd_sync P s2))))"

text \<open>An in-memory PDDB without faults, the instance at which witnesses evaluate.\<close>

type_synonym mem_state = "((string \<times> string) \<times> bytes) list"

definition no_key :: io_error where
  "no_key = IoError NotFound ''key not found''"

definition mem_pddb :: "mem_state pddb" where
  "mem_pddb =
     \<lparr>pd_fetch = (\<lambda>d k s. ok_or no_key (map_of s (d, k))),
      pd_fetch_buf = (\<lambda>d k n s. ok_or no_key (map_option (take n) (map_of s (d, k)))),
      pd_create = (\<lambda>d k s. (Inr (), if map_of s (d, k) = None then AList.update (d, k) [] s else s)),
      pd_write = (\<lambda>d k x s.
        (case map_of s (d, k) of
           None \<Rightarrow> (Inl no_key, s)
         | Some b \<Rightarrow> (Inr (), AList.update (d, k) (overwrite x b) s))),
      pd_delete = (\<lambda>d k s.
        (if map_of s (d, k) = None then Inl no_key else Inr (), AList.delete (d, k) s)),
      pd_list = (\<lambda>d s. Inr (map (snd \<circ> fst) (filter (\<lambda>e. fst (fst e) = d) s))),
      pd_sync = (\<lambda>s. (Inr (), s)),
      pd_delete_dict = (\<lambda>d s. (Inr (), filter (\<lambda>e. fst (fst e) \<noteq> d) s))\<rparr>"

section \<open>The contract of a PDDB without I/O faults\<close>

locale healthy_pddb =
  fixes P :: "'s pddb" and view :: "'s \<Rightarrow> kv"
  assumes fetch_Some: "view s (d, k) = Some b \<Longrightarrow> pd_fetch P d k s = Inr b"
    and fetch_None: "view s (d, k) = None \<Longrightarrow> \<exists>t. pd_fetch P d k s = Inl (IoError NotFound t)"
    and fetch_buf_Some: "view s (d, k) = Some b \<Longrightarrow> pd_fetch_buf P d k n s = Inr (take n b)"
    and fetch_buf_None:
      "view s (d, k) = None \<Longrightarrow> \<exists>t. pd_fetch_buf P d k n s = Inl (IoError NotFound t)"
    and create_ok: "fst (pd_create P d k s) = Inr ()"
    and create_view: "view (snd (pd_create P d k s)) =
          (if view s (d, k) = None then (view s)((d, k) \<mapsto> []) else view s)"
    and write_ok: "view s (d, k) = Some b \<Longrightarrow> fst (pd_write P d k x s) = Inr ()"
    and write_view: "view s (d, k) = Some b \<Longrightarrow>
          view (snd (pd_write P d k x s)) = (view s)((d, k) \<mapsto> overwrite x b)"
    and delete_ok: "view s (d, k) \<noteq> None \<Longrightarrow> fst (pd_delete P d k s) = Inr ()"
    and delete_absent:
      "view s (d, k) = None \<Longrightarrow> \<exists>t. fst (pd_delete P d k s) = Inl (IoError NotFound t)"
    and delete_view: "view (snd (pd_delete P d k s)) = (view s)((d, k) := None)"
    and list_keys: "(case pd_list P d s of Inl _ \<Rightarrow> {} | Inr ks \<Rightarrow> set ks) = {k. view s (d, k) \<noteq> None}"
    and sync_ok: "fst (pd_sync P s) = Inr ()"
    and sync_view: "view (snd (pd_sync P s)) = view s"
    and delete_dict_ok: "view s (d, k) \<noteq> None \<Longrightarrow> fst (pd_delete_dict P d s) = Inr ()"
    and delete_dict_view:
      "view (snd (pd_delete_dict P d s)) = (\<lambda>(d', k). if d' = d then None else view s (d', k))"
begin

lemma fetch_cases:
  obtains (absent) t where "view s (d, k) = None" "pd_fetch P d k s = Inl (IoError NotFound t)"
        | (present) b where "view s (d, k) = Some b" "pd_fetch P d k s = Inr b"
proof (cases "view s (d, k)")
  case None
  with fetch_None [OF None] that(1) show ?thesis by blast
next
  case (Some b)
  with fetch_Some [OF Some] that(2) show ?thesis by blast
qed

lemma get_string_eq: "pddb_get_string P d k s = Option.bind (view s (d, k)) from_utf8"
  by (cases rule: fetch_cases [of s d k]) (auto simp: pddb_get_string_def)

lemma replace_ok: "fst (pddb_replace P d k x s) = Inr ()"
  and replace_view: "view (snd (pddb_replace P d k x s)) = (view s)((d, k) \<mapsto> x)"
proof -
  obtain s1 where s1: "pd_create P d k (snd (pd_delete P d k s)) = (Inr (), s1)"
    using create_ok [of d k "snd (pd_delete P d k s)"] by (metis prod.collapse)
  have v1: "view s1 = (view s)((d, k) \<mapsto> [])"
    using create_view [of d k "snd (pd_delete P d k s)"] s1 by (simp add: delete_view)
  then have at1: "view s1 (d, k) = Some []" by simp
  obtain s2 where s2: "pd_write P d k x s1 = (Inr (), s2)"
    using write_ok [OF at1, of x] by (metis prod.collapse)
  have v2: "view s2 = (view s)((d, k) \<mapsto> x)"
    using write_view [OF at1, of x] s2 v1 by (simp add: overwrite_def)
  show "fst (pddb_replace P d k x s) = Inr ()"
    by (simp add: pddb_replace_def s1 s2)
  show "view (snd (pddb_replace P d k x s)) = (view s)((d, k) \<mapsto> x)"
    by (simp add: pddb_replace_def s1 s2 sync_view v2)
qed

lemma replace_eq: "pddb_replace P d k x s = (Inr (), snd (pddb_replace P d k x s))"
  by (metis prod.collapse replace_ok)

lemma get_string_replace:
  "utf8_valid x \<Longrightarrow> pddb_get_string P d k (snd (pddb_replace P d k x s)) = Some x"
  by (simp add: get_string_eq replace_view)

end

section \<open>The in-memory instance meets the contract\<close>

lemma map_of_filter_dict:
  "map_of (filter (\<lambda>e. fst (fst e) \<noteq> d) s) = (\<lambda>(d', k). if d' = d then None else map_of s (d', k))"
  by (induction s) (auto simp: fun_eq_iff)

lemma mem_list_keys:
  "set (map (snd \<circ> fst) (filter (\<lambda>e. fst (fst e) = d) s)) = {k. map_of s (d, k) \<noteq> None}"
  by (induction s) (auto split: if_splits)

interpretation mem: healthy_pddb mem_pddb map_of
  by unfold_locales
    (auto simp: mem_pddb_def no_key_def overwrite_def update_conv' delete_conv' mem_list_keys
      map_of_filter_dict simp del: set_map split: option.splits)

end
