(* ===== verification/Stores.thy ===== *)
theory Stores
  imports Pddb
begin

text \<open>
  \<open>src/src/manager/stores.rs\<close>: the five PDDB-backed stores behind libsignal's store traits
  (identity, one-time prekey, signed prekey, Kyber prekey, session). libsignal's own types
  are opaque tokens; their (de)serialisers, the base64 engines and the rendering of
  libsignal errors are fields of the record \<open>libsignal\<close>, an argument of the definitions.
  Each store's dict name is an argument, as in the source's constructors.
\<close>

section \<open>Definitions\<close>

subsection \<open>libsignal as a parameter\<close>

datatype identity_key = IdentityKey bytes
datatype private_key = PrivateKey bytes
datatype public_key = PublicKey bytes
datatype prekey_record = PreKeyRecord bytes
datatype signed_prekey_record = SignedPreKeyRecord bytes
datatype kyber_prekey_record = KyberPreKeyRecord bytes
datatype session_record = SessionRecord bytes

datatype sig_error =
    InvalidState string string
  | InvalidPreKeyId | InvalidSignedPreKeyId | InvalidKyberPreKeyId
  | SignalError string

datatype identity_change = NewOrUnchanged | ReplacedExisting

record protocol_address =
  pa_name :: string
  pa_device :: u8

record libsignal =
  ls_device_id_new :: "u8 \<Rightarrow> string + u8"
  ls_identity_decode :: "bytes \<Rightarrow> sig_error + identity_key"
  ls_identity_serialize :: "identity_key \<Rightarrow> bytes"
  ls_private_deserialize :: "bytes \<Rightarrow> sig_error + private_key"
  ls_public_serialize :: "public_key \<Rightarrow> bytes"
  ls_prekey_deserialize :: "bytes \<Rightarrow> sig_error + prekey_record"
  ls_prekey_serialize :: "prekey_record \<Rightarrow> sig_error + bytes"
  ls_signed_deserialize :: "bytes \<Rightarrow> sig_error + signed_prekey_record"
  ls_signed_serialize :: "signed_prekey_record \<Rightarrow> sig_error + bytes"
  ls_kyber_deserialize :: "bytes \<Rightarrow> sig_error + kyber_prekey_record"
  ls_kyber_serialize :: "kyber_prekey_record \<Rightarrow> sig_error + bytes"
  ls_session_deserialize :: "bytes \<Rightarrow> sig_error + session_record"
  ls_session_serialize :: "session_record \<Rightarrow> sig_error + bytes"
  ls_remote_registration_id :: "session_record \<Rightarrow> sig_error + u32"
  ls_display :: "sig_error \<Rightarrow> string"
  ls_debug :: "sig_error \<Rightarrow> string"
  b64_url_encode :: "bytes \<Rightarrow> string"
  b64_url_decode :: "string \<Rightarrow> string + bytes"
  b64_std_encode :: "bytes \<Rightarrow> string"
  b64_permissive_decode :: "string \<Rightarrow> string + bytes"

text \<open>The store key of an address, \<open>format!("{}.{}", name, device_id)\<close>.\<close>

definition address_key :: "protocol_address \<Rightarrow> string" where
  "address_key a = pa_name a @ ''.'' @ show_word (pa_device a)"

subsection \<open>Raw reads and writes\<close>

definition read_account_string :: "'s pddb \<Rightarrow> string \<Rightarrow> string \<Rightarrow> 's \<Rightarrow> string option" where
  "read_account_string P dict key s =
     (case pd_fetch_buf P dict key 256 s of
        Inr buf \<Rightarrow> from_utf8 buf
      | Inl _ \<Rightarrow> None)"

definition pddb_read_binary :: "'s pddb \<Rightarrow> string \<Rightarrow> string \<Rightarrow> 's \<Rightarrow> io_error + bytes" where
  "pddb_read_binary P dict key s = pd_fetch P dict key s"

definition pddb_write_binary ::
  "'s pddb \<Rightarrow> string \<Rightarrow> string \<Rightarrow> bytes \<Rightarrow> 's \<Rightarrow> ('s, io_error, unit) sres" where
  "pddb_write_binary P dict key data s =
     (case pddb_replace P dict key data s of
        (Inl (GetFailed e), s1) \<Rightarrow> (Inl e, s1)
      | (Inl (WriteFailed e), s1) \<Rightarrow> (Inl e, s1)
      | (Inr _, s1) \<Rightarrow> (Inr (), s1))"

definition io_err_to_signal :: "string \<Rightarrow> io_error \<Rightarrow> sig_error" where
  "io_err_to_signal context e = InvalidState ''pddb'' (context @ '': '' @ io_error_text e)"

definition write_or_signal ::
  "'s pddb \<Rightarrow> string \<Rightarrow> string \<Rightarrow> bytes \<Rightarrow> string \<Rightarrow> 's \<Rightarrow> ('s, sig_error, unit) sres" where
  "write_or_signal P dict key data context s =
     (case pddb_write_binary P dict key data s of
        (r, s1) \<Rightarrow> (map_err (io_err_to_signal context) r, s1))"

subsection \<open>Identity store\<close>

definition get_identity_key_pair ::
  "libsignal \<Rightarrow> 's pddb \<Rightarrow> string \<Rightarrow> 's \<Rightarrow> sig_error + identity_key \<times> private_key" where
  "get_identity_key_pair L P account_dict s =
     (let not_found = InvalidState ''pddb'' ''aci identity key not found'' in
      rbind (ok_or not_found (read_account_string P account_dict ''aci.identity.private'' s)) (\<lambda>priv_b64.
      rbind (ok_or not_found (read_account_string P account_dict ''aci.identity.public'' s)) (\<lambda>pub_b64.
      rbind (map_err (\<lambda>e. InvalidState ''pddb'' (''priv base64: '' @ e)) (b64_url_decode L (trim priv_b64))) (\<lambda>priv_bytes.
      rbind (map_err (\<lambda>e. InvalidState ''pddb'' (''pub base64: '' @ e)) (b64_url_decode L (trim pub_b64))) (\<lambda>pub_bytes.
      rbind (ls_private_deserialize L priv_bytes) (\<lambda>private_key.
      rbind (ls_identity_decode L pub_bytes) (\<lambda>identity_key.
      Inr (identity_key, private_key))))))))"

definition get_local_registration_id :: "'s pddb \<Rightarrow> string \<Rightarrow> 's \<Rightarrow> sig_error + u32" where
  "get_local_registration_id P account_dict s =
     ok_or (InvalidState ''pddb'' ''registration_id not found'')
       (Option.bind (read_account_string P account_dict ''registration_id'' s) (\<lambda>t. parse_u32 (trim t)))"

definition save_identity ::
  "libsignal \<Rightarrow> 's pddb \<Rightarrow> string \<Rightarrow> protocol_address \<Rightarrow> identity_key \<Rightarrow> 's
     \<Rightarrow> ('s, sig_error, identity_change) sres" where
  "save_identity L P identity_dict address identity s =
     (let key = address_key address in
      case pddb_read_binary P identity_dict key s of
        Inr existing_bytes \<Rightarrow>
          (if ls_identity_decode L existing_bytes = Inr identity then (Inr NewOrUnchanged, s)
           else sbind (write_or_signal P identity_dict key (ls_identity_serialize L identity) ''write failed'' s)
                  (\<lambda>_ s1. (Inr ReplacedExisting, s1)))
      | Inl e \<Rightarrow>
          (if io_error_kind e = NotFound
           then sbind (write_or_signal P identity_dict key (ls_identity_serialize L identity) ''write failed'' s)
                  (\<lambda>_ s1. (Inr NewOrUnchanged, s1))
           else (Inl (io_err_to_signal ''read failed'' e), s)))"

definition is_trusted_identity ::
  "libsignal \<Rightarrow> 's pddb \<Rightarrow> string \<Rightarrow> protocol_address \<Rightarrow> identity_key \<Rightarrow> 's \<Rightarrow> sig_error + bool" where
  "is_trusted_identity L P identity_dict address identity s =
     (case pddb_read_binary P identity_dict (address_key address) s of
        Inr existing_bytes \<Rightarrow>
          (case ls_identity_decode L existing_bytes of
             Inr existing \<Rightarrow> Inr (existing = identity)
           | Inl e \<Rightarrow> Inl e)
      | Inl e \<Rightarrow>
          (if io_error_kind e = NotFound then Inr True
           else Inl (io_err_to_signal ''read failed'' e)))"

definition get_identity ::
  "libsignal \<Rightarrow> 's pddb \<Rightarrow> string \<Rightarrow> protocol_address \<Rightarrow> 's \<Rightarrow> sig_error + identity_key option" where
  "get_identity L P identity_dict address s =
     (case pddb_read_binary P identity_dict (address_key address) s of
        Inr buf \<Rightarrow> rbind (ls_identity_decode L buf) (\<lambda>k. Inr (Some k))
      | Inl e \<Rightarrow>
          (if io_error_kind e = NotFound then Inr None
           else Inl (io_err_to_signal ''read failed'' e)))"

subsection \<open>One-time prekey store\<close>

definition get_pre_key :: "libsignal \<Rightarrow> 's pddb \<Rightarrow> string \<Rightarrow> u32 \<Rightarrow> 's \<Rightarrow> sig_error + prekey_record" where
  "get_pre_key L P dict prekey_id s =
     (case pddb_read_binary P dict (show_word prekey_id) s of
        Inr buf \<Rightarrow> ls_prekey_deserialize L buf
      | Inl e \<Rightarrow>
          (if io_error_kind e = NotFound then Inl InvalidPreKeyId
           else Inl (io_err_to_signal ''read failed'' e)))"

definition save_pre_key ::
  "libsignal \<Rightarrow> 's pddb \<Rightarrow> string \<Rightarrow> u32 \<Rightarrow> prekey_record \<Rightarrow> 's \<Rightarrow> ('s, sig_error, unit) sres" where
  "save_pre_key L P dict prekey_id record s =
     (case ls_prekey_serialize L record of
        Inl e \<Rightarrow> (Inl (InvalidState ''pddb'' (''serialize failed: '' @ ls_display L e)), s)
      | Inr buf \<Rightarrow> write_or_signal P dict (show_word prekey_id) buf ''write failed'' s)"

definition remove_pre_key :: "'s pddb \<Rightarrow> string \<Rightarrow> u32 \<Rightarrow> 's \<Rightarrow> ('s, sig_error, unit) sres" where
  "remove_pre_key P dict prekey_id s =
     (case pd_delete P dict (show_word prekey_id) s of
        (Inr _, s1) \<Rightarrow> (Inr (), s1)
      | (Inl e, s1) \<Rightarrow>
          (if io_error_kind e = NotFound then (Inr (), s1)
           else (Inl (io_err_to_signal ''delete failed'' e), s1)))"

subsection \<open>Signed prekey store\<close>

definition get_signed_pre_key ::
  "libsignal \<Rightarrow> 's pddb \<Rightarrow> string \<Rightarrow> u32 \<Rightarrow> 's \<Rightarrow> sig_error + signed_prekey_record" where
  "get_signed_pre_key L P dict signed_prekey_id s =
     (case pddb_read_binary P dict (show_word signed_prekey_id) s of
        Inr buf \<Rightarrow> ls_signed_deserialize L buf
      | Inl e \<Rightarrow>
          (if io_error_kind e = NotFound then Inl InvalidSignedPreKeyId
           else Inl (io_err_to_signal ''read failed'' e)))"

definition save_signed_pre_key ::
  "libsignal \<Rightarrow> 's pddb \<Rightarrow> string \<Rightarrow> u32 \<Rightarrow> signed_prekey_record \<Rightarrow> 's \<Rightarrow> ('s, sig_error, unit) sres" where
  "save_signed_pre_key L P dict signed_prekey_id record s =
     (case ls_signed_serialize L record of
        Inl e \<Rightarrow> (Inl e, s)
      | Inr buf \<Rightarrow> write_or_signal P dict (show_word signed_prekey_id) buf ''write failed'' s)"

subsection \<open>Kyber prekey store\<close>

definition get_kyber_pre_key ::
  "libsignal \<Rightarrow> 's pddb \<Rightarrow> string \<Rightarrow> u32 \<Rightarrow> 's \<Rightarrow> sig_error + kyber_prekey_record" where
  "get_kyber_pre_key L P dict kyber_prekey_id s =
     (case pddb_read_binary P dict (show_word kyber_prekey_id) s of
        Inr buf \<Rightarrow> ls_kyber_deserialize L buf
      | Inl e \<Rightarrow>
          (if io_error_kind e = NotFound then Inl InvalidKyberPreKeyId
           else Inl (io_err_to_signal ''read failed'' e)))"

definition save_kyber_pre_key ::
  "libsignal \<Rightarrow> 's pddb \<Rightarrow> string \<Rightarrow> u32 \<Rightarrow> kyber_prekey_record \<Rightarrow> 's \<Rightarrow> ('s, sig_error, unit) sres" where
  "save_kyber_pre_key L P dict kyber_prekey_id record s =
     (case ls_kyber_serialize L record of
        Inl e \<Rightarrow> (Inl e, s)
      | Inr buf \<Rightarrow> write_or_signal P dict (show_word kyber_prekey_id) buf ''write failed'' s)"

definition kyber_dedup_key :: "libsignal \<Rightarrow> u32 \<Rightarrow> u32 \<Rightarrow> public_key \<Rightarrow> string" where
  "kyber_dedup_key L kyber_prekey_id ec_prekey_id base_key =
     ''used:'' @ show_word kyber_prekey_id @ '':'' @ show_word ec_prekey_id @ '':''
       @ b64_url_encode L (ls_public_serialize L base_key)"

definition mark_kyber_pre_key_used ::
  "libsignal \<Rightarrow> 's pddb \<Rightarrow> string \<Rightarrow> u32 \<Rightarrow> u32 \<Rightarrow> public_key \<Rightarrow> 's \<Rightarrow> ('s, sig_error, unit) sres" where
  "mark_kyber_pre_key_used L P dict kyber_prekey_id ec_prekey_id base_key s =
     (let dedup_key = kyber_dedup_key L kyber_prekey_id ec_prekey_id base_key in
      case pddb_read_binary P dict dedup_key s of
        Inr _ \<Rightarrow> (Inl InvalidKyberPreKeyId, s)
      | Inl e \<Rightarrow>
          (if io_error_kind e = NotFound
           then write_or_signal P dict dedup_key [CHR 0x01] ''mark used: write failed'' s
           else (Inl (io_err_to_signal ''mark used: read failed'' e), s)))"

subsection \<open>Session store\<close>

definition delete_session :: "'s pddb \<Rightarrow> string \<Rightarrow> protocol_address \<Rightarrow> 's \<Rightarrow> 's" where
  "delete_session P dict address s = snd (pd_delete P dict (address_key address) s)"

text \<open>\<open>sort_unstable\<close> followed by \<open>dedup\<close>, which drops equal neighbours.\<close>

definition device_ids_for :: "'s pddb \<Rightarrow> string \<Rightarrow> string \<Rightarrow> 's \<Rightarrow> u32 list" where
  "device_ids_for P dict recipient_uuid s =
     (case pd_list P dict s of
        Inl _ \<Rightarrow> []
      | Inr keys \<Rightarrow>
          remdups_adj (sort (List.map_filter parse_u32
            (List.map_filter (strip_prefix (recipient_uuid @ ''.'')) keys))))"

definition load_session ::
  "libsignal \<Rightarrow> 's pddb \<Rightarrow> string \<Rightarrow> protocol_address \<Rightarrow> 's \<Rightarrow> sig_error + session_record option" where
  "load_session L P dict address s =
     (case pddb_read_binary P dict (address_key address) s of
        Inr buf \<Rightarrow> rbind (ls_session_deserialize L buf) (\<lambda>r. Inr (Some r))
      | Inl e \<Rightarrow>
          (if io_error_kind e = NotFound then Inr None
           else Inl (io_err_to_signal ''read failed'' e)))"

definition store_session ::
  "libsignal \<Rightarrow> 's pddb \<Rightarrow> string \<Rightarrow> protocol_address \<Rightarrow> session_record \<Rightarrow> 's \<Rightarrow> ('s, sig_error, unit) sres" where
  "store_session L P dict address record s =
     (case ls_session_serialize L record of
        Inl e \<Rightarrow> (Inl e, s)
      | Inr buf \<Rightarrow> write_or_signal P dict (address_key address) buf ''write failed'' s)"

subsection \<open>Dict names and an instance of the parameter\<close>

abbreviation ACCOUNT_DICT :: string where "ACCOUNT_DICT \<equiv> ''sigchat.account''"
abbreviation IDENTITY_DICT :: string where "IDENTITY_DICT \<equiv> ''sigchat.identity''"
abbreviation PREKEY_DICT :: string where "PREKEY_DICT \<equiv> ''sigchat.prekey''"
abbreviation SIGNED_PREKEY_DICT :: string where "SIGNED_PREKEY_DICT \<equiv> ''sigchat.signed_prekey''"
abbreviation KYBER_PREKEY_DICT :: string where "KYBER_PREKEY_DICT \<equiv> ''sigchat.kyber_prekey''"
abbreviation SESSION_DICT :: string where "SESSION_DICT \<equiv> ''sigchat.session''"

text \<open>A libsignal whose tokens are their own serialisation; witnesses evaluate at it.\<close>

definition token_libsignal :: libsignal where
  "token_libsignal =
     \<lparr>ls_device_id_new = (\<lambda>d. if 1 \<le> d \<and> d \<le> 127 then Inr d else Inl ''InvalidDeviceId''),
      ls_identity_decode = (\<lambda>b. Inr (IdentityKey b)),
      ls_identity_serialize = (\<lambda>k. case k of IdentityKey b \<Rightarrow> b),
      ls_private_deserialize = (\<lambda>b. Inr (PrivateKey b)),
      ls_public_serialize = (\<lambda>k. case k of PublicKey b \<Rightarrow> b),
      ls_prekey_deserialize = (\<lambda>b. Inr (PreKeyRecord b)),
      ls_prekey_serialize = (\<lambda>r. case r of PreKeyRecord b \<Rightarrow> Inr b),
      ls_signed_deserialize = (\<lambda>b. Inr (SignedPreKeyRecord b)),
      ls_signed_serialize = (\<lambda>r. case r of SignedPreKeyRecord b \<Rightarrow> Inr b),
      ls_kyber_deserialize = (\<lambda>b. Inr (KyberPreKeyRecord b)),
      ls_kyber_serialize = (\<lambda>r. case r of KyberPreKeyRecord b \<Rightarrow> Inr b),
      ls_session_deserialize = (\<lambda>b. Inr (SessionRecord b)),
      ls_session_serialize = (\<lambda>r. case r of SessionRecord b \<Rightarrow> Inr b),
      ls_remote_registration_id = (\<lambda>r. Inr 4242),
      ls_display = (\<lambda>e. ''signal error''),
      ls_debug = (\<lambda>e. ''SignalError''),
      b64_url_encode = id, b64_url_decode = Inr, b64_std_encode = id, b64_permissive_decode = Inr\<rparr>"

text \<open>Every key of the session dict is the key of some address: what \<open>store_session\<close> writes.\<close>

definition canonical_sessions :: "kv \<Rightarrow> bool" where
  "canonical_sessions v \<longleftrightarrow> (\<forall>k. v (SESSION_DICT, k) \<noteq> None \<longrightarrow> (\<exists>a. k = address_key a))"

section \<open>Keys\<close>

lemma cons_sep_inject:
  assumes "c \<notin> set xs" "c \<notin> set ys"
  shows "xs @ c # ds = ys @ c # es \<longleftrightarrow> xs = ys \<and> ds = es"
  using assms
proof (induction xs arbitrary: ys)
  case Nil
  then show ?case by (cases ys) auto
next
  case (Cons x xs)
  then show ?case by (cases ys) auto
qed

lemma snoc_sep_inject:
  assumes "c \<notin> set ds" "c \<notin> set es"
  shows "xs @ c # ds = ys @ c # es \<longleftrightarrow> xs = ys \<and> ds = es"
proof
  assume "xs @ c # ds = ys @ c # es"
  then have "rev (xs @ c # ds) = rev (ys @ c # es)" by simp
  then have "rev ds @ c # rev xs = rev es @ c # rev ys" by simp
  moreover from assms have "c \<notin> set (rev ds)" "c \<notin> set (rev es)" by simp_all
  ultimately have "rev ds = rev es \<and> rev xs = rev ys" by (simp add: cons_sep_inject)
  then show "xs = ys \<and> ds = es" by simp
qed simp

lemma dot_not_digit [simp]: "\<not> is_digit (CHR ''.'')" and colon_not_digit [simp]: "\<not> is_digit (CHR '':'')"
  by (simp_all add: is_digit_def)

lemma dot_notin_show_word [simp]: "CHR ''.'' \<notin> set (show_word w)"
  and colon_notin_show_word [simp]: "CHR '':'' \<notin> set (show_word w)"
  using show_word_digits dot_not_digit colon_not_digit by blast+

lemma address_key_inject [simp]: "address_key a = address_key b \<longleftrightarrow> a = b"
  by (cases a; cases b) (simp add: address_key_def snoc_sep_inject)

lemma parse_digits_Some_digits: "parse_digits acc s = Some n \<Longrightarrow> c \<in> set s \<Longrightarrow> is_digit c"
  by (induction acc s rule: parse_digits.induct) (auto split: if_splits)

lemma parse_u32_no_dot:
  assumes "parse_u32 t = Some d" shows "CHR ''.'' \<notin> set t"
proof -
  from assms obtain n where "parse_digits 0 (strip_plus t) = Some n"
    by (auto simp: parse_u32_def parse_unsigned_def split: if_splits option.splits)
  then have "c \<in> set (strip_plus t) \<Longrightarrow> is_digit c" for c by (rule parse_digits_Some_digits)
  then have no: "CHR ''.'' \<notin> set (strip_plus t)" by force
  show ?thesis
  proof (cases t)
    case (Cons c cs)
    with no show ?thesis by (cases "c = CHR ''+''") (auto simp: strip_plus_def)
  qed simp
qed

lemma unat_ucast_u8: "unat (ucast (d :: u8) :: u32) = unat d"
  by (simp add: unsigned_ucast_eq take_bit_nat_eq_self_iff order_less_le_trans [OF unsigned_less])

lemma show_word_ucast_u8: "show_word (ucast (d :: u8) :: u32) = show_word d"
  by (simp add: show_word_def unat_ucast_u8)

lemma parse_u32_show_u8 [simp]: "parse_u32 (show_word (d :: u8)) = Some (ucast d)"
  using parse_u32_show_word [of "ucast d :: u32"] by (simp add: show_word_ucast_u8)

lemma ucast_u8_u32_inject [simp]: "(ucast (d :: u8) :: u32) = ucast e \<longleftrightarrow> d = e"
  by (metis show_word_inject show_word_ucast_u8)

lemma ucast_u32_u8 [simp]: "(ucast (ucast (d :: u8) :: u32) :: u8) = d"
  by (rule bit_word_eqI) (simp add: bit_simps)

text \<open>Which keys of the session dict count for which device.\<close>

lemma session_key_for_device:
  assumes "parse_u32 t = Some d" "recipient @ ''.'' @ t = address_key a"
  shows "pa_name a = recipient \<and> d = ucast (pa_device a)"
proof -
  from assms(2) have "recipient @ CHR ''.'' # t = pa_name a @ CHR ''.'' # show_word (pa_device a)"
    by (simp add: address_key_def)
  with parse_u32_no_dot [OF assms(1)] have "recipient = pa_name a" "t = show_word (pa_device a)"
    by (simp_all add: snoc_sep_inject)
  with assms(1) show ?thesis by simp
qed

lemma kyber_dedup_key_inject:
  assumes "inj (\<lambda>k. b64_url_encode L (ls_public_serialize L k))"
  shows "kyber_dedup_key L i e k = kyber_dedup_key L i' e' k' \<longleftrightarrow> i = i' \<and> e = e' \<and> k = k'"
  using assms by (auto simp: kyber_dedup_key_def cons_sep_inject dest: injD)

lemma kyber_dedup_key_not_id: "kyber_dedup_key L i e k \<noteq> show_word j"
proof
  assume "kyber_dedup_key L i e k = show_word j"
  then have "CHR ''u'' \<in> set (show_word j)" by (metis kyber_dedup_key_def append_Cons list.set_intros(1))
  then have "is_digit (CHR ''u'')" by (rule show_word_digits)
  then show False by (simp add: is_digit_def)
qed

section \<open>Contracts\<close>

text \<open>What the stores rely on of libsignal: a record that serialises is read back, and
  public keys have distinct encodings.\<close>

locale signal_codecs =
  fixes L :: libsignal
  assumes identity_codec: "ls_identity_decode L (ls_identity_serialize L k) = Inr k"
    and prekey_codec: "ls_prekey_serialize L r = Inr b \<Longrightarrow> ls_prekey_deserialize L b = Inr r"
    and signed_codec: "ls_signed_serialize L q = Inr b \<Longrightarrow> ls_signed_deserialize L b = Inr q"
    and kyber_codec: "ls_kyber_serialize L y = Inr b \<Longrightarrow> ls_kyber_deserialize L b = Inr y"
    and session_codec: "ls_session_serialize L z = Inr b \<Longrightarrow> ls_session_deserialize L b = Inr z"
    and public_encoding: "inj (\<lambda>k. b64_url_encode L (ls_public_serialize L k))"

text \<open>The contract the three prekey stores share: a saved record is read back under its id
  and no other id is affected; hence a batch saved under distinct ids is read back whole.\<close>

locale keyed_store =
  fixes get :: "'k \<Rightarrow> 's \<Rightarrow> 'e + 'v" and put :: "'k \<Rightarrow> 'v \<Rightarrow> 's \<Rightarrow> ('s, 'e, unit) sres"
  assumes get_put_same: "put k v s = (Inr (), s') \<Longrightarrow> get k s' = Inr v"
    and get_put_other: "put k v s = (r, s') \<Longrightarrow> k' \<noteq> k \<Longrightarrow> get k' s' = get k' s"
begin

fun put_all :: "('k \<times> 'v) list \<Rightarrow> 's \<Rightarrow> ('s, 'e, unit) sres" where
  "put_all [] s = (Inr (), s)"
| "put_all ((k, v) # kvs) s = sbind (put k v s) (\<lambda>_ s1. put_all kvs s1)"

lemma put_all_other:
  "put_all kvs s = (r, s') \<Longrightarrow> k \<notin> fst ` set kvs \<Longrightarrow> get k s' = get k s"
proof (induction kvs arbitrary: s)
  case (Cons kv kvs)
  obtain k0 v0 where kv: "kv = (k0, v0)" by (cases kv)
  obtain r1 s1 where st: "put k0 v0 s = (r1, s1)" by (cases "put k0 v0 s")
  have eq: "get k s1 = get k s" using get_put_other [OF st] Cons.prems(2) kv by simp
  show ?case
  proof (cases r1)
    case (Inl e)
    with Cons.prems(1) kv st eq show ?thesis by simp
  next
    case (Inr u)
    with Cons.prems kv st have "put_all kvs s1 = (r, s')" "k \<notin> fst ` set kvs" by auto
    with Cons.IH eq show ?thesis by simp
  qed
qed simp

lemma put_all_get:
  "put_all kvs s = (Inr (), s') \<Longrightarrow> distinct (map fst kvs) \<Longrightarrow> (k, v) \<in> set kvs \<Longrightarrow> get k s' = Inr v"
proof (induction kvs arbitrary: s)
  case (Cons kv kvs)
  obtain k0 v0 where kv: "kv = (k0, v0)" by (cases kv)
  from Cons.prems(1) kv obtain s1 where s1: "put k0 v0 s = (Inr (), s1)" "put_all kvs s1 = (Inr (), s')"
    by (auto simp: res_simps)
  show ?case
  proof (cases "(k, v) \<in> set kvs")
    case True
    with Cons.IH [OF s1(2)] Cons.prems(2) show ?thesis by simp
  next
    case False
    with Cons.prems kv have "k = k0" "v = v0" "k0 \<notin> fst ` set kvs" by auto
    with put_all_other [OF s1(2)] get_put_same [OF s1(1)] show ?thesis by simp
  qed
qed simp

end

text \<open>The contract of the session store towards the send path: the enumerated devices of a
  recipient are exactly those a session loads for, and deleting drops exactly one.\<close>

locale session_contract =
  fixes ids :: "string \<Rightarrow> 's \<Rightarrow> u32 list"
    and load :: "protocol_address \<Rightarrow> 's \<Rightarrow> 'e + session_record option"
    and del :: "protocol_address \<Rightarrow> 's \<Rightarrow> 's"
    and inv :: "'s \<Rightarrow> bool"
  assumes ids_iff: "inv s \<Longrightarrow> d \<in> set (ids u s) \<longleftrightarrow> (\<exists>v. d = ucast v \<and> load \<lparr>pa_name = u, pa_device = v\<rparr> s \<noteq> Inr None)"
    and ids_sorted: "sorted (ids u s)" and ids_distinct: "distinct (ids u s)"
    and load_del_same: "load a (del a s) = Inr None"
    and load_del_other: "b \<noteq> a \<Longrightarrow> load b (del a s) = load b s"
    and inv_del: "inv s \<Longrightarrow> inv (del a s)"
begin

lemma ids_del_same:
  assumes "inv s"
  shows "ids (pa_name a) (del a s) = filter (\<lambda>d. d \<noteq> ucast (pa_device a)) (ids (pa_name a) s)"
proof (rule sorted_distinct_set_unique)
  show "set (ids (pa_name a) (del a s)) = set (filter (\<lambda>d. d \<noteq> ucast (pa_device a)) (ids (pa_name a) s))"
  proof (rule set_eqI)
    fix d
    have step: "load \<lparr>pa_name = pa_name a, pa_device = v\<rparr> (del a s) \<noteq> Inr None
      \<longleftrightarrow> v \<noteq> pa_device a \<and> load \<lparr>pa_name = pa_name a, pa_device = v\<rparr> s \<noteq> Inr None" for v
    proof (cases "v = pa_device a")
      case True
      then have "\<lparr>pa_name = pa_name a, pa_device = v\<rparr> = a" by simp
      then have "load \<lparr>pa_name = pa_name a, pa_device = v\<rparr> (del a s) = Inr None"
        by (simp only: load_del_same)
      with True show ?thesis by blast
    next
      case False
      then have "\<lparr>pa_name = pa_name a, pa_device = v\<rparr> \<noteq> a" by (metis protocol_address.select_convs(2))
      with False show ?thesis by (simp add: load_del_other)
    qed
    show "d \<in> set (ids (pa_name a) (del a s)) \<longleftrightarrow>
        d \<in> set (filter (\<lambda>d. d \<noteq> ucast (pa_device a)) (ids (pa_name a) s))"
      unfolding set_filter mem_Collect_eq ids_iff [OF assms] ids_iff [OF inv_del [OF assms]] step
      by auto
  qed
qed (simp_all add: ids_sorted ids_distinct sorted_wrt_filter)

lemma ids_del_other:
  assumes "inv s" "u \<noteq> pa_name a"
  shows "ids u (del a s) = ids u s"
proof (rule sorted_distinct_set_unique)
  have "load \<lparr>pa_name = u, pa_device = v\<rparr> (del a s) = load \<lparr>pa_name = u, pa_device = v\<rparr> s" for v
    by (rule load_del_other) (use assms(2) in auto)
  then have "d \<in> set (ids u (del a s)) \<longleftrightarrow> d \<in> set (ids u s)" for d
    by (simp only: ids_iff [OF assms(1)] ids_iff [OF inv_del [OF assms(1)]])
  then show "set (ids u (del a s)) = set (ids u s)" by blast
qed (simp_all add: ids_sorted ids_distinct)

lemma ids_del:
  "inv s \<Longrightarrow> ids u (del a s) = filter (\<lambda>d. \<not> (pa_name a = u \<and> ucast (pa_device a) = d)) (ids u s)"
  using ids_del_same [of s a] ids_del_other [of s u a] by (cases "pa_name a = u") (auto intro: filter_cong)

lemma ids_fold_del:
  "inv s \<Longrightarrow> ids u (fold del as s) =
     filter (\<lambda>d. \<forall>a \<in> set as. \<not> (pa_name a = u \<and> ucast (pa_device a) = d)) (ids u s)"
proof (induction as arbitrary: s)
  case (Cons a as)
  then show ?case by (simp add: inv_del ids_del conj_commute)
qed simp

lemma load_fold_del:
  "load b (fold del as s) = (if b \<in> set as then Inr None else load b s)"
proof (induction as arbitrary: s)
  case (Cons a as)
  then show ?case by (cases "b = a") (simp_all add: load_del_same load_del_other)
qed simp

lemma inv_fold_del: "inv s \<Longrightarrow> inv (fold del as s)"
  by (induction as arbitrary: s) (simp_all add: inv_del)

end

locale signal_stores = healthy_pddb P view + signal_codecs L
  for P :: "'s pddb" and view :: "'s \<Rightarrow> kv" and L :: libsignal
begin

lemma write_eq: "write_or_signal P d k x c s = (Inr (), snd (pddb_replace P d k x s))"
proof -
  obtain s1 where "pddb_replace P d k x s = (Inr (), s1)" using replace_eq by blast
  then show ?thesis by (simp add: write_or_signal_def pddb_write_binary_def)
qed

text \<open>The three prekey stores have one shape, which has the contract of a keyed store.\<close>

lemma record_store:
  fixes get :: "u32 \<Rightarrow> 's \<Rightarrow> sig_error + 'r" and put :: "u32 \<Rightarrow> 'r \<Rightarrow> 's \<Rightarrow> ('s, sig_error, unit) sres"
  assumes g: "\<And>k s. get k s =
      (case pddb_read_binary P d (show_word k) s of
         Inr buf \<Rightarrow> des buf
       | Inl e \<Rightarrow> (if io_error_kind e = NotFound then Inl absent else Inl (other e)))"
    and p: "\<And>k r s. put k r s =
      (case ser r of Inl e \<Rightarrow> (Inl (f e), s) | Inr buf \<Rightarrow> write_or_signal P d (show_word k) buf c s)"
    and codec: "\<And>r b. ser r = Inr b \<Longrightarrow> des b = Inr r"
  shows "keyed_store get put"
proof -
  have get: "get k s = (case view s (d, show_word k) of None \<Rightarrow> Inl absent | Some b \<Rightarrow> des b)" for k s
    by (cases rule: fetch_cases [of s d "show_word k"]) (auto simp: g pddb_read_binary_def)
  show ?thesis
    by unfold_locales (auto simp: get p write_eq replace_view codec split: sum.splits)
qed

lemma get_identity_eq:
  "get_identity L P d a s =
     (case view s (d, address_key a) of
        None \<Rightarrow> Inr None
      | Some b \<Rightarrow> rbind (ls_identity_decode L b) (\<lambda>k. Inr (Some k)))"
  by (cases rule: fetch_cases [of s d "address_key a"])
    (auto simp: get_identity_def pddb_read_binary_def)

lemma is_trusted_eq:
  "is_trusted_identity L P d a k s =
     (case view s (d, address_key a) of
        None \<Rightarrow> Inr True
      | Some b \<Rightarrow> rbind (ls_identity_decode L b) (\<lambda>k'. Inr (k' = k)))"
  by (cases rule: fetch_cases [of s d "address_key a"])
    (auto simp: is_trusted_identity_def pddb_read_binary_def split: sum.splits)

lemma save_identity_view:
  "view (snd (save_identity L P d a k s)) =
     (if get_identity L P d a s = Inr (Some k) then view s
      else (view s)((d, address_key a) \<mapsto> ls_identity_serialize L k))"
  by (cases rule: fetch_cases [of s d "address_key a"])
    (auto simp: save_identity_def pddb_read_binary_def write_eq replace_view get_identity_eq res_simps)

lemma save_identity_result:
  "fst (save_identity L P d a k s) =
     Inr (if view s (d, address_key a) = None \<or> get_identity L P d a s = Inr (Some k)
          then NewOrUnchanged else ReplacedExisting)"
  by (cases rule: fetch_cases [of s d "address_key a"])
    (auto simp: save_identity_def pddb_read_binary_def write_eq get_identity_eq res_simps)

lemma get_identity_save:
  "get_identity L P d b (snd (save_identity L P d a k s)) =
     (if b = a then Inr (Some k) else get_identity L P d b s)"
  by (auto simp: get_identity_eq [of d b] save_identity_view identity_codec)
    (simp_all add: get_identity_eq)

lemma load_session_eq:
  "load_session L P d a s =
     (case view s (d, address_key a) of
        None \<Rightarrow> Inr None
      | Some b \<Rightarrow> rbind (ls_session_deserialize L b) (\<lambda>r. Inr (Some r)))"
  by (cases rule: fetch_cases [of s d "address_key a"])
    (auto simp: load_session_def pddb_read_binary_def)

lemma load_session_None_iff: "load_session L P d a s = Inr None \<longleftrightarrow> view s (d, address_key a) = None"
proof (cases "view s (d, address_key a)")
  case (Some b)
  then show ?thesis by (cases "ls_session_deserialize L b") (simp_all add: load_session_eq)
qed (simp add: load_session_eq)

lemma set_device_ids_for:
  "set (device_ids_for P d u s) =
     {i. \<exists>t. view s (d, u @ ''.'' @ t) \<noteq> None \<and> parse_u32 t = Some i}"
proof -
  have "(case pd_list P d s of Inl _ \<Rightarrow> {} | Inr ks \<Rightarrow> set ks) = {k. view s (d, k) \<noteq> None}"
    by (rule list_keys)
  then show ?thesis
    by (cases "pd_list P d s") (auto simp: device_ids_for_def set_map_filter strip_prefix_Some_iff)
qed

end


sublocale signal_stores < prekey: keyed_store "get_pre_key L P PREKEY_DICT" "save_pre_key L P PREKEY_DICT"
  by (rule record_store [OF get_pre_key_def save_pre_key_def prekey_codec])

sublocale signal_stores < signed: keyed_store
    "get_signed_pre_key L P SIGNED_PREKEY_DICT" "save_signed_pre_key L P SIGNED_PREKEY_DICT"
  by (rule record_store [OF get_signed_pre_key_def save_signed_pre_key_def signed_codec])

sublocale signal_stores < kyber: keyed_store
    "get_kyber_pre_key L P KYBER_PREKEY_DICT" "save_kyber_pre_key L P KYBER_PREKEY_DICT"
  by (rule record_store [OF get_kyber_pre_key_def save_kyber_pre_key_def kyber_codec])

sublocale signal_stores < session: session_contract
    "device_ids_for P SESSION_DICT" "load_session L P SESSION_DICT" "delete_session P SESSION_DICT"
    "\<lambda>s. canonical_sessions (view s)"
proof
  fix s :: 's and d u
  assume can: "canonical_sessions (view s)"
  have "(\<exists>t. view s (SESSION_DICT, u @ ''.'' @ t) \<noteq> None \<and> parse_u32 t = Some d) \<longleftrightarrow>
      (\<exists>v. d = ucast v \<and> view s (SESSION_DICT, address_key \<lparr>pa_name = u, pa_device = v\<rparr>) \<noteq> None)"
  proof
    assume "\<exists>t. view s (SESSION_DICT, u @ ''.'' @ t) \<noteq> None \<and> parse_u32 t = Some d"
    then obtain t where t: "view s (SESSION_DICT, u @ ''.'' @ t) \<noteq> None" "parse_u32 t = Some d" by blast
    with can obtain a where a: "u @ ''.'' @ t = address_key a" unfolding canonical_sessions_def by blast
    with session_key_for_device [OF t(2) a] t(1)
    show "\<exists>v. d = ucast v \<and> view s (SESSION_DICT, address_key \<lparr>pa_name = u, pa_device = v\<rparr>) \<noteq> None"
      by (intro exI [of _ "pa_device a"]) (auto simp: address_key_def)
  next
    assume "\<exists>v. d = ucast v \<and> view s (SESSION_DICT, address_key \<lparr>pa_name = u, pa_device = v\<rparr>) \<noteq> None"
    then obtain v where "d = ucast v" "view s (SESSION_DICT, u @ ''.'' @ show_word (v :: u8)) \<noteq> None"
      by (auto simp: address_key_def)
    then show "\<exists>t. view s (SESSION_DICT, u @ ''.'' @ t) \<noteq> None \<and> parse_u32 t = Some d"
      by (intro exI [of _ "show_word v"]) simp
  qed
  then show "d \<in> set (device_ids_for P SESSION_DICT u s) \<longleftrightarrow>
      (\<exists>v. d = ucast v \<and> load_session L P SESSION_DICT \<lparr>pa_name = u, pa_device = v\<rparr> s \<noteq> Inr None)"
    by (simp add: set_device_ids_for load_session_None_iff)
next
  fix s :: 's and u
  show "sorted (device_ids_for P SESSION_DICT u s)"
    by (simp add: device_ids_for_def sorted_remdups_adj split: sum.split)
  show "distinct (device_ids_for P SESSION_DICT u s)"
    by (simp add: device_ids_for_def distinct_remdups_adj_sorted split: sum.split)
next
  fix s :: 's and a b :: protocol_address
  show "load_session L P SESSION_DICT a (delete_session P SESSION_DICT a s) = Inr None"
    by (simp add: load_session_None_iff delete_session_def delete_view)
  show "b \<noteq> a \<Longrightarrow> load_session L P SESSION_DICT b (delete_session P SESSION_DICT a s) = load_session L P SESSION_DICT b s"
    by (simp add: load_session_eq delete_session_def delete_view)
  show "canonical_sessions (view s) \<Longrightarrow> canonical_sessions (view (delete_session P SESSION_DICT a s))"
    by (auto simp: canonical_sessions_def delete_session_def delete_view)
qed

context signal_stores
begin

lemma sessions_ok:
  "session_contract (device_ids_for P SESSION_DICT) (load_session L P SESSION_DICT)
     (delete_session P SESSION_DICT) (\<lambda>s. canonical_sessions (view s))"
  by unfold_locales

lemma store_session_load:
  assumes "store_session L P d a r s = (Inr (), s')"
  shows "load_session L P d b s' = (if b = a then Inr (Some r) else load_session L P d b s)"
proof -
  from assms obtain x where "ls_session_serialize L r = Inr x" "s' = snd (pddb_replace P d (address_key a) x s)"
    by (auto simp: store_session_def write_eq split: sum.splits)
  then show ?thesis by (simp add: load_session_eq replace_view session_codec)
qed

lemma store_session_canonical:
  assumes "store_session L P SESSION_DICT a r s = (x, s')" "canonical_sessions (view s)"
  shows "canonical_sessions (view s')"
  using assms
  by (auto simp: store_session_def write_eq replace_view canonical_sessions_def split: sum.splits if_splits)

lemma mark_used_eq:
  "mark_kyber_pre_key_used L P d i e k s =
     (if view s (d, kyber_dedup_key L i e k) = None
      then (Inr (), snd (pddb_replace P d (kyber_dedup_key L i e k) [CHR 0x01] s))
      else (Inl InvalidKyberPreKeyId, s))"
  by (cases rule: fetch_cases [of s d "kyber_dedup_key L i e k"])
    (auto simp: mark_kyber_pre_key_used_def pddb_read_binary_def write_eq Let_def)

lemma get_kyber_mark_used:
  "get_kyber_pre_key L P d j (snd (mark_kyber_pre_key_used L P d i e k s)) = get_kyber_pre_key L P d j s"
proof -
  have "view (snd (mark_kyber_pre_key_used L P d i e k s)) (d, show_word j) = view s (d, show_word j)"
    using kyber_dedup_key_not_id [of L i e k j] by (auto simp: mark_used_eq replace_view)
  then show ?thesis
    by (cases rule: fetch_cases [of s d "show_word j"];
        cases rule: fetch_cases [of "snd (mark_kyber_pre_key_used L P d i e k s)" d "show_word j"])
      (auto simp: get_kyber_pre_key_def pddb_read_binary_def)
qed

end

interpretation mem: signal_stores mem_pddb map_of token_libsignal
  by unfold_locales
    (auto simp: token_libsignal_def inj_def split: identity_key.splits prekey_record.splits
      signed_prekey_record.splits kyber_prekey_record.splits session_record.splits public_key.splits)

section \<open>Properties\<close>

text \<open>C1. Trust on first use: for an address without a stored identity every key is trusted;
  saving a key reports \<open>NewOrUnchanged\<close>, from then on exactly that key is trusted for the
  address, and no other address is affected.\<close>

theorem identity_tofu:
  assumes "signal_stores P view L"
    and "view s (IDENTITY_DICT, address_key a) = None"
    and "save_identity L P IDENTITY_DICT a k s = (r, s')"
  shows "is_trusted_identity L P IDENTITY_DICT a k' s = Inr True
    \<and> r = Inr NewOrUnchanged
    \<and> is_trusted_identity L P IDENTITY_DICT a k' s' = Inr (k = k')
    \<and> (b \<noteq> a \<longrightarrow> is_trusted_identity L P IDENTITY_DICT b k' s' = is_trusted_identity L P IDENTITY_DICT b k' s)"
proof -
  note st = assms(1) [THEN signal_stores.is_trusted_eq] assms(1) [THEN signal_stores.save_identity_view]
    assms(1) [THEN signal_stores.save_identity_result] assms(1) [THEN signal_stores.get_identity_eq]
  have codec: "ls_identity_decode L (ls_identity_serialize L k) = Inr k"
    using assms(1) by (simp add: signal_stores_def signal_codecs_def)
  have s': "s' = snd (save_identity L P IDENTITY_DICT a k s)"
    and r: "r = fst (save_identity L P IDENTITY_DICT a k s)" using assms(3) by simp_all
  show ?thesis unfolding s' r by (simp add: st assms(2) codec)
qed

theorem identity_tofu_witness:
  "is_trusted_identity token_libsignal mem_pddb IDENTITY_DICT \<lparr>pa_name = ''alice'', pa_device = 1\<rparr>
     (IdentityKey ''K2'')
     (snd (save_identity token_libsignal mem_pddb IDENTITY_DICT \<lparr>pa_name = ''alice'', pa_device = 1\<rparr>
       (IdentityKey ''K1'') [])) = Inr False"
proof -
  let ?a = "\<lparr>pa_name = ''alice'', pa_device = 1\<rparr>"
  obtain r s' where st: "save_identity token_libsignal mem_pddb IDENTITY_DICT ?a (IdentityKey ''K1'') [] = (r, s')"
    by (rule prod.exhaust)
  have "is_trusted_identity token_libsignal mem_pddb IDENTITY_DICT ?a (IdentityKey ''K2'') s' =
      Inr (IdentityKey ''K1'' = IdentityKey ''K2'')"
    using identity_tofu [OF mem.signal_stores_axioms _ st, where k' = "IdentityKey ''K2''"] by simp
  with st show ?thesis by simp
qed

text \<open>A changed identity is reported: when a key is already stored, saving reports
  \<open>ReplacedExisting\<close> exactly when the new key differs, the stored key becomes the new one,
  and the old key stops being trusted unless it is the same.\<close>

theorem identity_change_reported:
  assumes "signal_stores P view L"
    and "get_identity L P IDENTITY_DICT a s = Inr (Some k0)"
    and "save_identity L P IDENTITY_DICT a k s = (r, s')"
  shows "r = Inr (if k = k0 then NewOrUnchanged else ReplacedExisting)
    \<and> get_identity L P IDENTITY_DICT a s' = Inr (Some k)
    \<and> is_trusted_identity L P IDENTITY_DICT a k0 s' = Inr (k = k0)"
proof -
  have s': "s' = snd (save_identity L P IDENTITY_DICT a k s)"
    and r: "r = fst (save_identity L P IDENTITY_DICT a k s)" using assms(3) by simp_all
  have stored: "view s (IDENTITY_DICT, address_key a) \<noteq> None"
    using assms(2) signal_stores.get_identity_eq [OF assms(1)] by (auto split: option.splits)
  have now: "get_identity L P IDENTITY_DICT a s' = Inr (Some k)"
    unfolding s' by (simp add: signal_stores.get_identity_save [OF assms(1)])
  have "is_trusted_identity L P IDENTITY_DICT a k0 s' = Inr (k = k0)"
    using now signal_stores.get_identity_eq [OF assms(1)] signal_stores.is_trusted_eq [OF assms(1)]
    by (auto split: option.splits simp: res_simps)
  moreover have "r = Inr (if k = k0 then NewOrUnchanged else ReplacedExisting)"
    unfolding r using stored assms(2)
    by (auto simp: signal_stores.save_identity_result [OF assms(1)])
  ultimately show ?thesis using now by blast
qed

theorem identity_change_reported_witness:
  "fst (save_identity token_libsignal mem_pddb IDENTITY_DICT \<lparr>pa_name = ''alice'', pa_device = 1\<rparr>
     (IdentityKey ''K2'') [((IDENTITY_DICT, ''alice.1''), ''K1'')]) = Inr ReplacedExisting"
proof -
  have "get_identity token_libsignal mem_pddb IDENTITY_DICT \<lparr>pa_name = ''alice'', pa_device = 1\<rparr>
      [((IDENTITY_DICT, ''alice.1''), ''K1'')] = Inr (Some (IdentityKey ''K1''))"
    by code_simp
  from identity_change_reported [OF mem.signal_stores_axioms this, of "IdentityKey ''K2''", OF surjective_pairing]
  show ?thesis by simp
qed

text \<open>C27. Reuse of a last-resort Kyber prekey is rejected: after a use with a given signed
  prekey and base key was recorded, the same triple is refused and leaves the store as it
  is, every other triple is treated as before, and no Kyber record is disturbed.\<close>

theorem kyber_reuse_rejected:
  assumes "signal_stores P view L"
    and "mark_kyber_pre_key_used L P KYBER_PREKEY_DICT i e k s = (Inr (), s1)"
  shows "mark_kyber_pre_key_used L P KYBER_PREKEY_DICT i e k s1 = (Inl InvalidKyberPreKeyId, s1)
    \<and> ((i', e', k') \<noteq> (i, e, k) \<longrightarrow>
        fst (mark_kyber_pre_key_used L P KYBER_PREKEY_DICT i' e' k' s1) =
        fst (mark_kyber_pre_key_used L P KYBER_PREKEY_DICT i' e' k' s))
    \<and> get_kyber_pre_key L P KYBER_PREKEY_DICT j s1 = get_kyber_pre_key L P KYBER_PREKEY_DICT j s"
proof -
  note mark = signal_stores.mark_used_eq [OF assms(1)]
  have inj: "inj (\<lambda>k. b64_url_encode L (ls_public_serialize L k))"
    using assms(1) by (simp add: signal_stores_def signal_codecs_def)
  have hp: "healthy_pddb P view" using assms(1) by (simp add: signal_stores_def)
  from assms(2) have s1: "s1 = snd (pddb_replace P KYBER_PREKEY_DICT (kyber_dedup_key L i e k) [CHR 0x01] s)"
    by (simp add: mark split: if_splits)
  then have v: "view s1 = (view s)((KYBER_PREKEY_DICT, kyber_dedup_key L i e k) \<mapsto> [CHR 0x01])"
    by (simp add: healthy_pddb.replace_view [OF hp])
  have "get_kyber_pre_key L P KYBER_PREKEY_DICT j s1 = get_kyber_pre_key L P KYBER_PREKEY_DICT j s"
    using signal_stores.get_kyber_mark_used [OF assms(1), of KYBER_PREKEY_DICT j i e k s] assms(2) by simp
  then show ?thesis by (auto simp: mark v kyber_dedup_key_inject [OF inj])
qed

theorem kyber_reuse_rejected_witness:
  "\<exists>s1. mark_kyber_pre_key_used token_libsignal mem_pddb KYBER_PREKEY_DICT 7 9 (PublicKey ''B'') [] = (Inr (), s1)
     \<and> fst (mark_kyber_pre_key_used token_libsignal mem_pddb KYBER_PREKEY_DICT 7 9 (PublicKey ''B'') s1) = Inl InvalidKyberPreKeyId"
proof -
  obtain s1 where s1: "mark_kyber_pre_key_used token_libsignal mem_pddb KYBER_PREKEY_DICT 7 9 (PublicKey ''B'') [] = (Inr (), s1)"
    by (simp add: mem.mark_used_eq)
  from kyber_reuse_rejected [OF mem.signal_stores_axioms s1] s1 show ?thesis by auto
qed

text \<open>The fan-out set is exact: on a session dict that holds session keys only, the device
  ids enumerated for a recipient are sorted, without duplicates, and are exactly the devices
  for which a session record is stored.\<close>

theorem session_devices_exact:
  assumes "signal_stores P view L" and "canonical_sessions (view s)"
  shows "sorted (device_ids_for P SESSION_DICT u s) \<and> distinct (device_ids_for P SESSION_DICT u s)
    \<and> set (device_ids_for P SESSION_DICT u s) =
        {ucast v | v. load_session L P SESSION_DICT \<lparr>pa_name = u, pa_device = v\<rparr> s \<noteq> Inr None}"
proof -
  note sc = signal_stores.sessions_ok [OF assms(1)]
  show ?thesis
    using session_contract.ids_iff [OF sc assms(2), of _ u] session_contract.ids_sorted [OF sc, of u s]
      session_contract.ids_distinct [OF sc, of u s] by blast
qed

theorem session_devices_exact_witness:
  "set (device_ids_for mem_pddb SESSION_DICT ''bob'' [((SESSION_DICT, ''bob.2''), ''S'')]) =
     {ucast v | v. load_session token_libsignal mem_pddb SESSION_DICT \<lparr>pa_name = ''bob'', pa_device = v\<rparr>
        [((SESSION_DICT, ''bob.2''), ''S'')] \<noteq> Inr None}
   \<and> device_ids_for mem_pddb SESSION_DICT ''bob'' [((SESSION_DICT, ''bob.2''), ''S'')] = [2]"
proof -
  have "address_key \<lparr>pa_name = ''bob'', pa_device = 2\<rparr> = ''bob.2''" by code_simp
  then have "canonical_sessions (map_of [((SESSION_DICT, ''bob.2''), ''S'')])"
    by (auto simp: canonical_sessions_def intro!: exI [of _ "\<lparr>pa_name = ''bob'', pa_device = 2\<rparr>"] split: if_splits)
  from session_devices_exact [where view = map_of, OF mem.signal_stores_axioms this, of "''bob''"]
  have "set (device_ids_for mem_pddb SESSION_DICT ''bob'' [((SESSION_DICT, ''bob.2''), ''S'')]) =
     {ucast v | v. load_session token_libsignal mem_pddb SESSION_DICT \<lparr>pa_name = ''bob'', pa_device = v\<rparr>
        [((SESSION_DICT, ''bob.2''), ''S'')] \<noteq> Inr None}" by blast
  moreover have "device_ids_for mem_pddb SESSION_DICT ''bob'' [((SESSION_DICT, ''bob.2''), ''S'')] = [2]"
    by (simp add: device_ids_for_def mem_pddb_def map_filter_def strip_prefix_def parse_u32_def
        parse_unsigned_def strip_plus_def is_digit_def)
  ultimately show ?thesis by blast
qed

end
