(* ===== verification/Proto.thy ===== *)
theory Proto
  imports Prelude
begin

text \<open>
  The protobuf messages of \<open>src/src/manager/outgoing.rs\<close> (built and sent) and of
  \<open>src/src/manager/main_ws.rs\<close> (received, plus the WebSocket wrapper the worker sends). The
  sources declare them with \<open>derive(prost::Message)\<close>: field, tag and type. Splitting bytes
  into \<open>(tag, value)\<close> records is prost's work, hence the parameter \<open>wire_codec\<close>; what a
  struct does with the records follows the declarations here: optional fields are emitted
  in tag order, on decode a later occurrence wins, nested messages merge, unknown tags are
  skipped, a wrong wire type or invalid UTF-8 in a string is an error.
\<close>

section \<open>Definitions\<close>

subsection \<open>Wire records\<close>

datatype wire_val = Varint u64 | LenDelim bytes | Fixed bytes

type_synonym wire_field = "nat \<times> wire_val"

record wire_codec =
  wc_encode :: "wire_field list \<Rightarrow> bytes"
  wc_decode :: "bytes \<Rightarrow> wire_field list option"

fun encodable :: "wire_field \<Rightarrow> bool" where
  "encodable (t, v) \<longleftrightarrow> 0 < t \<and> t < 2 ^ 29 \<and> (case v of Fixed _ \<Rightarrow> False | _ \<Rightarrow> True)"

text \<open>Emitting an optional field.\<close>

definition opt_len :: "nat \<Rightarrow> bytes option \<Rightarrow> wire_field list" where
  "opt_len t x = (case x of None \<Rightarrow> [] | Some b \<Rightarrow> [(t, LenDelim b)])"

definition opt_u64 :: "nat \<Rightarrow> u64 option \<Rightarrow> wire_field list" where
  "opt_u64 t x = (case x of None \<Rightarrow> [] | Some n \<Rightarrow> [(t, Varint n)])"

definition opt_u32 :: "nat \<Rightarrow> u32 option \<Rightarrow> wire_field list" where
  "opt_u32 t x = (case x of None \<Rightarrow> [] | Some n \<Rightarrow> [(t, Varint (ucast n))])"

definition opt_i32 :: "nat \<Rightarrow> u32 option \<Rightarrow> wire_field list" where
  "opt_i32 t x = (case x of None \<Rightarrow> [] | Some n \<Rightarrow> [(t, Varint (scast n))])"

text \<open>Reading one field of a given type; \<open>None\<close> is a decode error.\<close>

fun get_string :: "wire_val \<Rightarrow> string option" where
  "get_string (LenDelim b) = from_utf8 b"
| "get_string _ = None"

fun get_bytes :: "wire_val \<Rightarrow> bytes option" where
  "get_bytes (LenDelim b) = Some b"
| "get_bytes _ = None"

fun get_u64 :: "wire_val \<Rightarrow> u64 option" where
  "get_u64 (Varint n) = Some n"
| "get_u64 _ = None"

fun get_u32 :: "wire_val \<Rightarrow> u32 option" where
  "get_u32 (Varint n) = Some (ucast n)"
| "get_u32 _ = None"

text \<open>Folding the records of a message into its default value.\<close>

fun merge_fields :: "(wire_field \<Rightarrow> 'm \<Rightarrow> 'm option) \<Rightarrow> wire_field list \<Rightarrow> 'm \<Rightarrow> 'm option" where
  "merge_fields f [] m = Some m"
| "merge_fields f (x # xs) m = Option.bind (f x m) (merge_fields f xs)"

definition decode_message ::
  "wire_codec \<Rightarrow> (wire_field \<Rightarrow> 'm \<Rightarrow> 'm option) \<Rightarrow> 'm \<Rightarrow> bytes \<Rightarrow> 'm option" where
  "decode_message W f m b = Option.bind (wc_decode W b) (\<lambda>fs. merge_fields f fs m)"

definition merge_nested ::
  "wire_codec \<Rightarrow> (wire_field \<Rightarrow> 'm \<Rightarrow> 'm option) \<Rightarrow> 'm \<Rightarrow> 'm option \<Rightarrow> wire_val \<Rightarrow> 'm option" where
  "merge_nested W f d cur v =
     Option.bind (get_bytes v) (decode_message W f (unwrap_or d cur))"

subsection \<open>DataMessage (both modules declare it alike)\<close>

record data_message =
  dm_body :: "string option"
  dm_timestamp :: "u64 option"

definition data_message_fields :: "data_message \<Rightarrow> wire_field list" where
  "data_message_fields m = opt_len 1 (dm_body m) @ opt_u64 7 (dm_timestamp m)"

definition data_message_default :: data_message where
  "data_message_default = \<lparr>dm_body = None, dm_timestamp = None\<rparr>"

fun merge_data_message :: "wire_field \<Rightarrow> data_message \<Rightarrow> data_message option" where
  "merge_data_message (t, v) m =
     (if t = 1 then map_option (\<lambda>x. m\<lparr>dm_body := Some x\<rparr>) (get_string v)
      else if t = 7 then map_option (\<lambda>x. m\<lparr>dm_timestamp := Some x\<rparr>) (get_u64 v)
      else Some m)"

subsection \<open>outgoing.rs: SyncMessage.Sent, SyncMessage, Content as sent\<close>

record out_sent_message =
  os_timestamp :: "u64 option"
  os_message :: "data_message option"
  os_destination_service_id :: "string option"

record out_sync_message = osy_sent :: "out_sent_message option"

record out_content =
  oc_data_message :: "data_message option"
  oc_sync_message :: "out_sync_message option"

definition encode_data_message :: "wire_codec \<Rightarrow> data_message \<Rightarrow> bytes" where
  "encode_data_message W m = wc_encode W (data_message_fields m)"

definition encode_out_sent :: "wire_codec \<Rightarrow> out_sent_message \<Rightarrow> bytes" where
  "encode_out_sent W m =
     wc_encode W (opt_u64 2 (os_timestamp m)
       @ opt_len 3 (map_option (encode_data_message W) (os_message m))
       @ opt_len 7 (os_destination_service_id m))"

definition encode_out_sync :: "wire_codec \<Rightarrow> out_sync_message \<Rightarrow> bytes" where
  "encode_out_sync W m = wc_encode W (opt_len 1 (map_option (encode_out_sent W) (osy_sent m)))"

definition encode_out_content :: "wire_codec \<Rightarrow> out_content \<Rightarrow> bytes" where
  "encode_out_content W m =
     wc_encode W (opt_len 1 (map_option (encode_data_message W) (oc_data_message m))
       @ opt_len 2 (map_option (encode_out_sync W) (oc_sync_message m)))"

subsection \<open>main\_ws.rs: SyncMessage.Sent, SyncMessage, Content as received\<close>

record in_sent_message =
  is_destination_service_id :: "string option"
  is_timestamp :: "u64 option"
  is_message :: "data_message option"

record in_sync_message = isy_sent :: "in_sent_message option"

record in_content =
  ic_data_message :: "data_message option"
  ic_sync_message :: "in_sync_message option"

definition in_sent_default :: in_sent_message where
  "in_sent_default = \<lparr>is_destination_service_id = None, is_timestamp = None, is_message = None\<rparr>"

fun merge_in_sent :: "wire_codec \<Rightarrow> wire_field \<Rightarrow> in_sent_message \<Rightarrow> in_sent_message option" where
  "merge_in_sent W (t, v) m =
     (if t = 1 then map_option (\<lambda>x. m\<lparr>is_destination_service_id := Some x\<rparr>) (get_string v)
      else if t = 2 then map_option (\<lambda>x. m\<lparr>is_timestamp := Some x\<rparr>) (get_u64 v)
      else if t = 3 then map_option (\<lambda>x. m\<lparr>is_message := Some x\<rparr>)
             (merge_nested W merge_data_message data_message_default (is_message m) v)
      else Some m)"

fun merge_in_sync :: "wire_codec \<Rightarrow> wire_field \<Rightarrow> in_sync_message \<Rightarrow> in_sync_message option" where
  "merge_in_sync W (t, v) m =
     (if t = 1 then map_option (\<lambda>x. m\<lparr>isy_sent := Some x\<rparr>)
             (merge_nested W (merge_in_sent W) in_sent_default (isy_sent m) v)
      else Some m)"

fun merge_in_content :: "wire_codec \<Rightarrow> wire_field \<Rightarrow> in_content \<Rightarrow> in_content option" where
  "merge_in_content W (t, v) m =
     (if t = 1 then map_option (\<lambda>x. m\<lparr>ic_data_message := Some x\<rparr>)
             (merge_nested W merge_data_message data_message_default (ic_data_message m) v)
      else if t = 2 then map_option (\<lambda>x. m\<lparr>ic_sync_message := Some x\<rparr>)
             (merge_nested W (merge_in_sync W) \<lparr>isy_sent = None\<rparr> (ic_sync_message m) v)
      else Some m)"

definition decode_in_content :: "wire_codec \<Rightarrow> bytes \<Rightarrow> in_content option" where
  "decode_in_content W b =
     decode_message W (merge_in_content W) \<lparr>ic_data_message = None, ic_sync_message = None\<rparr> b"

subsection \<open>main\_ws.rs: Envelope\<close>

record envelope =
  env_type :: "u32 option"
  env_source_service_id :: "string option"
  env_source_device :: "u32 option"
  env_server_timestamp :: "u64 option"
  env_content :: "bytes option"

definition envelope_default :: envelope where
  "envelope_default = \<lparr>env_type = None, env_source_service_id = None, env_source_device = None,
     env_server_timestamp = None, env_content = None\<rparr>"

fun merge_envelope :: "wire_field \<Rightarrow> envelope \<Rightarrow> envelope option" where
  "merge_envelope (t, v) m =
     (if t = 1 then map_option (\<lambda>x. m\<lparr>env_type := Some x\<rparr>) (get_u32 v)
      else if t = 2 then map_option (\<lambda>x. m\<lparr>env_source_service_id := Some x\<rparr>) (get_string v)
      else if t = 7 then map_option (\<lambda>x. m\<lparr>env_source_device := Some x\<rparr>) (get_u32 v)
      else if t = 5 then map_option (\<lambda>x. m\<lparr>env_server_timestamp := Some x\<rparr>) (get_u64 v)
      else if t = 8 then map_option (\<lambda>x. m\<lparr>env_content := Some x\<rparr>) (get_bytes v)
      else Some m)"

definition decode_envelope :: "wire_codec \<Rightarrow> bytes \<Rightarrow> envelope option" where
  "decode_envelope W b = decode_message W merge_envelope envelope_default b"

subsection \<open>main\_ws.rs: WebSocket request, response and wrapper\<close>

record ws_request =
  wr_verb :: "string option"
  wr_path :: "string option"
  wr_body :: "bytes option"
  wr_id :: "u64 option"
  wr_headers :: "string list"

record ws_response =
  wp_id :: "u64 option"
  wp_status :: "u32 option"
  wp_message :: "string option"
  wp_body :: "bytes option"
  wp_headers :: "string list"

record ws_message =
  wm_type :: "u32 option"
  wm_request :: "ws_request option"
  wm_response :: "ws_response option"

definition encode_ws_request :: "wire_codec \<Rightarrow> ws_request \<Rightarrow> bytes" where
  "encode_ws_request W m =
     wc_encode W (opt_len 1 (wr_verb m) @ opt_len 2 (wr_path m) @ opt_len 3 (wr_body m)
       @ opt_u64 4 (wr_id m) @ map (\<lambda>h. (5, LenDelim h)) (wr_headers m))"

definition encode_ws_response :: "wire_codec \<Rightarrow> ws_response \<Rightarrow> bytes" where
  "encode_ws_response W m =
     wc_encode W (opt_u64 1 (wp_id m) @ opt_u32 2 (wp_status m) @ opt_len 3 (wp_message m)
       @ opt_len 4 (wp_body m) @ map (\<lambda>h. (5, LenDelim h)) (wp_headers m))"

definition encode_ws_message :: "wire_codec \<Rightarrow> ws_message \<Rightarrow> bytes" where
  "encode_ws_message W m =
     wc_encode W (opt_i32 1 (wm_type m)
       @ opt_len 2 (map_option (encode_ws_request W) (wm_request m))
       @ opt_len 3 (map_option (encode_ws_response W) (wm_response m)))"

definition ws_request_default :: ws_request where
  "ws_request_default = \<lparr>wr_verb = None, wr_path = None, wr_body = None, wr_id = None, wr_headers = []\<rparr>"

definition ws_response_default :: ws_response where
  "ws_response_default =
     \<lparr>wp_id = None, wp_status = None, wp_message = None, wp_body = None, wp_headers = []\<rparr>"

fun merge_ws_request :: "wire_field \<Rightarrow> ws_request \<Rightarrow> ws_request option" where
  "merge_ws_request (t, v) m =
     (if t = 1 then map_option (\<lambda>x. m\<lparr>wr_verb := Some x\<rparr>) (get_string v)
      else if t = 2 then map_option (\<lambda>x. m\<lparr>wr_path := Some x\<rparr>) (get_string v)
      else if t = 3 then map_option (\<lambda>x. m\<lparr>wr_body := Some x\<rparr>) (get_bytes v)
      else if t = 4 then map_option (\<lambda>x. m\<lparr>wr_id := Some x\<rparr>) (get_u64 v)
      else if t = 5 then map_option (\<lambda>x. m\<lparr>wr_headers := wr_headers m @ [x]\<rparr>) (get_string v)
      else Some m)"

fun merge_ws_response :: "wire_field \<Rightarrow> ws_response \<Rightarrow> ws_response option" where
  "merge_ws_response (t, v) m =
     (if t = 1 then map_option (\<lambda>x. m\<lparr>wp_id := Some x\<rparr>) (get_u64 v)
      else if t = 2 then map_option (\<lambda>x. m\<lparr>wp_status := Some x\<rparr>) (get_u32 v)
      else if t = 3 then map_option (\<lambda>x. m\<lparr>wp_message := Some x\<rparr>) (get_string v)
      else if t = 4 then map_option (\<lambda>x. m\<lparr>wp_body := Some x\<rparr>) (get_bytes v)
      else if t = 5 then map_option (\<lambda>x. m\<lparr>wp_headers := wp_headers m @ [x]\<rparr>) (get_string v)
      else Some m)"

fun merge_ws_message :: "wire_codec \<Rightarrow> wire_field \<Rightarrow> ws_message \<Rightarrow> ws_message option" where
  "merge_ws_message W (t, v) m =
     (if t = 1 then map_option (\<lambda>x. m\<lparr>wm_type := Some x\<rparr>) (get_u32 v)
      else if t = 2 then map_option (\<lambda>x. m\<lparr>wm_request := Some x\<rparr>)
             (merge_nested W merge_ws_request ws_request_default (wm_request m) v)
      else if t = 3 then map_option (\<lambda>x. m\<lparr>wm_response := Some x\<rparr>)
             (merge_nested W merge_ws_response ws_response_default (wm_response m) v)
      else Some m)"

definition decode_ws_message :: "wire_codec \<Rightarrow> bytes \<Rightarrow> ws_message option" where
  "decode_ws_message W b =
     decode_message W (merge_ws_message W) \<lparr>wm_type = None, wm_request = None, wm_response = None\<rparr> b"

subsection \<open>The protobuf wire format, an instance of the parameter\<close>

fun varint :: "nat \<Rightarrow> bytes" where
  "varint n = (if n < 128 then [char_of n] else char_of (128 + n mod 128) # varint (n div 128))"

declare varint.simps [simp del]

fun unvarint :: "bytes \<Rightarrow> (nat \<times> bytes) option" where
  "unvarint [] = None"
| "unvarint (c # cs) =
     (if (of_char c :: nat) < 128 then Some (of_char c, cs)
      else map_option (\<lambda>(n, r). (of_char c - 128 + 128 * n, r)) (unvarint cs))"

fun pb_field :: "wire_field \<Rightarrow> bytes" where
  "pb_field (t, Varint n) = varint (t * 8) @ varint (unat n)"
| "pb_field (t, LenDelim b) = varint (t * 8 + 2) @ varint (length b) @ b"
| "pb_field (t, Fixed b) = varint (t * 8 + (if length b = 8 then 1 else 5)) @ b"

definition pb_value :: "nat \<Rightarrow> bytes \<Rightarrow> (wire_val \<times> bytes) option" where
  "pb_value wt b =
     (if wt = 0 then map_option (\<lambda>(n, r). (Varint (of_nat n), r)) (unvarint b)
      else if wt = 2 then Option.bind (unvarint b)
             (\<lambda>(n, r). if n \<le> length r then Some (LenDelim (take n r), drop n r) else None)
      else if wt = 1 then (if 8 \<le> length b then Some (Fixed (take 8 b), drop 8 b) else None)
      else if wt = 5 then (if 4 \<le> length b then Some (Fixed (take 4 b), drop 4 b) else None)
      else None)"

text \<open>Each record takes at least one byte, so the length of the input bounds the records.\<close>

fun pb_decode_n :: "nat \<Rightarrow> bytes \<Rightarrow> wire_field list option" where
  "pb_decode_n 0 b = (if b = [] then Some [] else None)"
| "pb_decode_n (Suc n) b =
     (if b = [] then Some []
      else Option.bind (unvarint b) (\<lambda>(key, r).
             if key div 8 = 0 then None
             else Option.bind (pb_value (key mod 8) r) (\<lambda>(v, r').
               map_option (\<lambda>fs. (key div 8, v) # fs) (pb_decode_n n r'))))"

definition pb_wire :: wire_codec where
  "pb_wire = \<lparr>wc_encode = (\<lambda>fs. concat (map pb_field fs)), wc_decode = (\<lambda>b. pb_decode_n (length b) b)\<rparr>"

section \<open>The contract of a wire codec\<close>

locale wire_format =
  fixes W :: wire_codec
  assumes roundtrip: "list_all encodable fs \<Longrightarrow> wc_decode W (wc_encode W fs) = Some fs"

section \<open>The protobuf wire format meets it\<close>

lemma unvarint_varint: "unvarint (varint n @ r) = Some (n, r)"
proof (induction n rule: varint.induct)
  case (1 n)
  show ?case
  proof (cases "n < 128")
    case True
    then show ?thesis by (subst varint.simps) simp
  next
    case False
    with 1 have IH: "unvarint (varint (n div 128) @ r) = Some (n div 128, r)" by simp
    have "varint n = char_of (128 + n mod 128) # varint (n div 128)"
      using False by (subst varint.simps) simp
    then show ?thesis by (simp add: IH)
  qed
qed

lemma varint_not_Nil [simp]: "varint n \<noteq> []"
  by (subst varint.simps) simp

lemma pb_field_decode:
  assumes "encodable (t, v)"
  shows "pb_decode_n (Suc n) (pb_field (t, v) @ r) = map_option (\<lambda>fs. (t, v) # fs) (pb_decode_n n r)"
proof (cases v)
  case (Varint x)
  have "unat x * 1 = unat x" by simp
  with assms Varint show ?thesis by (simp add: unvarint_varint pb_value_def)
next
  case (LenDelim b)
  have "(t * 8 + 2) div 8 = t" "(t * 8 + 2) mod 8 = 2" by presburger+
  with assms LenDelim show ?thesis by (simp add: unvarint_varint pb_value_def)
qed (use assms in simp)

lemma pb_decode_concat:
  "list_all encodable fs \<Longrightarrow> length fs \<le> n \<Longrightarrow> pb_decode_n n (concat (map pb_field fs)) = Some fs"
proof (induction fs arbitrary: n)
  case Nil
  then show ?case by (cases n) simp_all
next
  case (Cons f fs)
  obtain t v where f: "f = (t, v)" by (cases f)
  obtain m where n: "n = Suc m" "length fs \<le> m" using Cons.prems(2) by (cases n) auto
  have "pb_decode_n (Suc m) (pb_field (t, v) @ concat (map pb_field fs)) = Some ((t, v) # fs)"
    using Cons f n(2) by (subst pb_field_decode) simp_all
  then show ?case using f n(1) by (simp del: pb_decode_n.simps)
qed

lemma pb_field_length: "0 < length (pb_field f)"
  by (cases f rule: pb_field.cases) auto

lemma length_concat_pb: "length fs \<le> length (concat (map pb_field fs))"
proof (induction fs)
  case (Cons f fs)
  moreover from pb_field_length [of f] have "1 \<le> length (pb_field f)" by linarith
  ultimately show ?case by (simp del: length_concat)
qed simp

interpretation pb: wire_format pb_wire
  by unfold_locales (simp add: pb_wire_def pb_decode_concat length_concat_pb)

end
