(* ===== verification/Outgoing.thy ===== *)
theory Outgoing
  imports Stores Proto
begin

text \<open>
  \<open>src/src/manager/outgoing.rs\<close>: assembly of the padded Content of an outbound message, its
  encryption for one device, the local account's address, and the persisted recipient (the
  most recent sender \<open>default.peer\<close> and the focused peer \<open>current.peer\<close>). The functions that
  are generic over the store traits take the record \<open>signal_env\<close> (the traits' methods and
  libsignal's \<open>message_encrypt\<close>) over an arbitrary state. The hex dumps behind
  \<open>XSCDEBUG_DUMP\<close> are diagnostics and are left out.
\<close>

section \<open>Definitions\<close>

abbreviation DIALOGUE_DICT :: string where "DIALOGUE_DICT \<equiv> ''sigchat.dialogue''"
abbreviation DEFAULT_PEER_KEY :: string where "DEFAULT_PEER_KEY \<equiv> ''default.peer''"
abbreviation FOCUSED_PEER_KEY :: string where "FOCUSED_PEER_KEY \<equiv> ''current.peer''"

abbreviation (input) ENVELOPE_CIPHERTEXT :: u32 where "ENVELOPE_CIPHERTEXT \<equiv> 1"
abbreviation (input) ENVELOPE_PREKEY_BUNDLE :: u32 where "ENVELOPE_PREKEY_BUNDLE \<equiv> 3"

record encrypted_message =
  em_ciphertext_bytes :: bytes
  em_ciphertext_type :: u32
  em_destination_device_id :: u32
  em_destination_registration_id :: u32
  em_timestamp_ms :: u64

datatype outgoing_error =
    PddbErr string
  | NoRecipient
  | NoLocalAccount string
  | SessionLoad string
  | NoSession
  | RegistrationId string
  | Encrypt string
  | UnsupportedCiphertextType string
  | BadDeviceId u32

fun outgoing_error_fmt :: "outgoing_error \<Rightarrow> string" where
  "outgoing_error_fmt (PddbErr s) = ''pddb: '' @ s"
| "outgoing_error_fmt NoRecipient = ''no current recipient (no peer has messaged us yet)''"
| "outgoing_error_fmt (NoLocalAccount s) = ''local account: '' @ s"
| "outgoing_error_fmt (SessionLoad s) = ''session load: '' @ s"
| "outgoing_error_fmt NoSession = ''no session for recipient''"
| "outgoing_error_fmt (RegistrationId s) = ''registration_id: '' @ s"
| "outgoing_error_fmt (Encrypt s) = ''encrypt: '' @ s"
| "outgoing_error_fmt (UnsupportedCiphertextType s) = ''unsupported ciphertext type: '' @ s"
| "outgoing_error_fmt (BadDeviceId d) = ''device_id '' @ show_word d @ '' out of range (1..=127)''"

subsection \<open>Padding and content\<close>

text \<open>The loop of \<open>signal_pad\<close>: push zeros until the length is a multiple of 160.\<close>

function pad_zeros :: "bytes \<Rightarrow> bytes" where
  "pad_zeros content =
     (if length content mod 160 \<noteq> 0 then pad_zeros (content @ [CHR 0x00]) else content)"
  by pat_completeness auto
termination
proof (relation "measure (\<lambda>c. (160 - length c mod 160) mod 160)")
  fix content :: bytes
  assume ne: "length content mod 160 \<noteq> 0"
  obtain r where r: "r = length content mod 160" "r < 160" by simp
  have "Suc (length content) mod 160 = (if Suc r = 160 then 0 else Suc r)"
    by (simp add: r(1) mod_Suc)
  with ne r have "(160 - Suc (length content) mod 160) mod 160 < (160 - length content mod 160) mod 160"
    by (cases "Suc r = 160") simp_all
  then show "(content @ [CHR 0x00], content) \<in> measure (\<lambda>c. (160 - length c mod 160) mod 160)"
    by simp
qed simp

declare pad_zeros.simps [simp del]

definition signal_pad :: "bytes \<Rightarrow> bytes" where
  "signal_pad content = pad_zeros (content @ [CHR 0x80])"

definition build_padded_data_message_content :: "wire_codec \<Rightarrow> string \<Rightarrow> u64 \<Rightarrow> bytes" where
  "build_padded_data_message_content W plaintext_body timestamp_ms =
     (let dm = \<lparr>dm_body = Some plaintext_body, dm_timestamp = Some timestamp_ms\<rparr>;
          content = \<lparr>oc_data_message = Some dm, oc_sync_message = None\<rparr>
      in signal_pad (encode_out_content W content))"

definition build_padded_sync_transcript_content ::
  "wire_codec \<Rightarrow> string \<Rightarrow> string \<Rightarrow> u64 \<Rightarrow> bytes" where
  "build_padded_sync_transcript_content W recipient_uuid plaintext_body timestamp_ms =
     (let inner_dm = \<lparr>dm_body = Some plaintext_body, dm_timestamp = Some timestamp_ms\<rparr>;
          sent = \<lparr>os_timestamp = Some timestamp_ms, os_message = Some inner_dm,
                  os_destination_service_id = Some recipient_uuid\<rparr>;
          content = \<lparr>oc_data_message = None, oc_sync_message = Some \<lparr>osy_sent = Some sent\<rparr>\<rparr>
      in signal_pad (encode_out_content W content))"

subsection \<open>Encryption for one device\<close>

datatype ciphertext_message =
  SignalMessage bytes | PreKeySignalMessage bytes | OtherCiphertext string

record 'w signal_env =
  se_load_session :: "protocol_address \<Rightarrow> 'w \<Rightarrow> sig_error + session_record option"
  se_message_encrypt :: "bytes \<Rightarrow> protocol_address \<Rightarrow> protocol_address \<Rightarrow> 'w
     \<Rightarrow> ('w, sig_error, ciphertext_message) sres"

definition encrypted ::
  "bytes \<Rightarrow> u32 \<Rightarrow> protocol_address \<Rightarrow> u32 \<Rightarrow> u64 \<Rightarrow> encrypted_message" where
  "encrypted ciphertext ctype recipient_addr dest_reg_id timestamp_ms =
     \<lparr>em_ciphertext_bytes = ciphertext, em_ciphertext_type = ctype,
      em_destination_device_id = ucast (pa_device recipient_addr),
      em_destination_registration_id = dest_reg_id, em_timestamp_ms = timestamp_ms\<rparr>"

definition encrypt_padded_for_recipient ::
  "libsignal \<Rightarrow> ('w, 'x) signal_env_scheme \<Rightarrow> bytes \<Rightarrow> u64 \<Rightarrow> protocol_address \<Rightarrow> protocol_address
     \<Rightarrow> 'w \<Rightarrow> ('w, outgoing_error, encrypted_message) sres" where
  "encrypt_padded_for_recipient L E padded_content timestamp_ms recipient_addr local_addr w =
     (case se_load_session E recipient_addr w of
        Inl e \<Rightarrow> (Inl (SessionLoad (ls_debug L e)), w)
      | Inr None \<Rightarrow> (Inl NoSession, w)
      | Inr (Some session_record) \<Rightarrow>
          (case ls_remote_registration_id L session_record of
             Inl e \<Rightarrow> (Inl (RegistrationId (ls_debug L e)), w)
           | Inr dest_reg_id \<Rightarrow>
               (case se_message_encrypt E padded_content recipient_addr local_addr w of
                  (Inl e, w1) \<Rightarrow> (Inl (Encrypt (ls_debug L e)), w1)
                | (Inr (SignalMessage msg), w1) \<Rightarrow>
                    (Inr (encrypted msg ENVELOPE_CIPHERTEXT recipient_addr dest_reg_id timestamp_ms), w1)
                | (Inr (PreKeySignalMessage msg), w1) \<Rightarrow>
                    (Inr (encrypted msg ENVELOPE_PREKEY_BUNDLE recipient_addr dest_reg_id timestamp_ms), w1)
                | (Inr (OtherCiphertext t), w1) \<Rightarrow> (Inl (UnsupportedCiphertextType t), w1))))"

definition build_encrypted_message_with_stores ::
  "wire_codec \<Rightarrow> libsignal \<Rightarrow> ('w, 'x) signal_env_scheme \<Rightarrow> string \<Rightarrow> u64 \<Rightarrow> protocol_address
     \<Rightarrow> protocol_address \<Rightarrow> 'w \<Rightarrow> ('w, outgoing_error, encrypted_message) sres" where
  "build_encrypted_message_with_stores W L E plaintext_body timestamp_ms recipient_addr local_addr w =
     encrypt_padded_for_recipient L E (build_padded_data_message_content W plaintext_body timestamp_ms)
       timestamp_ms recipient_addr local_addr w"

subsection \<open>The local account's address\<close>

definition local_protocol_address :: "libsignal \<Rightarrow> 's pddb \<Rightarrow> 's \<Rightarrow> outgoing_error + protocol_address" where
  "local_protocol_address L P s =
     rbind (ok_or (NoLocalAccount ''aci.service_id missing'') (pddb_get_string P ACCOUNT_DICT ''aci.service_id'' s)) (\<lambda>aci.
     rbind (ok_or (NoLocalAccount ''device_id missing'') (pddb_get_string P ACCOUNT_DICT ''device_id'' s)) (\<lambda>dev_str.
     rbind (ok_or (NoLocalAccount (''device_id parse: '' @ parse_u32_err dev_str)) (parse_u32 dev_str)) (\<lambda>dev_id.
     if dev_id = 0 \<or> dev_id > 127 then Inl (BadDeviceId dev_id)
     else rbind (map_err (\<lambda>e. NoLocalAccount (''DeviceId: '' @ e)) (ls_device_id_new L (ucast dev_id))) (\<lambda>dev.
     Inr \<lparr>pa_name = aci, pa_device = dev\<rparr>))))"

definition build_encrypted_message ::
  "wire_codec \<Rightarrow> libsignal \<Rightarrow> 's pddb \<Rightarrow> ('s, 'x) signal_env_scheme \<Rightarrow> string \<Rightarrow> u64 \<Rightarrow> protocol_address
     \<Rightarrow> 's \<Rightarrow> ('s, outgoing_error, encrypted_message) sres" where
  "build_encrypted_message W L P E plaintext_body timestamp_ms recipient_addr s =
     (case local_protocol_address L P s of
        Inl e \<Rightarrow> (Inl e, s)
      | Inr local_addr \<Rightarrow>
          build_encrypted_message_with_stores W L E plaintext_body timestamp_ms recipient_addr local_addr s)"

subsection \<open>The persisted recipient\<close>

definition json_string_needle :: "string \<Rightarrow> string" where
  "json_string_needle key = DQ # key @ [DQ, CHR '':'', DQ]"

definition json_number_needle :: "string \<Rightarrow> string" where
  "json_number_needle key = DQ # key @ [DQ, CHR '':'']"

definition extract_string_field :: "string \<Rightarrow> string \<Rightarrow> string option" where
  "extract_string_field s key =
     (let needle = json_string_needle key in
      case find_str needle s of
        None \<Rightarrow> None
      | Some i \<Rightarrow>
          (let rest = drop (i + length needle) s in
           case find_char (\<lambda>c. c = DQ) rest of
             None \<Rightarrow> None
           | Some e \<Rightarrow> Some (take e rest)))"

definition extract_number_field :: "string \<Rightarrow> string \<Rightarrow> string option" where
  "extract_number_field s key =
     (let needle = json_number_needle key in
      case find_str needle s of
        None \<Rightarrow> None
      | Some i \<Rightarrow>
          (let rest = drop (i + length needle) s in
           Some (take (unwrap_or (length rest) (find_char (\<lambda>c. \<not> is_digit c) rest)) rest)))"

definition parse_peer_json :: "libsignal \<Rightarrow> string \<Rightarrow> outgoing_error + protocol_address" where
  "parse_peer_json L s =
     rbind (ok_or (PddbErr ''peer json: uuid missing'') (extract_string_field s ''uuid'')) (\<lambda>uuid.
     rbind (ok_or (PddbErr ''peer json: device_id missing'') (extract_number_field s ''device_id'')) (\<lambda>dev_str.
     rbind (ok_or (PddbErr (''peer json: device_id parse: '' @ parse_u32_err dev_str)) (parse_u32 dev_str)) (\<lambda>dev_id.
     if dev_id = 0 \<or> dev_id > 127 then Inl (BadDeviceId dev_id)
     else rbind (map_err (\<lambda>e. PddbErr (''DeviceId: '' @ e)) (ls_device_id_new L (ucast dev_id))) (\<lambda>dev.
     Inr \<lparr>pa_name = uuid, pa_device = dev\<rparr>))))"

definition peer_payload :: "protocol_address \<Rightarrow> string" where
  "peer_payload addr =
     CHR ''{'' # json_string_needle ''uuid'' @ pa_name addr @ [DQ, CHR '','']
       @ json_number_needle ''device_id'' @ show_word (ucast (pa_device addr) :: u32) @ ''}''"

fun outgoing_write_error :: "write_error \<Rightarrow> outgoing_error" where
  "outgoing_write_error (GetFailed e) = PddbErr (''get: '' @ io_error_text e)"
| "outgoing_write_error (WriteFailed e) = PddbErr (''write: '' @ io_error_text e)"

definition set_current_recipient ::
  "'s pddb \<Rightarrow> protocol_address \<Rightarrow> 's \<Rightarrow> ('s, outgoing_error, unit) sres" where
  "set_current_recipient P remote_addr s =
     (case pddb_replace P DIALOGUE_DICT DEFAULT_PEER_KEY (peer_payload remote_addr) s of
        (r, s1) \<Rightarrow> (map_err outgoing_write_error r, s1))"

definition current_recipient :: "libsignal \<Rightarrow> 's pddb \<Rightarrow> 's \<Rightarrow> outgoing_error + protocol_address" where
  "current_recipient L P s =
     (case pddb_get_string P DIALOGUE_DICT FOCUSED_PEER_KEY s of
        Some raw \<Rightarrow> parse_peer_json L raw
      | None \<Rightarrow>
          rbind (ok_or NoRecipient (pddb_get_string P DIALOGUE_DICT DEFAULT_PEER_KEY s)) (parse_peer_json L))"

definition set_focused_peer ::
  "'s pddb \<Rightarrow> protocol_address \<Rightarrow> 's \<Rightarrow> ('s, outgoing_error, unit) sres" where
  "set_focused_peer P addr s =
     (case pddb_replace P DIALOGUE_DICT FOCUSED_PEER_KEY (peer_payload addr) s of
        (r, s1) \<Rightarrow> (map_err outgoing_write_error r, s1))"

definition focused_peer_uuid :: "'s pddb \<Rightarrow> 's \<Rightarrow> string option" where
  "focused_peer_uuid P s =
     Option.bind (pddb_get_string P DIALOGUE_DICT FOCUSED_PEER_KEY s) (\<lambda>raw. extract_string_field raw ''uuid'')"

subsection \<open>The demo recipient\<close>

definition is_hexdigit :: "char \<Rightarrow> bool" where
  "is_hexdigit c \<longleftrightarrow> byte_in c 0x30 0x39 \<or> byte_in c 0x41 0x46 \<or> byte_in c 0x61 0x66"

datatype demo_reject = BadUuid string | DeviceParse string | DeviceRange u32 | DeviceIdRejected string

definition hyphenated_uuid :: "string \<Rightarrow> bool" where
  "hyphenated_uuid uuid \<longleftrightarrow> length uuid = 36 \<and>
     list_all (\<lambda>i. if i \<in> {8, 13, 18, 23} then uuid ! i = CHR ''-'' else is_hexdigit (uuid ! i)) [0..<36]"

definition parse_demo_peer :: "libsignal \<Rightarrow> string \<Rightarrow> string option \<Rightarrow> demo_reject + protocol_address" where
  "parse_demo_peer L uuid device_id_str =
     (if \<not> hyphenated_uuid uuid then Inl (BadUuid uuid)
      else rbind (case device_id_str of
                    Some t \<Rightarrow> ok_or (DeviceParse (parse_u32_err t)) (parse_u32 t)
                  | None \<Rightarrow> Inr 1) (\<lambda>device_id.
           if device_id = 0 \<or> device_id > 127 then Inl (DeviceRange device_id)
           else rbind (map_err DeviceIdRejected (ls_device_id_new L (ucast device_id))) (\<lambda>dev.
           Inr \<lparr>pa_name = uuid, pa_device = dev\<rparr>)))"

definition seed_demo_recipient_from_env ::
  "libsignal \<Rightarrow> 's pddb \<Rightarrow> string option \<Rightarrow> string option \<Rightarrow> 's \<Rightarrow> ('s, outgoing_error, bool) sres" where
  "seed_demo_recipient_from_env L P uuid_env dev_env s =
     (case uuid_env of
        None \<Rightarrow> (Inr False, s)
      | Some u \<Rightarrow>
          (if u = [] then (Inr False, s)
           else case parse_demo_peer L u dev_env of
                  Inl _ \<Rightarrow> (Inr False, s)
                | Inr addr \<Rightarrow>
                    (case current_recipient L P s of
                       Inr _ \<Rightarrow> (Inr False, s)
                     | Inl _ \<Rightarrow> sbind (set_current_recipient P addr s) (\<lambda>_ s1. (Inr True, s1)))))"

section \<open>Padding\<close>

lemma pad_zeros_replicate: "\<exists>n < 160. pad_zeros c = c @ replicate n (CHR 0x00) \<and> (length c + n) mod 160 = 0"
proof (induction c rule: pad_zeros.induct)
  case (1 c)
  show ?case
  proof (cases "length c mod 160 = 0")
    case True
    then show ?thesis by (subst pad_zeros.simps) (auto intro!: exI [of _ 0])
  next
    case False
    from 1 [OF False] obtain n where n: "n < 160"
      "pad_zeros (c @ [CHR 0x00]) = (c @ [CHR 0x00]) @ replicate n (CHR 0x00)"
      "(length (c @ [CHR 0x00]) + n) mod 160 = 0" by (elim exE conjE)
    have "n \<noteq> 159"
    proof
      assume "n = 159"
      with n(3) have "(length c + 160) mod 160 = 0" by (simp add: add.commute)
      with False show False by simp
    qed
    with n False show ?thesis
      by (subst pad_zeros.simps) (auto intro!: exI [of _ "Suc n"] simp: replicate_app_Cons_same)
  qed
qed

lemma signal_pad_shape:
  "\<exists>n < 160. signal_pad c = c @ CHR 0x80 # replicate n (CHR 0x00) \<and> (length c + 1 + n) mod 160 = 0"
  using pad_zeros_replicate [of "c @ [CHR 0x80]"] by (simp add: signal_pad_def)

section \<open>The recipient's JSON\<close>

lemma starts_with_quoted:
  assumes "DQ \<notin> set key" "DQ \<notin> set name" "c \<noteq> d"
  shows "\<not> starts_with (DQ # key @ DQ # c # ps) (DQ # name @ DQ # d # rest)"
proof
  assume "starts_with (DQ # key @ DQ # c # ps) (DQ # name @ DQ # d # rest)"
  then obtain t where "name @ DQ # (d # rest) = key @ DQ # (c # ps @ t)" by (auto simp: starts_with_iff)
  with assms show False by (simp add: cons_sep_inject)
qed

lemma no_quote_start:
  assumes "DQ \<notin> set a" "i < length a"
  shows "\<not> starts_with (DQ # n) (drop i a @ b)"
  using assms by (metis append_Cons Cons_nth_drop_Suc nth_mem starts_with_Cons)

lemma find_str_quote_skip:
  "DQ \<notin> set a \<Longrightarrow> find_str (DQ # n) (a @ b) = map_option (\<lambda>k. length a + k) (find_str (DQ # n) b)"
  by (rule find_str_skip) (rule no_quote_start)

lemma quote_notin_show_word [simp]: "DQ \<notin> set (show_word w)"
  using show_word_digits [of DQ w] by (auto simp: is_digit_def)

lemma find_char_quote: "DQ \<notin> set a \<Longrightarrow> find_char (\<lambda>c. c = DQ) (a @ DQ # b) = Some (length a)"
  by (subst find_char_append) auto

lemma extract_uuid_payload:
  assumes "DQ \<notin> set (pa_name a)"
  shows "extract_string_field (peer_payload a) ''uuid'' = Some (pa_name a)"
proof -
  let ?n = "json_string_needle ''uuid''"
  let ?r = "pa_name a @ DQ # CHR '','' # json_number_needle ''device_id'' @ show_word (ucast (pa_device a) :: u32) @ ''}''"
  have pay: "peer_payload a = CHR ''{'' # ?n @ ?r" by (simp add: peer_payload_def)
  have "find_str ?n (CHR ''{'' # ?n @ ?r) = Some 1"
    using find_str_quote_skip [of "[CHR ''{'']" "tl ?n" "?n @ ?r"]
    by (simp add: json_string_needle_def del: find_str.simps)
      (metis append_Cons find_str_self option.simps(9) plus_1_eq_Suc append.assoc append_Nil)
  then show ?thesis
    using assms by (simp add: extract_string_field_def pay find_char_quote del: find_str.simps)
qed

lemma find_str_after_quoted:
  assumes "DQ \<notin> set (k # key)" "DQ \<notin> set name" "d \<noteq> CHR '':''" "d \<noteq> DQ" "d \<noteq> k"
  shows "find_str (DQ # k # key @ [DQ, CHR '':'']) (DQ # name @ DQ # d # rest) =
    map_option (\<lambda>i. length name + 3 + i) (find_str (DQ # k # key @ [DQ, CHR '':'']) rest)"
proof -
  let ?n = "DQ # k # key @ [DQ, CHR '':'']"
  have first: "\<not> starts_with ?n (DQ # name @ DQ # d # rest)"
    using starts_with_quoted [OF assms(1,2), of "CHR '':''" d "[]" rest] assms(3) by simp
  have "find_str ?n (name @ DQ # d # rest) = map_option (\<lambda>i. length name + i) (find_str ?n (DQ # d # rest))"
    by (rule find_str_quote_skip [OF assms(2)])
  also have "find_str ?n (DQ # d # rest) = map_option (\<lambda>i. 2 + i) (find_str ?n rest)"
    using assms(4,5) by (simp add: option.map_comp comp_def)
  finally have "find_str ?n (name @ DQ # d # rest) = map_option (\<lambda>i. length name + 2 + i) (find_str ?n rest)"
    by (simp add: option.map_comp comp_def add.assoc)
  with first show ?thesis by (cases "find_str ?n rest") simp_all
qed

lemma take_digits:
  assumes "\<And>c. c \<in> set ds \<Longrightarrow> is_digit c" "\<not> is_digit e"
  shows "take (unwrap_or n (find_char (\<lambda>c. \<not> is_digit c) (ds @ e # r))) (ds @ e # r) = ds"
  using assms by (subst find_char_append) auto

lemma extract_device_payload:
  assumes "DQ \<notin> set (pa_name a)"
  shows "extract_number_field (peer_payload a) ''device_id'' = Some (show_word (ucast (pa_device a) :: u32))"
proof -
  let ?n = "json_number_needle ''device_id''"
  let ?d = "show_word (ucast (pa_device a) :: u32)"
  let ?head = "CHR ''{'' # DQ # ''uuid'' @ [DQ, CHR '':'']"
  have n: "?n = DQ # CHR ''d'' # ''evice_id'' @ [DQ, CHR '':'']" by (simp add: json_number_needle_def)
  have pay: "peer_payload a = ?head @ DQ # pa_name a @ DQ # CHR '','' # ?n @ ?d @ ''}''"
    by (simp add: peer_payload_def json_string_needle_def)
  have tail: "find_str ?n (DQ # pa_name a @ DQ # CHR '','' # ?n @ ?d @ ''}'') = Some (length (pa_name a) + 3)"
    using find_str_after_quoted [of "CHR ''d''" "''evice_id''" "pa_name a" "CHR '',''" "?n @ ?d @ ''}''"]
      find_str_self [of ?n "?d @ ''}''"] assms
    by (simp only: n [symmetric]) simp
  have "find_str ?n (?head @ x) = map_option (\<lambda>i. 8 + i) (find_str ?n x)" for x
    by (cases "find_str ?n x") (simp_all add: json_number_needle_def)
  then have found: "find_str ?n (peer_payload a) = Some (length (pa_name a) + 11)"
    by (simp only: pay tail) simp
  let ?pre = "?head @ DQ # pa_name a @ DQ # CHR '','' # ?n"
  have "length ?pre = length (pa_name a) + 11 + length ?n" by simp
  moreover have "peer_payload a = ?pre @ ?d @ ''}''" by (simp add: pay)
  ultimately have drp: "drop (length (pa_name a) + 11 + length ?n) (peer_payload a) = ?d @ ''}''"
    by (metis append_eq_conv_conj)
  have "extract_number_field (peer_payload a) ''device_id'' =
      Some (take (unwrap_or (length (?d @ ''}'')) (find_char (\<lambda>c. \<not> is_digit c) (?d @ ''}''))) (?d @ ''}''))"
    by (simp only: extract_number_field_def Let_def found option.case drp)
  also have "\<dots> = Some ?d"
    by (subst take_digits) (simp_all add: show_word_digits, simp add: is_digit_def)
  finally show ?thesis .
qed

lemma parse_peer_payload:
  assumes "DQ \<notin> set (pa_name a)" "1 \<le> pa_device a" "pa_device a \<le> 127"
    and "ls_device_id_new L (pa_device a) = Inr (pa_device a)"
  shows "parse_peer_json L (peer_payload a) = Inr a"
proof -
  have "(ucast (pa_device a) :: u32) \<noteq> 0" "\<not> 127 < (ucast (pa_device a) :: u32)"
    using assms(2,3) by (auto simp: word_less_nat_alt word_le_nat_alt unat_ucast_u8 word_unat_eq_iff)
  then show ?thesis
    using assms by (simp add: parse_peer_json_def extract_uuid_payload extract_device_payload)
qed

section \<open>Properties\<close>

text \<open>The padding of an outbound Content: the marker byte follows the content, then zeros
  up to the next multiple of 160; at least one and at most 160 bytes are added.\<close>

theorem signal_pad_bounds:
  "length (signal_pad c) mod 160 = 0 \<and> take (length c + 1) (signal_pad c) = c @ [CHR 0x80]
    \<and> length c < length (signal_pad c) \<and> length (signal_pad c) \<le> length c + 160"
  using signal_pad_shape [of c] by auto

text \<open>A reply goes where the last message came from: storing an address as the most recent
  sender makes it the current recipient while no peer is focused, and storing it as the
  focused peer makes it the current recipient and the focused uuid in any case.\<close>

theorem recipient_roundtrip:
  assumes "healthy_pddb P view"
    and "DQ \<notin> set (pa_name a)" "utf8_valid (peer_payload a)"
    and "1 \<le> pa_device a" "pa_device a \<le> 127" "ls_device_id_new L (pa_device a) = Inr (pa_device a)"
  shows "(view s (DIALOGUE_DICT, FOCUSED_PEER_KEY) = None \<longrightarrow>
        set_current_recipient P a s = (Inr (), snd (set_current_recipient P a s))
        \<and> current_recipient L P (snd (set_current_recipient P a s)) = Inr a)
    \<and> set_focused_peer P a s = (Inr (), snd (set_focused_peer P a s))
    \<and> current_recipient L P (snd (set_focused_peer P a s)) = Inr a
    \<and> focused_peer_uuid P (snd (set_focused_peer P a s)) = Some (pa_name a)"
proof -
  note hp = healthy_pddb.replace_eq [OF assms(1)] healthy_pddb.replace_view [OF assms(1)]
    healthy_pddb.get_string_eq [OF assms(1)]
  obtain s1 where s1: "pddb_replace P DIALOGUE_DICT DEFAULT_PEER_KEY (peer_payload a) s = (Inr (), s1)"
      "view s1 = (view s)((DIALOGUE_DICT, DEFAULT_PEER_KEY) \<mapsto> peer_payload a)"
    using hp(1,2) by (metis snd_conv)
  obtain s2 where s2: "pddb_replace P DIALOGUE_DICT FOCUSED_PEER_KEY (peer_payload a) s = (Inr (), s2)"
      "view s2 = (view s)((DIALOGUE_DICT, FOCUSED_PEER_KEY) \<mapsto> peer_payload a)"
    using hp(1,2) by (metis snd_conv)
  have parse: "parse_peer_json L (peer_payload a) = Inr a"
    by (rule parse_peer_payload) (use assms in auto)
  show ?thesis
    using assms(2,3) parse
    by (simp add: set_current_recipient_def set_focused_peer_def current_recipient_def
        focused_peer_uuid_def s1 s2 hp(3) extract_uuid_payload)
qed

theorem recipient_roundtrip_witness:
  "current_recipient token_libsignal mem_pddb
     (snd (set_current_recipient mem_pddb \<lparr>pa_name = ''ab'', pa_device = 2\<rparr> [])) =
   Inr \<lparr>pa_name = ''ab'', pa_device = 2\<rparr>"
proof -
  let ?a = "\<lparr>pa_name = ''ab'', pa_device = 2\<rparr> :: protocol_address"
  have "utf8_valid (peer_payload ?a)"
    by (rule utf8_valid_ascii) (auto simp: peer_payload_def json_string_needle_def
        json_number_needle_def is_digit_def dest!: show_word_digits)
  then show ?thesis
    using recipient_roundtrip [where P = mem_pddb and view = map_of and a = ?a and L = token_libsignal and s = "[]",
        OF mem.healthy_pddb_axioms]
    by (simp add: token_libsignal_def)
qed

text \<open>What the demo seed accepts: exactly a hyphenated UUID with a device id from 1 to 127
  (1 when none is given) that libsignal accepts as well, and then the address of these two.\<close>

theorem parse_demo_peer_accepts:
  "parse_demo_peer L uuid dev = Inr a \<longleftrightarrow>
     hyphenated_uuid uuid \<and>
     (\<exists>d. (case dev of None \<Rightarrow> Some 1 | Some t \<Rightarrow> parse_u32 t) = Some d \<and> 1 \<le> d \<and> d \<le> 127
        \<and> ls_device_id_new L (ucast d) = Inr (pa_device a)) \<and> pa_name a = uuid"
proof -
  have range: "1 \<le> d \<and> d \<le> 127 \<longleftrightarrow> d \<noteq> 0 \<and> \<not> 127 < d" for d :: u32
    by (auto simp: word_le_nat_alt word_less_nat_alt word_unat_eq_iff)
  have "parse_demo_peer L uuid dev = Inr a \<longleftrightarrow>
     hyphenated_uuid uuid \<and>
     (\<exists>d. (case dev of None \<Rightarrow> Some 1 | Some t \<Rightarrow> parse_u32 t) = Some d \<and> (d \<noteq> 0 \<and> \<not> 127 < d)
        \<and> ls_device_id_new L (ucast d) = Inr (pa_device a)) \<and> pa_name a = uuid"
    by (cases a; cases dev) (auto simp: parse_demo_peer_def res_simps split: if_splits)
  then show ?thesis by (simp only: range [symmetric] conj_assoc)
qed

text \<open>Encryption for a device: without a stored session the message is refused with
  \<open>NoSession\<close> and nothing changes; a result is addressed to the device of the given address,
  carries the given timestamp and has the wire type of a Signal or a prekey message.\<close>

theorem encrypt_addressing:
  "(se_load_session E a w = Inr None \<longrightarrow> encrypt_padded_for_recipient L E c ts a l w = (Inl NoSession, w))
   \<and> (encrypt_padded_for_recipient L E c ts a l w = (Inr m, w') \<longrightarrow>
       em_destination_device_id m = ucast (pa_device a) \<and> em_timestamp_ms m = ts
       \<and> em_ciphertext_type m \<in> {ENVELOPE_CIPHERTEXT, ENVELOPE_PREKEY_BUNDLE}
       \<and> (\<exists>r. se_load_session E a w = Inr (Some r) \<and> ls_remote_registration_id L r = Inr (em_destination_registration_id m)))"
  by (auto simp: encrypt_padded_for_recipient_def encrypted_def
      split: sum.splits option.splits prod.splits ciphertext_message.splits)

end
