(* ===== verification/Prekeys.thy ===== *)
theory Prekeys
  imports Outgoing
begin

text \<open>
  \<open>src/src/manager/prekeys.rs\<close> and \<open>src/src/manager/prekey_replenish.rs\<close>: generation of the
  signed and Kyber prekeys of the link flow and of batches of one-time prekeys with their
  persistent id counter, and the threshold-driven replenishment over injected closures. The
  operating system's random generator, curve and KEM operations are the record \<open>keygen\<close> over
  a generator state; the world is the pair of the PDDB state and that state.
\<close>

section \<open>Definitions\<close>

abbreviation (input) MEDIUM_MAX :: u32 where "MEDIUM_MAX \<equiv> 0xFFFFFF"
abbreviation ACI_NEXT_PREKEY_ID_KEY :: string where "ACI_NEXT_PREKEY_ID_KEY \<equiv> ''aci.next_prekey_id''"
abbreviation (input) PRE_KEY_MINIMUM :: u32 where "PRE_KEY_MINIMUM \<equiv> 10"
abbreviation (input) PRE_KEY_BATCH_SIZE :: u32 where "PRE_KEY_BATCH_SIZE \<equiv> 100"

datatype keypair = KeyPair bytes

record 'g keygen =
  kg_next_u32 :: "'g \<Rightarrow> u32 \<times> 'g"
  kg_generate :: "'g \<Rightarrow> keypair \<times> 'g"
  kg_public_serialize :: "keypair \<Rightarrow> bytes"
  kg_prekey_new :: "u32 \<Rightarrow> keypair \<Rightarrow> prekey_record"
  kg_signed_new :: "u32 \<Rightarrow> u64 \<Rightarrow> keypair \<Rightarrow> bytes \<Rightarrow> signed_prekey_record"
  kg_signed_id :: "signed_prekey_record \<Rightarrow> sig_error + u32"
  kg_kyber_generate :: "u32 \<Rightarrow> private_key \<Rightarrow> 'g \<Rightarrow> ('g, sig_error, kyber_prekey_record) sres"
  kg_kyber_id :: "kyber_prekey_record \<Rightarrow> sig_error + u32"
  kg_kyber_public :: "kyber_prekey_record \<Rightarrow> sig_error + bytes"
  kg_kyber_signature :: "kyber_prekey_record \<Rightarrow> sig_error + bytes"
  kg_sign :: "private_key \<Rightarrow> bytes \<Rightarrow> 'g \<Rightarrow> ('g, sig_error, bytes) sres"
  kg_public_of :: "private_key \<Rightarrow> sig_error + public_key"
  kg_verify :: "public_key \<Rightarrow> bytes \<Rightarrow> bytes \<Rightarrow> bool"
  kg_b64_no_pad :: "bytes \<Rightarrow> string"

subsection \<open>Signed and Kyber prekeys of the link flow\<close>

record signed_pre_key_json =
  spj_key_id :: u32
  spj_public_key_b64url :: string
  spj_signature_b64url :: string

record kyber_pre_key_json =
  kpj_key_id :: u32
  kpj_public_key_b64url :: string
  kpj_signature_b64url :: string

record prekeys =
  pk_aci_signed :: signed_pre_key_json
  pk_pni_signed :: signed_pre_key_json
  pk_aci_kyber_last_resort :: kyber_pre_key_json
  pk_pni_kyber_last_resort :: kyber_pre_key_json
  pk_aci_signed_record :: signed_prekey_record
  pk_pni_signed_record :: signed_prekey_record
  pk_aci_kyber_record :: kyber_prekey_record
  pk_pni_kyber_record :: kyber_prekey_record

definition map_signal_err :: "libsignal \<Rightarrow> sig_error \<Rightarrow> io_error" where
  "map_signal_err L e = IoError OtherKind (''libsignal: '' @ ls_debug L e)"

definition random_prekey_id :: "'g keygen \<Rightarrow> 'g \<Rightarrow> u32 \<times> 'g" where
  "random_prekey_id G g = (case kg_next_u32 G g of (r, g1) \<Rightarrow> (r mod MEDIUM_MAX + 1, g1))"

definition generate_signed_prekey ::
  "'g keygen \<Rightarrow> private_key \<Rightarrow> 'g \<Rightarrow> ('g, io_error, signed_pre_key_json \<times> signed_prekey_record) sres" where
  "generate_signed_prekey G identity_private g =
     (case random_prekey_id G g of (key_id, g1) \<Rightarrow>
      case kg_generate G g1 of (keypair, g2) \<Rightarrow>
        (let public_serialized = kg_public_serialize G keypair in
         case kg_sign G identity_private public_serialized g2 of
           (Inl _, g3) \<Rightarrow> (Inl (IoError OtherKind ''signed prekey signing failed''), g3)
         | (Inr signature, g3) \<Rightarrow>
             (case kg_public_of G identity_private of
                Inl _ \<Rightarrow> (Inl (IoError OtherKind ''identity public key derivation failed''), g3)
              | Inr identity_public \<Rightarrow>
                  (if \<not> kg_verify G identity_public public_serialized signature
                   then (Inl (IoError InvalidData ''signed prekey self-verification failed''), g3)
                   else
                     (Inr (\<lparr>spj_key_id = key_id, spj_public_key_b64url = kg_b64_no_pad G public_serialized,
                            spj_signature_b64url = kg_b64_no_pad G signature\<rparr>,
                           kg_signed_new G key_id 0 keypair signature), g3)))))"

definition generate_kyber_last_resort ::
  "'g keygen \<Rightarrow> private_key \<Rightarrow> 'g \<Rightarrow> ('g, io_error, kyber_pre_key_json \<times> kyber_prekey_record) sres" where
  "generate_kyber_last_resort G identity_private g =
     (case random_prekey_id G g of (key_id, g1) \<Rightarrow>
      case kg_kyber_generate G key_id identity_private g1 of
        (Inl _, g2) \<Rightarrow> (Inl (IoError OtherKind ''kyber last-resort generation failed''), g2)
      | (Inr record, g2) \<Rightarrow>
          (rbind (map_err (\<lambda>_. IoError OtherKind ''kyber public_key() failed'') (kg_kyber_public G record)) (\<lambda>public_serialized.
           rbind (map_err (\<lambda>_. IoError OtherKind ''kyber signature() failed'') (kg_kyber_signature G record)) (\<lambda>signature.
           rbind (map_err (\<lambda>_. IoError OtherKind ''identity public key derivation failed'') (kg_public_of G identity_private)) (\<lambda>identity_public.
           if \<not> kg_verify G identity_public public_serialized signature
           then Inl (IoError InvalidData ''kyber prekey self-verification failed'')
           else Inr (\<lparr>kpj_key_id = key_id, kpj_public_key_b64url = kg_b64_no_pad G public_serialized,
                      kpj_signature_b64url = kg_b64_no_pad G signature\<rparr>, record)))), g2))"

definition generate_prekeys ::
  "'g keygen \<Rightarrow> private_key \<Rightarrow> private_key \<Rightarrow> 'g \<Rightarrow> ('g, io_error, prekeys) sres" where
  "generate_prekeys G aci_identity_private pni_identity_private g =
     sbind (generate_signed_prekey G aci_identity_private g) (\<lambda>(aci_signed, aci_signed_record) g1.
     sbind (generate_signed_prekey G pni_identity_private g1) (\<lambda>(pni_signed, pni_signed_record) g2.
     sbind (generate_kyber_last_resort G aci_identity_private g2) (\<lambda>(aci_kyber, aci_kyber_record) g3.
     sbind (generate_kyber_last_resort G pni_identity_private g3) (\<lambda>(pni_kyber, pni_kyber_record) g4.
     (Inr \<lparr>pk_aci_signed = aci_signed, pk_pni_signed = pni_signed,
           pk_aci_kyber_last_resort = aci_kyber, pk_pni_kyber_last_resort = pni_kyber,
           pk_aci_signed_record = aci_signed_record, pk_pni_signed_record = pni_signed_record,
           pk_aci_kyber_record = aci_kyber_record, pk_pni_kyber_record = pni_kyber_record\<rparr>, g4)))))"

text \<open>\<open>record.id()\<close> followed by the save, with libsignal's error mapped.\<close>

definition save_signed ::
  "libsignal \<Rightarrow> 'g keygen \<Rightarrow> 's pddb \<Rightarrow> signed_prekey_record \<Rightarrow> 's \<Rightarrow> ('s, io_error, unit) sres" where
  "save_signed L G P r s =
     (case kg_signed_id G r of
        Inl e \<Rightarrow> (Inl (map_signal_err L e), s)
      | Inr i \<Rightarrow> (case save_signed_pre_key L P SIGNED_PREKEY_DICT i r s of (x, s1) \<Rightarrow> (map_err (map_signal_err L) x, s1)))"

definition save_kyber ::
  "libsignal \<Rightarrow> 'g keygen \<Rightarrow> 's pddb \<Rightarrow> kyber_prekey_record \<Rightarrow> 's \<Rightarrow> ('s, io_error, unit) sres" where
  "save_kyber L G P r s =
     (case kg_kyber_id G r of
        Inl e \<Rightarrow> (Inl (map_signal_err L e), s)
      | Inr i \<Rightarrow> (case save_kyber_pre_key L P KYBER_PREKEY_DICT i r s of (x, s1) \<Rightarrow> (map_err (map_signal_err L) x, s1)))"

definition save_to_pddb :: "libsignal \<Rightarrow> 'g keygen \<Rightarrow> 's pddb \<Rightarrow> prekeys \<Rightarrow> 's \<Rightarrow> ('s, io_error, unit) sres" where
  "save_to_pddb L G P pk s =
     sbind (save_signed L G P (pk_aci_signed_record pk) s) (\<lambda>_ s1.
     sbind (save_signed L G P (pk_pni_signed_record pk) s1) (\<lambda>_ s2.
     sbind (save_kyber L G P (pk_aci_kyber_record pk) s2) (\<lambda>_ s3.
     save_kyber L G P (pk_pni_kyber_record pk) s3)))"

subsection \<open>One-time prekeys and their counter\<close>

record one_time_pre_key_json =
  otj_key_id :: u32
  otj_public_key_b64url :: string

record one_time_pre_key_batch =
  otb_json :: "one_time_pre_key_json list"
  otb_count :: u32

fun counter_write_error :: "write_error \<Rightarrow> io_error" where
  "counter_write_error (GetFailed e) = IoError OtherKind (''counter get: '' @ io_error_text e)"
| "counter_write_error (WriteFailed e) = IoError OtherKind (''counter write: '' @ io_error_text e)"

definition write_prekey_counter :: "'s pddb \<Rightarrow> u32 \<Rightarrow> 's \<Rightarrow> ('s, io_error, unit) sres" where
  "write_prekey_counter P nxt s =
     (case pddb_replace P ACCOUNT_DICT ACI_NEXT_PREKEY_ID_KEY (show_word nxt) s of
        (r, s1) \<Rightarrow> (map_err counter_write_error r, s1))"

definition stored_counter :: "'s pddb \<Rightarrow> 's \<Rightarrow> u32 option" where
  "stored_counter P s =
     (case pddb_get_string P ACCOUNT_DICT ACI_NEXT_PREKEY_ID_KEY s of
        None \<Rightarrow> None
      | Some t \<Rightarrow>
          (case parse_u32 (trim t) of
             None \<Rightarrow> None
           | Some v \<Rightarrow> if v \<ge> 1 \<and> v \<le> MEDIUM_MAX then Some v else None))"

definition read_or_init_prekey_counter ::
  "'s pddb \<Rightarrow> 'g keygen \<Rightarrow> 's \<times> 'g \<Rightarrow> ('s \<times> 'g, io_error, u32) sres" where
  "read_or_init_prekey_counter P G w =
     (case stored_counter P (fst w) of
        Some v \<Rightarrow> (Inr v, w)
      | None \<Rightarrow>
          (case kg_next_u32 G (snd w) of (r, g1) \<Rightarrow>
             (let seed = r mod 1000 + 1 in
              case write_prekey_counter P seed (fst w) of
                (Inl e, s1) \<Rightarrow> (Inl e, (s1, g1))
              | (Inr _, s1) \<Rightarrow> (Inr seed, (s1, g1)))))"

definition succ_prekey_id :: "u32 \<Rightarrow> u32" where
  "succ_prekey_id nxt = (if nxt \<ge> MEDIUM_MAX then 1 else nxt + 1)"

definition advance_prekey_counter :: "u32 \<Rightarrow> nat \<Rightarrow> u32" where
  "advance_prekey_counter start count = (succ_prekey_id ^^ count) start"

text \<open>The loop of \<open>generate_one_time_prekeys\<close>: the entries pushed, and the next id.\<close>

fun generate_loop ::
  "libsignal \<Rightarrow> 's pddb \<Rightarrow> 'g keygen \<Rightarrow> nat \<Rightarrow> u32 \<Rightarrow> 's \<times> 'g
     \<Rightarrow> ('s \<times> 'g, io_error, one_time_pre_key_json list \<times> u32) sres" where
  "generate_loop L P G 0 nxt w = (Inr ([], nxt), w)"
| "generate_loop L P G (Suc n) nxt w =
     (case kg_generate G (snd w) of (kp, g1) \<Rightarrow>
      case save_pre_key L P PREKEY_DICT nxt (kg_prekey_new G nxt kp) (fst w) of
        (Inl e, s1) \<Rightarrow> (Inl (map_signal_err L e), (s1, g1))
      | (Inr _, s1) \<Rightarrow>
          sbind (generate_loop L P G n (succ_prekey_id nxt) (s1, g1))
            (\<lambda>(js, nxt') w2.
               (Inr (\<lparr>otj_key_id = nxt, otj_public_key_b64url = kg_b64_no_pad G (kg_public_serialize G kp)\<rparr> # js, nxt'), w2)))"

definition generate_one_time_prekeys ::
  "libsignal \<Rightarrow> 's pddb \<Rightarrow> 'g keygen \<Rightarrow> u32 \<Rightarrow> 's \<times> 'g \<Rightarrow> ('s \<times> 'g, io_error, one_time_pre_key_batch) sres" where
  "generate_one_time_prekeys L P G count w =
     (if count = 0 then (Inr \<lparr>otb_json = [], otb_count = 0\<rparr>, w)
      else sbind (read_or_init_prekey_counter P G w) (\<lambda>start_id w1.
           sbind (generate_loop L P G (unat count) start_id w1) (\<lambda>(json, nxt) w2.
           (case write_prekey_counter P nxt (fst w2) of
              (Inl e, s3) \<Rightarrow> (Inl e, (s3, snd w2))
            | (Inr _, s3) \<Rightarrow> (Inr \<lparr>otb_json = json, otb_count = count\<rparr>, (s3, snd w2))))))"

subsection \<open>Replenishment\<close>

record pre_key_count =
  pkc_count :: u32
  pkc_pq_count :: u32

record one_time_pre_key_entity =
  ote_key_id :: u32
  ote_public_key :: string

record signed_pre_key_entity =
  ske_key_id :: u32
  ske_public_key :: string
  ske_signature :: string

record kyber_pre_key_entity =
  kke_key_id :: u32
  kke_public_key :: string
  kke_signature :: string

record set_keys_request =
  skr_pre_keys :: "one_time_pre_key_entity list"
  skr_signed_pre_key :: "signed_pre_key_entity option"
  skr_pq_pre_keys :: "kyber_pre_key_entity list"
  skr_pq_last_resort_pre_key :: "kyber_pre_key_entity option"

definition set_keys_default :: set_keys_request where
  "set_keys_default = \<lparr>skr_pre_keys = [], skr_signed_pre_key = None, skr_pq_pre_keys = [], skr_pq_last_resort_pre_key = None\<rparr>"

datatype replenish_outcome = Skipped u32 | Replenished u32 | Failed string

definition to_entity :: "one_time_pre_key_json \<Rightarrow> one_time_pre_key_entity" where
  "to_entity k = \<lparr>ote_key_id = otj_key_id k, ote_public_key = otj_public_key_b64url k\<rparr>"

definition run_replenish ::
  "u32 \<Rightarrow> u32 \<Rightarrow> ('w \<Rightarrow> ('w, io_error, pre_key_count) sres)
     \<Rightarrow> (u32 \<Rightarrow> 'w \<Rightarrow> ('w, io_error, one_time_pre_key_json list) sres)
     \<Rightarrow> (set_keys_request \<Rightarrow> 'w \<Rightarrow> ('w, io_error, unit) sres) \<Rightarrow> 'w \<Rightarrow> replenish_outcome \<times> 'w" where
  "run_replenish threshold batch_size get_status generate put_keys w =
     (case get_status w of
        (Inl e, w1) \<Rightarrow> (Failed (''get_keys_status: '' @ io_error_text e), w1)
      | (Inr status, w1) \<Rightarrow>
          (if pkc_count status \<ge> threshold then (Skipped (pkc_count status), w1)
           else case generate batch_size w1 of
                  (Inl e, w2) \<Rightarrow> (Failed (''generate_one_time_prekeys: '' @ io_error_text e), w2)
                | (Inr json_keys, w2) \<Rightarrow>
                    (let body = set_keys_default\<lparr>skr_pre_keys := map to_entity json_keys\<rparr>;
                         uploaded = of_nat (length (skr_pre_keys body))
                     in case put_keys body w2 of
                          (Inl e, w3) \<Rightarrow> (Failed (''put_keys: '' @ io_error_text e), w3)
                        | (Inr _, w3) \<Rightarrow> (Replenished uploaded, w3))))"

text \<open>The production wiring: generation on the PDDB and the random generator, the two REST calls
  on the network, of the world \<open>(('s, 'g), 'h)\<close>.\<close>

definition lift_store :: "('w \<Rightarrow> ('w, 'e, 'a) sres) \<Rightarrow> 'w \<times> 'h \<Rightarrow> ('w \<times> 'h, 'e, 'a) sres" where
  "lift_store f w = (case f (fst w) of (r, x) \<Rightarrow> (r, (x, snd w)))"

definition lift_net :: "('h \<Rightarrow> ('h, 'e, 'a) sres) \<Rightarrow> 'w \<times> 'h \<Rightarrow> ('w \<times> 'h, 'e, 'a) sres" where
  "lift_net f w = (case f (snd w) of (r, x) \<Rightarrow> (r, (fst w, x)))"

definition replenish_aci_one_time_prekeys ::
  "libsignal \<Rightarrow> 's pddb \<Rightarrow> 'g keygen \<Rightarrow> (string \<Rightarrow> string \<Rightarrow> 'h \<Rightarrow> ('h, io_error, pre_key_count) sres)
     \<Rightarrow> (string \<Rightarrow> string \<Rightarrow> set_keys_request \<Rightarrow> 'h \<Rightarrow> ('h, io_error, unit) sres)
     \<Rightarrow> string \<Rightarrow> u32 \<Rightarrow> string \<Rightarrow> ('s \<times> 'g) \<times> 'h \<Rightarrow> replenish_outcome \<times> (('s \<times> 'g) \<times> 'h)" where
  "replenish_aci_one_time_prekeys L P G get_keys_status put_keys aci device_id password w =
     (let identifier = aci @ ''.'' @ show_word device_id in
      run_replenish PRE_KEY_MINIMUM PRE_KEY_BATCH_SIZE
        (lift_net (get_keys_status identifier password))
        (\<lambda>n. lift_store (\<lambda>w. sbind (generate_one_time_prekeys L P G n w) (\<lambda>batch w1. (Inr (otb_json batch), w1))))
        (\<lambda>body. lift_net (put_keys identifier password body)) w)"

section \<open>Prekey ids\<close>

abbreviation (input) id_ok :: "u32 \<Rightarrow> bool" where "id_ok i \<equiv> 1 \<le> i \<and> i \<le> MEDIUM_MAX"

lemma id_ok_unat: "id_ok i \<longleftrightarrow> 1 \<le> unat i \<and> unat i \<le> 16777215"
  by (simp add: word_le_nat_alt)

lemma u32_suc: "unat i < 4294967295 \<Longrightarrow> unat (i + 1 :: u32) = unat i + 1"
proof -
  assume "unat i < 4294967295"
  then have "unat i + unat (1 :: u32) < 2 ^ LENGTH(32)" by simp
  then have "unat (i + 1) = unat i + unat (1 :: u32)" by (rule unat_add_lem [THEN iffD1])
  then show ?thesis by simp
qed

lemma succ_unat: "id_ok i \<Longrightarrow> unat (succ_prekey_id i) = unat i mod 16777215 + 1"
proof -
  assume "id_ok i"
  then have i: "1 \<le> unat i" "unat i \<le> 16777215" by (simp_all add: id_ok_unat)
  show ?thesis
  proof (cases "unat i = 16777215")
    case True
    then show ?thesis by (simp add: succ_prekey_id_def word_le_nat_alt)
  next
    case False
    with i have lt: "unat i < 16777215" by simp
    then have "unat (i + 1) = unat i + 1" by (intro u32_suc) simp
    with lt show ?thesis by (simp add: succ_prekey_id_def word_le_nat_alt)
  qed
qed

lemma succ_ok: "id_ok i \<Longrightarrow> id_ok (succ_prekey_id i)"
proof -
  assume i: "id_ok i"
  have "unat i mod 16777215 < 16777215" by simp
  with succ_unat [OF i] show ?thesis unfolding id_ok_unat by linarith
qed

lemma advance_unat:
  assumes "id_ok i"
  shows "unat (advance_prekey_counter i k) = (unat i - 1 + k) mod 16777215 + 1 \<and> id_ok (advance_prekey_counter i k)"
proof (induction k)
  case 0
  have "1 \<le> unat i" "unat i \<le> 16777215" using assms by (simp_all add: id_ok_unat)
  then have "(unat i - 1) mod 16777215 + 1 = unat i" by (subst mod_less) auto
  with assms show ?case by (simp add: advance_prekey_counter_def)
next
  case (Suc k)
  let ?j = "advance_prekey_counter i k"
  have step: "advance_prekey_counter i (Suc k) = succ_prekey_id ?j" by (simp add: advance_prekey_counter_def)
  from Suc have j: "unat ?j = (unat i - 1 + k) mod 16777215 + 1" "id_ok ?j" by simp_all
  have "unat (succ_prekey_id ?j) = Suc ((unat i - 1 + k) mod 16777215) mod 16777215 + 1"
    using succ_unat [OF j(2)] j(1) by simp
  also have "\<dots> = (unat i - 1 + Suc k) mod 16777215 + 1" by (simp add: mod_Suc_eq)
  finally show ?case unfolding step using succ_ok [OF j(2)] by simp
qed

lemma advance_inj:
  assumes "id_ok i" "a < 16777215" "b < 16777215" "advance_prekey_counter i a = advance_prekey_counter i b"
  shows "a = b"
proof -
  have "(unat i - 1 + a) mod 16777215 = (unat i - 1 + b) mod 16777215"
    using advance_unat [OF assms(1), of a] advance_unat [OF assms(1), of b] assms(4) by simp
  then obtain q1 q2 where "unat i - 1 + a + 16777215 * q1 = unat i - 1 + b + 16777215 * q2"
    unfolding nat_mod_eq_iff by blast
  then have "(a + 16777215 * q1) mod 16777215 = (b + 16777215 * q2) mod 16777215" by simp
  then show ?thesis using assms(2,3) by simp
qed

lemma advance_add: "advance_prekey_counter (advance_prekey_counter i a) b = advance_prekey_counter i (a + b)"
  by (simp add: advance_prekey_counter_def add.commute [of a b] funpow_add)

definition id_range :: "u32 \<Rightarrow> nat \<Rightarrow> u32 list" where
  "id_range i n = map (advance_prekey_counter i) [0..<n]"

lemma id_range_Suc: "id_range i (Suc n) = i # id_range (succ_prekey_id i) n"
proof -
  have "advance_prekey_counter i (Suc k) = advance_prekey_counter (succ_prekey_id i) k" for k
    by (simp add: advance_prekey_counter_def funpow_swap1)
  then have "map (advance_prekey_counter i) (map Suc [0..<n]) = id_range (succ_prekey_id i) n"
    by (simp add: id_range_def)
  moreover have "[0..<Suc n] = 0 # map Suc [0..<n]" by (simp add: map_Suc_upt upt_conv_Cons)
  ultimately show ?thesis by (simp add: id_range_def advance_prekey_counter_def)
qed

lemma length_id_range [simp]: "length (id_range i n) = n"
  by (simp add: id_range_def)

lemma id_range_ok: "id_ok i \<Longrightarrow> j \<in> set (id_range i n) \<Longrightarrow> id_ok j"
  using advance_unat by (auto simp: id_range_def)

lemma distinct_id_range: "id_ok i \<Longrightarrow> n \<le> 16777215 \<Longrightarrow> distinct (id_range i n)"
  unfolding id_range_def distinct_map by (auto intro!: inj_onI intro: advance_inj [of i])

section \<open>Counter and loop on the stores\<close>

lemma write_counter:
  assumes "healthy_pddb P view"
  shows "\<exists>s1. write_prekey_counter P n s = (Inr (), s1) \<and> view s1 = (view s)((ACCOUNT_DICT, ACI_NEXT_PREKEY_ID_KEY) \<mapsto> show_word n)"
proof -
  obtain s1 where "pddb_replace P ACCOUNT_DICT ACI_NEXT_PREKEY_ID_KEY (show_word n) s = (Inr (), s1)"
    using healthy_pddb.replace_eq [OF assms] by blast
  with healthy_pddb.replace_view [OF assms, of ACCOUNT_DICT ACI_NEXT_PREKEY_ID_KEY "show_word n" s] show ?thesis
    by (simp add: write_prekey_counter_def)
qed

lemma show_word_utf8: "utf8_valid (show_word w)"
  by (rule utf8_valid_ascii) (auto simp: is_digit_def dest!: show_word_digits)

lemma stored_counter_view:
  assumes "healthy_pddb P view" "view s (ACCOUNT_DICT, ACI_NEXT_PREKEY_ID_KEY) = Some (show_word n)" "id_ok n"
  shows "stored_counter P s = Some n"
  using assms by (simp add: stored_counter_def healthy_pddb.get_string_eq [OF assms(1)] show_word_utf8)

lemma stored_counter_ok: "stored_counter P s = Some v \<Longrightarrow> id_ok v"
  by (auto simp: stored_counter_def split: option.splits if_splits)

lemma seed_ok: "id_ok (r mod 1000 + 1)"
proof -
  have lt: "unat (r mod 1000) < 1000" by (simp add: unat_mod_distrib)
  then have "unat (r mod 1000 + 1) = unat (r mod 1000) + 1" by (intro u32_suc) simp
  with lt show ?thesis unfolding id_ok_unat by linarith
qed

lemma read_counter:
  assumes "read_or_init_prekey_counter P G w = (Inr v, w1)"
  shows "id_ok v \<and> (stored_counter P (fst w) = Some v \<or> stored_counter P (fst w) = None \<and> (\<exists>r. v = r mod 1000 + 1))"
  using assms stored_counter_ok [of P "fst w"] seed_ok
  by (auto simp: read_or_init_prekey_counter_def Let_def split: option.splits prod.splits sum.splits)

lemma get_signed_pre_key_view:
  assumes "healthy_pddb P view"
  shows "get_signed_pre_key L P d k s =
    (case view s (d, show_word k) of None \<Rightarrow> Inl InvalidSignedPreKeyId | Some b \<Rightarrow> ls_signed_deserialize L b)"
  by (cases rule: healthy_pddb.fetch_cases [OF assms, of s d "show_word k"])
    (auto simp: get_signed_pre_key_def pddb_read_binary_def)

lemma get_kyber_pre_key_view:
  assumes "healthy_pddb P view"
  shows "get_kyber_pre_key L P d k s =
    (case view s (d, show_word k) of None \<Rightarrow> Inl InvalidKyberPreKeyId | Some b \<Rightarrow> ls_kyber_deserialize L b)"
  by (cases rule: healthy_pddb.fetch_cases [OF assms, of s d "show_word k"])
    (auto simp: get_kyber_pre_key_def pddb_read_binary_def)

context signal_stores
begin

lemma generate_loop_spec:
  "generate_loop L P G n i w = (Inr (js, nx), w') \<Longrightarrow>
     \<exists>kps. length kps = n
       \<and> js = map2 (\<lambda>i kp. \<lparr>otj_key_id = i, otj_public_key_b64url = kg_b64_no_pad G (kg_public_serialize G kp)\<rparr>) (id_range i n) kps
       \<and> prekey.put_all (map2 (\<lambda>i kp. (i, kg_prekey_new G i kp)) (id_range i n) kps) (fst w) = (Inr (), fst w')
       \<and> nx = advance_prekey_counter i n"
proof (induction n arbitrary: i w js nx)
  case 0
  then show ?case by (simp add: id_range_def advance_prekey_counter_def)
next
  case (Suc n)
  obtain kp g1 where kp: "kg_generate G (snd w) = (kp, g1)" by fastforce
  obtain r s1 where sv: "save_pre_key L P PREKEY_DICT i (kg_prekey_new G i kp) (fst w) = (r, s1)" by fastforce
  with Suc.prems kp have r: "r = Inr ()" by (cases r) auto
  with Suc.prems kp sv obtain js' where rec: "generate_loop L P G n (succ_prekey_id i) (s1, g1) = (Inr (js', nx), w')"
      "js = \<lparr>otj_key_id = i, otj_public_key_b64url = kg_b64_no_pad G (kg_public_serialize G kp)\<rparr> # js'"
    by (auto simp: res_simps)
  from Suc.IH [OF rec(1)] obtain kps where "length kps = n"
      "js' = map2 (\<lambda>i kp. \<lparr>otj_key_id = i, otj_public_key_b64url = kg_b64_no_pad G (kg_public_serialize G kp)\<rparr>) (id_range (succ_prekey_id i) n) kps"
      "prekey.put_all (map2 (\<lambda>i kp. (i, kg_prekey_new G i kp)) (id_range (succ_prekey_id i) n) kps) s1 = (Inr (), fst w')"
      "nx = advance_prekey_counter (succ_prekey_id i) n" by auto
  then show ?case using sv r rec(2)
    by (intro exI [of _ "kp # kps"]) (simp add: id_range_Suc advance_prekey_counter_def funpow_swap1)
qed

lemma get_pre_key_view:
  "get_pre_key L P d k s = (case view s (d, show_word k) of None \<Rightarrow> Inl InvalidPreKeyId | Some b \<Rightarrow> ls_prekey_deserialize L b)"
  by (cases rule: fetch_cases [of s d "show_word k"]) (auto simp: get_pre_key_def pddb_read_binary_def)

lemma batch_spec:
  assumes run: "generate_one_time_prekeys L P G count w = (Inr b, w')" and pos: "count \<noteq> 0"
  shows "\<exists>start kps. id_ok start \<and> (\<forall>v. stored_counter P (fst w) = Some v \<longrightarrow> start = v)
    \<and> length kps = unat count
    \<and> otb_json b = map2 (\<lambda>i kp. \<lparr>otj_key_id = i, otj_public_key_b64url = kg_b64_no_pad G (kg_public_serialize G kp)\<rparr>) (id_range start (unat count)) kps
    \<and> (unat count \<le> 16777215 \<longrightarrow> (\<forall>(i, kp) \<in> set (zip (id_range start (unat count)) kps).
         get_pre_key L P PREKEY_DICT i (fst w') = Inr (kg_prekey_new G i kp)))
    \<and> stored_counter P (fst w') = Some (advance_prekey_counter start (unat count))"
proof -
  from run pos obtain start w1 js nx w2 where st: "read_or_init_prekey_counter P G w = (Inr start, w1)"
      and lp: "generate_loop L P G (unat count) start w1 = (Inr (js, nx), w2)"
      and wr: "otb_json b = js" "write_prekey_counter P nx (fst w2) = (Inr (), fst w')"
  proof -
    from run pos obtain start w1 where st: "read_or_init_prekey_counter P G w = (Inr start, w1)"
        and rest: "sbind (generate_loop L P G (unat count) start w1) (\<lambda>(json, nxt) w2.
           (case write_prekey_counter P nxt (fst w2) of
              (Inl e, s3) \<Rightarrow> (Inl e, (s3, snd w2))
            | (Inr _, s3) \<Rightarrow> (Inr \<lparr>otb_json = json, otb_count = count\<rparr>, (s3, snd w2)))) = (Inr b, w')"
      by (auto simp: generate_one_time_prekeys_def res_simps)
    from rest obtain js nx w2 where lp: "generate_loop L P G (unat count) start w1 = (Inr (js, nx), w2)"
        and wr: "(case write_prekey_counter P nx (fst w2) of
              (Inl e, s3) \<Rightarrow> (Inl e, (s3, snd w2))
            | (Inr _, s3) \<Rightarrow> (Inr \<lparr>otb_json = js, otb_count = count\<rparr>, (s3, snd w2))) = (Inr b, w')"
      by (auto simp: res_simps)
    obtain q s3 where q: "write_prekey_counter P nx (fst w2) = (q, s3)" by fastforce
    with wr have "otb_json b = js" "write_prekey_counter P nx (fst w2) = (Inr (), fst w')" by (cases q; auto)+
    with that st lp show ?thesis by blast
  qed
  from read_counter [OF st] have ok: "id_ok start" "\<forall>v. stored_counter P (fst w) = Some v \<longrightarrow> start = v" by auto
  from generate_loop_spec [OF lp] obtain kps where kps: "length kps = unat count"
      "js = map2 (\<lambda>i kp. \<lparr>otj_key_id = i, otj_public_key_b64url = kg_b64_no_pad G (kg_public_serialize G kp)\<rparr>) (id_range start (unat count)) kps"
      "prekey.put_all (map2 (\<lambda>i kp. (i, kg_prekey_new G i kp)) (id_range start (unat count)) kps) (fst w1) = (Inr (), fst w2)"
      "nx = advance_prekey_counter start (unat count)" by blast
  obtain s1 where "write_prekey_counter P nx (fst w2) = (Inr (), s1)"
      "view s1 = (view (fst w2))((ACCOUNT_DICT, ACI_NEXT_PREKEY_ID_KEY) \<mapsto> show_word nx)"
    using write_counter [OF healthy_pddb_axioms] by blast
  with wr(2) have v: "view (fst w') = (view (fst w2))((ACCOUNT_DICT, ACI_NEXT_PREKEY_ID_KEY) \<mapsto> show_word nx)" by simp
  have "stored_counter P (fst w') = Some nx"
    by (rule stored_counter_view [OF healthy_pddb_axioms]) (use v kps(4) advance_unat [OF ok(1)] in simp_all)
  moreover have "get_pre_key L P PREKEY_DICT i (fst w') = Inr (kg_prekey_new G i kp)"
    if le: "unat count \<le> 16777215" and i: "(i, kp) \<in> set (zip (id_range start (unat count)) kps)" for i kp
  proof -
    let ?kvs = "map2 (\<lambda>i kp. (i, kg_prekey_new G i kp)) (id_range start (unat count)) kps"
    have "map fst ?kvs = id_range start (unat count)" using kps(1) by (simp add: map_fst_zip comp_def split_def)
    then have "distinct (map fst ?kvs)" using distinct_id_range [OF ok(1) le] by simp
    moreover have "(i, kg_prekey_new G i kp) \<in> set ?kvs" using i by force
    ultimately have "get_pre_key L P PREKEY_DICT i (fst w2) = Inr (kg_prekey_new G i kp)"
      by (rule prekey.put_all_get [OF kps(3)])
    then show ?thesis by (simp add: get_pre_key_view v)
  qed
  ultimately show ?thesis using ok kps(1,2,4) wr(1)
    by (intro exI [of _ start] exI [of _ kps]) auto
qed

lemma generate_loop_total:
  assumes "\<And>r. \<exists>b. ls_prekey_serialize L r = Inr b"
  shows "\<exists>js nx w'. generate_loop L P G n i w = (Inr (js, nx), w')"
proof (induction n arbitrary: i w)
  case (Suc n)
  obtain kp g1 where kp: "kg_generate G (snd w) = (kp, g1)" by fastforce
  from assms obtain x where "ls_prekey_serialize L (kg_prekey_new G i kp) = Inr x" by blast
  then obtain s1 where sv: "save_pre_key L P PREKEY_DICT i (kg_prekey_new G i kp) (fst w) = (Inr (), s1)"
    by (simp add: save_pre_key_def write_eq)
  obtain js nx w' where "generate_loop L P G n (succ_prekey_id i) (s1, g1) = (Inr (js, nx), w')"
    using Suc.IH by blast
  then show ?case by (simp add: kp sv)
qed simp

lemma generate_total:
  assumes "\<And>r. \<exists>b. ls_prekey_serialize L r = Inr b"
  shows "\<exists>b w'. generate_one_time_prekeys L P G count w = (Inr b, w')"
proof (cases "count = 0")
  case False
  obtain start w1 where st: "read_or_init_prekey_counter P G w = (Inr start, w1)"
  proof (cases "stored_counter P (fst w)")
    case None
    obtain r g1 where r: "kg_next_u32 G (snd w) = (r, g1)" by fastforce
    obtain s1 where "write_prekey_counter P (r mod 1000 + 1) (fst w) = (Inr (), s1)"
      using write_counter [OF healthy_pddb_axioms] by blast
    with that None r show ?thesis by (simp add: read_or_init_prekey_counter_def)
  qed (use that in \<open>simp add: read_or_init_prekey_counter_def\<close>)
  obtain js nx w2 where lp: "generate_loop L P G (unat count) start w1 = (Inr (js, nx), w2)"
    using generate_loop_total [OF assms] by blast
  obtain s3 where "write_prekey_counter P nx (fst w2) = (Inr (), s3)"
    using write_counter [OF healthy_pddb_axioms] by blast
  with False st lp show ?thesis by (simp add: generate_one_time_prekeys_def)
qed (simp add: generate_one_time_prekeys_def)

lemma batch_ids:
  assumes "generate_one_time_prekeys L P G count w = (Inr b, w')" "count \<noteq> 0"
  obtains start where "id_ok start" "\<And>v. stored_counter P (fst w) = Some v \<Longrightarrow> start = v"
    "map otj_key_id (otb_json b) = id_range start (unat count)"
    "stored_counter P (fst w') = Some (advance_prekey_counter start (unat count))"
proof -
  from batch_spec [OF assms] obtain start kps where st: "id_ok start" "\<forall>v. stored_counter P (fst w) = Some v \<longrightarrow> start = v"
      "length kps = unat count"
      "otb_json b = map2 (\<lambda>i kp. \<lparr>otj_key_id = i, otj_public_key_b64url = kg_b64_no_pad G (kg_public_serialize G kp)\<rparr>) (id_range start (unat count)) kps"
      "stored_counter P (fst w') = Some (advance_prekey_counter start (unat count))" by blast
  have "map otj_key_id (otb_json b) = id_range start (unat count)"
    using st(3) by (simp add: st(4) comp_def split_def map_fst_zip)
  with that [OF st(1) _ _ st(5)] st(2) show ?thesis by blast
qed

end

section \<open>Properties\<close>

lemma batch_usable:
  assumes "signal_stores P view L" and "generate_one_time_prekeys L P G count w = (Inr b, w')"
    and "count \<le> MEDIUM_MAX"
  shows "length (otb_json b) = unat count \<and> distinct (map otj_key_id (otb_json b))
    \<and> (\<forall>j \<in> set (otb_json b). 1 \<le> otj_key_id j \<and> otj_key_id j \<le> MEDIUM_MAX
        \<and> (\<exists>kp. otj_public_key_b64url j = kg_b64_no_pad G (kg_public_serialize G kp)
              \<and> get_pre_key L P PREKEY_DICT (otj_key_id j) (fst w') = Inr (kg_prekey_new G (otj_key_id j) kp)))"
proof (cases "count = 0")
  case True
  with assms(2) show ?thesis by (auto simp: generate_one_time_prekeys_def)
next
  case False
  have le: "unat count \<le> 16777215" using assms(3) by (simp add: word_le_nat_alt)
  from signal_stores.batch_spec [OF assms(1,2) False] obtain start kps where st: "id_ok start" "length kps = unat count"
      "otb_json b = map2 (\<lambda>i kp. \<lparr>otj_key_id = i, otj_public_key_b64url = kg_b64_no_pad G (kg_public_serialize G kp)\<rparr>) (id_range start (unat count)) kps"
      "\<forall>(i, kp) \<in> set (zip (id_range start (unat count)) kps). get_pre_key L P PREKEY_DICT i (fst w') = Inr (kg_prekey_new G i kp)"
    using le by auto
  have "map otj_key_id (otb_json b) = id_range start (unat count)"
    using st(2) by (simp add: st(3) comp_def split_def map_fst_zip)
  then have ids: "distinct (map otj_key_id (otb_json b))" "\<And>j. j \<in> set (otb_json b) \<Longrightarrow> id_ok (otj_key_id j)"
    using distinct_id_range [OF st(1) le] id_range_ok [OF st(1), of _ "unat count"] by (metis, metis image_eqI list.set_map)
  have "\<exists>kp. otj_public_key_b64url j = kg_b64_no_pad G (kg_public_serialize G kp)
      \<and> get_pre_key L P PREKEY_DICT (otj_key_id j) (fst w') = Inr (kg_prekey_new G (otj_key_id j) kp)"
    if "j \<in> set (otb_json b)" for j
  proof -
    from that st(3) obtain i kp where "(i, kp) \<in> set (zip (id_range start (unat count)) kps)"
        "j = \<lparr>otj_key_id = i, otj_public_key_b64url = kg_b64_no_pad G (kg_public_serialize G kp)\<rparr>" by auto
    with st(4) show ?thesis by (intro exI [of _ kp]) auto
  qed
  with ids st(2) show ?thesis by (simp add: st(3))
qed

text \<open>Generating a batch succeeds on a PDDB without faults, and the batch is usable: it has the requested number of keys, with distinct ids
  between 1 and 2^24 - 1, and for each uploaded public key the private record is stored and
  can be fetched under its id.\<close>

theorem prekey_batch_stored:
  assumes "signal_stores P view L" and "\<And>r. \<exists>x. ls_prekey_serialize L r = Inr x"
    and "count \<le> MEDIUM_MAX"
  shows "\<exists>b w'. generate_one_time_prekeys L P G count w = (Inr b, w')
    \<and> length (otb_json b) = unat count \<and> distinct (map otj_key_id (otb_json b))
    \<and> (\<forall>j \<in> set (otb_json b). 1 \<le> otj_key_id j \<and> otj_key_id j \<le> MEDIUM_MAX
        \<and> (\<exists>kp. otj_public_key_b64url j = kg_b64_no_pad G (kg_public_serialize G kp)
              \<and> get_pre_key L P PREKEY_DICT (otj_key_id j) (fst w') = Inr (kg_prekey_new G (otj_key_id j) kp)))"
proof -
  from signal_stores.generate_total [OF assms(1,2)] obtain b w' where run: "generate_one_time_prekeys L P G count w = (Inr b, w')"
    by blast
  from batch_usable [OF assms(1) this assms(3)] run show ?thesis by blast
qed

text \<open>C30. Batches do not collide: a second batch, generated while the stored counter is the one
  the first batch left, has no id in common with it as long as both together stay below
  2^24 - 1 keys; the counter survives in the PDDB, so this holds across restarts.\<close>

theorem prekey_batches_disjoint:
  assumes "signal_stores P view L"
    and "generate_one_time_prekeys L P G c1 w1 = (Inr b1, w1')" and "generate_one_time_prekeys L P G c2 w2 = (Inr b2, w2')"
    and "c1 \<noteq> 0" and "unat c1 + unat c2 \<le> 16777215"
    and "stored_counter P (fst w2) = stored_counter P (fst w1')"
  shows "set (map otj_key_id (otb_json b1)) \<inter> set (map otj_key_id (otb_json b2)) = {}"
proof (cases "c2 = 0")
  case True
  with assms(3) show ?thesis by (auto simp: generate_one_time_prekeys_def)
next
  case False
  obtain s1 where s1: "id_ok s1" "map otj_key_id (otb_json b1) = id_range s1 (unat c1)"
      "stored_counter P (fst w1') = Some (advance_prekey_counter s1 (unat c1))"
    using signal_stores.batch_ids [OF assms(1,2,4)] by metis
  obtain s2 where s2: "map otj_key_id (otb_json b2) = id_range s2 (unat c2)"
      "\<And>v. stored_counter P (fst w2) = Some v \<Longrightarrow> s2 = v"
    using signal_stores.batch_ids [OF assms(1,3) False] by metis
  have s2': "s2 = advance_prekey_counter s1 (unat c1)" using s2(2) assms(6) s1(3) by simp
  have "advance_prekey_counter s1 a \<noteq> advance_prekey_counter s1 (unat c1 + k)" if "a < unat c1" "k < unat c2" for a k
    using advance_inj [OF s1(1), of a "unat c1 + k"] that assms(5) by auto
  then show ?thesis unfolding s1(2) s2(1) s2' by (auto simp: id_range_def advance_add)
qed

definition counting_keygen :: "nat keygen" where
  "counting_keygen =
     \<lparr>kg_next_u32 = (\<lambda>g. (of_nat g, g + 1)), kg_generate = (\<lambda>g. (KeyPair (show_nat g), g + 1)),
      kg_public_serialize = (\<lambda>k. case k of KeyPair b \<Rightarrow> b), kg_prekey_new = (\<lambda>i k. case k of KeyPair b \<Rightarrow> PreKeyRecord (show_word i @ b)),
      kg_signed_new = (\<lambda>i t k sg. SignedPreKeyRecord (show_word i)), kg_signed_id = (\<lambda>r. Inr 5),
      kg_kyber_generate = (\<lambda>i k g. (Inr (KyberPreKeyRecord (show_word i)), g + 1)), kg_kyber_id = (\<lambda>r. Inr 6),
      kg_kyber_public = (\<lambda>r. Inr ''K''), kg_kyber_signature = (\<lambda>r. Inr ''S''),
      kg_sign = (\<lambda>k m g. (Inr m, g)), kg_public_of = (\<lambda>k. case k of PrivateKey b \<Rightarrow> Inr (PublicKey b)),
      kg_verify = (\<lambda>k m sg. True), kg_b64_no_pad = (\<lambda>b. b)\<rparr>"

lemma token_serializable: "\<exists>x. ls_prekey_serialize token_libsignal r = Inr x"
  by (cases r) (simp add: token_libsignal_def)

theorem prekey_batch_stored_witness:
  "\<exists>b w'. generate_one_time_prekeys token_libsignal mem_pddb counting_keygen 100 ([], 0) = (Inr b, w') \<and> length (otb_json b) = 100"
  using prekey_batch_stored [where view = map_of and count = 100 and w = "([], 0)" and G = counting_keygen,
      OF mem.signal_stores_axioms token_serializable] by auto

theorem prekey_batches_disjoint_witness:
  "\<exists>b1 b2 w' w''. generate_one_time_prekeys token_libsignal mem_pddb counting_keygen 100 ([], 0) = (Inr b1, w')
     \<and> generate_one_time_prekeys token_libsignal mem_pddb counting_keygen 100 w' = (Inr b2, w'')
     \<and> set (map otj_key_id (otb_json b1)) \<inter> set (map otj_key_id (otb_json b2)) = {}"
proof -
  obtain b1 w' where 1: "generate_one_time_prekeys token_libsignal mem_pddb counting_keygen 100 ([], 0) = (Inr b1, w')"
    using mem.generate_total [OF token_serializable] by blast
  obtain b2 w'' where 2: "generate_one_time_prekeys token_libsignal mem_pddb counting_keygen 100 w' = (Inr b2, w'')"
    using mem.generate_total [OF token_serializable] by blast
  from prekey_batches_disjoint [OF mem.signal_stores_axioms 1 2] 1 2 show ?thesis by auto
qed

text \<open>The production run, branch by branch.\<close>

lemma replenish_branches:
  "replenish_aci_one_time_prekeys L P G get_status put aci dev pw (w, h) =
     (case get_status (aci @ ''.'' @ show_word dev) pw h of
        (Inl e, h1) \<Rightarrow> (Failed (''get_keys_status: '' @ io_error_text e), (w, h1))
      | (Inr st, h1) \<Rightarrow>
          if 10 \<le> pkc_count st then (Skipped (pkc_count st), (w, h1))
          else case generate_one_time_prekeys L P G 100 w of
            (Inl e, w1) \<Rightarrow> (Failed (''generate_one_time_prekeys: '' @ io_error_text e), (w1, h1))
          | (Inr b, w1) \<Rightarrow>
              (case put (aci @ ''.'' @ show_word dev) pw (set_keys_default\<lparr>skr_pre_keys := map to_entity (otb_json b)\<rparr>) h1 of
                 (Inl e, h2) \<Rightarrow> (Failed (''put_keys: '' @ io_error_text e), (w1, h2))
               | (Inr _, h2) \<Rightarrow> (Replenished (of_nat (length (otb_json b))), (w1, h2))))"
proof -
  obtain r h1 where g: "get_status (aci @ ''.'' @ show_word dev) pw h = (r, h1)" by (metis surj_pair)
  obtain q w1 where b: "generate_one_time_prekeys L P G 100 w = (q, w1)" by (metis surj_pair)
  show ?thesis
    by (cases r; cases q)
      (auto simp: replenish_aci_one_time_prekeys_def run_replenish_def lift_net_def lift_store_def g b split: prod.split sum.split
         simp del: append_Cons)
qed

text \<open>C31. Replenishment with the production wiring reports what happened on every branch. A failed
  status request is reported as such, and like a server that still holds at least ten keys
  (reported as skipped, with the count) it leaves the store as it was and uploads nothing.
  Otherwise a batch of 100 is generated; a failure to generate is reported as such and nothing
  is uploaded; else exactly the ids and public keys of the batch are uploaded, a refused
  upload is reported as such and keeps what the generation stored, and an accepted one is
  reported with the number of keys. On a working PDDB the generation does not fail: the batch
  has 100 distinct ids whose private records can all be fetched before anything is uploaded.\<close>

theorem replenish_outcome:
  "replenish_aci_one_time_prekeys L P G get_status put aci dev pw (w, h) =
     (case get_status (aci @ ''.'' @ show_word dev) pw h of
        (Inl e, h1) \<Rightarrow> (Failed (''get_keys_status: '' @ io_error_text e), (w, h1))
      | (Inr st, h1) \<Rightarrow>
          if 10 \<le> pkc_count st then (Skipped (pkc_count st), (w, h1))
          else case generate_one_time_prekeys L P G 100 w of
            (Inl e, w1) \<Rightarrow> (Failed (''generate_one_time_prekeys: '' @ io_error_text e), (w1, h1))
          | (Inr b, w1) \<Rightarrow>
              (case put (aci @ ''.'' @ show_word dev) pw (set_keys_default\<lparr>skr_pre_keys := map to_entity (otb_json b)\<rparr>) h1 of
                 (Inl e, h2) \<Rightarrow> (Failed (''put_keys: '' @ io_error_text e), (w1, h2))
               | (Inr _, h2) \<Rightarrow> (Replenished (of_nat (length (otb_json b))), (w1, h2))))
   \<and> (signal_stores P view L \<and> (\<forall>r. \<exists>x. ls_prekey_serialize L r = Inr x) \<longrightarrow>
       (\<exists>b w1. generate_one_time_prekeys L P G 100 w = (Inr b, w1) \<and> length (otb_json b) = 100
          \<and> distinct (map otj_key_id (otb_json b))
          \<and> (\<forall>j \<in> set (otb_json b). \<exists>kp. otj_public_key_b64url j = kg_b64_no_pad G (kg_public_serialize G kp)
               \<and> get_pre_key L P PREKEY_DICT (otj_key_id j) (fst w1) = Inr (kg_prekey_new G (otj_key_id j) kp))))"
proof (intro conjI impI; (elim conjE)?)
  assume stores: "signal_stores P view L" and ser: "\<forall>r. \<exists>x. ls_prekey_serialize L r = Inr x"
  from ser signal_stores.generate_total [OF stores] obtain b w1 where run: "generate_one_time_prekeys L P G 100 w = (Inr b, w1)"
    by blast
  from batch_usable [OF stores run] have "length (otb_json b) = 100" "distinct (map otj_key_id (otb_json b))"
    "\<forall>j \<in> set (otb_json b). \<exists>kp. otj_public_key_b64url j = kg_b64_no_pad G (kg_public_serialize G kp)
       \<and> get_pre_key L P PREKEY_DICT (otj_key_id j) (fst w1) = Inr (kg_prekey_new G (otj_key_id j) kp)" by auto
  with run show "\<exists>b w1. generate_one_time_prekeys L P G 100 w = (Inr b, w1) \<and> length (otb_json b) = 100
          \<and> distinct (map otj_key_id (otb_json b))
          \<and> (\<forall>j \<in> set (otb_json b). \<exists>kp. otj_public_key_b64url j = kg_b64_no_pad G (kg_public_serialize G kp)
               \<and> get_pre_key L P PREKEY_DICT (otj_key_id j) (fst w1) = Inr (kg_prekey_new G (otj_key_id j) kp))"
    by blast
qed (rule replenish_branches)

theorem replenish_outcome_witness:
  "\<exists>w'. replenish_aci_one_time_prekeys token_libsignal mem_pddb counting_keygen
     (\<lambda>i p h. (Inr \<lparr>pkc_count = 3, pkc_pq_count = 0\<rparr>, h)) (\<lambda>i p b h. (Inr (), h)) ''me'' 2 ''pw'' (([], 0), ()) = (Replenished 100, w')"
  using replenish_outcome [where view = map_of and L = token_libsignal and P = mem_pddb and G = counting_keygen and w = "([], 0)"
      and h = "()" and aci = "''me''" and dev = 2 and pw = "''pw''" and put = "\<lambda>i p b h. (Inr (), h)"
      and get_status = "\<lambda>i p h. (Inr \<lparr>pkc_count = 3, pkc_pq_count = 0\<rparr>, h)"] mem.signal_stores_axioms token_serializable
  by auto

text \<open>C34. Saving the link prekeys: on a PDDB without faults, when the records carry their ids
  and serialise, all four records can be fetched afterwards, except that the ACI record of a
  kind is replaced by the PNI record when both drew the same id.\<close>

theorem link_prekeys_saved:
  assumes "signal_stores P view L"
    and "kg_signed_id G (pk_aci_signed_record pk) = Inr a" and "kg_signed_id G (pk_pni_signed_record pk) = Inr b"
    and "kg_kyber_id G (pk_aci_kyber_record pk) = Inr c" and "kg_kyber_id G (pk_pni_kyber_record pk) = Inr d"
    and "\<And>r. \<exists>x. ls_signed_serialize L r = Inr x" and "\<And>r. \<exists>x. ls_kyber_serialize L r = Inr x"
  shows "\<exists>s'. save_to_pddb L G P pk s = (Inr (), s')
    \<and> get_signed_pre_key L P SIGNED_PREKEY_DICT b s' = Inr (pk_pni_signed_record pk)
    \<and> get_signed_pre_key L P SIGNED_PREKEY_DICT a s' = Inr (if a = b then pk_pni_signed_record pk else pk_aci_signed_record pk)
    \<and> get_kyber_pre_key L P KYBER_PREKEY_DICT d s' = Inr (pk_pni_kyber_record pk)
    \<and> get_kyber_pre_key L P KYBER_PREKEY_DICT c s' = Inr (if c = d then pk_pni_kyber_record pk else pk_aci_kyber_record pk)"
proof -
  note st = assms(1)
  have hp: "healthy_pddb P view" using st by (simp add: signal_stores_def)
  obtain x1 x2 where x: "ls_signed_serialize L (pk_aci_signed_record pk) = Inr x1" "ls_signed_serialize L (pk_pni_signed_record pk) = Inr x2"
    using assms(6) by meson
  obtain y1 y2 where y: "ls_kyber_serialize L (pk_aci_kyber_record pk) = Inr y1" "ls_kyber_serialize L (pk_pni_kyber_record pk) = Inr y2"
    using assms(7) by meson
  have step: "\<exists>s1. save_signed L G P r s = (Inr (), s1) \<and> view s1 = (view s)((SIGNED_PREKEY_DICT, show_word i) \<mapsto> x)"
    if "kg_signed_id G r = Inr i" "ls_signed_serialize L r = Inr x" for r i x s
    using that by (simp add: save_signed_def save_signed_pre_key_def signal_stores.write_eq [OF st] healthy_pddb.replace_view [OF hp])
  have kstep: "\<exists>s1. save_kyber L G P r s = (Inr (), s1) \<and> view s1 = (view s)((KYBER_PREKEY_DICT, show_word i) \<mapsto> x)"
    if "kg_kyber_id G r = Inr i" "ls_kyber_serialize L r = Inr x" for r i x s
    using that by (simp add: save_kyber_def save_kyber_pre_key_def signal_stores.write_eq [OF st] healthy_pddb.replace_view [OF hp])
  obtain s1 where s1: "save_signed L G P (pk_aci_signed_record pk) s = (Inr (), s1)"
      "view s1 = (view s)((SIGNED_PREKEY_DICT, show_word a) \<mapsto> x1)" using step [OF assms(2) x(1)] by blast
  obtain s2 where s2: "save_signed L G P (pk_pni_signed_record pk) s1 = (Inr (), s2)"
      "view s2 = (view s1)((SIGNED_PREKEY_DICT, show_word b) \<mapsto> x2)" using step [OF assms(3) x(2)] by blast
  obtain s3 where s3: "save_kyber L G P (pk_aci_kyber_record pk) s2 = (Inr (), s3)"
      "view s3 = (view s2)((KYBER_PREKEY_DICT, show_word c) \<mapsto> y1)" using kstep [OF assms(4) y(1)] by blast
  obtain s4 where s4: "save_kyber L G P (pk_pni_kyber_record pk) s3 = (Inr (), s4)"
      "view s4 = (view s3)((KYBER_PREKEY_DICT, show_word d) \<mapsto> y2)" using kstep [OF assms(5) y(2)] by blast
  have codec: "ls_signed_deserialize L x1 = Inr (pk_aci_signed_record pk)" "ls_signed_deserialize L x2 = Inr (pk_pni_signed_record pk)"
    "ls_kyber_deserialize L y1 = Inr (pk_aci_kyber_record pk)" "ls_kyber_deserialize L y2 = Inr (pk_pni_kyber_record pk)"
    using x y st by (auto simp: signal_stores_def signal_codecs_def)
  have "save_to_pddb L G P pk s = (Inr (), s4)" by (simp add: save_to_pddb_def s1(1) s2(1) s3(1) s4(1))
  then show ?thesis
    by (intro exI [of _ s4]) (simp add: get_signed_pre_key_view [OF hp] get_kyber_pre_key_view [OF hp] s1(2) s2(2) s3(2) s4(2) codec)
qed

theorem link_prekeys_saved_witness:
  "\<exists>s'. save_to_pddb token_libsignal counting_keygen mem_pddb
       \<lparr>pk_aci_signed = \<lparr>spj_key_id = 5, spj_public_key_b64url = [], spj_signature_b64url = []\<rparr>,
        pk_pni_signed = \<lparr>spj_key_id = 5, spj_public_key_b64url = [], spj_signature_b64url = []\<rparr>,
        pk_aci_kyber_last_resort = \<lparr>kpj_key_id = 6, kpj_public_key_b64url = [], kpj_signature_b64url = []\<rparr>,
        pk_pni_kyber_last_resort = \<lparr>kpj_key_id = 6, kpj_public_key_b64url = [], kpj_signature_b64url = []\<rparr>,
        pk_aci_signed_record = SignedPreKeyRecord ''A'', pk_pni_signed_record = SignedPreKeyRecord ''P'',
        pk_aci_kyber_record = KyberPreKeyRecord ''A'', pk_pni_kyber_record = KyberPreKeyRecord ''P''\<rparr> [] = (Inr (), s')
     \<and> get_signed_pre_key token_libsignal mem_pddb SIGNED_PREKEY_DICT 5 s' = Inr (SignedPreKeyRecord ''P'')"
proof -
  have ids: "kg_signed_id counting_keygen r = Inr 5" "kg_kyber_id counting_keygen q = Inr 6" for r q
    by (simp_all add: counting_keygen_def)
  have ser: "\<exists>x. ls_signed_serialize token_libsignal r = Inr x" "\<exists>x. ls_kyber_serialize token_libsignal q = Inr x" for r q
    by (cases r, simp add: token_libsignal_def) (cases q, simp add: token_libsignal_def)
  show ?thesis
    using link_prekeys_saved [where view = map_of, OF mem.signal_stores_axioms ids(1) ids(1) ids(2) ids(2) ser] by fastforce
qed

end
