(* ===== verification/Send.thy ===== *)
theory Send
  imports Outgoing
begin

text \<open>
  \<open>src/src/manager/send.rs\<close>: the send pipeline. One submission fans a padded Content out to
  every device of a recipient in a single PUT; the retry loop reacts to the server's status
  (409 and 410 correct the session set, 429, 5xx and transport errors back off) within three
  attempts and thirty seconds; a successful send is followed by a sync transcript to the
  account's other devices. The traits the source is generic over (session store and
  enumeration, identity store, session deleter, HTTP client), the sleeper closure and the
  clock are fields of \<open>send_env\<close> over an arbitrary state; URLs, JSON and libsignal's bundle
  and key constructors are the fields of \<open>send_lib\<close>. Log lines are left out.
\<close>

section \<open>Definitions\<close>

abbreviation (input) MAX_ATTEMPTS :: nat where "MAX_ATTEMPTS \<equiv> 3"
abbreviation (input) RETRY_BUDGET_MS :: nat where "RETRY_BUDGET_MS \<equiv> 30000"
abbreviation (input) BACKOFF_BASE_MS :: nat where "BACKOFF_BASE_MS \<equiv> 500"
abbreviation (input) BACKOFF_CAP_MS :: nat where "BACKOFF_CAP_MS \<equiv> 4000"

subsection \<open>Wire types\<close>

record outgoing_message_entity =
  ome_message_type :: u32
  ome_destination_device_id :: u32
  ome_destination_registration_id :: u32
  ome_content :: string

record submit_messages_request =
  smr_messages :: "outgoing_message_entity list"
  smr_online :: bool
  smr_urgent :: bool
  smr_timestamp :: u64

record device_mismatch_response =
  missing_devices :: "u32 list"
  extra_devices :: "u32 list"
  stale_devices :: "u32 list"

record signed_pre_key_entry =
  spe_key_id :: u32
  spe_public_key :: string
  spe_signature :: string

record pre_key_entry =
  pke_key_id :: u32
  pke_public_key :: string

record kyber_pre_key_entry =
  kpe_key_id :: u32
  kpe_public_key :: string
  kpe_signature :: string

record device_entry =
  de_device_id :: u32
  de_registration_id :: u32
  de_signed_pre_key :: signed_pre_key_entry
  de_pre_key :: "pre_key_entry option"
  de_pq_pre_key :: kyber_pre_key_entry

record pre_key_response =
  pkr_identity_key :: string
  pkr_devices :: "device_entry list"

subsection \<open>Errors\<close>

datatype send_error =
    AuthFailed
  | ServiceIdNotFound
  | PayloadTooLarge
  | ChallengeRequired
  | RetryExhausted
  | Encryption outgoing_error
  | AccountErr string
  | Transport string
  | BadResponse string
  | Unexpected u16

fun send_error_fmt :: "send_error \<Rightarrow> string" where
  "send_error_fmt AuthFailed = ''auth failed (401)''"
| "send_error_fmt ServiceIdNotFound = ''recipient not found (404)''"
| "send_error_fmt PayloadTooLarge = ''payload too large (413)''"
| "send_error_fmt ChallengeRequired = ''challenge required (428)''"
| "send_error_fmt RetryExhausted = ''retry budget exhausted''"
| "send_error_fmt (Encryption e) = ''encryption: '' @ outgoing_error_fmt e"
| "send_error_fmt (AccountErr s) = ''account: '' @ s"
| "send_error_fmt (Transport s) = ''transport: '' @ s"
| "send_error_fmt (BadResponse s) = ''bad response: '' @ s"
| "send_error_fmt (Unexpected c) = ''unexpected status '' @ show_word c"

subsection \<open>HTTP\<close>

record http_response =
  hr_status :: u16
  hr_body :: bytes

text \<open>What \<open>ureq\<close> returns: a response (status and what reading its body gives), a status error
  that carries a response, or a transport error.\<close>

datatype ureq_result =
    UreqOk u16 "io_error + bytes"
  | UreqStatus u16 "io_error + bytes"
  | UreqTransport string

definition read_to_vec :: "io_error + bytes \<Rightarrow> io_error + bytes" where
  "read_to_vec reader = rbind reader (\<lambda>b. Inr (take 1000000 b))"

fun ureq_response_to_http :: "ureq_result \<Rightarrow> io_error + http_response" where
  "ureq_response_to_http (UreqOk status r) =
     rbind (read_to_vec r) (\<lambda>body. Inr \<lparr>hr_status = status, hr_body = body\<rparr>)"
| "ureq_response_to_http (UreqStatus code r) =
     rbind (read_to_vec r) (\<lambda>body. Inr \<lparr>hr_status = code, hr_body = body\<rparr>)"
| "ureq_response_to_http (UreqTransport e) = Inl (IoError OtherKind (''transport: '' @ e))"

subsection \<open>Parameters of the pipeline\<close>

datatype url = Url string
datatype kem_public_key = KemPublicKey bytes
datatype pre_key_bundle = PreKeyBundle string

record send_lib =
  sl_url_parse :: "string \<Rightarrow> string + url"
  sl_url_set_path :: "string \<Rightarrow> url \<Rightarrow> url"
  sl_url_as_str :: "url \<Rightarrow> string"
  sl_request_to_json :: "submit_messages_request \<Rightarrow> string + bytes"
  sl_mismatch_from_json :: "bytes \<Rightarrow> string + device_mismatch_response"
  sl_prekeys_from_json :: "bytes \<Rightarrow> string + pre_key_response"
  sl_public_deserialize :: "bytes \<Rightarrow> sig_error + public_key"
  sl_kem_deserialize :: "bytes \<Rightarrow> sig_error + kem_public_key"
  sl_bundle_new :: "u32 \<Rightarrow> u8 \<Rightarrow> (u32 \<times> public_key) option \<Rightarrow> u32 \<Rightarrow> public_key \<Rightarrow> bytes
     \<Rightarrow> u32 \<Rightarrow> kem_public_key \<Rightarrow> bytes \<Rightarrow> identity_key \<Rightarrow> sig_error + pre_key_bundle"

record 'w send_env = "'w signal_env" +
  sv_device_ids_for :: "string \<Rightarrow> 'w \<Rightarrow> u32 list"
  sv_process_prekey_bundle :: "protocol_address \<Rightarrow> pre_key_bundle \<Rightarrow> 'w \<Rightarrow> ('w, sig_error, unit) sres"
  sv_delete :: "protocol_address \<Rightarrow> 'w \<Rightarrow> 'w"
  sv_put_json :: "string \<Rightarrow> string \<Rightarrow> bytes \<Rightarrow> 'w \<Rightarrow> ('w, io_error, http_response) sres"
  sv_get_json :: "string \<Rightarrow> string \<Rightarrow> 'w \<Rightarrow> ('w, io_error, http_response) sres"
  sv_sleep :: "nat \<Rightarrow> 'w \<Rightarrow> 'w"
  sv_now_ms :: "'w \<Rightarrow> nat"

subsection \<open>Account snapshot\<close>

record account_info =
  ai_aci_service_id :: string
  ai_device_id :: u32
  ai_password :: string
  ai_host :: string

definition read_from_pddb :: "'s pddb \<Rightarrow> 's \<Rightarrow> send_error + account_info" where
  "read_from_pddb P s =
     rbind (ok_or (AccountErr ''aci.service_id missing'') (pddb_get_string P ACCOUNT_DICT ''aci.service_id'' s)) (\<lambda>aci.
     rbind (ok_or (AccountErr ''device_id missing'') (pddb_get_string P ACCOUNT_DICT ''device_id'' s)) (\<lambda>dev_str.
     rbind (ok_or (AccountErr (''device_id parse: '' @ parse_u32_err (trim dev_str))) (parse_u32 (trim dev_str))) (\<lambda>device_id.
     rbind (ok_or (AccountErr ''password missing'') (pddb_get_string P ACCOUNT_DICT ''password'' s)) (\<lambda>password.
     rbind (ok_or (AccountErr ''host missing'') (pddb_get_string P ACCOUNT_DICT ''host'' s)) (\<lambda>host.
     Inr \<lparr>ai_aci_service_id = aci, ai_device_id = device_id, ai_password = trim password,
          ai_host = trim host\<rparr>)))))"

definition basic_auth :: "libsignal \<Rightarrow> account_info \<Rightarrow> string" where
  "basic_auth L acct =
     ''Basic '' @ b64_std_encode L (ai_aci_service_id acct @ ''.'' @ show_word (ai_device_id acct)
       @ '':'' @ ai_password acct)"

definition chat_base_url :: "send_lib \<Rightarrow> account_info \<Rightarrow> send_error + url" where
  "chat_base_url U acct =
     map_err (\<lambda>e. AccountErr (''host '' @ ai_host acct @ '' invalid: '' @ e))
       (sl_url_parse U (''https://chat.'' @ ai_host acct))"

subsection \<open>A single PUT\<close>

text \<open>\<open>u32::try_from(ciphertext_type).unwrap_or(0)\<close>: a negative \<open>i32\<close> gives 0.\<close>

definition enc_to_entity :: "libsignal \<Rightarrow> encrypted_message \<Rightarrow> outgoing_message_entity" where
  "enc_to_entity L enc =
     \<lparr>ome_message_type = (if sint (em_ciphertext_type enc) < 0 then 0 else em_ciphertext_type enc),
      ome_destination_device_id = em_destination_device_id enc,
      ome_destination_registration_id = em_destination_registration_id enc,
      ome_content = b64_std_encode L (em_ciphertext_bytes enc)\<rparr>"

definition interpret_send_status :: "http_response \<Rightarrow> send_error + unit" where
  "interpret_send_status resp =
     (let status = hr_status resp in
      if status = 200 \<or> status = 204 then Inr ()
      else if status = 401 then Inl AuthFailed
      else if status = 404 then Inl ServiceIdNotFound
      else if status = 413 then Inl PayloadTooLarge
      else if status = 428 then Inl ChallengeRequired
      else if status = 409 \<or> status = 410
        then Inl (BadResponse (''MISMATCH '' @ show_word status @ '' '' @ from_utf8_lossy (hr_body resp)))
      else Inl (Unexpected status))"

definition submit_messages ::
  "libsignal \<Rightarrow> send_lib \<Rightarrow> 'w send_env \<Rightarrow> string \<Rightarrow> outgoing_message_entity list \<Rightarrow> u64
     \<Rightarrow> account_info \<Rightarrow> 'w \<Rightarrow> ('w, send_error, unit) sres" where
  "submit_messages L U E recipient_uuid entities timestamp_ms acct w =
     (case chat_base_url U acct of
        Inl e \<Rightarrow> (Inl e, w)
      | Inr base \<Rightarrow>
          (let url = sl_url_set_path U (''/v1/messages/'' @ recipient_uuid) base;
               req = \<lparr>smr_messages = entities, smr_online = False, smr_urgent = True,
                      smr_timestamp = timestamp_ms\<rparr>
           in case sl_request_to_json U req of
                Inl e \<Rightarrow> (Inl (BadResponse (''serialize: '' @ e)), w)
              | Inr body \<Rightarrow>
                  (case sv_put_json E (sl_url_as_str U url) (basic_auth L acct) body w of
                     (Inl e, w1) \<Rightarrow> (Inl (Transport (io_error_text e)), w1)
                   | (Inr resp, w1) \<Rightarrow> (interpret_send_status resp, w1))))"

definition submit_encrypted_message ::
  "libsignal \<Rightarrow> send_lib \<Rightarrow> 'w send_env \<Rightarrow> encrypted_message \<Rightarrow> string \<Rightarrow> account_info
     \<Rightarrow> 'w \<Rightarrow> ('w, send_error, unit) sres" where
  "submit_encrypted_message L U E enc recipient_uuid acct w =
     submit_messages L U E recipient_uuid [enc_to_entity L enc] (em_timestamp_ms enc) acct w"

definition parse_mismatch :: "send_lib \<Rightarrow> bytes \<Rightarrow> send_error + device_mismatch_response" where
  "parse_mismatch U body =
     map_err (\<lambda>e. BadResponse (''mismatch parse: '' @ e)) (sl_mismatch_from_json U body)"

subsection \<open>Classification of an attempt\<close>

datatype attempt_decision =
  Done | Mismatch409 bytes | Mismatch410 bytes | Backoff | Fatal send_error

definition transient_status :: "u16 \<Rightarrow> bool" where
  "transient_status code \<longleftrightarrow> code = 429 \<or> (500 \<le> code \<and> code \<le> 599)"

fun classify_attempt :: "send_error + unit \<Rightarrow> attempt_decision" where
  "classify_attempt (Inr ()) = Done"
| "classify_attempt (Inl (BadResponse m)) =
     (if starts_with ''MISMATCH 409 '' m then Mismatch409 (drop (length ''MISMATCH 409 '') m)
      else if starts_with ''MISMATCH 410 '' m then Mismatch410 (drop (length ''MISMATCH 410 '') m)
      else Fatal (BadResponse m))"
| "classify_attempt (Inl (Unexpected code)) =
     (if transient_status code then Backoff else Fatal (Unexpected code))"
| "classify_attempt (Inl (Transport _)) = Backoff"
| "classify_attempt (Inl other) = Fatal other"

definition backoff :: "nat \<Rightarrow> nat" where
  "backoff attempt = min (push_bit (min (attempt - 1) 4) BACKOFF_BASE_MS) BACKOFF_CAP_MS"

subsection \<open>Device addresses, bundles\<close>

definition device_protocol_address :: "libsignal \<Rightarrow> string \<Rightarrow> u32 \<Rightarrow> protocol_address option" where
  "device_protocol_address L uuid device_id =
     Option.bind (u8_try_from device_id) (\<lambda>d.
     Option.bind (res_ok (ls_device_id_new L d)) (\<lambda>dev. Some \<lparr>pa_name = uuid, pa_device = dev\<rparr>))"

text \<open>The conversion with its two error messages that the retry loop and the bundle builder
  inline; \<open>what\<close> is the prefix of the range message.\<close>

definition checked_device :: "libsignal \<Rightarrow> string \<Rightarrow> u32 \<Rightarrow> send_error + u8" where
  "checked_device L what did =
     rbind (ok_or (BadResponse (what @ show_word did @ '' out of range'')) (u8_try_from did)) (\<lambda>d.
     map_err (\<lambda>e. BadResponse (''DeviceId: '' @ e)) (ls_device_id_new L d))"

definition decode_identity_key :: "libsignal \<Rightarrow> string \<Rightarrow> send_error + identity_key" where
  "decode_identity_key L b64 =
     rbind (map_err (\<lambda>e. BadResponse (''identity key b64: '' @ e)) (b64_permissive_decode L b64)) (\<lambda>bytes.
     map_err (\<lambda>e. BadResponse (''identity key decode: '' @ ls_debug L e)) (ls_identity_decode L bytes))"

definition decode_ec_public :: "libsignal \<Rightarrow> send_lib \<Rightarrow> string \<Rightarrow> send_error + public_key" where
  "decode_ec_public L U b64 =
     rbind (map_err (\<lambda>e. BadResponse (''ec pub b64: '' @ e)) (b64_permissive_decode L b64)) (\<lambda>bytes.
     map_err (\<lambda>e. BadResponse (''ec pub decode: '' @ ls_debug L e)) (sl_public_deserialize U bytes))"

definition decode_kyber_public :: "libsignal \<Rightarrow> send_lib \<Rightarrow> string \<Rightarrow> send_error + kem_public_key" where
  "decode_kyber_public L U b64 =
     rbind (map_err (\<lambda>e. BadResponse (''kyber pub b64: '' @ e)) (b64_permissive_decode L b64)) (\<lambda>bytes.
     map_err (\<lambda>e. BadResponse (''kyber pub decode: '' @ ls_debug L e)) (sl_kem_deserialize U bytes))"

definition build_prekey_bundle ::
  "libsignal \<Rightarrow> send_lib \<Rightarrow> device_entry \<Rightarrow> identity_key \<Rightarrow> send_error + pre_key_bundle" where
  "build_prekey_bundle L U entry identity_key =
     rbind (checked_device L ''device id '' (de_device_id entry)) (\<lambda>device.
     rbind (decode_ec_public L U (spe_public_key (de_signed_pre_key entry))) (\<lambda>signed_pub.
     rbind (map_err (\<lambda>e. BadResponse (''signed pk sig b64: '' @ e))
              (b64_permissive_decode L (spe_signature (de_signed_pre_key entry)))) (\<lambda>signed_sig.
     rbind (decode_kyber_public L U (kpe_public_key (de_pq_pre_key entry))) (\<lambda>kyber_pub.
     rbind (map_err (\<lambda>e. BadResponse (''kyber pk sig b64: '' @ e))
              (b64_permissive_decode L (kpe_signature (de_pq_pre_key entry)))) (\<lambda>kyber_sig.
     rbind (case de_pre_key entry of
              Some p \<Rightarrow> rbind (decode_ec_public L U (pke_public_key p)) (\<lambda>k. Inr (Some (pke_key_id p, k)))
            | None \<Rightarrow> Inr None) (\<lambda>one_time.
     map_err (\<lambda>e. BadResponse (''PreKeyBundle::new: '' @ ls_debug L e))
       (sl_bundle_new U (de_registration_id entry) device one_time
          (spe_key_id (de_signed_pre_key entry)) signed_pub signed_sig
          (kpe_key_id (de_pq_pre_key entry)) kyber_pub kyber_sig identity_key)))))))"

definition process_one_prekey_bundle ::
  "libsignal \<Rightarrow> send_lib \<Rightarrow> 'w send_env \<Rightarrow> string \<Rightarrow> u32 \<Rightarrow> pre_key_response \<Rightarrow> 'w \<Rightarrow> ('w, send_error, unit) sres" where
  "process_one_prekey_bundle L U E recipient_uuid device_id pre w =
     (let entry = (case List.find (\<lambda>d. de_device_id d = device_id) (pkr_devices pre) of
                     Some d \<Rightarrow> Some d
                   | None \<Rightarrow> (case pkr_devices pre of [] \<Rightarrow> None | d # _ \<Rightarrow> Some d))
      in case rbind (ok_or (BadResponse ''prekey response: empty devices'') entry) (\<lambda>entry.
              rbind (decode_identity_key L (pkr_identity_key pre)) (\<lambda>identity_key.
              rbind (build_prekey_bundle L U entry identity_key) (\<lambda>bundle.
              rbind (ok_or (BadResponse (''device id '' @ show_word device_id @ '' out of range''))
                       (device_protocol_address L recipient_uuid device_id)) (\<lambda>dev_addr.
              Inr (dev_addr, bundle))))) of
           Inl e \<Rightarrow> (Inl e, w)
         | Inr (dev_addr, bundle) \<Rightarrow>
             (case sv_process_prekey_bundle E dev_addr bundle w of
                (r, w1) \<Rightarrow> (map_err (\<lambda>e. BadResponse (''process_prekey_bundle: '' @ ls_debug L e)) r, w1)))"

subsection \<open>409 and 410\<close>

text \<open>Deleting the sessions of a list of device ids, skipping ids that are no device id.\<close>

definition drop_sessions :: "libsignal \<Rightarrow> 'w send_env \<Rightarrow> string \<Rightarrow> u32 list \<Rightarrow> 'w \<Rightarrow> 'w" where
  "drop_sessions L E uuid ids w =
     fold (\<lambda>d w. case device_protocol_address L uuid d of None \<Rightarrow> w | Some a \<Rightarrow> sv_delete E a w) ids w"

definition handle_stale_devices ::
  "libsignal \<Rightarrow> 'w send_env \<Rightarrow> protocol_address \<Rightarrow> device_mismatch_response \<Rightarrow> 'w \<Rightarrow> 'w" where
  "handle_stale_devices L E recipient mm w = drop_sessions L E (pa_name recipient) (stale_devices mm) w"

fun fetch_missing ::
  "libsignal \<Rightarrow> send_lib \<Rightarrow> 'w send_env \<Rightarrow> string \<Rightarrow> account_info \<Rightarrow> u32 list \<Rightarrow> 'w \<Rightarrow> ('w, send_error, unit) sres" where
  "fetch_missing L U E uuid acct [] w = (Inr (), w)"
| "fetch_missing L U E uuid acct (device_id # rest) w =
     (case chat_base_url U acct of
        Inl e \<Rightarrow> (Inl e, w)
      | Inr base \<Rightarrow>
          (let url = sl_url_set_path U (''/v2/keys/'' @ uuid @ ''/'' @ show_word device_id) base in
           case sv_get_json E (sl_url_as_str U url) (basic_auth L acct) w of
             (Inl e, w1) \<Rightarrow> (Inl (Transport (''get prekeys: '' @ io_error_text e)), w1)
           | (Inr resp, w1) \<Rightarrow>
               (if hr_status resp = 200 then
                  (case sl_prekeys_from_json U (hr_body resp) of
                     Inl e \<Rightarrow> (Inl (BadResponse (''prekey response parse: '' @ e)), w1)
                   | Inr pre \<Rightarrow>
                       sbind (process_one_prekey_bundle L U E uuid device_id pre w1)
                         (\<lambda>_ w2. fetch_missing L U E uuid acct rest w2))
                else if hr_status resp = 404 then fetch_missing L U E uuid acct rest w1
                else if hr_status resp = 401 then (Inl AuthFailed, w1)
                else (Inl (Unexpected (hr_status resp)), w1))))"

definition handle_mismatched_devices ::
  "libsignal \<Rightarrow> send_lib \<Rightarrow> 'w send_env \<Rightarrow> protocol_address \<Rightarrow> device_mismatch_response \<Rightarrow> account_info
     \<Rightarrow> 'w \<Rightarrow> ('w, send_error, unit) sres" where
  "handle_mismatched_devices L U E recipient mm acct w =
     fetch_missing L U E (pa_name recipient) acct (missing_devices mm)
       (drop_sessions L E (pa_name recipient) (extra_devices mm) w)"

subsection \<open>The retry loop\<close>

text \<open>The devices of one attempt; \<open>None\<close> is the early return \<open>Ok(false)\<close> of the sync path.\<close>

definition fan_out_devices ::
  "'w send_env \<Rightarrow> string \<Rightarrow> u32 \<Rightarrow> u32 option \<Rightarrow> 'w \<Rightarrow> u32 list option" where
  "fan_out_devices E recipient_uuid fallback_device_id excluded_device_id w =
     (let known = sv_device_ids_for E recipient_uuid w;
          device_ids = (case excluded_device_id of
                          Some excl \<Rightarrow> filter (\<lambda>d. d \<noteq> excl) known
                        | None \<Rightarrow> known)
      in if device_ids = [] then
           (if excluded_device_id \<noteq> None then None else Some [fallback_device_id])
         else Some device_ids)"

fun encrypt_each ::
  "libsignal \<Rightarrow> 'w send_env \<Rightarrow> bytes \<Rightarrow> u64 \<Rightarrow> string \<Rightarrow> protocol_address \<Rightarrow> u32 list \<Rightarrow> 'w
     \<Rightarrow> ('w, send_error, outgoing_message_entity list) sres" where
  "encrypt_each L E padded ts uuid local_addr [] w = (Inr [], w)"
| "encrypt_each L E padded ts uuid local_addr (did # dids) w =
     (case checked_device L ''device id '' did of
        Inl e \<Rightarrow> (Inl e, w)
      | Inr dev \<Rightarrow>
          (case encrypt_padded_for_recipient L E padded ts \<lparr>pa_name = uuid, pa_device = dev\<rparr> local_addr w of
             (Inl e, w1) \<Rightarrow> (Inl (Encryption e), w1)
           | (Inr enc, w1) \<Rightarrow>
               sbind (encrypt_each L E padded ts uuid local_addr dids w1)
                 (\<lambda>es w2. (Inr (enc_to_entity L enc # es), w2))))"

datatype 'a loop_step = Return 'a | Again

text \<open>One round of the loop after the two bounds were checked; \<open>attempt\<close> is already
  incremented.\<close>

definition attempt_step ::
  "libsignal \<Rightarrow> send_lib \<Rightarrow> 'w send_env \<Rightarrow> bytes \<Rightarrow> u64 \<Rightarrow> string \<Rightarrow> u32 \<Rightarrow> u32 option \<Rightarrow> protocol_address
     \<Rightarrow> account_info \<Rightarrow> nat \<Rightarrow> 'w \<Rightarrow> (send_error + bool) loop_step \<times> 'w" where
  "attempt_step L U E padded ts uuid fallback excl local_addr acct attempt w =
     (case fan_out_devices E uuid fallback excl w of
        None \<Rightarrow> (Return (Inr False), w)
      | Some device_ids \<Rightarrow>
          (case checked_device L ''fallback device id '' fallback of
             Inl e \<Rightarrow> (Return (Inl e), w)
           | Inr dev \<Rightarrow>
               (let handler_addr = \<lparr>pa_name = uuid, pa_device = dev\<rparr> in
                case encrypt_each L E padded ts uuid local_addr device_ids w of
                  (Inl e, w1) \<Rightarrow> (Return (Inl e), w1)
                | (Inr entities, w1) \<Rightarrow>
                    (case submit_messages L U E uuid entities ts acct w1 of
                       (outcome, w2) \<Rightarrow>
                         (case classify_attempt outcome of
                            Done \<Rightarrow> (Return (Inr True), w2)
                          | Mismatch409 body \<Rightarrow>
                              (case parse_mismatch U body of
                                 Inl e \<Rightarrow> (Return (Inl e), w2)
                               | Inr mm \<Rightarrow>
                                   (case handle_mismatched_devices L U E handler_addr mm acct w2 of
                                      (Inl e, w3) \<Rightarrow> (Return (Inl e), w3)
                                    | (Inr _, w3) \<Rightarrow> (Again, w3)))
                          | Mismatch410 body \<Rightarrow>
                              (case parse_mismatch U body of
                                 Inl e \<Rightarrow> (Return (Inl e), w2)
                               | Inr mm \<Rightarrow> (Again, handle_stale_devices L E handler_addr mm w2))
                          | Backoff \<Rightarrow> (Again, sv_sleep E (backoff attempt) w2)
                          | Fatal e \<Rightarrow> (Return (Inl e), w2))))))"

function retry_loop ::
  "libsignal \<Rightarrow> send_lib \<Rightarrow> 'w send_env \<Rightarrow> bytes \<Rightarrow> u64 \<Rightarrow> string \<Rightarrow> u32 \<Rightarrow> u32 option \<Rightarrow> protocol_address
     \<Rightarrow> account_info \<Rightarrow> nat \<Rightarrow> nat \<Rightarrow> 'w \<Rightarrow> ('w, send_error, bool) sres" where
  "retry_loop L U E padded ts uuid fallback excl local_addr acct start attempt w =
     (if sv_now_ms E w - start > RETRY_BUDGET_MS then (Inl RetryExhausted, w)
      else if attempt \<ge> MAX_ATTEMPTS then (Inl RetryExhausted, w)
      else case attempt_step L U E padded ts uuid fallback excl local_addr acct (attempt + 1) w of
             (Return r, w1) \<Rightarrow> (r, w1)
           | (Again, w1) \<Rightarrow>
               retry_loop L U E padded ts uuid fallback excl local_addr acct start (attempt + 1) w1)"
  by pat_completeness auto
termination
  by (relation "measure (\<lambda>(_, _, _, _, _, _, _, _, _, _, _, attempt, _). MAX_ATTEMPTS - attempt)") auto

declare retry_loop.simps [simp del]

definition submit_padded_with_retry_generic ::
  "libsignal \<Rightarrow> send_lib \<Rightarrow> 'w send_env \<Rightarrow> bytes \<Rightarrow> u64 \<Rightarrow> string \<Rightarrow> u32 \<Rightarrow> u32 option \<Rightarrow> protocol_address
     \<Rightarrow> account_info \<Rightarrow> 'w \<Rightarrow> ('w, send_error, bool) sres" where
  "submit_padded_with_retry_generic L U E padded_content timestamp_ms recipient_uuid fallback_device_id
       excluded_device_id local_addr acct w =
     retry_loop L U E padded_content timestamp_ms recipient_uuid fallback_device_id excluded_device_id
       local_addr acct (sv_now_ms E w) 0 w"

definition submit_with_retry_generic ::
  "wire_codec \<Rightarrow> libsignal \<Rightarrow> send_lib \<Rightarrow> 'w send_env \<Rightarrow> string \<Rightarrow> u64 \<Rightarrow> protocol_address \<Rightarrow> protocol_address
     \<Rightarrow> account_info \<Rightarrow> 'w \<Rightarrow> ('w, send_error, unit) sres" where
  "submit_with_retry_generic W L U E plaintext timestamp_ms recipient_addr local_addr acct w =
     sbind (submit_padded_with_retry_generic L U E (build_padded_data_message_content W plaintext timestamp_ms)
              timestamp_ms (pa_name recipient_addr) (ucast (pa_device recipient_addr)) None local_addr acct w)
       (\<lambda>_ w1. (Inr (), w1))"

subsection \<open>Sync transcript\<close>

fun establish_each ::
  "libsignal \<Rightarrow> send_lib \<Rightarrow> 'w send_env \<Rightarrow> string \<Rightarrow> u32 option \<Rightarrow> identity_key \<Rightarrow> device_entry list \<Rightarrow> 'w
     \<Rightarrow> ('w, send_error, u32 list) sres" where
  "establish_each L U E account_uuid excl identity_key [] w = (Inr [], w)"
| "establish_each L U E account_uuid excl identity_key (entry # entries) w =
     (if Some (de_device_id entry) = excl then establish_each L U E account_uuid excl identity_key entries w
      else case rbind (build_prekey_bundle L U entry identity_key) (\<lambda>bundle.
                rbind (ok_or (BadResponse (''device id '' @ show_word (de_device_id entry) @ '' out of range''))
                         (device_protocol_address L account_uuid (de_device_id entry))) (\<lambda>dev_addr.
                Inr (dev_addr, bundle))) of
             Inl e \<Rightarrow> (Inl e, w)
           | Inr (dev_addr, bundle) \<Rightarrow>
               (case sv_process_prekey_bundle E dev_addr bundle w of
                  (Inl e, w1) \<Rightarrow>
                    (Inl (BadResponse (''discover process_prekey_bundle for '' @ account_uuid @ ''/''
                       @ show_word (de_device_id entry) @ '': '' @ ls_debug L e)), w1)
                | (Inr _, w1) \<Rightarrow>
                    sbind (establish_each L U E account_uuid excl identity_key entries w1)
                      (\<lambda>established w2. (Inr (de_device_id entry # established), w2))))"

definition discover_and_establish_account_devices ::
  "libsignal \<Rightarrow> send_lib \<Rightarrow> 'w send_env \<Rightarrow> string \<Rightarrow> u32 option \<Rightarrow> account_info \<Rightarrow> 'w \<Rightarrow> ('w, send_error, u32 list) sres" where
  "discover_and_establish_account_devices L U E account_uuid excluded_device_id acct w =
     (case chat_base_url U acct of
        Inl e \<Rightarrow> (Inl e, w)
      | Inr base \<Rightarrow>
          (let url = sl_url_set_path U (''/v2/keys/'' @ account_uuid @ ''/*'') base in
           case sv_get_json E (sl_url_as_str U url) (basic_auth L acct) w of
             (Inl e, w1) \<Rightarrow> (Inl (Transport (''discover devices: '' @ io_error_text e)), w1)
           | (Inr resp, w1) \<Rightarrow>
               (if hr_status resp = 401 then (Inl AuthFailed, w1)
                else if hr_status resp = 404 then (Inr [], w1)
                else if hr_status resp \<noteq> 200 then (Inl (Unexpected (hr_status resp)), w1)
                else case sl_prekeys_from_json U (hr_body resp) of
                       Inl e \<Rightarrow> (Inl (BadResponse (''discover prekey parse: '' @ e)), w1)
                     | Inr pre \<Rightarrow>
                         (case decode_identity_key L (pkr_identity_key pre) of
                            Inl e \<Rightarrow> (Inl e, w1)
                          | Inr identity_key \<Rightarrow>
                              establish_each L U E account_uuid excluded_device_id identity_key (pkr_devices pre) w1))))"

definition submit_sync_transcript_generic ::
  "wire_codec \<Rightarrow> libsignal \<Rightarrow> send_lib \<Rightarrow> 'w send_env \<Rightarrow> string \<Rightarrow> string \<Rightarrow> u64 \<Rightarrow> string \<Rightarrow> u32 \<Rightarrow> protocol_address
     \<Rightarrow> account_info \<Rightarrow> 'w \<Rightarrow> ('w, send_error, unit) sres" where
  "submit_sync_transcript_generic W L U E plaintext recipient_uuid timestamp_ms own_uuid own_device_id local_addr acct w =
     (let known = filter (\<lambda>d. d \<noteq> own_device_id) (sv_device_ids_for E own_uuid w);
          send = (\<lambda>w. sbind (submit_padded_with_retry_generic L U E
                        (build_padded_sync_transcript_content W recipient_uuid plaintext timestamp_ms)
                        timestamp_ms own_uuid own_device_id (Some own_device_id) local_addr acct w)
                   (\<lambda>_ w1. (Inr (), w1)))
      in if known = [] then
           (case discover_and_establish_account_devices L U E own_uuid (Some own_device_id) acct w of
              (Inr established, w1) \<Rightarrow> (if established = [] then (Inr (), w1) else send w1)
            | (Inl _, w1) \<Rightarrow> (Inr (), w1))
         else send w)"

definition submit_with_retry_with_stores ::
  "wire_codec \<Rightarrow> libsignal \<Rightarrow> send_lib \<Rightarrow> 'w send_env \<Rightarrow> string \<Rightarrow> u64 \<Rightarrow> protocol_address \<Rightarrow> protocol_address
     \<Rightarrow> account_info \<Rightarrow> 'w \<Rightarrow> ('w, send_error, unit) sres" where
  "submit_with_retry_with_stores W L U E plaintext timestamp_ms recipient_addr local_addr acct w =
     sbind (submit_with_retry_generic W L U E plaintext timestamp_ms recipient_addr local_addr acct w)
       (\<lambda>_ w1. (Inr (), snd (submit_sync_transcript_generic W L U E plaintext (pa_name recipient_addr)
                   timestamp_ms (ai_aci_service_id acct) (ai_device_id acct) local_addr acct w1)))"

text \<open>The production entry point: the account is read from the PDDB inside the world.\<close>

definition submit_with_retry ::
  "wire_codec \<Rightarrow> libsignal \<Rightarrow> send_lib \<Rightarrow> 's pddb \<Rightarrow> ('w \<Rightarrow> 's) \<Rightarrow> 'w send_env \<Rightarrow> string \<Rightarrow> u64 \<Rightarrow> protocol_address
     \<Rightarrow> 'w \<Rightarrow> ('w, send_error, unit) sres" where
  "submit_with_retry W L U P store E plaintext timestamp_ms recipient_addr w =
     (case read_from_pddb P (store w) of
        Inl e \<Rightarrow> (Inl e, w)
      | Inr acct \<Rightarrow>
          (case Option.bind (u8_try_from (ai_device_id acct)) (\<lambda>d. res_ok (ls_device_id_new L d)) of
             None \<Rightarrow> (Inl (AccountErr (''device_id '' @ show_word (ai_device_id acct) @ '' out of range'')), w)
           | Some local_dev \<Rightarrow>
               submit_with_retry_with_stores W L U E plaintext timestamp_ms recipient_addr
                 \<lparr>pa_name = ai_aci_service_id acct, pa_device = local_dev\<rparr> acct w))"

subsection \<open>The production wiring\<close>

text \<open>The environment \<open>submit_with_retry\<close> builds: the PDDB session store for loading and
  enumeration, the \<open>PddbDeleter\<close> of \<open>submit_with_retry_with_stores\<close>, libsignal's protocol
  calls on the stores, the HTTP client, \<open>thread::sleep\<close> and the clock. The state is the PDDB's
  and the network's.\<close>

record 's protocol =
  pr_message_encrypt :: "bytes \<Rightarrow> protocol_address \<Rightarrow> protocol_address \<Rightarrow> 's \<Rightarrow> ('s, sig_error, ciphertext_message) sres"
  pr_process_prekey_bundle :: "protocol_address \<Rightarrow> pre_key_bundle \<Rightarrow> 's \<Rightarrow> ('s, sig_error, unit) sres"

record 'h net =
  nt_put :: "string \<Rightarrow> string \<Rightarrow> bytes \<Rightarrow> 'h \<Rightarrow> ('h, io_error, http_response) sres"
  nt_get :: "string \<Rightarrow> string \<Rightarrow> 'h \<Rightarrow> ('h, io_error, http_response) sres"
  nt_sleep :: "nat \<Rightarrow> 'h \<Rightarrow> 'h"
  nt_now :: "'h \<Rightarrow> nat"

definition on_fst :: "('s \<Rightarrow> ('s, 'e, 'a) sres) \<Rightarrow> 's \<times> 'h \<Rightarrow> ('s \<times> 'h, 'e, 'a) sres" where
  "on_fst f w = (case f (fst w) of (r, s1) \<Rightarrow> (r, (s1, snd w)))"

definition on_snd :: "('h \<Rightarrow> ('h, 'e, 'a) sres) \<Rightarrow> 's \<times> 'h \<Rightarrow> ('s \<times> 'h, 'e, 'a) sres" where
  "on_snd f w = (case f (snd w) of (r, h1) \<Rightarrow> (r, (fst w, h1)))"

definition pddb_env :: "libsignal \<Rightarrow> 's pddb \<Rightarrow> 's protocol \<Rightarrow> 'h net \<Rightarrow> ('s \<times> 'h) send_env" where
  "pddb_env L P R N =
     \<lparr>se_load_session = (\<lambda>a w. load_session L P SESSION_DICT a (fst w)),
      se_message_encrypt = (\<lambda>m a l. on_fst (pr_message_encrypt R m a l)),
      sv_device_ids_for = (\<lambda>u w. device_ids_for P SESSION_DICT u (fst w)),
      sv_process_prekey_bundle = (\<lambda>a b. on_fst (pr_process_prekey_bundle R a b)),
      sv_delete = (\<lambda>a w. (delete_session P SESSION_DICT a (fst w), snd w)),
      sv_put_json = (\<lambda>u a b. on_snd (nt_put N u a b)),
      sv_get_json = (\<lambda>u a. on_snd (nt_get N u a)),
      sv_sleep = (\<lambda>n w. (fst w, nt_sleep N n (snd w))),
      sv_now_ms = (\<lambda>w. nt_now N (snd w))\<rparr>"

text \<open>Instances at which witnesses evaluate: a network that answers PUTs from a script (503 when
  it is exhausted), GETs with 404, and records what it was asked; a protocol whose ciphertext
  is its plaintext; URLs and JSON by plain concatenation.\<close>

record script_net =
  sn_answers :: "http_response list"
  sn_puts :: "(string \<times> bytes) list"
  sn_clock :: nat
  sn_slept :: nat

definition scripted :: "script_net net" where
  "scripted =
     \<lparr>nt_put = (\<lambda>u a b h.
        (Inr (case sn_answers h of [] \<Rightarrow> \<lparr>hr_status = 503, hr_body = []\<rparr> | r # _ \<Rightarrow> r),
         h\<lparr>sn_answers := tl (sn_answers h), sn_puts := sn_puts h @ [(u, b)]\<rparr>)),
      nt_get = (\<lambda>u a h. (Inr \<lparr>hr_status = 404, hr_body = []\<rparr>, h)),
      nt_sleep = (\<lambda>n h. h\<lparr>sn_clock := sn_clock h + n, sn_slept := sn_slept h + n\<rparr>),
      nt_now = sn_clock\<rparr>"

definition token_protocol :: "'s protocol" where
  "token_protocol =
     \<lparr>pr_message_encrypt = (\<lambda>m a l s. (Inr (SignalMessage m), s)),
      pr_process_prekey_bundle = (\<lambda>a b s. (Inr (), s))\<rparr>"

definition token_send_lib :: send_lib where
  "token_send_lib =
     \<lparr>sl_url_parse = (\<lambda>s. Inr (Url s)),
      sl_url_set_path = (\<lambda>p u. case u of Url b \<Rightarrow> Url (b @ p)),
      sl_url_as_str = (\<lambda>u. case u of Url b \<Rightarrow> b),
      sl_request_to_json = (\<lambda>r. Inr (concat (map (\<lambda>m. show_word (ome_destination_device_id m) @ '';'') (smr_messages r)))),
      sl_mismatch_from_json = (\<lambda>b. Inr \<lparr>missing_devices = [], extra_devices = [], stale_devices = [1]\<rparr>),
      sl_prekeys_from_json = (\<lambda>b. Inl ''no json''),
      sl_public_deserialize = (\<lambda>b. Inr (PublicKey b)),
      sl_kem_deserialize = (\<lambda>b. Inr (KemPublicKey b)),
      sl_bundle_new = (\<lambda>r d ot k p q i y z idk. Inr (PreKeyBundle ''bundle''))\<rparr>"

lemma pddb_env_simps [simp]:
  "se_load_session (pddb_env L P R N) a w = load_session L P SESSION_DICT a (fst w)"
  "se_message_encrypt (pddb_env L P R N) m a l = on_fst (pr_message_encrypt R m a l)"
  "sv_device_ids_for (pddb_env L P R N) u w = device_ids_for P SESSION_DICT u (fst w)"
  "sv_delete (pddb_env L P R N) a w = (delete_session P SESSION_DICT a (fst w), snd w)"
  "sv_put_json (pddb_env L P R N) u auth b = on_snd (nt_put N u auth b)"
  "sv_get_json (pddb_env L P R N) u auth = on_snd (nt_get N u auth)"
  "sv_sleep (pddb_env L P R N) n w = (fst w, nt_sleep N n (snd w))"
  "sv_now_ms (pddb_env L P R N) w = nt_now N (snd w)"
  by (simp_all add: pddb_env_def)

section \<open>Status routing\<close>

lemma show_409 [simp]: "show_word (409 :: u16) = ''409''" and show_410 [simp]: "show_word (410 :: u16) = ''410''"
  by code_simp+

text \<open>What each HTTP status of a PUT leads to: 200 and 204 finish, 409 and 410 hand the body
  to the device correction, 429 and every 5xx back off, everything else is final with its
  own error.\<close>

theorem status_routing:
  "classify_attempt (interpret_send_status \<lparr>hr_status = st, hr_body = b\<rparr>) =
     (if st = 200 \<or> st = 204 then Done
      else if st = 409 then Mismatch409 (from_utf8_lossy b)
      else if st = 410 then Mismatch410 (from_utf8_lossy b)
      else if transient_status st then Backoff
      else if st = 401 then Fatal AuthFailed
      else if st = 404 then Fatal ServiceIdNotFound
      else if st = 413 then Fatal PayloadTooLarge
      else if st = 428 then Fatal ChallengeRequired
      else Fatal (Unexpected st))"
  by (auto simp: interpret_send_status_def transient_status_def Let_def)

end
