(* ===== verification/Rest.thy ===== *)
theory Rest
  imports Prekeys Send
begin

text \<open>
  \<open>src/src/manager/rest.rs\<close> and \<open>src/src/manager/account_attrs.rs\<close>: the REST calls of linking and
  of prekey replenishment, with the request bodies, the retry after a 403, the error kinds and
  the redaction of the verification code in the diagnostic dump; and the account attributes
  with the random password, registration ids and the unidentified access key.

  The HTTP agent, JSON and the URL type are the record \<open>rest_lib\<close>; the two files the hosted build
  writes for diagnosis are its \<open>rs_dump_body\<close> and \<open>rs_dump_error\<close> (the identity elsewhere). The
  locale \<open>recorded_rest\<close> is an agent that remembers the PUTs it sent.
\<close>

section \<open>Definitions\<close>

subsection \<open>Account attributes\<close>

record capabilities =
  cap_storage :: bool
  cap_versioned_expiration_timer :: bool
  cap_attachment_backfill :: bool
  cap_ssre2 :: bool
  cap_spqr :: bool

record account_attributes =
  aa_registration_id :: u32
  aa_fetches_messages :: bool
  aa_registration_lock :: "string option"
  aa_unidentified_access_key :: string
  aa_unrestricted_unidentified_access :: bool
  aa_discoverable_by_phone_number :: bool
  aa_capabilities :: capabilities
  aa_name :: string
  aa_pni_registration_id :: u32
  aa_recovery_password :: "string option"

text \<open>The operating system's random generator and AES-256-GCM (key, nonce, plaintext).\<close>

record 'g attrs_lib =
  at_try_fill :: "nat \<Rightarrow> 'g \<Rightarrow> ('g, string, bytes) sres"
  at_next_u32 :: "'g \<Rightarrow> u32 \<times> 'g"
  at_gcm_encrypt :: "bytes \<Rightarrow> bytes \<Rightarrow> bytes \<Rightarrow> string + bytes"

definition generate_link_password :: "libsignal \<Rightarrow> 'g attrs_lib \<Rightarrow> 'g \<Rightarrow> ('g, io_error, string) sres" where
  "generate_link_password L A g =
     (case at_try_fill A 18 g of
        (Inl _, g1) \<Rightarrow> (Inl (IoError OtherKind ''rng failure''), g1)
      | (Inr bytes, g1) \<Rightarrow> (Inr (b64_std_encode L bytes), g1))"

definition derive_unidentified_access_key :: "'g attrs_lib \<Rightarrow> bytes \<Rightarrow> io_error + bytes" where
  "derive_unidentified_access_key A profile_key =
     (if length profile_key \<noteq> 32 then Inl (IoError InvalidInput ''profile_key must be 32 bytes'')
      else rbind (map_err (\<lambda>_. IoError OtherKind ''UAK AES-GCM failure'')
             (at_gcm_encrypt A profile_key (replicate 12 (CHR 0x00)) (replicate 16 (CHR 0x00)))) (\<lambda>encrypted.
           Inr (take 16 encrypted)))"

definition generate_registration_id :: "'g attrs_lib \<Rightarrow> 'g \<Rightarrow> u16 \<times> 'g" where
  "generate_registration_id A g = (case at_next_u32 A g of (r, g1) \<Rightarrow> (ucast (r mod 16380 + 1), g1))"

definition build_account_attributes ::
  "libsignal \<Rightarrow> 'g attrs_lib \<Rightarrow> string \<Rightarrow> bytes \<Rightarrow> u16 \<Rightarrow> u16 \<Rightarrow> io_error + account_attributes" where
  "build_account_attributes L A encrypted_device_name_b64 profile_key registration_id pni_registration_id =
     rbind (derive_unidentified_access_key A profile_key) (\<lambda>uak.
     Inr \<lparr>aa_registration_id = ucast registration_id, aa_fetches_messages = True, aa_registration_lock = None,
          aa_unidentified_access_key = b64_std_encode L uak,
          aa_unrestricted_unidentified_access = False, aa_discoverable_by_phone_number = False,
          aa_capabilities = \<lparr>cap_storage = True, cap_versioned_expiration_timer = True,
                             cap_attachment_backfill = True, cap_ssre2 = True, cap_spqr = True\<rparr>,
          aa_name = encrypted_device_name_b64, aa_pni_registration_id = ucast pni_registration_id,
          aa_recovery_password = None\<rparr>)"

subsection \<open>Request and response bodies\<close>

record link_device_request_body =
  ldr_verification_code :: string
  ldr_account_attributes :: account_attributes
  ldr_aci_signed_pre_key :: signed_pre_key_entity
  ldr_pni_signed_pre_key :: signed_pre_key_entity
  ldr_aci_pq_last_resort_pre_key :: kyber_pre_key_entity
  ldr_pni_pq_last_resort_pre_key :: kyber_pre_key_entity
  ldr_gcm_token :: "unit option"

definition spk_to_entity :: "signed_pre_key_json \<Rightarrow> signed_pre_key_entity" where
  "spk_to_entity k = \<lparr>ske_key_id = spj_key_id k, ske_public_key = spj_public_key_b64url k, ske_signature = spj_signature_b64url k\<rparr>"

definition kpk_to_entity :: "kyber_pre_key_json \<Rightarrow> kyber_pre_key_entity" where
  "kpk_to_entity k = \<lparr>kke_key_id = kpj_key_id k, kke_public_key = kpj_public_key_b64url k, kke_signature = kpj_signature_b64url k\<rparr>"

definition from_parts :: "string \<Rightarrow> account_attributes \<Rightarrow> prekeys \<Rightarrow> link_device_request_body" where
  "from_parts verification_code attrs pk =
     \<lparr>ldr_verification_code = verification_code, ldr_account_attributes = attrs,
      ldr_aci_signed_pre_key = spk_to_entity (pk_aci_signed pk),
      ldr_pni_signed_pre_key = spk_to_entity (pk_pni_signed pk),
      ldr_aci_pq_last_resort_pre_key = kpk_to_entity (pk_aci_kyber_last_resort pk),
      ldr_pni_pq_last_resort_pre_key = kpk_to_entity (pk_pni_kyber_last_resort pk),
      ldr_gcm_token = None\<rparr>"

text \<open>The JSON value of \<open>deviceId\<close> as serde hands it to the visitor.\<close>

datatype json_scalar = JsonU64 u64 | JsonStr string | JsonOther

fun de_u32_from_str_or_num :: "json_scalar \<Rightarrow> u32 option" where
  "de_u32_from_str_or_num (JsonU64 v) = (if v < 2 ^ 32 then Some (ucast v) else None)"
| "de_u32_from_str_or_num (JsonStr v) = parse_u32 v"
| "de_u32_from_str_or_num JsonOther = None"

record link_device_response =
  ldp_uuid :: string
  ldp_pni :: string
  ldp_device_id :: u32

subsection \<open>Parameters\<close>

record 'h rest_lib =
  rs_put :: "string \<Rightarrow> string \<Rightarrow> bytes \<Rightarrow> 'h \<Rightarrow> ureq_result \<times> 'h"
  rs_get :: "string \<Rightarrow> string \<Rightarrow> 'h \<Rightarrow> ureq_result \<times> 'h"
  rs_into_string :: "io_error + bytes \<Rightarrow> io_error + string"
  rs_url_set_path :: "string \<Rightarrow> url \<Rightarrow> url"
  rs_url_set_query :: "string option \<Rightarrow> url \<Rightarrow> url"
  rs_url_to_string :: "url \<Rightarrow> string"
  rs_link_to_json :: "link_device_request_body \<Rightarrow> string + string"
  rs_attrs_to_json :: "account_attributes \<Rightarrow> string + string"
  rs_keys_to_json :: "set_keys_request \<Rightarrow> string + string"
  rs_link_object :: "string \<Rightarrow> string + string \<times> string \<times> json_scalar"
  rs_count_from_json :: "string \<Rightarrow> string + pre_key_count"
  rs_dump_body :: "string \<Rightarrow> 'h \<Rightarrow> 'h"
  rs_dump_error :: "string \<Rightarrow> 'h \<Rightarrow> 'h"

definition link_response_from_json :: "'h rest_lib \<Rightarrow> string \<Rightarrow> link_device_response option" where
  "link_response_from_json H s =
     Option.bind (res_ok (rs_link_object H s)) (\<lambda>(uuid, pni, dev).
     map_option (\<lambda>d. \<lparr>ldp_uuid = uuid, ldp_pni = pni, ldp_device_id = d\<rparr>) (de_u32_from_str_or_num dev))"

subsection \<open>Calls\<close>

definition basic_auth_header :: "libsignal \<Rightarrow> string \<Rightarrow> string \<Rightarrow> string" where
  "basic_auth_header L identifier password = ''Basic '' @ b64_std_encode L (identifier @ '':'' @ password)"

definition verification_code_key :: string where
  "verification_code_key = DQ # ''verificationCode'' @ [DQ, CHR '':'', DQ]"

definition redact_verification_code :: "string \<Rightarrow> string" where
  "redact_verification_code json =
     (case find_str verification_code_key json of
        None \<Rightarrow> json
      | Some start \<Rightarrow>
          (let vstart = start + length verification_code_key in
           case find_char (\<lambda>c. c = DQ) (drop vstart json) of
             None \<Rightarrow> json
           | Some rel_end \<Rightarrow> take vstart json @ ''<redacted>'' @ drop (vstart + rel_end) json))"

definition link_error_kind :: "u16 \<Rightarrow> io_kind" where
  "link_error_kind code = (if code = 403 then PermissionDenied else if code = 422 then InvalidData else OtherKind)"

definition try_put ::
  "'h rest_lib \<Rightarrow> string \<Rightarrow> string \<Rightarrow> link_device_request_body \<Rightarrow> 'h \<Rightarrow> ('h, io_error, link_device_response) sres" where
  "try_put H url auth_value body h =
     (case rs_link_to_json H body of
        Inl _ \<Rightarrow> (Inl (IoError OtherKind ''failed to serialize link body''), h)
      | Inr json \<Rightarrow>
          (case rs_put H url auth_value json (rs_dump_body H (redact_verification_code json) h) of
             (UreqOk status r, h1) \<Rightarrow>
               (rbind (map_err (\<lambda>_. IoError InvalidData ''failed to read response body'') (rs_into_string H r)) (\<lambda>resp_str.
                ok_or (IoError InvalidData ''failed to parse link response'') (link_response_from_json H resp_str)), h1)
           | (UreqStatus code r, h1) \<Rightarrow>
               (let body_text = unwrap_or [] (res_ok (rs_into_string H r)) in
                (Inl (IoError (link_error_kind code) (''HTTP '' @ show_word code)), rs_dump_error H body_text h1))
           | (UreqTransport e, h1) \<Rightarrow> (Inl (IoError OtherKind ''transport error''), h1)))"

definition put_devices_link ::
  "libsignal \<Rightarrow> 'h rest_lib \<Rightarrow> url \<Rightarrow> string \<Rightarrow> string \<Rightarrow> link_device_request_body \<Rightarrow> 'h \<Rightarrow> ('h, io_error, link_device_response) sres" where
  "put_devices_link L H base_url phone_number password body h =
     (let link_url = rs_url_to_string H (rs_url_set_path H ''/v1/devices/link'' base_url) in
      case try_put H link_url (basic_auth_header L (phone_number @ ''.-1'') password) body h of
        (Inr r, h1) \<Rightarrow> (Inr r, h1)
      | (Inl e, h1) \<Rightarrow>
          (if io_error_kind e = PermissionDenied
           then try_put H link_url (basic_auth_header L phone_number password) body h1
           else (Inl e, h1)))"

text \<open>What the three remaining calls make of a failed request.\<close>

fun call_failed :: "string \<Rightarrow> ureq_result \<Rightarrow> io_error" where
  "call_failed call (UreqStatus code r) = IoError OtherKind (call @ '' returned '' @ show_word code)"
| "call_failed call (UreqTransport e) = IoError ConnectionAborted (call @ '' request failed: '' @ e)"
| "call_failed call (UreqOk status r) = IoError OtherKind call"

definition put_accounts_attributes ::
  "libsignal \<Rightarrow> 'h rest_lib \<Rightarrow> url \<Rightarrow> string \<Rightarrow> string \<Rightarrow> account_attributes \<Rightarrow> 'h \<Rightarrow> ('h, io_error, unit) sres" where
  "put_accounts_attributes L H base_url identifier password attrs h =
     (let url_str = rs_url_to_string H (rs_url_set_path H ''/v1/accounts/attributes'' base_url) in
      case rs_attrs_to_json H attrs of
        Inl _ \<Rightarrow> (Inl (IoError OtherKind ''failed to serialize attrs body''), h)
      | Inr json \<Rightarrow>
          (case rs_put H url_str (basic_auth_header L identifier password) json h of
             (UreqOk status r, h1) \<Rightarrow> (Inr (), h1)
           | (e, h1) \<Rightarrow> (Inl (call_failed ''PUT /v1/accounts/attributes'' e), h1)))"

definition parse_prekey_count :: "'h rest_lib \<Rightarrow> string \<Rightarrow> io_error + pre_key_count" where
  "parse_prekey_count H body = map_err (\<lambda>e. IoError InvalidData (''PreKeyCount parse: '' @ e)) (rs_count_from_json H body)"

definition keys_url :: "'h rest_lib \<Rightarrow> url \<Rightarrow> string" where
  "keys_url H base_url = rs_url_to_string H (rs_url_set_query H (Some ''identity=aci'') (rs_url_set_path H ''/v2/keys'' base_url))"

definition get_keys_status ::
  "libsignal \<Rightarrow> 'h rest_lib \<Rightarrow> url \<Rightarrow> string \<Rightarrow> string \<Rightarrow> 'h \<Rightarrow> ('h, io_error, pre_key_count) sres" where
  "get_keys_status L H base_url identifier password h =
     (case rs_get H (keys_url H base_url) (basic_auth_header L identifier password) h of
        (UreqOk status r, h1) \<Rightarrow>
          (rbind (map_err (\<lambda>e. IoError OtherKind (''read body: '' @ io_error_text e)) (rs_into_string H r)) (parse_prekey_count H), h1)
      | (e, h1) \<Rightarrow> (Inl (call_failed ''GET /v2/keys'' e), h1))"

definition put_keys ::
  "libsignal \<Rightarrow> 'h rest_lib \<Rightarrow> url \<Rightarrow> string \<Rightarrow> string \<Rightarrow> set_keys_request \<Rightarrow> 'h \<Rightarrow> ('h, io_error, unit) sres" where
  "put_keys L H base_url identifier password body h =
     (case rs_keys_to_json H body of
        Inl _ \<Rightarrow> (Inl (IoError OtherKind ''failed to serialize SetKeysRequest''), h)
      | Inr json \<Rightarrow>
          (case rs_put H (keys_url H base_url) (basic_auth_header L identifier password) json h of
             (UreqOk status r, h1) \<Rightarrow> (Inr (), h1)
           | (e, h1) \<Rightarrow> (Inl (call_failed ''PUT /v2/keys'' e), h1)))"

section \<open>Registration ids\<close>

lemma registration_id_range:
  assumes "generate_registration_id A g = (i, g')"
  shows "1 \<le> i \<and> i \<le> 16380"
proof -
  obtain r where i: "i = ucast (r mod 16380 + 1 :: u32)"
    using assms by (auto simp: generate_registration_id_def split: prod.splits)
  have lt: "unat (r mod 16380) < 16380" by (simp add: unat_mod_distrib)
  then have "unat (r mod 16380 + 1) = unat (r mod 16380) + 1" by (subst unat_add_lem [THEN iffD1]) simp_all
  with lt have "unat i = unat (r mod 16380) + 1" by (simp add: i unsigned_ucast_eq take_bit_nat_eq_self)
  with lt show ?thesis by (simp add: word_le_nat_alt)
qed

section \<open>Linking\<close>

text \<open>An HTTP agent whose PUTs are on record, with their URL, authorization and body; the
  diagnostic dumps are not requests.\<close>

type_synonym put_request = "string \<times> string \<times> bytes"

locale recorded_rest =
  fixes H :: "'h rest_lib" and sent :: "'h \<Rightarrow> put_request list"
  assumes put_recorded: "sent (snd (rs_put H u a b h)) = sent h @ [(u, a, b)]"
    and dump_quiet: "sent (rs_dump_body H t h) = sent h" "sent (rs_dump_error H t h) = sent h"

text \<open>The requests that a link may consist of: none, one under the identifier \<open>number.-1\<close>, or
  that one followed by one under the bare number, with the same URL and body.\<close>

definition link_url :: "'h rest_lib \<Rightarrow> url \<Rightarrow> string" where
  "link_url H base = rs_url_to_string H (rs_url_set_path H ''/v1/devices/link'' base)"

definition link_requests ::
  "libsignal \<Rightarrow> 'h rest_lib \<Rightarrow> url \<Rightarrow> string \<Rightarrow> string \<Rightarrow> link_device_request_body \<Rightarrow> put_request list set" where
  "link_requests L H base n pw body =
     {[]} \<union> (\<Union>json \<in> {j. rs_link_to_json H body = Inr j}.
       {[(link_url H base, ''Basic '' @ b64_std_encode L (n @ ''.-1:'' @ pw), json)],
        [(link_url H base, ''Basic '' @ b64_std_encode L (n @ ''.-1:'' @ pw), json),
         (link_url H base, ''Basic '' @ b64_std_encode L (n @ '':'' @ pw), json)]})"

lemma link_requests_length: "reqs \<in> link_requests L H base n pw body \<Longrightarrow> length reqs \<le> 2"
  by (auto simp: link_requests_def)

context recorded_rest
begin

text \<open>One try sends the serialised body once, or nothing when it does not serialise.\<close>

lemma try_put_sent:
  assumes "try_put H u a b h = (res, h')"
  shows "(case rs_link_to_json H b of
            Inl _ \<Rightarrow> sent h' = sent h \<and> (\<exists>e. res = Inl e \<and> io_error_kind e = OtherKind)
          | Inr json \<Rightarrow> sent h' = sent h @ [(u, a, json)])"
proof (cases "rs_link_to_json H b")
  case (Inr json)
  have "sent h1 = sent h @ [(u, a, json)]" if "rs_put H u a json (rs_dump_body H t h) = (y, h1)" for t y h1
    using put_recorded [of u a json "rs_dump_body H t h"] that by (simp add: dump_quiet)
  with assms Inr show ?thesis by (auto simp: try_put_def Let_def dump_quiet split: prod.splits ureq_result.splits)
qed (use assms in \<open>auto simp: try_put_def\<close>)

lemma try_put_denied:
  assumes "try_put H u a b h = (Inl e, h')" and "io_error_kind e = PermissionDenied"
  shows "\<exists>json r h1. rs_link_to_json H b = Inr json
    \<and> rs_put H u a json (rs_dump_body H (redact_verification_code json) h) = (UreqStatus 403 r, h1)"
proof -
  from assms obtain json where json: "rs_link_to_json H b = Inr json" by (cases "rs_link_to_json H b") (auto simp: try_put_def)
  obtain y h1 where put: "rs_put H u a json (rs_dump_body H (redact_verification_code json) h) = (y, h1)" by (metis surj_pair)
  have "\<exists>r. y = UreqStatus 403 r"
    using assms json put by (cases y) (auto simp: try_put_def Let_def link_error_kind_def elim!: rbind.elims map_err.elims ok_or.elims ok_or.elims [OF sym] split: if_splits)
  with json put show ?thesis by blast
qed

lemma put_devices_link_sent:
  assumes "put_devices_link L H base n p b h = (res, h')"
  shows "\<exists>reqs \<in> link_requests L H base n p b. sent h' = sent h @ reqs \<and> length reqs \<le> 2 \<and> (\<forall>r. res = Inr r \<longrightarrow> reqs \<noteq> [])
    \<and> (\<forall>e. res = Inl e \<longrightarrow> io_error_kind e = PermissionDenied \<longrightarrow> length reqs = 2)
    \<and> (length reqs = 2 \<longrightarrow> (\<exists>json r h1. rs_link_to_json H b = Inr json
         \<and> rs_put H (link_url H base) (''Basic '' @ b64_std_encode L (n @ ''.-1:'' @ p)) json
             (rs_dump_body H (redact_verification_code json) h) = (UreqStatus 403 r, h1)))"
proof -
  let ?u = "link_url H base" and ?a = "basic_auth_header L (n @ ''.-1'') p" and ?a' = "basic_auth_header L n p"
  obtain r1 h1 where t1: "try_put H ?u ?a b h = (r1, h1)" by (metis surj_pair)
  obtain r2 h2 where t2: "try_put H ?u ?a' b h1 = (r2, h2)" by (metis surj_pair)
  note s1 = try_put_sent [OF t1] and s2 = try_put_sent [OF t2]
  have run: "(res, h') = (if \<exists>e. r1 = Inl e \<and> io_error_kind e = PermissionDenied then (r2, h2) else (r1, h1))"
    using assms t1 t2 by (auto simp: put_devices_link_def link_url_def Let_def split: sum.splits if_splits)
  show ?thesis
  proof (cases "rs_link_to_json H b")
    case Inl
    with s1 run show ?thesis by (auto simp: link_requests_def split: if_splits)
  next
    case (Inr json)
    show ?thesis
    proof (cases "\<exists>e. r1 = Inl e \<and> io_error_kind e = PermissionDenied")
      case True
      with t1 obtain r h3 where "rs_put H ?u ?a json (rs_dump_body H (redact_verification_code json) h) = (UreqStatus 403 r, h3)"
        using try_put_denied Inr by fastforce
      with True Inr s1 s2 run show ?thesis by (auto simp: link_requests_def basic_auth_header_def)
    next
      case False
      with Inr s1 run show ?thesis by (auto simp: link_requests_def basic_auth_header_def)
    qed
  qed
qed

lemma put_attributes_sent:
  assumes "put_accounts_attributes L H base i p at h = (res, h')"
  shows "\<exists>reqs. sent h' = sent h @ reqs \<and> (reqs = [] \<or> (\<exists>json. rs_attrs_to_json H at = Inr json
    \<and> reqs = [(rs_url_to_string H (rs_url_set_path H ''/v1/accounts/attributes'' base),
               ''Basic '' @ b64_std_encode L (i @ '':'' @ p), json)]))"
proof (cases "rs_attrs_to_json H at")
  case (Inr json)
  with assms show ?thesis
    using put_recorded [of "rs_url_to_string H (rs_url_set_path H ''/v1/accounts/attributes'' base)" "basic_auth_header L i p" json h]
    by (auto simp: put_accounts_attributes_def Let_def basic_auth_header_def split: prod.splits ureq_result.splits)
qed (use assms in \<open>auto simp: put_accounts_attributes_def\<close>)

end

text \<open>An agent that answers PUTs from a script and records them.\<close>

type_synonym script_agent = "ureq_result list \<times> put_request list"

definition script_rest :: "script_agent rest_lib" where
  "script_rest =
     \<lparr>rs_put = (\<lambda>u a b h. (case fst h of [] \<Rightarrow> UreqTransport ''down'' | r # _ \<Rightarrow> r, (tl (fst h), snd h @ [(u, a, b)]))),
      rs_get = (\<lambda>u a h. (UreqTransport ''down'', h)),
      rs_into_string = id,
      rs_url_set_path = (\<lambda>p u. case u of Url b \<Rightarrow> Url (b @ p)),
      rs_url_set_query = (\<lambda>q u. u),
      rs_url_to_string = (\<lambda>u. case u of Url b \<Rightarrow> b),
      rs_link_to_json = (\<lambda>b. Inr (ldr_verification_code b)),
      rs_attrs_to_json = (\<lambda>a. Inr (aa_name a)),
      rs_keys_to_json = (\<lambda>k. Inr []),
      rs_link_object = (\<lambda>s. Inr (''uuid'', ''pni'', JsonStr s)),
      rs_count_from_json = (\<lambda>s. Inl ''no json''),
      rs_dump_body = (\<lambda>t h. h), rs_dump_error = (\<lambda>t h. h)\<rparr>"

lemma script_rest_simps [simp]:
  "rs_put script_rest u a b h = (case fst h of [] \<Rightarrow> UreqTransport ''down'' | r # _ \<Rightarrow> r, (tl (fst h), snd h @ [(u, a, b)]))"
  "rs_into_string script_rest r = r" "rs_link_to_json script_rest b' = Inr (ldr_verification_code b')"
  "rs_attrs_to_json script_rest at = Inr (aa_name at)"
  "rs_link_object script_rest t = Inr (''uuid'', ''pni'', JsonStr t)"
  "rs_dump_body script_rest t h = h" "rs_dump_error script_rest t h = h"
  by (simp_all add: script_rest_def)

interpretation script: recorded_rest script_rest snd
  by unfold_locales simp_all

text \<open>The single-use code stays out of the dump: in a link body as serialised (the code is the
  first string value and has no quote) the redacted text is the same for every code.\<close>

theorem redaction_hides_code:
  assumes "DQ \<notin> set pre" and "DQ \<notin> set code"
  shows "redact_verification_code (pre @ verification_code_key @ code @ DQ # post)
           = pre @ verification_code_key @ ''<redacted>'' @ DQ # post"
proof -
  let ?k = verification_code_key and ?json = "pre @ verification_code_key @ code @ DQ # post"
  have "\<not> starts_with ?k (drop i pre @ rest)" if "i < length pre" for i rest
  proof -
    have "hd (drop i pre @ rest) = pre ! i" "drop i pre \<noteq> []" using that by (simp_all add: hd_drop_conv_nth)
    moreover have "pre ! i \<noteq> DQ" using assms(1) that by (metis nth_mem)
    ultimately show ?thesis by (cases "drop i pre") (auto simp: starts_with_def verification_code_key_def)
  qed
  then have "find_str ?k ?json = Some (length pre)" by (subst find_str_skip) simp_all
  moreover have "find_char (\<lambda>c. c = DQ) (code @ DQ # post) = Some (length code)"
    using assms(2) by (subst find_char_append) auto
  ultimately show ?thesis by (simp add: redact_verification_code_def Let_def)
qed

theorem redaction_hides_code_witness:
  "redact_verification_code (''{'' @ verification_code_key @ ''123456'' @ DQ # ''}'') = ''{'' @ verification_code_key @ ''<redacted>'' @ DQ # ''}''"
  by (rule redaction_hides_code) simp_all

end
