(* ===== verification/Provisioning.thy ===== *)
theory Provisioning
  imports Proto Stores
begin

text \<open>
  \<open>src/src/manager/libsignal.rs\<close>: the cryptographic messages of device linking. Decoding and
  authenticated decryption of the provisioning envelope, the provisioning address, the
  encrypted device name with its hand-written AES-CTR mode, and the temporary identity key
  pair. Curve operations, HMAC, HKDF, the AES block cipher and AES-CBC are the record
  \<open>crypto\<close>; base64 and key parsing are those of \<open>libsignal\<close>.
\<close>

section \<open>Definitions\<close>

record 'g crypto =
  cy_generate :: "'g \<Rightarrow> (private_key \<times> public_key) \<times> 'g"
  cy_private_serialize :: "private_key \<Rightarrow> bytes"
  cy_public_of :: "private_key \<Rightarrow> sig_error + public_key"
  cy_public_deserialize :: "bytes \<Rightarrow> sig_error + public_key"
  cy_agreement :: "private_key \<Rightarrow> public_key \<Rightarrow> sig_error + bytes"
  cy_hmac_sha256 :: "bytes \<Rightarrow> bytes \<Rightarrow> bytes option"
  cy_hkdf_sha256 :: "bytes \<Rightarrow> bytes \<Rightarrow> string + bytes"
  cy_aes256_block :: "bytes \<Rightarrow> bytes \<Rightarrow> bytes"
  cy_cbc_new :: "bytes \<Rightarrow> bytes \<Rightarrow> bool"
  cy_cbc_decrypt :: "bytes \<Rightarrow> bytes \<Rightarrow> bytes \<Rightarrow> bytes option"

record identity_key_pair =
  ik_service_id :: string
  ik_djb_identity_key :: string
  ik_djb_private_key :: string

record provision_message =
  pm_number :: string
  pm_aci :: identity_key_pair
  pm_pni :: identity_key_pair
  pm_master_key :: string
  pm_profile_key :: "string option"
  pm_provisioning_code :: "string option"
  pm_account_entropy_pool :: "string option"

definition invalid_data :: "string \<Rightarrow> io_error" where
  "invalid_data m = IoError InvalidData m"

subsection \<open>Messages\<close>

record provision_message_proto =
  pp_aci_public :: "bytes option"
  pp_aci_private :: "bytes option"
  pp_number :: "string option"
  pp_provisioning_code :: "string option"
  pp_profile_key :: "bytes option"
  pp_read_receipts :: "bool option"
  pp_aci :: "string option"
  pp_pni :: "string option"
  pp_pni_public :: "bytes option"
  pp_pni_private :: "bytes option"
  pp_aep :: "string option"

definition provision_message_default :: provision_message_proto where
  "provision_message_default =
     \<lparr>pp_aci_public = None, pp_aci_private = None, pp_number = None, pp_provisioning_code = None, pp_profile_key = None,
      pp_read_receipts = None, pp_aci = None, pp_pni = None, pp_pni_public = None, pp_pni_private = None, pp_aep = None\<rparr>"

fun merge_provision_message :: "wire_field \<Rightarrow> provision_message_proto \<Rightarrow> provision_message_proto option" where
  "merge_provision_message (t, v) m =
     (if t = 1 then map_option (\<lambda>x. m\<lparr>pp_aci_public := Some x\<rparr>) (get_bytes v)
      else if t = 2 then map_option (\<lambda>x. m\<lparr>pp_aci_private := Some x\<rparr>) (get_bytes v)
      else if t = 3 then map_option (\<lambda>x. m\<lparr>pp_number := Some x\<rparr>) (get_string v)
      else if t = 4 then map_option (\<lambda>x. m\<lparr>pp_provisioning_code := Some x\<rparr>) (get_string v)
      else if t = 6 then map_option (\<lambda>x. m\<lparr>pp_profile_key := Some x\<rparr>) (get_bytes v)
      else if t = 7 then map_option (\<lambda>x. m\<lparr>pp_read_receipts := Some (x \<noteq> 0)\<rparr>) (get_u64 v)
      else if t = 8 then map_option (\<lambda>x. m\<lparr>pp_aci := Some x\<rparr>) (get_string v)
      else if t = 10 then map_option (\<lambda>x. m\<lparr>pp_pni := Some x\<rparr>) (get_string v)
      else if t = 11 then map_option (\<lambda>x. m\<lparr>pp_pni_public := Some x\<rparr>) (get_bytes v)
      else if t = 12 then map_option (\<lambda>x. m\<lparr>pp_pni_private := Some x\<rparr>) (get_bytes v)
      else if t = 15 then map_option (\<lambda>x. m\<lparr>pp_aep := Some x\<rparr>) (get_string v)
      else Some m)"

record provision_envelope_proto =
  pe_public_key :: "bytes option"
  pe_body :: "bytes option"

fun merge_provision_envelope :: "wire_field \<Rightarrow> provision_envelope_proto \<Rightarrow> provision_envelope_proto option" where
  "merge_provision_envelope (t, v) m =
     (if t = 1 then map_option (\<lambda>x. m\<lparr>pe_public_key := Some x\<rparr>) (get_bytes v)
      else if t = 2 then map_option (\<lambda>x. m\<lparr>pe_body := Some x\<rparr>) (get_bytes v)
      else Some m)"

text \<open>The wrapper's request as this module declares it; only the body is used.\<close>

record ws_request_body =
  wb_verb :: "string option"
  wb_path :: "string option"
  wb_body :: "bytes option"
  wb_id :: "u64 option"

fun merge_ws_request_body :: "wire_field \<Rightarrow> ws_request_body \<Rightarrow> ws_request_body option" where
  "merge_ws_request_body (t, v) m =
     (if t = 1 then map_option (\<lambda>x. m\<lparr>wb_verb := Some x\<rparr>) (get_string v)
      else if t = 2 then map_option (\<lambda>x. m\<lparr>wb_path := Some x\<rparr>) (get_string v)
      else if t = 3 then map_option (\<lambda>x. m\<lparr>wb_body := Some x\<rparr>) (get_bytes v)
      else if t = 4 then map_option (\<lambda>x. m\<lparr>wb_id := Some x\<rparr>) (get_u64 v)
      else Some m)"

record ws_wrapper =
  ww_type :: "u32 option"
  ww_request :: "ws_request_body option"

fun merge_ws_wrapper :: "wire_codec \<Rightarrow> wire_field \<Rightarrow> ws_wrapper \<Rightarrow> ws_wrapper option" where
  "merge_ws_wrapper W (t, v) m =
     (if t = 1 then map_option (\<lambda>x. m\<lparr>ww_type := Some x\<rparr>) (get_u32 v)
      else if t = 2 then map_option (\<lambda>x. m\<lparr>ww_request := Some x\<rparr>)
             (merge_nested W merge_ws_request_body \<lparr>wb_verb = None, wb_path = None, wb_body = None, wb_id = None\<rparr> (ww_request m) v)
      else Some m)"

text \<open>The body of the wrapped request, with the two errors of the decoders.\<close>

definition unwrap_ws_body :: "wire_codec \<Rightarrow> bytes \<Rightarrow> io_error + bytes" where
  "unwrap_ws_body W bytes =
     rbind (ok_or (invalid_data ''failed to decode WebSocketMessage'')
              (decode_message W (merge_ws_wrapper W) \<lparr>ww_type = None, ww_request = None\<rparr> bytes)) (\<lambda>ws.
     ok_or (invalid_data ''missing request.body'') (Option.bind (ww_request ws) wb_body))"

fun merge_address :: "wire_field \<Rightarrow> string option \<Rightarrow> string option option" where
  "merge_address (t, v) m = (if t = 1 then map_option Some (get_string v) else Some m)"

definition provisioning_uuid_decode :: "wire_codec \<Rightarrow> bytes \<Rightarrow> io_error + string" where
  "provisioning_uuid_decode W bytes =
     rbind (unwrap_ws_body W bytes) (\<lambda>body.
     rbind (ok_or (invalid_data ''failed to decode ProvisioningAddress'') (decode_message W merge_address None body)) (\<lambda>proto.
     ok_or (invalid_data ''missing address in ProvisioningAddress'') proto))"

subsection \<open>The provisioning envelope\<close>

definition hkdf_info :: string where
  "hkdf_info = ''TextSecure Provisioning Message''"

definition provision_keys :: "libsignal \<Rightarrow> 'g crypto \<Rightarrow> identity_key_pair \<Rightarrow> bytes \<Rightarrow> io_error + bytes \<times> bytes" where
  "provision_keys L Y temp_identity ephemeral_pub_bytes =
     rbind (map_err (\<lambda>_. invalid_data ''failed to decode temp private key'') (b64_url_decode L (ik_djb_private_key temp_identity))) (\<lambda>priv_bytes.
     rbind (map_err (\<lambda>_. invalid_data ''invalid temp private key'') (ls_private_deserialize L priv_bytes)) (\<lambda>our_private_key.
     rbind (map_err (\<lambda>_. invalid_data ''invalid ephemeral public key'') (cy_public_deserialize Y ephemeral_pub_bytes)) (\<lambda>their_pub_key.
     rbind (map_err (\<lambda>_. invalid_data ''ECDH failed'') (cy_agreement Y our_private_key their_pub_key)) (\<lambda>shared_secret.
     rbind (map_err (\<lambda>_. invalid_data ''HKDF expand failed'') (cy_hkdf_sha256 Y shared_secret hkdf_info)) (\<lambda>derived.
     Inr (take 32 derived, drop 32 derived))))))"

text \<open>Steps 6 and 7: the MAC over all but the last 32 bytes is checked before the cipher runs.\<close>

definition open_provision_body :: "'g crypto \<Rightarrow> bytes \<Rightarrow> bytes \<Rightarrow> bytes \<Rightarrow> io_error + bytes" where
  "open_provision_body Y aes_key mac_key body =
     (let mac_input = take (length body - 32) body;
          mac_expected = drop (length body - 32) body
      in rbind (ok_or (invalid_data ''HMAC key init failed'') (cy_hmac_sha256 Y mac_key mac_input)) (\<lambda>mac.
         if mac \<noteq> mac_expected then Inl (invalid_data ''MAC verification failed'')
         else
           (let iv = take 16 (drop 1 body);
                ciphertext = take (length body - 32 - 17) (drop 17 body)
            in if \<not> cy_cbc_new Y aes_key iv then Inl (invalid_data ''AES key/IV length error'')
               else ok_or (invalid_data ''AES-CBC-PKCS7 decryption failed'') (cy_cbc_decrypt Y aes_key iv ciphertext))))"

definition provision_message_of :: "libsignal \<Rightarrow> provision_message_proto \<Rightarrow> io_error + provision_message" where
  "provision_message_of L msg =
     rbind (ok_or (invalid_data ''missing aciIdentityKeyPublic'') (pp_aci_public msg)) (\<lambda>aci_pub.
     rbind (ok_or (invalid_data ''missing aciIdentityKeyPrivate'') (pp_aci_private msg)) (\<lambda>aci_priv.
     Inr \<lparr>pm_number = unwrap_or [] (pp_number msg),
          pm_aci = \<lparr>ik_service_id = unwrap_or [] (pp_aci msg), ik_djb_identity_key = b64_url_encode L aci_pub,
                    ik_djb_private_key = b64_url_encode L aci_priv\<rparr>,
          pm_pni = \<lparr>ik_service_id = unwrap_or [] (pp_pni msg), ik_djb_identity_key = b64_url_encode L (unwrap_or [] (pp_pni_public msg)),
                    ik_djb_private_key = b64_url_encode L (unwrap_or [] (pp_pni_private msg))\<rparr>,
          pm_master_key = [], pm_profile_key = map_option (b64_url_encode L) (pp_profile_key msg),
          pm_provisioning_code = pp_provisioning_code msg, pm_account_entropy_pool = pp_aep msg\<rparr>))"

definition provisioning_decrypt ::
  "wire_codec \<Rightarrow> libsignal \<Rightarrow> 'g crypto \<Rightarrow> identity_key_pair \<Rightarrow> bytes \<Rightarrow> io_error + provision_message" where
  "provisioning_decrypt W L Y temp_identity bytes =
     rbind (ok_or (invalid_data ''failed to decode ProvisionEnvelope'')
              (decode_message W merge_provision_envelope \<lparr>pe_public_key = None, pe_body = None\<rparr> bytes)) (\<lambda>envelope.
     rbind (ok_or (invalid_data ''missing publicKey in ProvisionEnvelope'') (pe_public_key envelope)) (\<lambda>ephemeral_pub_bytes.
     rbind (ok_or (invalid_data ''missing body in ProvisionEnvelope'') (pe_body envelope)) (\<lambda>body.
     if length body < 65 then Inl (invalid_data ''ProvisionEnvelope body too short'')
     else if body ! 0 \<noteq> CHR 0x01 then Inl (invalid_data ''unexpected ProvisionEnvelope version'')
     else rbind (provision_keys L Y temp_identity ephemeral_pub_bytes) (\<lambda>(aes_key, mac_key).
          rbind (open_provision_body Y aes_key mac_key body) (\<lambda>plaintext.
          rbind (ok_or (invalid_data ''failed to decode ProvisionMessage'')
                   (decode_message W merge_provision_message provision_message_default plaintext)) (\<lambda>msg.
          provision_message_of L msg))))))"

definition provision_message_decode ::
  "wire_codec \<Rightarrow> libsignal \<Rightarrow> 'g crypto \<Rightarrow> identity_key_pair \<Rightarrow> bytes \<Rightarrow> io_error + provision_message" where
  "provision_message_decode W L Y temp_identity bytes =
     rbind (unwrap_ws_body W bytes) (provisioning_decrypt W L Y temp_identity)"

definition generate_identity_key_pair :: "libsignal \<Rightarrow> 'g crypto \<Rightarrow> 'g \<Rightarrow> identity_key_pair \<times> 'g" where
  "generate_identity_key_pair L Y g =
     (case cy_generate Y g of ((priv, pub), g1) \<Rightarrow>
        (\<lparr>ik_service_id = [], ik_djb_identity_key = b64_url_encode L (ls_public_serialize L pub),
          ik_djb_private_key = b64_url_encode L (cy_private_serialize Y priv)\<rparr>, g1))"

subsection \<open>Counter mode\<close>

definition xor_char :: "char \<Rightarrow> char \<Rightarrow> char" where
  "xor_char a b = char_of (xor (of_char a :: nat) (of_char b))"

text \<open>The big-endian increment: byte by byte from the last, while a byte wraps to zero.\<close>

fun increment_from_last :: "bytes \<Rightarrow> bytes" where
  "increment_from_last [] = []"
| "increment_from_last (c # cs) =
     (let d = char_of (((of_char c :: nat) + 1) mod 256)
      in if d \<noteq> CHR 0x00 then d # cs else d # increment_from_last cs)"

definition increment_counter :: "bytes \<Rightarrow> bytes" where
  "increment_counter counter = rev (increment_from_last (rev counter))"

function ctr_stream :: "(bytes \<Rightarrow> bytes) \<Rightarrow> bytes \<Rightarrow> bytes \<Rightarrow> bytes" where
  "ctr_stream encrypt_block counter plaintext =
     (if plaintext = [] then []
      else map2 xor_char (take 16 plaintext) (encrypt_block counter)
             @ ctr_stream encrypt_block (increment_counter counter) (drop 16 plaintext))"
  by pat_completeness auto
termination by (relation "measure (\<lambda>(_, _, p). length p)") auto

declare ctr_stream.simps [simp del]

definition aes256_ctr_encrypt :: "'g crypto \<Rightarrow> bytes \<Rightarrow> bytes \<Rightarrow> io_error + bytes" where
  "aes256_ctr_encrypt Y key plaintext =
     (if length key \<noteq> 32 then Inl (invalid_data ''AES-256 key must be 32 bytes'')
      else Inr (ctr_stream (cy_aes256_block Y key) (replicate 16 (CHR 0x00)) plaintext))"

subsection \<open>Device name\<close>

definition device_name_fields :: "bytes \<Rightarrow> bytes \<Rightarrow> bytes \<Rightarrow> wire_field list" where
  "device_name_fields ephemeral_public synthetic_iv ciphertext =
     opt_len 1 (Some ephemeral_public) @ opt_len 2 (Some synthetic_iv) @ opt_len 3 (Some ciphertext)"

text \<open>Steps 2 to 6 from the master secret: the synthetic IV and the ciphertext.\<close>

definition seal_device_name :: "'g crypto \<Rightarrow> bytes \<Rightarrow> string \<Rightarrow> io_error + bytes \<times> bytes" where
  "seal_device_name Y master_secret device_name =
     rbind (ok_or (invalid_data ''HMAC key init (auth)'') (cy_hmac_sha256 Y master_secret ''auth'')) (\<lambda>synthetic_iv_key.
     rbind (ok_or (invalid_data ''HMAC key init (synth_iv)'') (cy_hmac_sha256 Y synthetic_iv_key device_name)) (\<lambda>synthetic_iv_full.
     let synthetic_iv = take 16 synthetic_iv_full in
     rbind (ok_or (invalid_data ''HMAC key init (cipher)'') (cy_hmac_sha256 Y master_secret ''cipher'')) (\<lambda>cipher_key_key.
     rbind (ok_or (invalid_data ''HMAC key init (cipher_key)'') (cy_hmac_sha256 Y cipher_key_key synthetic_iv)) (\<lambda>cipher_key.
     rbind (aes256_ctr_encrypt Y cipher_key device_name) (\<lambda>ciphertext.
     Inr (synthetic_iv, ciphertext))))))"

definition encrypt_device_name ::
  "wire_codec \<Rightarrow> libsignal \<Rightarrow> 'g crypto \<Rightarrow> string \<Rightarrow> string \<Rightarrow> 'g \<Rightarrow> ('g, io_error, string) sres" where
  "encrypt_device_name W L Y device_name aci_identity_priv g =
     (case rbind (map_err (\<lambda>e. invalid_data (''identity priv b64: '' @ e)) (b64_url_decode L aci_identity_priv)) (\<lambda>priv_bytes.
           rbind (map_err (\<lambda>e. invalid_data (''identity priv deserialize: '' @ ls_debug L e)) (ls_private_deserialize L priv_bytes)) (\<lambda>identity_private.
           map_err (\<lambda>e. IoError OtherKind (''identity pub derivation: '' @ ls_debug L e)) (cy_public_of Y identity_private))) of
        Inl e \<Rightarrow> (Inl e, g)
      | Inr identity_public \<Rightarrow>
          (case cy_generate Y g of ((eph_priv, eph_pub), g1) \<Rightarrow>
             (rbind (map_err (\<lambda>e. IoError OtherKind (''ECDH: '' @ ls_debug L e)) (cy_agreement Y eph_priv identity_public)) (\<lambda>master_secret.
              rbind (seal_device_name Y master_secret device_name) (\<lambda>(synthetic_iv, ciphertext).
              Inr (b64_std_encode L (wc_encode W (device_name_fields (ls_public_serialize L eph_pub) synthetic_iv ciphertext))))), g1)))"

section \<open>Counter mode\<close>

lemma of_char_lt [simp]: "(of_char c :: nat) < 256"
  using of_char_mod_256 [of c, where 'a = nat] by (metis mod_less_divisor zero_less_numeral)

lemma xor_lt_256: "(a :: nat) < 256 \<Longrightarrow> b < 256 \<Longrightarrow> xor a b < 256"
proof -
  assume "a < 256" "b < 256"
  then have "take_bit 8 a = a" "take_bit 8 b = b" by (simp_all add: take_bit_nat_eq_self_iff)
  then have "take_bit 8 (xor a b) = xor a b" by (simp add: take_bit_xor)
  then have "xor a b < 2 ^ 8" by (simp only: take_bit_nat_eq_self_iff)
  then show ?thesis by simp
qed

lemma xor_char_self [simp]: "xor_char (xor_char a b) b = a"
proof -
  have "xor (of_char a :: nat) (of_char b) < 256" by (rule xor_lt_256) simp_all
  then have "(of_char (xor_char a b) :: nat) = xor (of_char a) (of_char b)"
    by (simp add: xor_char_def)
  then show ?thesis by (simp add: xor_char_def xor.assoc)
qed

lemma length_increment [simp]: "length (increment_from_last cs) = length cs"
  by (induction cs) (simp_all add: Let_def)

fun le_value :: "bytes \<Rightarrow> nat" where
  "le_value [] = 0"
| "le_value (c # cs) = of_char c + 256 * le_value cs"

lemma le_value_lt: "le_value cs < 256 ^ length cs"
proof (induction cs)
  case (Cons c cs)
  have "(of_char c :: nat) \<le> 255" using of_char_lt [of c] by linarith
  moreover have "256 * le_value cs + 256 \<le> 256 * 256 ^ length cs" using Cons by simp
  ultimately show ?case by simp
qed simp

lemma char_of_zero_iff: "n < 256 \<Longrightarrow> char_of (n :: nat) = CHR 0x00 \<longleftrightarrow> n = 0"
proof -
  assume "n < 256"
  then have "(of_char (char_of n :: char) :: nat) = n" by simp
  moreover have "(of_char (CHR 0x00) :: nat) = 0" by simp
  ultimately show ?thesis by (metis of_char_eq_iff)
qed

lemma le_value_increment: "le_value (increment_from_last cs) = (le_value cs + 1) mod 256 ^ length cs"
proof (induction cs)
  case (Cons c cs)
  show ?case
  proof (cases "(of_char c :: nat) = 255")
    case True
    then have "le_value (increment_from_last (c # cs)) = 256 * ((le_value cs + 1) mod 256 ^ length cs)"
      using Cons by (simp add: char_of_zero_iff)
    also have "\<dots> = (le_value (c # cs) + 1) mod (256 * 256 ^ length cs)"
      using True by (simp add: mult_mod_right algebra_simps)
    finally show ?thesis by simp
  next
    case False
    have lt: "(of_char c :: nat) + 1 < 256" using False of_char_lt [of c] by linarith
    have val: "le_value (increment_from_last (c # cs)) = le_value (c # cs) + 1"
      using lt by (simp add: char_of_zero_iff Let_def)
    have "le_value (increment_from_last (c # cs)) < 256 ^ length (increment_from_last (c # cs))" by (rule le_value_lt)
    then have "le_value (c # cs) + 1 < 256 ^ length (c # cs)" by (simp only: val length_increment)
    with val show ?thesis by (simp only: mod_less)
  qed
qed simp

text \<open>The counter as a big-endian number.\<close>

definition be_value :: "bytes \<Rightarrow> nat" where
  "be_value cs = le_value (rev cs)"

lemma be_value_increment: "be_value (increment_counter cs) = (be_value cs + 1) mod 256 ^ length cs"
  by (simp add: be_value_def increment_counter_def le_value_increment)

lemma length_increment_counter [simp]: "length (increment_counter cs) = length cs"
  by (simp add: increment_counter_def)

lemma be_value_steps: "be_value ((increment_counter ^^ n) cs) = (be_value cs + n) mod 256 ^ length cs"
proof -
  have len: "length ((increment_counter ^^ n) cs) = length cs" for n by (induction n) simp_all
  show ?thesis
  proof (induction n)
    case 0
    show ?case using le_value_lt [of "rev cs"] by (simp add: be_value_def)
  next
    case (Suc n)
    then show ?case by (simp add: be_value_increment len mod_Suc_eq)
  qed
qed

text \<open>Byte \<open>j\<close> of the stream is masked with byte \<open>j mod 16\<close> of the encrypted counter of its
  block.\<close>

lemma ctr_stream_nth:
  assumes len: "\<And>c. length (enc c) = 16"
  shows "length (ctr_stream enc c p) = length p"
    and "j < length p \<Longrightarrow> ctr_stream enc c p ! j = xor_char (p ! j) (enc ((increment_counter ^^ (j div 16)) c) ! (j mod 16))"
proof (induction "length p" arbitrary: p c j rule: less_induct)
  case less
  {
    case 1
    show ?case
    proof (cases "p = []")
      case False
      with less(1) [of "drop 16 p"] show ?thesis by (subst ctr_stream.simps) (simp add: len)
    qed (simp add: ctr_stream.simps)
  next
    case 2
    then have ne: "p \<noteq> []" by auto
    let ?head = "map2 xor_char (take 16 p) (enc c)" and ?tail = "ctr_stream enc (increment_counter c) (drop 16 p)"
    have split: "ctr_stream enc c p = ?head @ ?tail" using ne by (subst ctr_stream.simps) simp
    have hl: "length ?head = min 16 (length p)" by (simp add: len)
    show ?case
    proof (cases "j < 16")
      case True
      with 2 hl show ?thesis unfolding split by (simp add: nth_append len)
    next
      case False
      with 2 have "j - 16 < length (drop 16 p)" by simp
      from less(2) [OF _ this, of "increment_counter c"] ne
      have "?tail ! (j - 16) = xor_char (drop 16 p ! (j - 16)) (enc ((increment_counter ^^ ((j - 16) div 16)) (increment_counter c)) ! ((j - 16) mod 16))"
        by simp
      moreover have "j div 16 = Suc ((j - 16) div 16)" "(j - 16) mod 16 = j mod 16"
        using False by (simp_all add: le_div_geq le_mod_geq)
      ultimately show ?thesis using 2 False hl unfolding split by (simp add: nth_append funpow_swap1)
    qed
  }
qed

lemma ctr_stream_involution:
  assumes "\<And>c. length (enc c) = 16"
  shows "ctr_stream enc c (ctr_stream enc c p) = p"
  by (rule nth_equalityI) (simp_all add: ctr_stream_nth [OF assms])

section \<open>Counter mode against a reference\<close>

text \<open>NIST counter mode with a zero IV, by position instead of by running counter: byte \<open>j\<close> is
  masked with byte \<open>j mod 16\<close> of the encryption of the 16-byte big-endian number \<open>j div 16\<close>.\<close>

fun be_bytes :: "nat \<Rightarrow> nat \<Rightarrow> bytes" where
  "be_bytes 0 v = []"
| "be_bytes (Suc n) v = be_bytes n (v div 256) @ [char_of (v mod 256)]"

definition ctr_reference :: "(bytes \<Rightarrow> bytes) \<Rightarrow> bytes \<Rightarrow> bytes" where
  "ctr_reference block p =
     map (\<lambda>j. xor_char (p ! j) (block (be_bytes 16 (j div 16)) ! (j mod 16))) [0..<length p]"

lemma length_be_bytes [simp]: "length (be_bytes n v) = n"
  by (induction n v rule: be_bytes.induct) simp_all

lemma be_value_be_bytes: "be_value (be_bytes n v) = v mod 256 ^ n"
proof (induction n v rule: be_bytes.induct)
  case (2 n v)
  have "le_value (rev (be_bytes n (v div 256))) = v div 256 mod 256 ^ n" using 2 by (simp add: be_value_def)
  then show ?case by (simp add: be_value_def mod_mult2_eq)
qed (simp add: be_value_def)

lemma le_value_inj: "length xs = length ys \<Longrightarrow> le_value xs = le_value ys \<Longrightarrow> xs = ys"
proof (induction xs ys rule: list_induct2)
  case (Cons x xs y ys)
  have "(of_char x + 256 * le_value xs) mod 256 = (of_char y + 256 * le_value ys) mod (256 :: nat)"
    using Cons.prems by simp
  then have "(of_char x :: nat) = of_char y" by simp
  with Cons show ?case by simp
qed simp

lemma be_value_inj: "length xs = length ys \<Longrightarrow> be_value xs = be_value ys \<Longrightarrow> xs = ys"
  using le_value_inj [of "rev xs" "rev ys"] by (simp add: be_value_def)

lemma counter_is_be_bytes: "(increment_counter ^^ n) (replicate 16 (CHR 0x00)) = be_bytes 16 n"
proof (rule be_value_inj)
  have "length ((increment_counter ^^ n) cs) = length cs" for cs by (induction n) simp_all
  then show "length ((increment_counter ^^ n) (replicate 16 (CHR 0x00))) = length (be_bytes 16 n)" by simp
  have "le_value (replicate k (CHR 0x00)) = 0" for k by (induction k) simp_all
  then have "be_value (replicate 16 (CHR 0x00)) = 0" unfolding be_value_def rev_replicate .
  then show "be_value ((increment_counter ^^ n) (replicate 16 (CHR 0x00))) = be_value (be_bytes 16 n)"
    by (simp only: be_value_steps be_value_be_bytes length_replicate add_0)
qed

lemma ctr_is_reference:
  assumes block: "\<And>c. length (cy_aes256_block Y key c) = 16" and "length key = 32"
  shows "aes256_ctr_encrypt Y key p = Inr (ctr_reference (cy_aes256_block Y key) p)"
proof -
  note nth = ctr_stream_nth [of "cy_aes256_block Y key", OF block]
  have "ctr_stream (cy_aes256_block Y key) (replicate 16 (CHR 0x00)) p = ctr_reference (cy_aes256_block Y key) p"
    by (rule nth_equalityI) (simp_all only: nth ctr_reference_def counter_is_be_bytes length_map length_upt nth_map nth_upt add_0 diff_zero)
  with assms show ?thesis by (simp add: aes256_ctr_encrypt_def)
qed

lemma ctr_reference_involution: "ctr_reference block (ctr_reference block p) = p"
  by (rule nth_equalityI) (simp_all add: ctr_reference_def)

section \<open>Device names\<close>

text \<open>What the account owner does with a device name: agree on the master secret with the
  ephemeral public key, derive the cipher key from the synthetic IV, undo counter mode, and
  accept the name only if its synthetic IV is the one received.\<close>

definition unseal_device_name :: "'g crypto \<Rightarrow> bytes \<Rightarrow> bytes \<times> bytes \<Rightarrow> string option" where
  "unseal_device_name Y master_secret sealed =
     (case sealed of (iv, ct) \<Rightarrow>
        Option.bind (cy_hmac_sha256 Y master_secret ''cipher'') (\<lambda>kk.
        Option.bind (cy_hmac_sha256 Y kk iv) (\<lambda>key.
        Option.bind (cy_hmac_sha256 Y master_secret ''auth'') (\<lambda>ik.
        let name = ctr_reference (cy_aes256_block Y key) ct in
        Option.bind (cy_hmac_sha256 Y ik name) (\<lambda>full. if take 16 full = iv then Some name else None)))))"

definition open_device_name :: "wire_codec \<Rightarrow> libsignal \<Rightarrow> 'g crypto \<Rightarrow> private_key \<Rightarrow> string \<Rightarrow> string option" where
  "open_device_name W L Y identity_private name64 =
     Option.bind (res_ok (b64_permissive_decode L name64)) (\<lambda>b.
     case wc_decode W b of
       Some [(_, LenDelim eph), (_, LenDelim iv), (_, LenDelim ct)] \<Rightarrow>
         Option.bind (res_ok (cy_public_deserialize Y eph)) (\<lambda>eph_pub.
         Option.bind (res_ok (cy_agreement Y identity_private eph_pub)) (\<lambda>ms. unseal_device_name Y ms (iv, ct)))
     | _ \<Rightarrow> None)"

text \<open>What the sender relies on: HMAC-SHA256 takes keys of any length and gives 32 bytes, an
  AES block has 16 bytes, Diffie-Hellman succeeds and is symmetric, a public key survives its
  encoding, and base64 is decoded by the engine the program itself uses.\<close>

locale device_name_crypto = wire_format W
  for W :: wire_codec +
  fixes L :: libsignal and Y :: "'g crypto"
  assumes hmac_total: "\<exists>t. cy_hmac_sha256 Y k m = Some t \<and> length t = 32"
    and block_length: "length (cy_aes256_block Y key c) = 16"
    and generated: "cy_generate Y g = ((a, A), g') \<Longrightarrow> cy_public_of Y a = Inr A"
    and dh_total: "\<exists>m. cy_agreement Y a A = Inr m"
    and dh_symmetric: "cy_public_of Y a = Inr A \<Longrightarrow> cy_public_of Y b = Inr B \<Longrightarrow> cy_agreement Y a B = cy_agreement Y b A"
    and public_codec: "cy_public_deserialize Y (ls_public_serialize L A) = Inr A"
    and base64: "b64_permissive_decode L (b64_std_encode L bs) = Inr bs"
begin

lemma seal_unseal: "\<exists>iv ct. seal_device_name Y ms name = Inr (iv, ct) \<and> unseal_device_name Y ms (iv, ct) = Some name"
proof -
  obtain ik kk where ik: "cy_hmac_sha256 Y ms ''auth'' = Some ik" and kk: "cy_hmac_sha256 Y ms ''cipher'' = Some kk"
    using hmac_total by metis
  obtain full where full: "cy_hmac_sha256 Y ik name = Some full" using hmac_total by metis
  obtain key where key: "cy_hmac_sha256 Y kk (take 16 full) = Some key" "length key = 32" using hmac_total by metis
  have "seal_device_name Y ms name = Inr (take 16 full, ctr_reference (cy_aes256_block Y key) name)"
    using ctr_is_reference [OF block_length key(2)] by (simp only: seal_device_name_def ik kk full key(1) ok_or.simps rbind.simps Let_def)
  moreover have "unseal_device_name Y ms (take 16 full, ctr_reference (cy_aes256_block Y key) name) = Some name"
    by (simp only: unseal_device_name_def ik kk full key(1) Option.bind.simps Let_def prod.case ctr_reference_involution if_True simp_thms)
  ultimately show ?thesis by blast
qed

lemma device_name_opens:
  assumes key: "b64_url_decode L priv64 = Inr pb" "ls_private_deserialize L pb = Inr a" "cy_public_of Y a = Inr A"
  shows "\<exists>s g'. encrypt_device_name W L Y name priv64 g = (Inr s, g') \<and> open_device_name W L Y a s = Some name"
proof -
  obtain b B g' where gen: "cy_generate Y g = ((b, B), g')" by (metis surj_pair)
  obtain ms where ms: "cy_agreement Y b A = Inr ms" using dh_total by metis
  have ms': "cy_agreement Y a B = Inr ms" using dh_symmetric [OF key(3) generated [OF gen]] ms by simp
  obtain iv ct where sealed: "seal_device_name Y ms name = Inr (iv, ct)" "unseal_device_name Y ms (iv, ct) = Some name"
    using seal_unseal by blast
  let ?fs = "device_name_fields (ls_public_serialize L B) iv ct"
  have "wc_decode W (wc_encode W ?fs) = Some ?fs" by (rule roundtrip) (simp add: device_name_fields_def opt_len_def)
  then have "open_device_name W L Y a (b64_std_encode L (wc_encode W ?fs)) = Some name"
    using ms' sealed(2) by (simp add: open_device_name_def base64 device_name_fields_def opt_len_def public_codec)
  moreover have "encrypt_device_name W L Y name priv64 g = (Inr (b64_std_encode L (wc_encode W ?fs)), g')"
    using key gen ms sealed(1) by (simp add: encrypt_device_name_def)
  ultimately show ?thesis by blast
qed

end

text \<open>A lawful instance: agreement is a sum of the key bytes, HMAC the concatenation of key and
  message cut or filled to 32 bytes.\<close>

definition fill :: "nat \<Rightarrow> bytes \<Rightarrow> bytes" where
  "fill n b = take n (b @ replicate n (CHR 0x00))"

definition token_crypto :: "nat crypto" where
  "token_crypto =
     \<lparr>cy_generate = (\<lambda>n. ((PrivateKey [char_of n], PublicKey [char_of n]), n + 1)),
      cy_private_serialize = (\<lambda>k. case k of PrivateKey b \<Rightarrow> b),
      cy_public_of = (\<lambda>k. case k of PrivateKey b \<Rightarrow> Inr (PublicKey b)),
      cy_public_deserialize = (\<lambda>b. Inr (PublicKey b)),
      cy_agreement = (\<lambda>k q. case k of PrivateKey a \<Rightarrow> (case q of PublicKey b \<Rightarrow>
                        Inr [char_of (sum_list (map of_char a) + sum_list (map of_char b) :: nat)])),
      cy_hmac_sha256 = (\<lambda>k m. Some (fill 32 (k @ m))),
      cy_hkdf_sha256 = (\<lambda>ikm info. Inr (fill 64 (ikm @ info))),
      cy_aes256_block = (\<lambda>k b. fill 16 (map2 xor_char k b)),
      cy_cbc_new = (\<lambda>k iv. length k = 32 \<and> length iv = 16),
      cy_cbc_decrypt = (\<lambda>k iv c. Some c)\<rparr>"

lemma length_fill [simp]: "length (fill n b) = n"
  by (simp add: fill_def)

interpretation token_dn: device_name_crypto pb_wire token_libsignal token_crypto
  by unfold_locales
     (auto simp: token_crypto_def token_libsignal_def add.commute split: private_key.splits public_key.splits)

text \<open>C10. The hand-written AES-CTR loop is counter mode: with a 32-byte key it returns the
  reference encryption, where byte \<open>j\<close> is masked by the encrypted big-endian block number,
  with any other key length it is refused; and encrypting twice gives the input back.\<close>

theorem ctr_mode_reference:
  assumes "\<And>c. length (cy_aes256_block Y key c) = 16"
  shows "aes256_ctr_encrypt Y key p =
           (if length key = 32 then Inr (ctr_reference (cy_aes256_block Y key) p)
            else Inl (IoError InvalidData ''AES-256 key must be 32 bytes''))
         \<and> (length key = 32 \<longrightarrow> rbind (aes256_ctr_encrypt Y key p) (aes256_ctr_encrypt Y key) = Inr p)"
proof (cases "length key = 32")
  case True
  note ref = ctr_is_reference [of Y key, OF assms True]
  show ?thesis by (simp only: ref True ctr_reference_involution rbind.simps if_True simp_thms)
next
  case False
  then show ?thesis by (simp add: aes256_ctr_encrypt_def invalid_data_def)
qed

theorem ctr_mode_reference_witness:
  "length (fill 32 ''k'') = 32
   \<and> aes256_ctr_encrypt token_crypto (fill 32 ''k'') ''device name longer than a block''
       = Inr (ctr_reference (cy_aes256_block token_crypto (fill 32 ''k'')) ''device name longer than a block'')
   \<and> rbind (aes256_ctr_encrypt token_crypto (fill 32 ''k'') ''phone'') (aes256_ctr_encrypt token_crypto (fill 32 ''k'')) = Inr ''phone''"
proof -
  note ctr = ctr_mode_reference [of token_crypto "fill 32 ''k''", OF token_dn.block_length]
  have len: "length (fill 32 ''k'') = 32" by simp
  show ?thesis
    using ctr [of "''device name longer than a block''", THEN conjunct1] ctr [of "''phone''", THEN conjunct2, THEN mp, OF len]
    by (simp only: len if_True simp_thms)
qed

text \<open>C11. The device name reaches the account owner: for every name and every readable identity
  key the sealing succeeds, and the holder of that identity key opens the result to the same
  name, synthetic IV checked.\<close>

theorem device_name_roundtrip:
  assumes "device_name_crypto W L Y"
    and "b64_url_decode L priv64 = Inr pb" "ls_private_deserialize L pb = Inr a" "cy_public_of Y a = Inr A"
  shows "\<exists>s g'. encrypt_device_name W L Y name priv64 g = (Inr s, g') \<and> open_device_name W L Y a s = Some name"
  using assms by (rule device_name_crypto.device_name_opens)

theorem device_name_roundtrip_witness:
  "\<exists>s g'. encrypt_device_name pb_wire token_libsignal token_crypto ''my precursor'' ''owner'' 7 = (Inr s, g')
     \<and> open_device_name pb_wire token_libsignal token_crypto (PrivateKey ''owner'') s = Some ''my precursor''"
proof (rule device_name_roundtrip [OF token_dn.device_name_crypto_axioms, where A = "PublicKey ''owner''"])
  show "b64_url_decode token_libsignal ''owner'' = Inr ''owner''"
    and "ls_private_deserialize token_libsignal ''owner'' = Inr (PrivateKey ''owner'')"
    by (simp_all add: token_libsignal_def)
  show "cy_public_of token_crypto (PrivateKey ''owner'') = Inr (PublicKey ''owner'')" by (simp add: token_crypto_def)
qed

section \<open>The provisioning envelope\<close>

text \<open>The envelope body by layout: version byte, IV, ciphertext, tag.\<close>

lemma body_layout:
  "65 \<le> length body \<and> body ! 0 = CHR 0x01 \<longleftrightarrow>
   (\<exists>iv ct tag. body = CHR 0x01 # iv @ ct @ tag \<and> length iv = 16 \<and> 16 \<le> length ct \<and> length tag = 32)"
  (is "?l = ?r")
proof
  assume l: ?l
  then obtain rest where body: "body = CHR 0x01 # rest" by (cases body) auto
  let ?iv = "take 16 rest" and ?n = "length rest - 48"
  let ?ct = "take ?n (drop 16 rest)" and ?tag = "drop ?n (drop 16 rest)"
  have "rest = ?iv @ ?ct @ ?tag" by (simp only: append_take_drop_id)
  moreover have "length ?iv = 16" "16 \<le> length ?ct" "length ?tag = 32" using l body by auto
  ultimately show ?r using body by blast
qed auto

lemma open_provision_body_layout:
  assumes "length iv = 16" "length tag = 32"
  shows "open_provision_body Y aes_key mac_key (CHR 0x01 # iv @ ct @ tag) = Inr pt \<longleftrightarrow>
           cy_hmac_sha256 Y mac_key (CHR 0x01 # iv @ ct) = Some tag \<and> cy_cbc_new Y aes_key iv
             \<and> cy_cbc_decrypt Y aes_key iv ct = Some pt"
proof -
  let ?body = "CHR 0x01 # iv @ ct @ tag"
  have split: "take (length ?body - 32) ?body = CHR 0x01 # iv @ ct" "drop (length ?body - 32) ?body = tag"
      "take 16 (drop 1 ?body) = iv" "take (length ?body - 32 - 17) (drop 17 ?body) = ct"
    using assms by (simp_all add: take_Cons' drop_Cons')
  show ?thesis
    unfolding open_provision_body_def Let_def split
    by (cases "cy_hmac_sha256 Y mac_key (CHR 0x01 # iv @ ct)"; cases "cy_cbc_decrypt Y aes_key iv ct") auto
qed

lemma provisioning_decrypt_iff:
  "provisioning_decrypt W L Y temp b = Inr m \<longleftrightarrow>
   (\<exists>pub iv ct tag aes_key mac_key pt msg.
      decode_message W merge_provision_envelope \<lparr>pe_public_key = None, pe_body = None\<rparr> b
        = Some \<lparr>pe_public_key = Some pub, pe_body = Some (CHR 0x01 # iv @ ct @ tag)\<rparr>
      \<and> length iv = 16 \<and> 16 \<le> length ct \<and> length tag = 32
      \<and> provision_keys L Y temp pub = Inr (aes_key, mac_key)
      \<and> cy_hmac_sha256 Y mac_key (CHR 0x01 # iv @ ct) = Some tag
      \<and> cy_cbc_new Y aes_key iv \<and> cy_cbc_decrypt Y aes_key iv ct = Some pt
      \<and> decode_message W merge_provision_message provision_message_default pt = Some msg
      \<and> provision_message_of L msg = Inr m)"
  (is "?lhs \<longleftrightarrow> (\<exists>pub iv ct tag aes_key mac_key pt msg. ?ok pub iv ct tag aes_key mac_key pt msg)")
proof
  assume l: ?lhs
  obtain pub body where env: "decode_message W merge_provision_envelope \<lparr>pe_public_key = None, pe_body = None\<rparr> b
      = Some \<lparr>pe_public_key = Some pub, pe_body = Some body\<rparr>"
    and ok: "65 \<le> length body" "body ! 0 = CHR 0x01"
    using l by (auto simp: provisioning_decrypt_def res_simps not_less split: if_splits)
       (metis (full_types) provision_envelope_proto.surjective old.unit.exhaust)
  obtain iv ct tag where body: "body = CHR 0x01 # iv @ ct @ tag" "length iv = 16" "16 \<le> length ct" "length tag = 32"
    using ok body_layout by blast
  have "\<exists>aes_key mac_key pt msg. ?ok pub iv ct tag aes_key mac_key pt msg"
    using l env body by (auto simp: provisioning_decrypt_def res_simps open_provision_body_layout)
  then show "\<exists>pub iv ct tag aes_key mac_key pt msg. ?ok pub iv ct tag aes_key mac_key pt msg" by blast
next
  assume "\<exists>pub iv ct tag aes_key mac_key pt msg. ?ok pub iv ct tag aes_key mac_key pt msg"
  then obtain pub iv ct tag aes_key mac_key pt msg where ok: "?ok pub iv ct tag aes_key mac_key pt msg" by blast
  then have "open_provision_body Y aes_key mac_key (CHR 0x01 # iv @ ct @ tag) = Inr pt"
    by (simp add: open_provision_body_layout)
  with ok show ?lhs by (simp add: provisioning_decrypt_def)
qed

text \<open>The two key halves and the fields of the result, spelt out.\<close>

lemma provision_keys_iff:
  "provision_keys L Y temp pub = Inr (aes_key, mac_key) \<longleftrightarrow>
   (\<exists>priv_bytes priv their secret derived.
      b64_url_decode L (ik_djb_private_key temp) = Inr priv_bytes \<and> ls_private_deserialize L priv_bytes = Inr priv
      \<and> cy_public_deserialize Y pub = Inr their \<and> cy_agreement Y priv their = Inr secret
      \<and> cy_hkdf_sha256 Y secret hkdf_info = Inr derived
      \<and> aes_key = take 32 derived \<and> mac_key = drop 32 derived)"
  by (auto simp: provision_keys_def res_simps)

lemma provision_message_of_iff:
  "provision_message_of L msg = Inr m \<longleftrightarrow>
   (\<exists>aci_pub aci_priv. pp_aci_public msg = Some aci_pub \<and> pp_aci_private msg = Some aci_priv
      \<and> m = \<lparr>pm_number = unwrap_or [] (pp_number msg),
             pm_aci = \<lparr>ik_service_id = unwrap_or [] (pp_aci msg), ik_djb_identity_key = b64_url_encode L aci_pub,
                       ik_djb_private_key = b64_url_encode L aci_priv\<rparr>,
             pm_pni = \<lparr>ik_service_id = unwrap_or [] (pp_pni msg),
                       ik_djb_identity_key = b64_url_encode L (unwrap_or [] (pp_pni_public msg)),
                       ik_djb_private_key = b64_url_encode L (unwrap_or [] (pp_pni_private msg))\<rparr>,
             pm_master_key = [], pm_profile_key = map_option (b64_url_encode L) (pp_profile_key msg),
             pm_provisioning_code = pp_provisioning_code msg, pm_account_entropy_pool = pp_aep msg\<rparr>)"
  by (auto simp: provision_message_of_def res_simps)

text \<open>C9. What provisioning accepts, and what it makes of it: \<open>decrypt\<close> returns a message exactly
  for an envelope that carries a public key and a body of version byte 1, 16-byte IV, at least
  one cipher block and a 32-byte tag, where the 64 bytes that HKDF expands from the
  Diffie-Hellman secret of the temporary private key and that public key are an AES key (the
  first 32) and a MAC key (the rest), the tag is the HMAC of everything before it under the MAC
  key, and the block cipher under the AES key opens a ProvisionMessage with both ACI keys; the
  result has the number, the two identities, the profile key, the provisioning code and the
  entropy pool of that message and no other, and an empty master key. So nothing of a body
  whose tag does not verify is ever used.\<close>

theorem provisioning_accepts:
  "provisioning_decrypt W L Y temp b = Inr m \<longleftrightarrow>
   (\<exists>pub iv ct tag priv_bytes priv their secret derived pt msg aci_pub aci_priv.
      decode_message W merge_provision_envelope \<lparr>pe_public_key = None, pe_body = None\<rparr> b
        = Some \<lparr>pe_public_key = Some pub, pe_body = Some (CHR 0x01 # iv @ ct @ tag)\<rparr>
      \<and> length iv = 16 \<and> 16 \<le> length ct \<and> length tag = 32
      \<and> b64_url_decode L (ik_djb_private_key temp) = Inr priv_bytes \<and> ls_private_deserialize L priv_bytes = Inr priv
      \<and> cy_public_deserialize Y pub = Inr their \<and> cy_agreement Y priv their = Inr secret
      \<and> cy_hkdf_sha256 Y secret hkdf_info = Inr derived
      \<and> cy_hmac_sha256 Y (drop 32 derived) (CHR 0x01 # iv @ ct) = Some tag
      \<and> cy_cbc_new Y (take 32 derived) iv \<and> cy_cbc_decrypt Y (take 32 derived) iv ct = Some pt
      \<and> decode_message W merge_provision_message provision_message_default pt = Some msg
      \<and> pp_aci_public msg = Some aci_pub \<and> pp_aci_private msg = Some aci_priv
      \<and> m = \<lparr>pm_number = unwrap_or [] (pp_number msg),
             pm_aci = \<lparr>ik_service_id = unwrap_or [] (pp_aci msg), ik_djb_identity_key = b64_url_encode L aci_pub,
                       ik_djb_private_key = b64_url_encode L aci_priv\<rparr>,
             pm_pni = \<lparr>ik_service_id = unwrap_or [] (pp_pni msg),
                       ik_djb_identity_key = b64_url_encode L (unwrap_or [] (pp_pni_public msg)),
                       ik_djb_private_key = b64_url_encode L (unwrap_or [] (pp_pni_private msg))\<rparr>,
             pm_master_key = [], pm_profile_key = map_option (b64_url_encode L) (pp_profile_key msg),
             pm_provisioning_code = pp_provisioning_code msg, pm_account_entropy_pool = pp_aep msg\<rparr>)"
  unfolding provisioning_decrypt_iff provision_keys_iff provision_message_of_iff by blast

end
