(* ===== verification/Account.thy ===== *)
theory Account
  imports Rest Provisioning
begin

text \<open>
  \<open>src/src/account.rs\<close> and \<open>src/src/account/service_environment.rs\<close>: the account, a cache over a
  PDDB dict. Creation with defaults, reading, the two ways to set a field, and \<open>link\<close>, which
  turns a provisioning message into a registered account: attributes, prekeys, the REST call,
  the batch of credentials and the prekey records.

  The \<open>url\<close> crate's host and URL types are the record \<open>account_lib\<close>. A panic of \<open>unwrap\<close> is the
  fault \<open>UnwrapPanic\<close>.
\<close>

section \<open>Definitions\<close>

subsection \<open>Service environment\<close>

datatype service_environment = Live | Staging

fun service_environment_to_string :: "service_environment \<Rightarrow> string" where
  "service_environment_to_string Live = ''Live''"
| "service_environment_to_string Staging = ''Staging''"

definition service_environment_from_str :: "string \<Rightarrow> service_environment option" where
  "service_environment_from_str input =
     (if input = ''Live'' then Some Live else if input = ''Staging'' then Some Staging else None)"

subsection \<open>The account and its keys\<close>

datatype host = Host string

record account_lib =
  al_host_parse :: "string \<Rightarrow> string + host"
  al_host_to_string :: "host \<Rightarrow> string"
  al_url_parse :: "string \<Rightarrow> string + url"

record account =
  ac_pddb_dict :: string
  ac_aci_identity_private :: "string option"
  ac_aci_identity_public :: "string option"
  ac_aci_service_id :: "string option"
  ac_device_id :: u32
  ac_encrypted_device_name :: "string option"
  ac_host :: host
  ac_is_multi_device :: bool
  ac_number :: "string option"
  ac_password :: "string option"
  ac_pin_master_key :: "string option"
  ac_pni_identity_private :: "string option"
  ac_pni_identity_public :: "string option"
  ac_pni_service_id :: "string option"
  ac_profile_key :: "string option"
  ac_registered :: bool
  ac_service_environment :: service_environment
  ac_storage_key :: "string option"
  ac_store_last_receive_timestamp :: int
  ac_store_manifest_version :: int
  ac_store_manifest :: "string option"

abbreviation ACCOUNT_ENTROPY_POOL_KEY :: string where "ACCOUNT_ENTROPY_POOL_KEY \<equiv> ''aep''"
abbreviation ACI_IDENTITY_PRIVATE_KEY :: string where "ACI_IDENTITY_PRIVATE_KEY \<equiv> ''aci.identity.private''"
abbreviation ACI_IDENTITY_PUBLIC_KEY :: string where "ACI_IDENTITY_PUBLIC_KEY \<equiv> ''aci.identity.public''"
abbreviation ACI_SERVICE_ID_KEY :: string where "ACI_SERVICE_ID_KEY \<equiv> ''aci.service_id''"
abbreviation DEVICE_ID_KEY :: string where "DEVICE_ID_KEY \<equiv> ''device_id''"
abbreviation ENCRYPTED_DEVICE_NAME_KEY :: string where "ENCRYPTED_DEVICE_NAME_KEY \<equiv> ''encrypted_device_name''"
abbreviation HOST_KEY :: string where "HOST_KEY \<equiv> ''host''"
abbreviation IS_MULTI_DEVICE_KEY :: string where "IS_MULTI_DEVICE_KEY \<equiv> ''is_multi_device''"
abbreviation NUMBER_KEY :: string where "NUMBER_KEY \<equiv> ''number''"
abbreviation PASSWORD_KEY :: string where "PASSWORD_KEY \<equiv> ''password''"
abbreviation PIN_MASTER_KEY_KEY :: string where "PIN_MASTER_KEY_KEY \<equiv> ''pin_master_key''"
abbreviation PNI_IDENTITY_PRIVATE_KEY :: string where "PNI_IDENTITY_PRIVATE_KEY \<equiv> ''pni.identity.private''"
abbreviation PNI_IDENTITY_PUBLIC_KEY :: string where "PNI_IDENTITY_PUBLIC_KEY \<equiv> ''pni.identity.public''"
abbreviation PNI_REGISTRATION_ID_KEY :: string where "PNI_REGISTRATION_ID_KEY \<equiv> ''pni.registration_id''"
abbreviation PNI_SERVICE_ID_KEY :: string where "PNI_SERVICE_ID_KEY \<equiv> ''pni.service_id''"
abbreviation PROFILE_KEY_KEY :: string where "PROFILE_KEY_KEY \<equiv> ''profile_key''"
abbreviation REGISTERED_KEY :: string where "REGISTERED_KEY \<equiv> ''registered''"
abbreviation REGISTRATION_ID_KEY :: string where "REGISTRATION_ID_KEY \<equiv> ''registration_id''"
abbreviation SERVICE_ENVIRONMENT_KEY :: string where "SERVICE_ENVIRONMENT_KEY \<equiv> ''service_environment''"
abbreviation STORAGE_KEY_KEY :: string where "STORAGE_KEY_KEY \<equiv> ''storage_key''"
abbreviation STORE_LAST_RECEIVE_TIMESTAMP_KEY :: string where "STORE_LAST_RECEIVE_TIMESTAMP_KEY \<equiv> ''store_last_receive_timestamp''"
abbreviation STORE_MANIFEST_VERSION_KEY :: string where "STORE_MANIFEST_VERSION_KEY \<equiv> ''store_manifest_version''"
abbreviation STORE_MANIFEST_KEY :: string where "STORE_MANIFEST_KEY \<equiv> ''store_manifest''"

datatype account_fault = IoFault io_error | UnwrapPanic

text \<open>\<open>str::parse::<i64>\<close>.\<close>

definition parse_i64 :: "string \<Rightarrow> int option" where
  "parse_i64 s =
     (case s of
        CHR ''-'' # d # ds \<Rightarrow> Option.bind (parse_digits 0 (d # ds)) (\<lambda>n. if n \<le> 2 ^ 63 then Some (- int n) else None)
      | _ \<Rightarrow> map_option int (parse_unsigned (2 ^ 63) s))"

subsection \<open>PDDB access: get, set and set\_new\<close>

text \<open>The read goes through one 256-byte buffer.\<close>

definition account_get :: "'s pddb \<Rightarrow> string \<Rightarrow> string \<Rightarrow> 's \<Rightarrow> io_error + string option" where
  "account_get P dict key s =
     Inr (case pd_fetch_buf P dict key 256 s of Inl _ \<Rightarrow> None | Inr buffer \<Rightarrow> from_utf8 buffer)"

definition account_set :: "'s pddb \<Rightarrow> string \<Rightarrow> string \<Rightarrow> string option \<Rightarrow> 's \<Rightarrow> ('s, io_error, unit) sres" where
  "account_set P dict key value s =
     (let s1 = snd (pd_delete P dict key s) in
      case value of
        None \<Rightarrow> (Inr (), s1)
      | Some v \<Rightarrow>
          (case pd_create P dict key s1 of
             (Inl _, s2) \<Rightarrow> (Inr (), s2)
           | (Inr _, s2) \<Rightarrow>
               (case pd_write P dict key v s2 of
                  (Inl _, s3) \<Rightarrow> (Inr (), s3)
                | (Inr _, s3) \<Rightarrow> (Inr (), snd (pd_sync P s3)))))"

definition pddb_set_new :: "'s pddb \<Rightarrow> string \<Rightarrow> string \<Rightarrow> string option \<Rightarrow> 's \<Rightarrow> ('s, io_error, unit) sres" where
  "pddb_set_new P dict key value s =
     (case value of
        None \<Rightarrow> (Inr (), s)
      | Some v \<Rightarrow> sbind (pd_create P dict key s) (\<lambda>_ s1. pd_write P dict key v s1))"

subsection \<open>Reading an account\<close>

definition host_or_default :: "account_lib \<Rightarrow> string \<Rightarrow> account_fault + host" where
  "host_or_default A h =
     (case al_host_parse A h of
        Inr x \<Rightarrow> Inr x
      | Inl _ \<Rightarrow> map_err (\<lambda>_. UnwrapPanic) (al_host_parse A ''signal.org''))"

definition read_account :: "account_lib \<Rightarrow> 's pddb \<Rightarrow> string \<Rightarrow> 's \<Rightarrow> account_fault + account" where
  "read_account A P dict s =
     (let get = (\<lambda>key. map_err IoFault (account_get P dict key s)) in
      rbind (get ACI_IDENTITY_PRIVATE_KEY) (\<lambda>aci_identity_private.
      rbind (get ACI_IDENTITY_PUBLIC_KEY) (\<lambda>aci_identity_public.
      rbind (get ACI_SERVICE_ID_KEY) (\<lambda>aci_service_id.
      rbind (get DEVICE_ID_KEY) (\<lambda>device_id_opt.
      rbind (get ENCRYPTED_DEVICE_NAME_KEY) (\<lambda>encrypted_device_name.
      rbind (get HOST_KEY) (\<lambda>host_opt.
      rbind (get IS_MULTI_DEVICE_KEY) (\<lambda>is_multi_device_opt.
      rbind (get NUMBER_KEY) (\<lambda>number.
      rbind (get PASSWORD_KEY) (\<lambda>password.
      rbind (get PIN_MASTER_KEY_KEY) (\<lambda>pin_master_key.
      rbind (get PNI_IDENTITY_PRIVATE_KEY) (\<lambda>pni_identity_private.
      rbind (get PNI_IDENTITY_PUBLIC_KEY) (\<lambda>pni_identity_public.
      rbind (get PNI_SERVICE_ID_KEY) (\<lambda>pni_service_id.
      rbind (get PROFILE_KEY_KEY) (\<lambda>profile_key.
      rbind (get REGISTERED_KEY) (\<lambda>registered_opt.
      rbind (get SERVICE_ENVIRONMENT_KEY) (\<lambda>service_environment_opt.
      rbind (get STORAGE_KEY_KEY) (\<lambda>storage_key.
      rbind (get STORE_LAST_RECEIVE_TIMESTAMP_KEY) (\<lambda>store_last_receive_timestamp_opt.
      rbind (get STORE_MANIFEST_VERSION_KEY) (\<lambda>store_manifest_version_opt.
      rbind (get STORE_MANIFEST_KEY) (\<lambda>store_manifest.
      case (device_id_opt, host_opt, is_multi_device_opt, registered_opt, service_environment_opt, store_manifest_version_opt) of
        (Some device_id, Some h, Some is_multi_device, Some registered, Some service_environment, Some store_manifest_version) \<Rightarrow>
          rbind (host_or_default A h) (\<lambda>hst.
          Inr \<lparr>ac_pddb_dict = dict,
               ac_aci_identity_private = aci_identity_private, ac_aci_identity_public = aci_identity_public,
               ac_aci_service_id = aci_service_id, ac_device_id = unwrap_or 0 (parse_u32 device_id),
               ac_encrypted_device_name = encrypted_device_name, ac_host = hst,
               ac_is_multi_device = unwrap_or False (parse_bool is_multi_device),
               ac_number = number, ac_password = password, ac_pin_master_key = pin_master_key,
               ac_pni_identity_private = pni_identity_private, ac_pni_identity_public = pni_identity_public,
               ac_pni_service_id = pni_service_id, ac_profile_key = profile_key,
               ac_registered = unwrap_or False (parse_bool registered),
               ac_service_environment = unwrap_or Live (service_environment_from_str service_environment),
               ac_storage_key = storage_key,
               ac_store_last_receive_timestamp = unwrap_or 0 (Option.bind store_last_receive_timestamp_opt parse_i64),
               ac_store_manifest_version = unwrap_or (-1) (parse_i64 store_manifest_version),
               ac_store_manifest = store_manifest\<rparr>)
      | _ \<Rightarrow> Inl (IoFault (IoError InvalidData ''invalid data'')))))))))))))))))))))))"

subsection \<open>Creating and deleting an account\<close>

definition none_keys :: "string list" where
  "none_keys =
     [ACI_IDENTITY_PRIVATE_KEY, ACI_IDENTITY_PUBLIC_KEY, ACI_SERVICE_ID_KEY, ENCRYPTED_DEVICE_NAME_KEY, NUMBER_KEY,
      PASSWORD_KEY, PIN_MASTER_KEY_KEY, PNI_IDENTITY_PRIVATE_KEY, PNI_IDENTITY_PUBLIC_KEY, PNI_SERVICE_ID_KEY,
      PROFILE_KEY_KEY, STORAGE_KEY_KEY, STORE_MANIFEST_KEY]"

definition default_values :: "account_lib \<Rightarrow> host \<Rightarrow> service_environment \<Rightarrow> (string \<times> string option) list" where
  "default_values A h env =
     [(DEVICE_ID_KEY, Some ''0''), (HOST_KEY, Some (al_host_to_string A h)),
      (IS_MULTI_DEVICE_KEY, Some (show_bool False)), (REGISTERED_KEY, Some (show_bool False)),
      (SERVICE_ENVIRONMENT_KEY, Some (service_environment_to_string env)),
      (STORE_LAST_RECEIVE_TIMESTAMP_KEY, Some ''0''), (STORE_MANIFEST_VERSION_KEY, Some ''-1'')]"

fun delete_keys :: "'s pddb \<Rightarrow> string \<Rightarrow> string list \<Rightarrow> 's \<Rightarrow> 's" where
  "delete_keys P dict [] s = s"
| "delete_keys P dict (k # ks) s = delete_keys P dict ks (snd (pd_delete P dict k s))"

fun set_new_each :: "'s pddb \<Rightarrow> string \<Rightarrow> (string \<times> string option) list \<Rightarrow> 's \<Rightarrow> ('s, io_error, unit) sres" where
  "set_new_each P dict [] s = (Inr (), s)"
| "set_new_each P dict ((k, v) # kvs) s = sbind (pddb_set_new P dict k v s) (\<lambda>_. set_new_each P dict kvs)"

definition account_new ::
  "account_lib \<Rightarrow> 's pddb \<Rightarrow> string \<Rightarrow> host \<Rightarrow> service_environment \<Rightarrow> 's \<Rightarrow> ('s, account_fault, account) sres" where
  "account_new A P dict h env s =
     (case set_new_each P dict (default_values A h env) (delete_keys P dict none_keys s) of
        (Inl e, s1) \<Rightarrow> (Inl (IoFault e), s1)
      | (Inr _, s1) \<Rightarrow>
          (case pd_sync P s1 of
             (Inl _, s2) \<Rightarrow> (Inl (IoFault (IoError OtherKind ''PDDB sync failed after Account::new init'')), s2)
           | (Inr _, s2) \<Rightarrow> (read_account A P dict s2, s2)))"

definition account_delete :: "'s pddb \<Rightarrow> string \<Rightarrow> 's \<Rightarrow> ('s, io_error, unit) sres" where
  "account_delete P dict s = pd_delete_dict P dict s"

subsection \<open>Setting a field\<close>

text \<open>The field update that follows a successful write. \<open>unwrap\<close> on a missing or unparsable value
  panics; a key without a field is invalid unless it is one of the six kept only in the PDDB.\<close>

datatype mirror_result = Mirrored account | MirrorPanic | InvalidKey

definition pddb_only_keys :: "string list" where
  "pddb_only_keys =
     [ACCOUNT_ENTROPY_POOL_KEY, REGISTRATION_ID_KEY, PNI_REGISTRATION_ID_KEY, STORE_LAST_RECEIVE_TIMESTAMP_KEY,
      STORE_MANIFEST_VERSION_KEY, STORE_MANIFEST_KEY]"

definition mirror_parsed :: "(string \<Rightarrow> 'a option) \<Rightarrow> string option \<Rightarrow> ('a \<Rightarrow> account) \<Rightarrow> mirror_result" where
  "mirror_parsed parse value upd = (case Option.bind value parse of None \<Rightarrow> MirrorPanic | Some x \<Rightarrow> Mirrored (upd x))"

definition mirror_field :: "string \<Rightarrow> string option \<Rightarrow> account \<Rightarrow> mirror_result" where
  "mirror_field key value a =
     (if key = ACI_IDENTITY_PRIVATE_KEY then Mirrored (a\<lparr>ac_aci_identity_private := value\<rparr>)
      else if key = ACI_IDENTITY_PUBLIC_KEY then Mirrored (a\<lparr>ac_aci_identity_public := value\<rparr>)
      else if key = ACI_SERVICE_ID_KEY then Mirrored (a\<lparr>ac_aci_service_id := value\<rparr>)
      else if key = DEVICE_ID_KEY then mirror_parsed parse_u32 value (\<lambda>x. a\<lparr>ac_device_id := x\<rparr>)
      else if key = ENCRYPTED_DEVICE_NAME_KEY then Mirrored (a\<lparr>ac_encrypted_device_name := value\<rparr>)
      else if key = IS_MULTI_DEVICE_KEY then mirror_parsed parse_bool value (\<lambda>x. a\<lparr>ac_is_multi_device := x\<rparr>)
      else if key = NUMBER_KEY then Mirrored (a\<lparr>ac_number := value\<rparr>)
      else if key = PASSWORD_KEY then Mirrored (a\<lparr>ac_password := value\<rparr>)
      else if key = PIN_MASTER_KEY_KEY then Mirrored (a\<lparr>ac_pin_master_key := value\<rparr>)
      else if key = PNI_IDENTITY_PRIVATE_KEY then Mirrored (a\<lparr>ac_pni_identity_private := value\<rparr>)
      else if key = PNI_IDENTITY_PUBLIC_KEY then Mirrored (a\<lparr>ac_pni_identity_public := value\<rparr>)
      else if key = PNI_SERVICE_ID_KEY then Mirrored (a\<lparr>ac_pni_service_id := value\<rparr>)
      else if key = PROFILE_KEY_KEY then Mirrored (a\<lparr>ac_profile_key := value\<rparr>)
      else if key = REGISTERED_KEY then mirror_parsed parse_bool value (\<lambda>x. a\<lparr>ac_registered := x\<rparr>)
      else if key = SERVICE_ENVIRONMENT_KEY
        then mirror_parsed service_environment_from_str value (\<lambda>x. a\<lparr>ac_service_environment := x\<rparr>)
      else if key = STORAGE_KEY_KEY then Mirrored (a\<lparr>ac_storage_key := value\<rparr>)
      else if key \<in> set pddb_only_keys then Mirrored a
      else InvalidKey)"

definition mirror_write ::
  "'s pddb \<Rightarrow> string \<Rightarrow> string option \<Rightarrow> ('s, io_error, unit) sres \<Rightarrow> account \<Rightarrow> (account \<times> 's, account_fault, unit) sres" where
  "mirror_write P key value written a =
     (case written of
        (Inl e, s1) \<Rightarrow> (Inl (IoFault e), (a, s1))
      | (Inr _, s1) \<Rightarrow>
          (case mirror_field key value a of
             Mirrored a1 \<Rightarrow> (Inr (), (a1, s1))
           | MirrorPanic \<Rightarrow> (Inl UnwrapPanic, (a, s1))
           | InvalidKey \<Rightarrow> (Inl (IoFault (IoError NotFound ''entity not found'')), (a, snd (pd_delete P (ac_pddb_dict a) key s1)))))"

definition set_field :: "'s pddb \<Rightarrow> string \<Rightarrow> string option \<Rightarrow> account \<times> 's \<Rightarrow> (account \<times> 's, account_fault, unit) sres" where
  "set_field P key value w = mirror_write P key value (account_set P (ac_pddb_dict (fst w)) key value (snd w)) (fst w)"

definition set_new_field :: "'s pddb \<Rightarrow> string \<Rightarrow> string option \<Rightarrow> account \<times> 's \<Rightarrow> (account \<times> 's, account_fault, unit) sres" where
  "set_new_field P key value w = mirror_write P key value (pddb_set_new P (ac_pddb_dict (fst w)) key value (snd w)) (fst w)"

text \<open>A failed \<open>set\<close> is logged and dropped; a panic inside it is not caught.\<close>

definition set_number :: "'s pddb \<Rightarrow> string \<Rightarrow> account \<times> 's \<Rightarrow> (account \<times> 's, account_fault, unit) sres" where
  "set_number P value w =
     (case set_field P NUMBER_KEY (Some value) w of
        (Inr _, (a, s)) \<Rightarrow> (Inr (), (a\<lparr>ac_number := Some value\<rparr>, s))
      | (Inl UnwrapPanic, w1) \<Rightarrow> (Inl UnwrapPanic, w1)
      | (Inl (IoFault _), w1) \<Rightarrow> (Inr (), w1))"

subsection \<open>What an account says of itself\<close>

definition chat_host :: "account_lib \<Rightarrow> account \<Rightarrow> string" where
  "chat_host A a =
     (case ac_service_environment a of
        Live \<Rightarrow> ''chat.'' @ al_host_to_string A (ac_host a)
      | Staging \<Rightarrow> ''chat.staging.'' @ al_host_to_string A (ac_host a))"

definition chat_url :: "account_lib \<Rightarrow> account \<Rightarrow> io_error + url" where
  "chat_url A a =
     (let base = (case ac_service_environment a of
                    Live \<Rightarrow> ''https://chat.'' @ al_host_to_string A (ac_host a)
                  | Staging \<Rightarrow> ''https://chat.staging.'' @ al_host_to_string A (ac_host a))
      in map_err (\<lambda>_. IoError InvalidData ''invalid chat URL'') (al_url_parse A base))"

definition is_registered :: "account \<Rightarrow> bool" where
  "is_registered a \<longleftrightarrow> ac_registered a \<or> (ac_device_id a \<noteq> 0 \<and> ac_aci_service_id a \<noteq> None \<and> ac_password a \<noteq> None)"

definition DEFAULT_DEVICE_ID :: u32 where
  "DEFAULT_DEVICE_ID = 1"

definition is_primary_device :: "account \<Rightarrow> bool" where
  "is_primary_device a \<longleftrightarrow> is_registered a \<and> ac_device_id a = DEFAULT_DEVICE_ID"

subsection \<open>Linking\<close>

definition decode_private_key :: "libsignal \<Rightarrow> string \<Rightarrow> io_error + private_key" where
  "decode_private_key L key_b64url =
     rbind (map_err (\<lambda>_. IoError InvalidData ''identity private key not valid base64'') (b64_url_decode L key_b64url)) (\<lambda>bytes.
     map_err (\<lambda>_. IoError InvalidData ''identity private key invalid'') (ls_private_deserialize L bytes))"

text \<open>The credentials in the order of the writes; the entropy pool only if the message has one.\<close>

definition credentials ::
  "string \<Rightarrow> u32 \<Rightarrow> string \<Rightarrow> string \<Rightarrow> u16 \<Rightarrow> u16 \<Rightarrow> provision_message \<Rightarrow> (string \<times> string option) list" where
  "credentials password device_id encrypted_name profile_key_b64 registration_id pni_registration_id msg =
     [(PASSWORD_KEY, Some password),
      (DEVICE_ID_KEY, Some (show_word device_id)),
      (ACI_IDENTITY_PRIVATE_KEY, Some (ik_djb_private_key (pm_aci msg))),
      (ACI_IDENTITY_PUBLIC_KEY, Some (ik_djb_identity_key (pm_aci msg))),
      (ACI_SERVICE_ID_KEY, Some (ik_service_id (pm_aci msg))),
      (PNI_IDENTITY_PRIVATE_KEY, Some (ik_djb_private_key (pm_pni msg))),
      (PNI_IDENTITY_PUBLIC_KEY, Some (ik_djb_identity_key (pm_pni msg))),
      (PNI_SERVICE_ID_KEY, Some (ik_service_id (pm_pni msg))),
      (ENCRYPTED_DEVICE_NAME_KEY, Some encrypted_name),
      (IS_MULTI_DEVICE_KEY, Some (show_bool True)),
      (NUMBER_KEY, Some (pm_number msg)),
      (PROFILE_KEY_KEY, Some profile_key_b64)]
     @ (case pm_account_entropy_pool msg of None \<Rightarrow> [] | Some aep \<Rightarrow> [(ACCOUNT_ENTROPY_POOL_KEY, Some aep)])
     @ [(REGISTRATION_ID_KEY, Some (show_word registration_id)),
        (PNI_REGISTRATION_ID_KEY, Some (show_word pni_registration_id)),
        (STORAGE_KEY_KEY, None),
        (STORE_LAST_RECEIVE_TIMESTAMP_KEY, Some ''0''),
        (STORE_MANIFEST_VERSION_KEY, Some ''-1''),
        (STORE_MANIFEST_KEY, None),
        (REGISTERED_KEY, Some (show_bool True))]"

fun set_new_fields :: "'s pddb \<Rightarrow> (string \<times> string option) list \<Rightarrow> account \<times> 's \<Rightarrow> (account \<times> 's, account_fault, unit) sres" where
  "set_new_fields P [] w = (Inr (), w)"
| "set_new_fields P ((k, v) # kvs) w = sbind (set_new_field P k v w) (\<lambda>_. set_new_fields P kvs)"

text \<open>The world of \<open>link\<close>: the account, the PDDB, the random generator and the network.\<close>

record ('s, 'g, 'h) link_world =
  lw_account :: account
  lw_store :: 's
  lw_rng :: 'g
  lw_net :: 'h

definition pure_step :: "'e + 'a \<Rightarrow> 'w \<Rightarrow> ('w, 'e, 'a) sres" where
  "pure_step r w = (r, w)"

definition on_rng :: "('g \<Rightarrow> ('g, io_error, 'a) sres) \<Rightarrow> ('s, 'g, 'h) link_world \<Rightarrow> (('s, 'g, 'h) link_world, account_fault, 'a) sres" where
  "on_rng f w = (case f (lw_rng w) of (r, g) \<Rightarrow> (map_err IoFault r, w\<lparr>lw_rng := g\<rparr>))"

definition on_net :: "('h \<Rightarrow> ('h, io_error, 'a) sres) \<Rightarrow> ('s, 'g, 'h) link_world \<Rightarrow> (('s, 'g, 'h) link_world, account_fault, 'a) sres" where
  "on_net f w = (case f (lw_net w) of (r, h) \<Rightarrow> (map_err IoFault r, w\<lparr>lw_net := h\<rparr>))"

definition on_store :: "('s \<Rightarrow> ('s, io_error, 'a) sres) \<Rightarrow> ('s, 'g, 'h) link_world \<Rightarrow> (('s, 'g, 'h) link_world, account_fault, 'a) sres" where
  "on_store f w = (case f (lw_store w) of (r, s) \<Rightarrow> (map_err IoFault r, w\<lparr>lw_store := s\<rparr>))"

text \<open>Everything before the first write: the request body and what is persisted afterwards.\<close>

record link_request =
  lr_password :: string
  lr_registration_id :: u16
  lr_pni_registration_id :: u16
  lr_profile_key_b64 :: string
  lr_encrypted_name :: string
  lr_attrs :: account_attributes
  lr_prekeys :: prekeys
  lr_body :: link_device_request_body

definition prepare_link ::
  "wire_codec \<Rightarrow> libsignal \<Rightarrow> 'g crypto \<Rightarrow> 'g attrs_lib \<Rightarrow> 'g keygen \<Rightarrow> string \<Rightarrow> provision_message
     \<Rightarrow> ('s, 'g, 'h) link_world \<Rightarrow> (('s, 'g, 'h) link_world, account_fault, link_request) sres" where
  "prepare_link W L Y T G device_name msg w =
     sbind (pure_step (ok_or (IoFault (IoError InvalidData ''missing provisioningCode'')) (pm_provisioning_code msg)) w) (\<lambda>verification_code w.
     sbind (pure_step (ok_or (IoFault (IoError InvalidData ''missing profile_key'')) (pm_profile_key msg)) w) (\<lambda>profile_key_b64 w.
     sbind (pure_step (map_err (\<lambda>_. IoFault (IoError InvalidData ''profile_key not valid base64'')) (b64_url_decode L profile_key_b64)) w) (\<lambda>profile_key_bytes w.
     sbind (on_rng (generate_link_password L T) w) (\<lambda>password w.
     sbind (on_rng (\<lambda>g. map_prod Inr id (generate_registration_id T g)) w) (\<lambda>registration_id w.
     sbind (on_rng (\<lambda>g. map_prod Inr id (generate_registration_id T g)) w) (\<lambda>pni_registration_id w.
     sbind (on_rng (encrypt_device_name W L Y device_name (ik_djb_private_key (pm_aci msg))) w) (\<lambda>encrypted_name w.
     sbind (pure_step (map_err IoFault (build_account_attributes L T encrypted_name profile_key_bytes registration_id pni_registration_id)) w) (\<lambda>attrs w.
     sbind (pure_step (map_err IoFault (decode_private_key L (ik_djb_private_key (pm_aci msg)))) w) (\<lambda>aci_priv w.
     sbind (pure_step (map_err IoFault (decode_private_key L (ik_djb_private_key (pm_pni msg)))) w) (\<lambda>pni_priv w.
     sbind (on_rng (generate_prekeys G aci_priv pni_priv) w) (\<lambda>generated w.
     (Inr \<lparr>lr_password = password, lr_registration_id = registration_id, lr_pni_registration_id = pni_registration_id,
           lr_profile_key_b64 = profile_key_b64, lr_encrypted_name = encrypted_name, lr_attrs = attrs, lr_prekeys = generated,
           lr_body = from_parts verification_code attrs generated\<rparr>, w))))))))))))"

definition persist_credentials ::
  "'s pddb \<Rightarrow> (string \<times> string option) list \<Rightarrow> ('s, 'g, 'h) link_world \<Rightarrow> (('s, 'g, 'h) link_world, account_fault, unit) sres" where
  "persist_credentials P kvs w =
     (case set_new_fields P kvs (lw_account w, lw_store w) of
        (Inl e, (a, s)) \<Rightarrow> (Inl e, w\<lparr>lw_account := a, lw_store := s\<rparr>)
      | (Inr _, (a, s)) \<Rightarrow>
          (case pd_sync P s of
             (Inl _, s1) \<Rightarrow> (Inl (IoFault (IoError OtherKind ''PDDB sync failed after credentials persist'')), w\<lparr>lw_account := a, lw_store := s1\<rparr>)
           | (Inr _, s1) \<Rightarrow> (Inr (), w\<lparr>lw_account := a, lw_store := s1\<rparr>)))"

definition link ::
  "wire_codec \<Rightarrow> libsignal \<Rightarrow> 'g crypto \<Rightarrow> 'g attrs_lib \<Rightarrow> 'g keygen \<Rightarrow> 'h rest_lib \<Rightarrow> account_lib \<Rightarrow> 's pddb \<Rightarrow> string \<Rightarrow> provision_message
     \<Rightarrow> ('s, 'g, 'h) link_world \<Rightarrow> (('s, 'g, 'h) link_world, account_fault, bool) sres" where
  "link W L Y T G H A P device_name msg w0 =
     (if is_primary_device (lw_account w0) then (Inr False, w0)
      else
        sbind (prepare_link W L Y T G device_name msg w0) (\<lambda>q w.
        sbind (pure_step (map_err IoFault (chat_url A (lw_account w))) w) (\<lambda>base_url w.
        sbind (on_net (put_devices_link L H base_url (pm_number msg) (lr_password q) (lr_body q)) w) (\<lambda>response w.
        sbind (persist_credentials P (credentials (lr_password q) (ldp_device_id response) (lr_encrypted_name q) (lr_profile_key_b64 q)
                 (lr_registration_id q) (lr_pni_registration_id q) msg) w) (\<lambda>_ w.
        sbind (on_store (save_to_pddb L G P (lr_prekeys q)) w) (\<lambda>_ w.
        (let attrs_identifier = ik_service_id (pm_aci msg) @ ''.'' @ show_word (ldp_device_id response) in
         (Inr True, snd (on_net (put_accounts_attributes L H base_url attrs_identifier (lr_password q) (lr_attrs q)) w)))))))))"

section \<open>The account dict on a PDDB without faults\<close>

text \<open>What a \<open>set_new\<close> leaves under a key: the new bytes over the old ones.\<close>

definition over :: "string option \<Rightarrow> bytes option \<Rightarrow> bytes option" where
  "over v old = (case v of None \<Rightarrow> old | Some x \<Rightarrow> Some (overwrite x (unwrap_or [] old)))"

definition fits :: "bytes \<Rightarrow> bool" where
  "fits v \<longleftrightarrow> utf8_valid v \<and> length v \<le> 256"

fun mirror_all :: "(string \<times> string option) list \<Rightarrow> account \<Rightarrow> account option" where
  "mirror_all [] a = Some a"
| "mirror_all ((k, v) # kvs) a = (case mirror_field k v a of Mirrored a1 \<Rightarrow> mirror_all kvs a1 | _ \<Rightarrow> None)"

lemma mirror_field_dict: "mirror_field k v a = Mirrored a1 \<Longrightarrow> ac_pddb_dict a1 = ac_pddb_dict a"
  by (auto simp: mirror_field_def mirror_parsed_def split: if_splits option.splits)

lemma mirror_all_dict: "mirror_all kvs a = Some a1 \<Longrightarrow> ac_pddb_dict a1 = ac_pddb_dict a"
  by (induction kvs a rule: mirror_all.induct) (auto split: mirror_result.splits dest: mirror_field_dict)

context healthy_pddb
begin

lemma account_get_eq: "account_get P d k s = Inr (Option.bind (map_option (take 256) (view s (d, k))) from_utf8)"
proof (cases "view s (d, k)")
  case None
  with fetch_buf_None [OF None, of 256] show ?thesis by (auto simp: account_get_def)
next
  case (Some b)
  with fetch_buf_Some [OF Some, of 256] show ?thesis by (simp add: account_get_def)
qed

lemma account_get_fits:
  "(\<And>b. view s (d, k) = Some b \<Longrightarrow> fits b) \<Longrightarrow> account_get P d k s = Inr (view s (d, k))"
  by (cases "view s (d, k)") (simp_all add: account_get_eq fits_def)

lemma set_new_ok: "fst (pddb_set_new P d k v s) = Inr ()"
  and set_new_view: "view (snd (pddb_set_new P d k v s)) = (view s)((d, k) := over v (view s (d, k)))"
proof -
  obtain s1 where s1: "pd_create P d k s = (Inr (), s1)" using create_ok by (metis prod.collapse)
  have v1: "view s1 = (if view s (d, k) = None then (view s)((d, k) \<mapsto> []) else view s)"
    using create_view [of d k s] s1 by simp
  then obtain b where b: "view s1 (d, k) = Some b" "b = unwrap_or [] (view s (d, k))"
    by (cases "view s (d, k)") auto
  show "fst (pddb_set_new P d k v s) = Inr ()"
    using s1 write_ok [OF b(1)] by (simp add: pddb_set_new_def split: option.split)
  show "view (snd (pddb_set_new P d k v s)) = (view s)((d, k) := over v (view s (d, k)))"
    using s1 write_view [OF b(1)] v1 b by (auto simp: pddb_set_new_def over_def fun_eq_iff split: option.splits)
qed

lemma set_new_eq: "pddb_set_new P d k v s = (Inr (), snd (pddb_set_new P d k v s))"
  by (metis prod.collapse set_new_ok)

lemma delete_keys_view: "view (delete_keys P d ks s) = (\<lambda>(d', k). if d' = d \<and> k \<in> set ks then None else view s (d', k))"
  by (induction ks arbitrary: s) (auto simp: delete_view fun_eq_iff)

lemma set_new_each_step: "set_new_each P d ((k, v) # kvs) s = set_new_each P d kvs (snd (pddb_set_new P d k v s))"
proof -
  have "sbind (pddb_set_new P d k v s) (\<lambda>_. set_new_each P d kvs) = set_new_each P d kvs (snd (pddb_set_new P d k v s))"
    by (subst set_new_eq) simp
  then show ?thesis by simp
qed

lemma set_new_each_ok: "fst (set_new_each P d kvs s) = Inr ()"
proof (induction kvs arbitrary: s)
  case (Cons kv kvs)
  then show ?case by (cases kv) (simp only: set_new_each_step)
qed simp

lemma set_new_field_step:
  assumes "mirror_field k v a = Mirrored a1"
  shows "set_new_field P k v (a, s) = (Inr (), (a1, snd (pddb_set_new P (ac_pddb_dict a) k v s)))"
  unfolding set_new_field_def fst_conv snd_conv by (subst set_new_eq) (simp add: mirror_write_def assms)

lemma set_new_each_view:
  "distinct (map fst kvs) \<Longrightarrow>
   view (snd (set_new_each P d kvs s)) (d', k) =
     (if d' = d then over (Option.bind (map_of kvs k) (\<lambda>v. v)) (view s (d, k)) else view s (d', k))"
proof (induction kvs arbitrary: s)
  case (Cons kv kvs)
  obtain k1 v1 where kv: "kv = (k1, v1)" by (cases kv)
  have step: "set_new_each P d (kv # kvs) s = set_new_each P d kvs (snd (pddb_set_new P d k1 v1 s))"
    by (simp only: kv set_new_each_step)
  have "map_of kvs k1 = None" using Cons.prems by (simp add: kv map_of_eq_None_iff)
  with Cons show ?case unfolding step by (auto simp: kv set_new_view over_def)
qed (simp add: over_def)

lemma set_new_fields_eq:
  "mirror_all kvs a = Some a1 \<Longrightarrow>
   set_new_fields P kvs (a, s) = (Inr (), (a1, snd (set_new_each P (ac_pddb_dict a) kvs s)))"
proof (induction kvs arbitrary: a s)
  case (Cons kv kvs)
  obtain k v where kv: "kv = (k, v)" by (cases kv)
  obtain a2 where a2: "mirror_field k v a = Mirrored a2" "mirror_all kvs a2 = Some a1"
    using Cons.prems by (auto simp: kv split: mirror_result.splits)
  have "set_new_fields P (kv # kvs) (a, s) = set_new_fields P kvs (a2, snd (pddb_set_new P (ac_pddb_dict a) k v s))"
    by (simp add: kv set_new_field_step [OF a2(1)])
  moreover have "set_new_each P (ac_pddb_dict a) (kv # kvs) s
      = set_new_each P (ac_pddb_dict a) kvs (snd (pddb_set_new P (ac_pddb_dict a) k v s))"
    by (simp only: kv set_new_each_step)
  ultimately show ?case using Cons.IH [OF a2(2)] mirror_field_dict [OF a2(1)] by simp
qed simp

end

section \<open>Creation\<close>

definition fresh_account :: "string \<Rightarrow> host \<Rightarrow> service_environment \<Rightarrow> account" where
  "fresh_account dict h env =
     \<lparr>ac_pddb_dict = dict, ac_aci_identity_private = None, ac_aci_identity_public = None, ac_aci_service_id = None,
      ac_device_id = 0, ac_encrypted_device_name = None, ac_host = h, ac_is_multi_device = False, ac_number = None,
      ac_password = None, ac_pin_master_key = None, ac_pni_identity_private = None, ac_pni_identity_public = None,
      ac_pni_service_id = None, ac_profile_key = None, ac_registered = False, ac_service_environment = env,
      ac_storage_key = None, ac_store_last_receive_timestamp = 0, ac_store_manifest_version = -1, ac_store_manifest = None\<rparr>"

lemma service_environment_roundtrip [simp]: "service_environment_from_str (service_environment_to_string e) = Some e"
  by (cases e) (simp_all add: service_environment_from_str_def)

lemma fits_literals: "fits ''0''" "fits ''-1''" "fits (show_bool b)" "fits (service_environment_to_string e)" "fits ''truee''"
proof -
  show "fits ''0''" "fits ''-1''" "fits ''truee''" by (simp_all add: fits_def, code_simp+)
  show "fits (show_bool b)" by (cases b) (simp_all add: fits_def, code_simp+)
  show "fits (service_environment_to_string e)" by (cases e) (simp_all add: fits_def, code_simp+)
qed

lemma parse_defaults: "parse_u32 ''0'' = Some 0" "parse_i64 ''0'' = Some 0" "parse_i64 ''-1'' = Some (-1)"
  by (simp_all add: parse_u32_def parse_i64_def parse_unsigned_def strip_plus_def is_digit_def)

lemma overwrite_Nil [simp]: "overwrite x [] = x"
  by (simp add: overwrite_def)

context healthy_pddb
begin

lemma account_new_view:
  obtains s' where "account_new A P d h env s = (read_account A P d s', s')"
    and "\<And>k. view s' (d, k) =
       over (Option.bind (map_of (default_values A h env) k) (\<lambda>v. v)) (if k \<in> set none_keys then None else view s (d, k))"
    and "\<And>d' k. d' \<noteq> d \<Longrightarrow> view s' (d', k) = view s (d', k)"
proof -
  let ?s0 = "delete_keys P d none_keys s"
  obtain s1 where s1: "set_new_each P d (default_values A h env) ?s0 = (Inr (), s1)"
    using set_new_each_ok by (metis prod.collapse)
  obtain s2 where s2: "pd_sync P s1 = (Inr (), s2)" using sync_ok by (metis prod.collapse)
  have dist: "distinct (map fst (default_values A h env))" by (simp add: default_values_def)
  have v2: "view s2 = view s1" using sync_view [of s1] s2 by simp
  have v: "view s2 (d', k) = (if d' = d then over (Option.bind (map_of (default_values A h env) k) (\<lambda>v. v)) (view ?s0 (d, k)) else view ?s0 (d', k))" for d' k
    using set_new_each_view [OF dist, of d ?s0 d' k] by (simp add: s1 v2)
  have "account_new A P d h env s = (read_account A P d s2, s2)" by (simp add: account_new_def s1 s2)
  then show thesis by (rule that) (simp_all add: v delete_keys_view)
qed

lemma account_new_fresh:
  assumes fresh: "\<And>k. view s (d, k) = None" and host: "al_host_parse A (al_host_to_string A h) = Inr h" "fits (al_host_to_string A h)"
  shows "\<exists>s'. account_new A P d h env s = (Inr (fresh_account d h env), s')
    \<and> (\<forall>k. view s' (d, k) = Option.bind (map_of (default_values A h env) k) (\<lambda>v. v))
    \<and> (\<forall>d' k. d' \<noteq> d \<longrightarrow> view s' (d', k) = view s (d', k))"
proof -
  obtain s' where s': "account_new A P d h env s = (read_account A P d s', s')"
    and v: "\<And>k. view s' (d, k) = over (Option.bind (map_of (default_values A h env) k) (\<lambda>v. v)) (if k \<in> set none_keys then None else view s (d, k))"
    and o': "\<And>d' k. d' \<noteq> d \<Longrightarrow> view s' (d', k) = view s (d', k)"
    by (rule account_new_view [of A d h env s], rule that)
  have v': "view s' (d, k) = Option.bind (map_of (default_values A h env) k) (\<lambda>v. v)" for k
    using fresh by (simp add: v over_def split: option.split)
  have "account_get P d k s' = Inr (view s' (d, k))" for k
    by (rule account_get_fits) (auto simp: v' default_values_def fits_literals host(2) simp del: show_bool.simps split: if_splits)
  then have "read_account A P d s' = Inr (fresh_account d h env)"
    by (simp add: read_account_def fresh_account_def v' default_values_def host_or_default_def host(1) parse_defaults)
  with s' have "account_new A P d h env s = (Inr (fresh_account d h env), s')" by simp
  then show ?thesis using v' o' by blast
qed

end

section \<open>Linking\<close>

definition linked_account :: "string \<Rightarrow> u32 \<Rightarrow> string \<Rightarrow> string \<Rightarrow> provision_message \<Rightarrow> account \<Rightarrow> account" where
  "linked_account password device_id encrypted_name profile_key_b64 msg a =
     a\<lparr>ac_password := Some password, ac_device_id := device_id,
       ac_aci_identity_private := Some (ik_djb_private_key (pm_aci msg)),
       ac_aci_identity_public := Some (ik_djb_identity_key (pm_aci msg)),
       ac_aci_service_id := Some (ik_service_id (pm_aci msg)),
       ac_pni_identity_private := Some (ik_djb_private_key (pm_pni msg)),
       ac_pni_identity_public := Some (ik_djb_identity_key (pm_pni msg)),
       ac_pni_service_id := Some (ik_service_id (pm_pni msg)),
       ac_encrypted_device_name := Some encrypted_name, ac_is_multi_device := True,
       ac_number := Some (pm_number msg), ac_profile_key := Some profile_key_b64,
       ac_storage_key := None, ac_registered := True\<rparr>"

lemma mirror_all_append: "mirror_all (xs @ ys) a = Option.bind (mirror_all xs a) (mirror_all ys)"
  by (induction xs a rule: mirror_all.induct) (auto split: mirror_result.splits)

text \<open>No credential of \<open>link\<close> can hit an \<open>unwrap\<close> panic or an unknown key.\<close>

lemma mirror_credentials:
  "mirror_all (credentials pw dev en pk r r' msg) a = Some (linked_account pw dev en pk msg a)"
  by (cases "pm_account_entropy_pool msg")
     (simp_all add: credentials_def linked_account_def mirror_field_def mirror_parsed_def pddb_only_keys_def)

lemma distinct_credentials: "distinct (map fst (credentials pw dev en pk r r' msg))"
  by (cases "pm_account_entropy_pool msg") (simp_all add: credentials_def)

text \<open>The steps before and after the credentials leave the account, and all but the prekey dicts,
  alone.\<close>

lemma on_rng_frame: "on_rng f w = (r, w') \<Longrightarrow> lw_account w' = lw_account w \<and> lw_store w' = lw_store w"
  and on_net_frame: "on_net n w = (r, w') \<Longrightarrow> lw_account w' = lw_account w \<and> lw_store w' = lw_store w"
  by (auto simp: on_rng_def on_net_def split: prod.splits)

lemma on_net_snd [simp]: "lw_account (snd (on_net n w)) = lw_account w" "lw_store (snd (on_net n w)) = lw_store w"
  by (simp_all add: on_net_def split: prod.split)

lemma prepare_link_frame:
  assumes "prepare_link W L Y T G name msg w = (Inr q, w')"
  shows "lw_account w' = lw_account w \<and> lw_store w' = lw_store w"
  using assms by (auto simp: prepare_link_def res_simps pure_step_def dest!: on_rng_frame)

context signal_stores
begin

lemma save_signed_frame: "d \<noteq> SIGNED_PREKEY_DICT \<Longrightarrow> view (snd (save_signed L G P r s)) (d, k) = view s (d, k)"
  by (auto simp: save_signed_def save_signed_pre_key_def write_eq replace_view split: sum.splits)

lemma save_kyber_frame: "d \<noteq> KYBER_PREKEY_DICT \<Longrightarrow> view (snd (save_kyber L G P r s)) (d, k) = view s (d, k)"
  by (auto simp: save_kyber_def save_kyber_pre_key_def write_eq replace_view split: sum.splits)

lemma save_to_pddb_ok:
  assumes "\<And>r. \<exists>i. kg_signed_id G r = Inr i" "\<And>r. \<exists>i. kg_kyber_id G r = Inr i"
    and "\<And>r. \<exists>x. ls_signed_serialize L r = Inr x" "\<And>r. \<exists>x. ls_kyber_serialize L r = Inr x"
  shows "\<exists>s'. save_to_pddb L G P pk s = (Inr (), s')
    \<and> (\<forall>d k. d \<noteq> SIGNED_PREKEY_DICT \<longrightarrow> d \<noteq> KYBER_PREKEY_DICT \<longrightarrow> view s' (d, k) = view s (d, k))"
proof -
  have signed: "\<exists>s'. save_signed L G P r s = (Inr (), s')" for r s
    using assms(1,3) [of r] by (auto simp: save_signed_def save_signed_pre_key_def write_eq)
  have kyber: "\<exists>s'. save_kyber L G P r s = (Inr (), s')" for r s
    using assms(2,4) [of r] by (auto simp: save_kyber_def save_kyber_pre_key_def write_eq)
  obtain s1 where 1: "save_signed L G P (pk_aci_signed_record pk) s = (Inr (), s1)" using signed by blast
  obtain s2 where 2: "save_signed L G P (pk_pni_signed_record pk) s1 = (Inr (), s2)" using signed by blast
  obtain s3 where 3: "save_kyber L G P (pk_aci_kyber_record pk) s2 = (Inr (), s3)" using kyber by blast
  obtain s4 where 4: "save_kyber L G P (pk_pni_kyber_record pk) s3 = (Inr (), s4)" using kyber by blast
  have "view s4 (d, k) = view s (d, k)" if "d \<noteq> SIGNED_PREKEY_DICT" "d \<noteq> KYBER_PREKEY_DICT" for d k
    using save_signed_frame [OF that(1)] save_kyber_frame [OF that(2)] 1 2 3 4 by (metis snd_conv)
  moreover have "save_to_pddb L G P pk s = (Inr (), s4)" by (simp add: save_to_pddb_def 1 2 3 4)
  ultimately show ?thesis by blast
qed

lemma link_ok:
  assumes "\<not> is_primary_device (lw_account w)" and dict: "ac_pddb_dict (lw_account w) = ACCOUNT_DICT"
    and prep: "prepare_link W L Y T G name msg w = (Inr q, w1)" and url: "chat_url A (lw_account w) = Inr u"
    and put: "put_devices_link L H u (pm_number msg) (lr_password q) (lr_body q) (lw_net w1) = (Inr resp, n)"
    and "\<And>r. \<exists>i. kg_signed_id G r = Inr i" "\<And>r. \<exists>i. kg_kyber_id G r = Inr i"
    and "\<And>r. \<exists>x. ls_signed_serialize L r = Inr x" "\<And>r. \<exists>x. ls_kyber_serialize L r = Inr x"
  shows "\<exists>w'. link W L Y T G H A P name msg w = (Inr True, w')
    \<and> lw_account w' = linked_account (lr_password q) (ldp_device_id resp) (lr_encrypted_name q) (lr_profile_key_b64 q) msg (lw_account w)
    \<and> (\<forall>k. view (lw_store w') (ACCOUNT_DICT, k) =
           over (Option.bind (map_of (credentials (lr_password q) (ldp_device_id resp) (lr_encrypted_name q) (lr_profile_key_b64 q)
              (lr_registration_id q) (lr_pni_registration_id q) msg) k) (\<lambda>v. v)) (view (lw_store w) (ACCOUNT_DICT, k)))"
proof -
  let ?kvs = "credentials (lr_password q) (ldp_device_id resp) (lr_encrypted_name q) (lr_profile_key_b64 q)
         (lr_registration_id q) (lr_pni_registration_id q) msg"
  let ?a = "linked_account (lr_password q) (ldp_device_id resp) (lr_encrypted_name q) (lr_profile_key_b64 q) msg (lw_account w)"
  note same = prepare_link_frame [OF prep]
  obtain s2 where s2: "pd_sync P (snd (set_new_each P ACCOUNT_DICT ?kvs (lw_store w))) = (Inr (), s2)"
    using sync_ok by (metis prod.collapse)
  have v2: "view s2 = view (snd (set_new_each P ACCOUNT_DICT ?kvs (lw_store w)))" using sync_view s2 by (metis snd_conv)
  have pers: "persist_credentials P ?kvs (w1\<lparr>lw_net := n\<rparr>) = (Inr (), w1\<lparr>lw_net := n, lw_account := ?a, lw_store := s2\<rparr>)"
    using set_new_fields_eq [OF mirror_credentials] by (simp add: persist_credentials_def same dict s2)
  have other: "ACCOUNT_DICT \<noteq> SIGNED_PREKEY_DICT" "ACCOUNT_DICT \<noteq> KYBER_PREKEY_DICT" by simp_all
  obtain s3 where s3: "save_to_pddb L G P (lr_prekeys q) s2 = (Inr (), s3)"
    and frame: "\<forall>d k. d \<noteq> SIGNED_PREKEY_DICT \<longrightarrow> d \<noteq> KYBER_PREKEY_DICT \<longrightarrow> view s3 (d, k) = view s2 (d, k)"
    using save_to_pddb_ok [of G "lr_prekeys q" s2, OF assms(6-9)] by (elim exE conjE)
  note v3 = frame [rule_format, OF other]
  have net: "on_net (put_devices_link L H u (pm_number msg) (lr_password q) (lr_body q)) w1 = (Inr resp, w1\<lparr>lw_net := n\<rparr>)"
    by (simp add: on_net_def put)
  have "\<exists>w'. link W L Y T G H A P name msg w = (Inr True, w') \<and> lw_account w' = ?a \<and> lw_store w' = s3"
    using assms(1) by (simp add: link_def prep pure_step_def same url net pers on_store_def s3 Let_def)
  moreover have "view s3 (ACCOUNT_DICT, k) = over (Option.bind (map_of ?kvs k) (\<lambda>v. v)) (view (lw_store w) (ACCOUNT_DICT, k))" for k
    using set_new_each_view [OF distinct_credentials] by (simp add: v3 v2)
  ultimately show ?thesis by blast
qed

end

lemma overwrite_short: "length old \<le> length new \<Longrightarrow> overwrite new old = new"
  by (simp add: overwrite_def)

lemma over_simps [simp]: "over None old = old" "over (Some x) None = Some x" "over (Some x) (Some y) = Some (overwrite x y)"
  by (simp_all add: over_def)

lemma relinked_values:
  "overwrite (show_word (d :: u32)) ''0'' = show_word d" "overwrite (show_bool True) (show_bool False) = ''truee''"
  "overwrite ''0'' ''0'' = ''0''" "overwrite ''-1'' ''-1'' = ''-1''"
proof -
  have "1 \<le> length (show_word d)" using show_word_not_Nil [of d] by (cases "show_word d") simp_all
  then show "overwrite (show_word d) ''0'' = show_word d" by (simp add: overwrite_short)
qed (simp_all add: overwrite_def)

text \<open>Under each key of the default values \<open>link\<close> writes a literal, a device id or nothing; every
  other value is new.\<close>

lemma stored_fits:
  assumes "x = Some b" "x = over (Option.bind (map_of (credentials pw dev en pk r r' msg) k) (\<lambda>v. v)) old"
    and "old = Option.bind (map_of (default_values A h env) k) (\<lambda>v. v)" "fits (al_host_to_string A h)"
    and cred: "list_all (\<lambda>(k, v). case v of None \<Rightarrow> True | Some b \<Rightarrow> fits b) (credentials pw dev en pk r r' msg)"
  shows "fits b"
proof (cases "map_of (default_values A h env) k")
  case None
  then obtain v where "map_of (credentials pw dev en pk r r' msg) k = Some (Some v)" "b = v"
    using assms(1-3) by (auto simp: over_def split: option.splits bind_splits)
  with cred show ?thesis by (auto simp: list_all_iff dest!: map_of_SomeD)
next
  case (Some d)
  have dev: "fits (show_word dev)" using cred by (simp add: credentials_def)
  from Some have "k \<in> {DEVICE_ID_KEY, HOST_KEY, IS_MULTI_DEVICE_KEY, REGISTERED_KEY, SERVICE_ENVIRONMENT_KEY,
      STORE_LAST_RECEIVE_TIMESTAMP_KEY, STORE_MANIFEST_VERSION_KEY}"
    by (auto simp: default_values_def split: if_splits)
  with assms(1-4) dev fits_literals show ?thesis
    by (cases "pm_account_entropy_pool msg") (auto simp: credentials_def default_values_def relinked_values simp del: show_bool.simps)
qed

text \<open>C12. Linking, and what a restart makes of it: an account created in an empty dict, with a
  provisioning message that prepares and a server that accepts, is linked, and in memory it is
  registered with the credentials of the message. Read back after a restart every field is the
  same, except that \<open>registered\<close> and \<open>is_multi_device\<close> read as false, because \<open>true\<close> was written
  over the first bytes of \<open>false\<close>. The account then counts as registered only by the fallback
  on a non-zero device id.\<close>

theorem linked_account_read_back:
  assumes "signal_stores P view L" and "\<And>k. view s (ACCOUNT_DICT, k) = None"
    and "al_host_parse A (al_host_to_string A h) = Inr h" and "fits (al_host_to_string A h)"
    and "account_new A P ACCOUNT_DICT h env s = (Inr a0, s0)"
    and "prepare_link W L Y T G name msg \<lparr>lw_account = a0, lw_store = s0, lw_rng = g, lw_net = n\<rparr> = (Inr q, w1)"
    and "chat_url A a0 = Inr u"
    and "put_devices_link L H u (pm_number msg) (lr_password q) (lr_body q) (lw_net w1) = (Inr resp, n')"
    and "\<And>r. \<exists>i. kg_signed_id G r = Inr i" and "\<And>r. \<exists>i. kg_kyber_id G r = Inr i"
    and "\<And>r. \<exists>x. ls_signed_serialize L r = Inr x" and "\<And>r. \<exists>x. ls_kyber_serialize L r = Inr x"
    and "list_all (\<lambda>(k, v). case v of None \<Rightarrow> True | Some b \<Rightarrow> fits b)
           (credentials (lr_password q) (ldp_device_id resp) (lr_encrypted_name q) (lr_profile_key_b64 q) (lr_registration_id q) (lr_pni_registration_id q) msg)"
  shows "\<exists>w' a. link W L Y T G H A P name msg \<lparr>lw_account = a0, lw_store = s0, lw_rng = g, lw_net = n\<rparr> = (Inr True, w')
    \<and> lw_account w' = linked_account (lr_password q) (ldp_device_id resp) (lr_encrypted_name q) (lr_profile_key_b64 q) msg (fresh_account ACCOUNT_DICT h env)
    \<and> read_account A P ACCOUNT_DICT (lw_store w') = Inr a
    \<and> a = (lw_account w')\<lparr>ac_registered := False, ac_is_multi_device := False\<rparr>
    \<and> is_registered (lw_account w') \<and> (is_registered a \<longleftrightarrow> ldp_device_id resp \<noteq> 0)"
proof -
  have hp: "healthy_pddb P view" using assms(1) by (simp add: signal_stores_def)
  have a0: "a0 = fresh_account ACCOUNT_DICT h env"
    and v0: "view s0 (ACCOUNT_DICT, k) = Option.bind (map_of (default_values A h env) k) (\<lambda>v. v)" for k
    using healthy_pddb.account_new_fresh [where A = A and d = ACCOUNT_DICT and s = s and h = h and env = env, OF hp assms(2,3,4)]
    by (simp_all only: assms(5) prod.inject sum.inject) blast+
  let ?w = "\<lparr>lw_account = a0, lw_store = s0, lw_rng = g, lw_net = n\<rparr>"
  let ?kvs = "credentials (lr_password q) (ldp_device_id resp) (lr_encrypted_name q) (lr_profile_key_b64 q) (lr_registration_id q) (lr_pni_registration_id q) msg"
  let ?a = "linked_account (lr_password q) (ldp_device_id resp) (lr_encrypted_name q) (lr_profile_key_b64 q) msg a0"
  have prim: "\<not> is_primary_device (lw_account ?w)" and dict: "ac_pddb_dict (lw_account ?w) = ACCOUNT_DICT" and u: "chat_url A (lw_account ?w) = Inr u"
    using assms(7) by (simp_all add: a0 fresh_account_def is_primary_device_def is_registered_def)
  obtain w' where w': "link W L Y T G H A P name msg ?w = (Inr True, w')" "lw_account w' = ?a"
    and v: "\<And>k. view (lw_store w') (ACCOUNT_DICT, k) = over (Option.bind (map_of ?kvs k) (\<lambda>v. v)) (view s0 (ACCOUNT_DICT, k))"
    using signal_stores.link_ok [OF assms(1) prim dict assms(6) u assms(8-12)] by auto
  have get: "account_get P ACCOUNT_DICT k (lw_store w') = Inr (view (lw_store w') (ACCOUNT_DICT, k))" for k
  proof (rule healthy_pddb.account_get_fits [OF hp])
    fix b assume "view (lw_store w') (ACCOUNT_DICT, k) = Some b"
    from this v [of k] v0 [of k] assms(4,13) show "fits b" by (rule stored_fits)
  qed
  have "read_account A P ACCOUNT_DICT (lw_store w') = Inr (?a\<lparr>ac_registered := False, ac_is_multi_device := False\<rparr>)"
    by (cases "pm_account_entropy_pool msg")
       (simp_all add: read_account_def get v v0 credentials_def default_values_def relinked_values host_or_default_def assms(3)
          linked_account_def a0 fresh_account_def parse_defaults del: show_bool.simps)
  with w' show ?thesis by (simp add: a0 linked_account_def is_registered_def)
qed

text \<open>Instances for the witnesses: a generator that counts, hosts and URLs as plain strings.\<close>

definition token_attrs :: "nat attrs_lib" where
  "token_attrs =
     \<lparr>at_try_fill = (\<lambda>n g. (Inr (replicate n (CHR ''p'')), g)), at_next_u32 = (\<lambda>g. (of_nat g, g + 1)),
      at_gcm_encrypt = (\<lambda>k n p. Inr p)\<rparr>"

definition token_account_lib :: account_lib where
  "token_account_lib =
     \<lparr>al_host_parse = (\<lambda>s. Inr (Host s)), al_host_to_string = (\<lambda>h. case h of Host s \<Rightarrow> s), al_url_parse = (\<lambda>s. Inr (Url s))\<rparr>"

definition demo_provision :: provision_message where
  "demo_provision =
     \<lparr>pm_number = ''+1'', pm_aci = \<lparr>ik_service_id = ''aci'', ik_djb_identity_key = ''A'', ik_djb_private_key = ''a''\<rparr>,
      pm_pni = \<lparr>ik_service_id = ''pni'', ik_djb_identity_key = ''N'', ik_djb_private_key = ''n''\<rparr>, pm_master_key = [],
      pm_profile_key = Some (replicate 32 (CHR ''k'')), pm_provisioning_code = Some ''code'', pm_account_entropy_pool = None\<rparr>"

lemma demo_prekeys: "\<exists>pk g'. generate_prekeys counting_keygen a b g = (Inr pk, g')"
  by (simp add: generate_prekeys_def generate_signed_prekey_def generate_kyber_last_resort_def random_prekey_id_def
      counting_keygen_def Let_def split: private_key.split)

definition demo_name :: string where
  "demo_name = [CHR 0x0A, CHR 0x01, CHR 0x02, CHR 0x12, CHR 0x10, CHR ''c'', CHR ''a'', CHR ''u'', CHR ''t'', CHR ''h'']
     @ replicate 11 (CHR 0x00) @ [CHR 0x1A, CHR 0x01, CHR 0x07]"

lemma demo_prepare:
  "\<exists>q w'. prepare_link pb_wire token_libsignal token_crypto token_attrs counting_keygen ''d'' demo_provision
       \<lparr>lw_account = a, lw_store = s, lw_rng = 0, lw_net = n\<rparr> = (Inr q, w')
     \<and> lr_password q = replicate 18 (CHR ''p'') \<and> lr_encrypted_name q = demo_name \<and> lr_profile_key_b64 q = replicate 32 (CHR ''k'')
     \<and> lr_registration_id q = 1 \<and> lr_pni_registration_id q = 2 \<and> ldr_verification_code (lr_body q) = ''code'' \<and> lw_net w' = n"
proof -
  have name: "encrypt_device_name pb_wire token_libsignal token_crypto ''d'' ''a'' (Suc (Suc 0)) = (Inr demo_name, Suc (Suc (Suc 0)))" by code_simp
  obtain pk g' where pk: "generate_prekeys counting_keygen (PrivateKey ''a'') (PrivateKey ''n'') (Suc (Suc (Suc 0))) = (Inr pk, g')" using demo_prekeys by blast
  have lib: "b64_url_decode token_libsignal b = Inr b" "ls_private_deserialize token_libsignal b = Inr (PrivateKey b)"
    "b64_std_encode token_libsignal b = b" for b by (simp_all add: token_libsignal_def)
  have attrs: "at_try_fill token_attrs k g = (Inr (replicate k (CHR ''p'')), g)" "at_next_u32 token_attrs g = (of_nat g, g + 1)"
    "at_gcm_encrypt token_attrs x y z = Inr z" for k g x y z by (simp_all add: token_attrs_def)
  show ?thesis
    by (simp add: prepare_link_def pure_step_def on_rng_def generate_link_password_def generate_registration_id_def
        build_account_attributes_def derive_unidentified_access_key_def decode_private_key_def demo_provision_def lib attrs name pk
        from_parts_def)
qed

theorem linked_account_read_back_witness:
  "\<exists>w' a. link pb_wire token_libsignal token_crypto token_attrs counting_keygen script_rest token_account_lib mem_pddb ''d'' demo_provision
       \<lparr>lw_account = fresh_account ACCOUNT_DICT (Host ''signal.org'') Live,
        lw_store = snd (account_new token_account_lib mem_pddb ACCOUNT_DICT (Host ''signal.org'') Live []), lw_rng = 0, lw_net = ([UreqOk 200 (Inr ''2'')], [] :: put_request list)\<rparr>
       = (Inr True, w')
     \<and> read_account token_account_lib mem_pddb ACCOUNT_DICT (lw_store w') = Inr a \<and> \<not> ac_registered a \<and> is_registered a"
proof -
  let ?A = token_account_lib and ?h = "Host ''signal.org''"
  let ?resp = "\<lparr>ldp_uuid = ''uuid'', ldp_pni = ''pni'', ldp_device_id = 2\<rparr>"
  have host: "al_host_parse ?A (al_host_to_string ?A ?h) = Inr ?h" by (simp add: token_account_lib_def)
  have host_fits: "fits (al_host_to_string ?A ?h)" by code_simp
  have empty: "map_of [] (ACCOUNT_DICT, k) = None" for k by simp
  obtain s0 where new: "account_new ?A mem_pddb ACCOUNT_DICT ?h Live [] = (Inr (fresh_account ACCOUNT_DICT ?h Live), s0)"
    using mem.account_new_fresh [of "[]", OF empty host host_fits] by blast
  obtain q w1 where prep: "prepare_link pb_wire token_libsignal token_crypto token_attrs counting_keygen ''d'' demo_provision
       \<lparr>lw_account = fresh_account ACCOUNT_DICT ?h Live, lw_store = s0, lw_rng = 0, lw_net = ([UreqOk 200 (Inr ''2'')], [] :: put_request list)\<rparr> = (Inr q, w1)"
    and q: "lr_password q = replicate 18 (CHR ''p'')" "lr_encrypted_name q = demo_name" "lr_profile_key_b64 q = replicate 32 (CHR ''k'')"
      "lr_registration_id q = 1" "lr_pni_registration_id q = 2" "lw_net w1 = ([UreqOk 200 (Inr ''2'')], [] :: put_request list)"
    using demo_prepare [of "fresh_account ACCOUNT_DICT ?h Live" s0 "([UreqOk 200 (Inr ''2'')], [] :: put_request list)"] by (elim exE conjE, intro that)
  have url: "chat_url ?A (fresh_account ACCOUNT_DICT ?h Live) = Inr (Url ''https://chat.signal.org'')"
    by (simp add: chat_url_def fresh_account_def token_account_lib_def)
  have "parse_u32 ''2'' = Some 2" by (simp add: parse_u32_def parse_unsigned_def strip_plus_def is_digit_def)
  then have put: "put_devices_link token_libsignal script_rest (Url ''https://chat.signal.org'') (pm_number demo_provision) (lr_password q) (lr_body q) (lw_net w1)
      = (Inr ?resp, snd (put_devices_link token_libsignal script_rest (Url ''https://chat.signal.org'') (pm_number demo_provision) (lr_password q) (lr_body q) (lw_net w1)))"
    by (simp add: put_devices_link_def try_put_def Let_def q link_response_from_json_def)
  have ids: "\<exists>i. kg_signed_id counting_keygen r = Inr i" "\<exists>i. kg_kyber_id counting_keygen y = Inr i" for r y
    by (simp_all add: counting_keygen_def)
  have ser: "\<exists>x. ls_signed_serialize token_libsignal r = Inr x" "\<exists>x. ls_kyber_serialize token_libsignal y = Inr x" for r y
    by (cases r, simp add: token_libsignal_def) (cases y, simp add: token_libsignal_def)
  have cred: "list_all (\<lambda>(k, v). case v of None \<Rightarrow> True | Some b \<Rightarrow> fits b)
     (credentials (replicate 18 (CHR ''p'')) 2 demo_name (replicate 32 (CHR ''k'')) 1 2 demo_provision)" by code_simp
  show ?thesis
    using linked_account_read_back [where view = map_of and env = Live, OF mem.signal_stores_axioms empty host host_fits new prep url put ids ser] cred
    by (auto simp: q new)
qed

section \<open>The requests of a link\<close>

definition offline :: "('s, 'g, 'h) link_world \<Rightarrow> (('s, 'g, 'h) link_world, 'e, 'a) sres \<Rightarrow> bool" where
  "offline w r \<longleftrightarrow> lw_net (snd r) = lw_net w \<and> lw_account (snd r) = lw_account w"

lemma offline_sbind: "offline w r \<Longrightarrow> (\<And>x v. r = (Inr x, v) \<Longrightarrow> offline v (f x v)) \<Longrightarrow> offline w (sbind r f)"
  by (cases "(r, f)" rule: sbind.cases) (auto simp: offline_def)

lemma offline_steps: "offline w (pure_step r w)" "offline w (on_rng f w)" "offline w (Inr x, w)"
  by (simp_all add: offline_def pure_step_def on_rng_def split: prod.split)

lemma prepare_link_net: "prepare_link W L Y T G name msg w = (r, w') \<Longrightarrow> lw_net w' = lw_net w \<and> lw_account w' = lw_account w"
proof -
  have "offline w (prepare_link W L Y T G name msg w)"
    unfolding prepare_link_def by (intro offline_sbind offline_steps)
  then show "prepare_link W L Y T G name msg w = (r, w') \<Longrightarrow> lw_net w' = lw_net w \<and> lw_account w' = lw_account w"
    by (simp add: offline_def)
qed

lemma persist_credentials_net: "persist_credentials P kvs w = (r, w') \<Longrightarrow> lw_net w' = lw_net w"
  by (auto simp: persist_credentials_def split: prod.splits sum.splits)

lemma on_store_net: "on_store f w = (r, w') \<Longrightarrow> lw_net w' = lw_net w"
  by (auto simp: on_store_def split: prod.splits)

definition attributes_url :: "'h rest_lib \<Rightarrow> url \<Rightarrow> string" where
  "attributes_url H base = rs_url_to_string H (rs_url_set_path H ''/v1/accounts/attributes'' base)"

lemma link_sent:
  assumes "recorded_rest H sent" and "link W L Y T G H A P name msg w = (res, w')"
  shows "sent (lw_net w') = sent (lw_net w) \<and> res \<noteq> Inr True
    \<or> (\<exists>q w1 base reqs attrs. prepare_link W L Y T G name msg w = (Inr q, w1) \<and> chat_url A (lw_account w) = Inr base
        \<and> reqs \<in> link_requests L H base (pm_number msg) (lr_password q) (lr_body q)
        \<and> sent (lw_net w') = sent (lw_net w) @ reqs @ attrs \<and> length (reqs @ attrs) \<le> 3
        \<and> (res = Inr True \<longrightarrow> reqs \<noteq> []) \<and> (res \<noteq> Inr True \<longrightarrow> attrs = [])
        \<and> (attrs = [] \<or> (\<exists>d json. rs_attrs_to_json H (lr_attrs q) = Inr json
             \<and> attrs = [(attributes_url H base, ''Basic '' @ b64_std_encode L
                  (ik_service_id (pm_aci msg) @ ''.'' @ show_word (d :: u32) @ '':'' @ lr_password q), json)])))"
    (is "?quiet \<or> ?asked")
proof (cases "is_primary_device (lw_account w)")
  case False
  note run = assms(2) [unfolded link_def, simplified False if_False]
  obtain rq w1 where prep: "prepare_link W L Y T G name msg w = (rq, w1)" by (metis surj_pair)
  note keep = prepare_link_net [OF prep]
  show ?thesis
  proof (cases "\<exists>q base. rq = Inr q \<and> chat_url A (lw_account w1) = Inr base")
    case False
    with run prep keep have ?quiet by (cases rq; cases "chat_url A (lw_account w1)") (auto simp: pure_step_def)
    then show ?thesis ..
  next
    case True
    then obtain q base where q: "rq = Inr q" and base: "chat_url A (lw_account w1) = Inr base" by blast
    obtain r h where put: "put_devices_link L H base (pm_number msg) (lr_password q) (lr_body q) (lw_net w1) = (r, h)" by (metis surj_pair)
    obtain reqs where reqs: "reqs \<in> link_requests L H base (pm_number msg) (lr_password q) (lr_body q)"
        "sent h = sent (lw_net w) @ reqs" "\<forall>x. r = Inr x \<longrightarrow> reqs \<noteq> []" "length reqs \<le> 2"
      using recorded_rest.put_devices_link_sent [OF assms(1) put] keep by auto
    show ?thesis
    proof (cases r)
      case (Inl e)
      with run prep q base put have "res = Inl (IoFault e)" "lw_net w' = h" by (auto simp: pure_step_def on_net_def)
      with prep q base keep reqs have ?asked
        by (intro exI [of _ q] exI [of _ w1] exI [of _ base] exI [of _ reqs] exI [of _ "[]"]) simp
      then show ?thesis ..
    next
      case (Inr x)
      let ?w2 = "w1\<lparr>lw_net := h\<rparr>" and ?i = "ik_service_id (pm_aci msg) @ ''.'' @ show_word (ldp_device_id x)"
      obtain r3 w3 where pc: "persist_credentials P (credentials (lr_password q) (ldp_device_id x) (lr_encrypted_name q) (lr_profile_key_b64 q)
          (lr_registration_id q) (lr_pni_registration_id q) msg) ?w2 = (r3, w3)" by (metis surj_pair)
      obtain r4 w4 where st: "on_store (save_to_pddb L G P (lr_prekeys q)) w3 = (r4, w4)" by (metis surj_pair)
      have net: "lw_net w3 = h" "lw_net w4 = h" using persist_credentials_net [OF pc] on_store_net [OF st] by simp_all
      obtain r5 h5 where at: "put_accounts_attributes L H base ?i (lr_password q) (lr_attrs q) h = (r5, h5)" by (metis surj_pair)
      obtain attrs where attrs: "sent h5 = sent h @ attrs" "attrs = [] \<or> (\<exists>json. rs_attrs_to_json H (lr_attrs q) = Inr json
          \<and> attrs = [(attributes_url H base, ''Basic '' @ b64_std_encode L (?i @ '':'' @ lr_password q), json)])"
        using recorded_rest.put_attributes_sent [OF assms(1) at] by (auto simp: attributes_url_def)
      have out: "(res, w') = (case r3 of Inl e \<Rightarrow> (Inl e, w3) | Inr _ \<Rightarrow> (case r4 of Inl e \<Rightarrow> (Inl e, w4) | Inr _ \<Rightarrow> (Inr True, w4\<lparr>lw_net := h5\<rparr>)))"
        using run prep q base put Inr pc st at net by (auto simp: pure_step_def on_net_def Let_def split: sum.splits)
      have ?asked
      proof (cases "res = Inr True")
        case True
        with out net have "lw_net w' = h5" by (auto split: sum.splits)
        with True prep q base keep reqs Inr attrs show ?thesis
          by (intro exI [of _ q] exI [of _ w1] exI [of _ base] exI [of _ reqs] exI [of _ attrs]) auto
      next
        case False
        with out net have "lw_net w' = h" by (auto split: sum.splits)
        with False prep q base keep reqs show ?thesis
          by (intro exI [of _ q] exI [of _ w1] exI [of _ base] exI [of _ reqs] exI [of _ "[]"]) simp
      qed
      then show ?thesis ..
    qed
  qed
qed (use assms(2) in \<open>auto simp: link_def\<close>)

text \<open>C14. The requests of linking. \<open>put_devices_link\<close> sends at most two PUTs, both to
  \<open>/v1/devices/link\<close> with the same serialised body: the first under the identifier
  \<open>number.-1\<close>, and the second, under the bare number, only when the server answered the first
  with 403; a link that succeeds has sent one, and permission denied is reported only after
  both identifiers were tried. \<open>Account::link\<close> sends no PUT beside those and at most one
  more, to \<open>/v1/accounts/attributes\<close> under the new device's identifier, which only a link that
  succeeds sends, so at most three in all.\<close>

theorem link_puts_bounded:
  assumes "recorded_rest H sent"
  shows "(let (res, h') = put_devices_link L H base n pw body h in
      \<exists>reqs \<in> link_requests L H base n pw body. sent h' = sent h @ reqs \<and> length reqs \<le> 2
        \<and> (\<forall>r. res = Inr r \<longrightarrow> reqs \<noteq> [])
        \<and> (\<forall>e. res = Inl e \<longrightarrow> io_error_kind e = PermissionDenied \<longrightarrow> length reqs = 2)
        \<and> (length reqs = 2 \<longrightarrow> (\<exists>json r h1. rs_link_to_json H body = Inr json
             \<and> rs_put H (link_url H base) (''Basic '' @ b64_std_encode L (n @ ''.-1:'' @ pw)) json
                 (rs_dump_body H (redact_verification_code json) h) = (UreqStatus 403 r, h1))))
    \<and> (let (res, w') = link W L Y T G H A P name msg w in
      sent (lw_net w') = sent (lw_net w) \<and> res \<noteq> Inr True
      \<or> (\<exists>q w1 base reqs attrs. prepare_link W L Y T G name msg w = (Inr q, w1) \<and> chat_url A (lw_account w) = Inr base
          \<and> reqs \<in> link_requests L H base (pm_number msg) (lr_password q) (lr_body q)
          \<and> sent (lw_net w') = sent (lw_net w) @ reqs @ attrs \<and> length (reqs @ attrs) \<le> 3
          \<and> (res = Inr True \<longrightarrow> reqs \<noteq> []) \<and> (res \<noteq> Inr True \<longrightarrow> attrs = [])
          \<and> (attrs = [] \<or> (\<exists>d json. rs_attrs_to_json H (lr_attrs q) = Inr json
               \<and> attrs = [(attributes_url H base, ''Basic '' @ b64_std_encode L
                    (ik_service_id (pm_aci msg) @ ''.'' @ show_word (d :: u32) @ '':'' @ lr_password q), json)]))))"
proof -
  obtain res h' where run: "put_devices_link L H base n pw body h = (res, h')" by (metis surj_pair)
  obtain lres w' where lrun: "link W L Y T G H A P name msg w = (lres, w')" by (metis surj_pair)
  show ?thesis
    using recorded_rest.put_devices_link_sent [OF assms run] link_sent [OF assms lrun] unfolding run lrun Let_def prod.case
    by (rule conjI)
qed

theorem link_puts_bounded_witness:
  "\<exists>b json. snd (put_devices_link token_libsignal script_rest (Url ''https://chat'') ''+1'' ''pw'' b ([UreqStatus 403 (Inr []), UreqStatus 403 (Inr [])], []))
     = ([], [(''https://chat/v1/devices/link'', ''Basic +1.-1:pw'', json), (''https://chat/v1/devices/link'', ''Basic +1:pw'', json)])"
proof -
  obtain b :: link_device_request_body where True by blast
  let ?run = "put_devices_link token_libsignal script_rest (Url ''https://chat'') ''+1'' ''pw'' b ([UreqStatus 403 (Inr []), UreqStatus 403 (Inr [])], [])"
  have run: "\<exists>rs. ?run = (Inl (IoError PermissionDenied ''HTTP 403''), ([], rs))"
  proof -
    have "show_word (403 :: u16) = ''403''" by code_simp
    then show ?thesis by (simp add: put_devices_link_def try_put_def Let_def link_error_kind_def)
  qed
  then obtain rs where rs: "?run = (Inl (IoError PermissionDenied ''HTTP 403''), ([], rs))" by blast
  have url: "link_url script_rest (Url ''https://chat'') = ''https://chat/v1/devices/link''"
    by (simp add: link_url_def script_rest_def)
  have "rs \<in> link_requests token_libsignal script_rest (Url ''https://chat'') ''+1'' ''pw'' b \<and> length rs = 2"
    using link_puts_bounded [OF script.recorded_rest_axioms, where L = token_libsignal and base = "Url ''https://chat''" and n = "''+1''"
        and pw = "''pw''" and body = b and h = "([UreqStatus 403 (Inr []), UreqStatus 403 (Inr [])], [])", THEN conjunct1] rs
    by auto
  then show ?thesis using rs by (auto simp: link_requests_def url token_libsignal_def intro!: exI [of _ b])
qed

text \<open>C13. Creating an account over an old one: the credentials are gone, so the new account counts
  as registered only if its flag says so; but the old device id survives except for its first
  digit, which the default \<open>0\<close> overwrites, and is read as the new account's device id.\<close>

theorem new_account_keeps_digits:
  assumes "healthy_pddb P view" and "view s (d, DEVICE_ID_KEY) = Some (c # ds)" and "fits (CHR ''0'' # ds)"
    and "account_new A P d h env s = (Inr a, s')"
  shows "ac_device_id a = unwrap_or 0 (parse_u32 (CHR ''0'' # ds))
    \<and> view s' (d, DEVICE_ID_KEY) = Some (CHR ''0'' # ds) \<and> (\<forall>k \<in> set none_keys. view s' (d, k) = None)
    \<and> (is_registered a \<longleftrightarrow> ac_registered a)"
proof -
  obtain s1 where s1: "account_new A P d h env s = (read_account A P d s1, s1)"
    and v: "\<And>k. view s1 (d, k) = over (Option.bind (map_of (default_values A h env) k) (\<lambda>v. v)) (if k \<in> set none_keys then None else view s (d, k))"
    by (rule healthy_pddb.account_new_view [OF assms(1), of A d h env s], rule that)
  have read: "read_account A P d s1 = Inr a" and s': "s' = s1" using assms(4) s1 by auto
  have dev: "view s1 (d, DEVICE_ID_KEY) = Some (CHR ''0'' # ds)"
    using assms(2) by (simp add: v default_values_def none_keys_def overwrite_def)
  have none: "\<forall>k \<in> set none_keys. view s1 (d, k) = None" by (simp add: v default_values_def none_keys_def)
  define f where "f k = Option.bind (map_option (take 256) (view s1 (d, k))) from_utf8" for k
  have get: "account_get P d k s1 = Inr (f k)" for k by (simp add: f_def healthy_pddb.account_get_eq [OF assms(1)])
  have "f DEVICE_ID_KEY = Some (CHR ''0'' # ds)" "f ACI_SERVICE_ID_KEY = None"
    using assms(3) dev none by (simp_all add: f_def fits_def none_keys_def)
  with read have "ac_device_id a = unwrap_or 0 (parse_u32 (CHR ''0'' # ds)) \<and> ac_aci_service_id a = None"
    by (auto simp: read_account_def get res_simps split: option.split_asm)
  with dev none s' show ?thesis by (simp add: is_registered_def)
qed

theorem new_account_keeps_digits_witness:
  "\<exists>a s'. account_new token_account_lib mem_pddb ACCOUNT_DICT (Host ''signal.org'') Live [((ACCOUNT_DICT, DEVICE_ID_KEY), ''12'')] = (Inr a, s')
     \<and> ac_device_id a = 2"
proof -
  let ?s = "[((ACCOUNT_DICT, DEVICE_ID_KEY), ''12'')]" and ?A = token_account_lib and ?h = "Host ''signal.org''"
  obtain s1 where s1: "account_new ?A mem_pddb ACCOUNT_DICT ?h Live ?s = (read_account ?A mem_pddb ACCOUNT_DICT s1, s1)"
    and v: "\<And>k. map_of s1 (ACCOUNT_DICT, k) =
      over (Option.bind (map_of (default_values ?A ?h Live) k) (\<lambda>v. v)) (if k \<in> set none_keys then None else map_of ?s (ACCOUNT_DICT, k))"
    by (rule mem.account_new_view [of ?A ACCOUNT_DICT ?h Live ?s], rule that)
  have digits: "parse_u32 ''02'' = Some 2" by (simp add: parse_u32_def parse_unsigned_def strip_plus_def is_digit_def)
  have fits: "fits ''02''" "fits (al_host_to_string ?A ?h)" by code_simp+
  have "account_get mem_pddb ACCOUNT_DICT k s1 = Inr (map_of s1 (ACCOUNT_DICT, k))" for k
    by (rule mem.account_get_fits)
       (auto simp: v default_values_def none_keys_def overwrite_def fits fits_literals simp del: show_bool.simps service_environment_to_string.simps split: if_splits)
  then have "\<exists>a. read_account ?A mem_pddb ACCOUNT_DICT s1 = Inr a"
    by (simp add: read_account_def v default_values_def none_keys_def host_or_default_def token_account_lib_def)
  then obtain a where run: "account_new ?A mem_pddb ACCOUNT_DICT ?h Live ?s = (Inr a, s1)" using s1 by auto
  have old: "map_of ?s (ACCOUNT_DICT, DEVICE_ID_KEY) = Some (CHR ''1'' # ''2'')" by simp
  from new_account_keeps_digits [OF mem.healthy_pddb_axioms old fits(1) run] run digits show ?thesis by auto
qed

end
