(* ===== verification/Peers.thy ===== *)
theory Peers
  imports Outgoing
begin

text \<open>
  \<open>src/src/manager/peers.rs\<close>: the per-peer conversation summaries under \<open>sigchat.peers\<close>, one
  PDDB key per peer, written as a small hand-made JSON object. The functions that share their
  name with those of \<open>outgoing.rs\<close> carry the prefix \<open>peers_\<close>. Escaping and unescaping work on
  bytes: every byte of a code point above ASCII is copied, as the source does with the whole
  code point.
\<close>

section \<open>Definitions\<close>

abbreviation PEERS_DICT :: string where "PEERS_DICT \<equiv> ''sigchat.peers''"
abbreviation (input) SNIPPET_MAX_BYTES :: nat where "SNIPPET_MAX_BYTES \<equiv> 80"
abbreviation BS :: char where "BS \<equiv> CHR 0x5C"

record peer_summary =
  ps_uuid :: string
  ps_display_name :: string
  ps_last_ts :: u64
  ps_last_snippet :: string
  ps_unread :: u32

subsection \<open>JSON\<close>

definition hex_char :: "nat \<Rightarrow> char" where
  "hex_char d = (if d < 10 then char_of (48 + d) else char_of (87 + d))"

definition escape_char :: "char \<Rightarrow> string" where
  "escape_char c =
     (if c = DQ then [BS, DQ] else if c = BS then [BS, BS]
      else if c = CHR 0x0A then [BS, CHR ''n''] else if c = CHR 0x0D then [BS, CHR ''r'']
      else if c = CHR 0x09 then [BS, CHR ''t'']
      else if (of_char c :: nat) < 0x20
        then BS # ''u00'' @ [hex_char (of_char c div 16), hex_char (of_char c mod 16)]
      else [c])"

definition json_escape :: "string \<Rightarrow> string" where
  "json_escape s = concat (map escape_char s)"

text \<open>The loop over \<open>chars\<close> of \<open>extract_string_field\<close>; \<open>out\<close> is what was pushed so far.\<close>

fun unescape :: "string \<Rightarrow> string \<Rightarrow> string option" where
  "unescape out [] = None"
| "unescape out (c # cs) =
     (if c = DQ then Some out
      else if c = BS then
        (case cs of
           [] \<Rightarrow> None
         | d # ds \<Rightarrow>
             (if d = DQ then unescape (out @ [DQ]) ds
              else if d = BS then unescape (out @ [BS]) ds
              else if d = CHR ''n'' then unescape (out @ [CHR 0x0A]) ds
              else if d = CHR ''r'' then unescape (out @ [CHR 0x0D]) ds
              else if d = CHR ''t'' then unescape (out @ [CHR 0x09]) ds
              else unescape (out @ [BS, d]) ds))
      else unescape (out @ [c]) cs)"

definition peers_extract_string_field :: "string \<Rightarrow> string \<Rightarrow> string option" where
  "peers_extract_string_field s key =
     (let needle = json_string_needle key in
      case find_str needle s of
        None \<Rightarrow> None
      | Some i \<Rightarrow> unescape [] (drop (i + length needle) s))"

definition peers_extract_number_field :: "string \<Rightarrow> string \<Rightarrow> string option" where
  "peers_extract_number_field s key =
     (let needle = json_number_needle key in
      case find_str needle s of
        None \<Rightarrow> None
      | Some i \<Rightarrow>
          (let rest = drop (i + length needle) s;
               e = unwrap_or (length rest) (find_char (\<lambda>c. \<not> is_digit c) rest)
           in if e = 0 then None else Some (take e rest)))"

definition to_json :: "peer_summary \<Rightarrow> string" where
  "to_json p =
     CHR ''{'' # json_string_needle ''display_name'' @ json_escape (ps_display_name p) @ [DQ, CHR '','']
       @ json_number_needle ''last_ts'' @ show_word (ps_last_ts p) @ '',''
       @ json_string_needle ''last_snippet'' @ json_escape (ps_last_snippet p) @ [DQ, CHR '','']
       @ json_number_needle ''unread'' @ show_word (ps_unread p) @ ''}''"

definition from_json :: "string \<Rightarrow> string \<Rightarrow> peer_summary option" where
  "from_json uuid s =
     Some \<lparr>ps_uuid = uuid,
       ps_display_name = unwrap_or [] (peers_extract_string_field s ''display_name''),
       ps_last_ts = unwrap_or 0 (Option.bind (peers_extract_number_field s ''last_ts'') parse_u64),
       ps_last_snippet = unwrap_or [] (peers_extract_string_field s ''last_snippet''),
       ps_unread = unwrap_or 0 (Option.bind (peers_extract_number_field s ''unread'') parse_u32)\<rparr>"

subsection \<open>Snippets\<close>

fun floor_boundary :: "string \<Rightarrow> nat \<Rightarrow> nat" where
  "floor_boundary s 0 = 0"
| "floor_boundary s (Suc e) = (if is_char_boundary s (Suc e) then Suc e else floor_boundary s e)"

definition ellipsis :: string where
  "ellipsis = [CHR 0xE2, CHR 0x80, CHR 0xA6]"

definition truncate_snippet :: "string \<Rightarrow> string" where
  "truncate_snippet s =
     (if length s \<le> SNIPPET_MAX_BYTES then s
      else take (floor_boundary s SNIPPET_MAX_BYTES) s @ ellipsis)"

subsection \<open>Operations\<close>

definition peer_read :: "'s pddb \<Rightarrow> string \<Rightarrow> 's \<Rightarrow> peer_summary option" where
  "peer_read P uuid s = Option.bind (pddb_get_string P PEERS_DICT uuid s) (from_json uuid)"

definition write_summary :: "'s pddb \<Rightarrow> peer_summary \<Rightarrow> 's \<Rightarrow> ('s, io_error, unit) sres" where
  "write_summary P summary s =
     (case pddb_replace P PEERS_DICT (ps_uuid summary) (to_json summary) s of
        (Inl (GetFailed e), s1) \<Rightarrow> (Inl e, s1)
      | (Inl (WriteFailed e), s1) \<Rightarrow> (Inl e, s1)
      | (Inr _, s1) \<Rightarrow> (Inr (), s1))"

definition fresh_summary :: "string \<Rightarrow> peer_summary" where
  "fresh_summary uuid =
     \<lparr>ps_uuid = uuid, ps_display_name = uuid, ps_last_ts = 0, ps_last_snippet = [], ps_unread = 0\<rparr>"

definition saturating_inc :: "u32 \<Rightarrow> u32" where
  "saturating_inc n = (if n = - 1 then n else n + 1)"

definition record_inbound ::
  "'s pddb \<Rightarrow> string \<Rightarrow> u64 \<Rightarrow> string \<Rightarrow> bool \<Rightarrow> 's \<Rightarrow> ('s, io_error, unit) sres" where
  "record_inbound P uuid ts body is_focused s =
     (let summary = unwrap_or (fresh_summary uuid) (peer_read P uuid s);
          summary = summary\<lparr>ps_last_ts := ts, ps_last_snippet := truncate_snippet body\<rparr>;
          summary = (if is_focused then summary else summary\<lparr>ps_unread := saturating_inc (ps_unread summary)\<rparr>)
      in write_summary P summary s)"

definition record_outbound :: "'s pddb \<Rightarrow> string \<Rightarrow> u64 \<Rightarrow> string \<Rightarrow> 's \<Rightarrow> ('s, io_error, unit) sres" where
  "record_outbound P uuid ts body s =
     (let summary = unwrap_or (fresh_summary uuid) (peer_read P uuid s);
          summary = summary\<lparr>ps_last_ts := ts, ps_last_snippet := truncate_snippet body\<rparr>
      in write_summary P summary s)"

definition clear_unread :: "'s pddb \<Rightarrow> string \<Rightarrow> 's \<Rightarrow> ('s, io_error, unit) sres" where
  "clear_unread P uuid s =
     (case peer_read P uuid s of
        Some summary \<Rightarrow>
          (if ps_unread summary \<noteq> 0 then write_summary P (summary\<lparr>ps_unread := 0\<rparr>) s else (Inr (), s))
      | None \<Rightarrow> (Inr (), s))"

text \<open>\<open>sort_by\<close> with the compared sides swapped is a stable sort by descending \<open>last_ts\<close>.\<close>

definition list_sorted :: "'s pddb \<Rightarrow> 's \<Rightarrow> peer_summary list" where
  "list_sorted P s =
     (case pd_list P PEERS_DICT s of
        Inl _ \<Rightarrow> []
      | Inr keys \<Rightarrow>
          sort_key (\<lambda>p. 2 ^ 64 - unat (ps_last_ts p))
            (List.map_filter (\<lambda>uuid. Option.bind (pddb_get_string P PEERS_DICT uuid s) (from_json uuid)) keys))"

section \<open>No text can forge a field\<close>

lemma of_char_hex_char: "d < 16 \<Longrightarrow> (of_char (hex_char d) :: nat) = (if d < 10 then 48 + d else 87 + d)"
  by (simp add: hex_char_def)

lemma hex_char_plain: "d < 16 \<Longrightarrow> hex_char d \<noteq> DQ \<and> hex_char d \<noteq> BS"
proof -
  assume "d < 16"
  then have "(of_char (hex_char d) :: nat) \<noteq> 34" "(of_char (hex_char d) :: nat) \<noteq> 92"
    by (auto simp: of_char_hex_char)
  then show ?thesis by auto
qed

text \<open>An escape is the byte itself or begins with a backslash; a quote occurs only right after
  the backslash, as the end of the escape.\<close>

lemma escape_char_cases:
  obtains (plain) "escape_char c = [c]" "c \<noteq> DQ" "c \<noteq> BS"
        | (quote) "escape_char c = [BS, DQ]"
        | (other) ds where "escape_char c = BS # ds" "DQ \<notin> set ds"
proof -
  let ?n = "of_char c :: nat"
  have hex: "?n < 32 \<Longrightarrow> hex_char (?n div 16) \<noteq> DQ" "hex_char (?n mod 16) \<noteq> DQ"
    by (rule conjunct1 [OF hex_char_plain], linarith) (rule conjunct1 [OF hex_char_plain], simp)
  consider (a) "c = DQ" | (b) "c = BS" | (c) "c = CHR 0x0A" | (d) "c = CHR 0x0D" | (e) "c = CHR 0x09"
    | (f) "c \<noteq> DQ" "c \<noteq> BS" "c \<noteq> CHR 0x0A" "c \<noteq> CHR 0x0D" "c \<noteq> CHR 0x09" by blast
  then show ?thesis
  proof cases
    case a
    then show ?thesis by (intro quote) (simp add: escape_char_def)
  next
    case f
    show ?thesis
    proof (cases "?n < 32")
      case True
      with f have "escape_char c = BS # ''u00'' @ [hex_char (?n div 16), hex_char (?n mod 16)]"
        by (simp add: escape_char_def)
      moreover have "DQ \<notin> set (''u00'' @ [hex_char (?n div 16), hex_char (?n mod 16)])"
        using hex(1) [OF True] hex(2) by simp
      ultimately show ?thesis by (rule other)
    next
      case False
      with f show ?thesis by (intro plain) (simp_all add: escape_char_def)
    qed
  qed (use other in \<open>simp_all add: escape_char_def\<close>)
qed

lemma json_escape_Cons [simp]: "json_escape (c # t) = escape_char c @ json_escape t"
  and json_escape_Nil [simp]: "json_escape [] = []"
  by (simp_all add: json_escape_def)

lemma key_not_in_escape:
  assumes "DQ \<notin> set key" "BS \<notin> set key"
  shows "\<not> starts_with (key @ DQ # CHR '':'' # ps) (json_escape t @ DQ # CHR '','' # r)"
  using assms
proof (induction t arbitrary: key)
  case Nil
  then show ?case by (cases key) auto
next
  case (Cons c t)
  show ?case
  proof (cases rule: escape_char_cases [of c])
    case plain
    with Cons show ?thesis by (cases key) auto
  next
    case quote
    with Cons.prems show ?thesis by (cases key) auto
  next
    case (other ds)
    with Cons.prems show ?thesis by (cases key) auto
  qed
qed

text \<open>Searching a key runs past an escaped text and its closing quote, whatever the text.\<close>

lemma find_key_past_text:
  assumes "DQ \<notin> set (k # key)" "BS \<notin> set (k # key)" "k \<noteq> CHR '',''"
  shows "find_str (DQ # k # key @ DQ # CHR '':'' # ps) (json_escape t @ DQ # CHR '','' # r) =
    map_option (\<lambda>i. length (json_escape t) + 2 + i) (find_str (DQ # k # key @ DQ # CHR '':'' # ps) r)"
proof (induction t)
  case Nil
  then show ?case using assms by (simp add: option.map_comp comp_def)
next
  case (Cons c t)
  let ?n = "DQ # k # key @ DQ # CHR '':'' # ps"
  have no: "\<not> starts_with ?n (DQ # json_escape t @ DQ # CHR '','' # r)"
    using key_not_in_escape [OF assms(1,2), of ps t r] by simp
  show ?case
  proof (cases rule: escape_char_cases [of c])
    case plain
    then show ?thesis by (simp add: Cons.IH option.map_comp comp_def)
  next
    case quote
    with no show ?thesis by (simp add: Cons.IH option.map_comp comp_def)
  next
    case (other ds)
    then have "DQ \<notin> set (escape_char c)" by simp
    from find_str_quote_skip [OF this, of "k # key @ DQ # CHR '':'' # ps"] show ?thesis
      by (simp add: Cons.IH option.map_comp comp_def add.assoc del: find_str.simps)
  qed
qed

text \<open>Reading an escaped text gives it back when it has no control character but line feed,
  carriage return and tab.\<close>

definition json_safe :: "string \<Rightarrow> bool" where
  "json_safe t \<longleftrightarrow> list_all (\<lambda>c. 0x20 \<le> (of_char c :: nat) \<or> c \<in> {CHR 0x09, CHR 0x0A, CHR 0x0D}) t"

text \<open>What is read in general: such a control character comes back as its six-byte escape.\<close>

definition read_back :: "string \<Rightarrow> string" where
  "read_back t = concat (map (\<lambda>c. if json_safe [c] then [c] else escape_char c) t)"

lemma read_back_safe: "json_safe t \<Longrightarrow> read_back t = t"
  by (induction t) (auto simp: read_back_def json_safe_def)

lemma escape_control:
  "\<not> json_safe [c] \<Longrightarrow> escape_char c = BS # ''u00'' @ [hex_char (of_char c div 16), hex_char (of_char c mod 16)]
     \<and> hex_char (of_char c div 16) \<notin> {DQ, BS} \<and> hex_char (of_char c mod 16) \<notin> {DQ, BS}"
proof -
  assume un: "\<not> json_safe [c]"
  then have lt: "(of_char c :: nat) < 32" by (simp add: json_safe_def)
  then have "(of_char c :: nat) div 16 < 16" by linarith
  from hex_char_plain [OF this] hex_char_plain [of "of_char c mod 16"] un lt show ?thesis
    by (auto simp: json_safe_def escape_char_def)
qed

lemma unescape_char: "unescape out (escape_char c @ r) = unescape (out @ (if json_safe [c] then [c] else escape_char c)) r"
proof (cases "json_safe [c]")
  case True
  then show ?thesis by (auto simp: escape_char_def json_safe_def)
next
  case False
  with escape_control [OF False] show ?thesis by simp
qed

lemma unescape_escape: "unescape out (json_escape t @ DQ # r) = Some (out @ read_back t)"
  by (induction t arbitrary: out) (simp_all add: unescape_char read_back_def)

subsection \<open>Finding the four fields\<close>

text \<open>A search key as the parsers build it, and the fields it is not the key of.\<close>

definition needle_for :: "string \<Rightarrow> string \<Rightarrow> bool" where
  "needle_for key n \<longleftrightarrow> (\<exists>ps. n = DQ # key @ DQ # CHR '':'' # ps) \<and> key \<noteq> [] \<and> DQ \<notin> set key \<and> BS \<notin> set key
     \<and> hd key \<noteq> CHR '','' \<and> hd key \<noteq> CHR '':''"

lemma needle_for_string: "key \<in> {''display_name'', ''last_ts'', ''last_snippet'', ''unread''} \<Longrightarrow> needle_for key (json_string_needle key)"
  and needle_for_number: "key \<in> {''display_name'', ''last_ts'', ''last_snippet'', ''unread''} \<Longrightarrow> needle_for key (json_number_needle key)"
  by (auto simp: needle_for_def json_string_needle_def json_number_needle_def)

lemma find_past_name:
  assumes "needle_for key n" "DQ \<notin> set name" "name \<noteq> key"
  shows "find_str n (DQ # name @ DQ # CHR '':'' # r) = map_option (\<lambda>i. length name + 3 + i) (find_str n r)"
proof -
  from assms(1) obtain ps where n: "n = DQ # key @ DQ # CHR '':'' # ps" and key: "key \<noteq> []" "DQ \<notin> set key" "hd key \<noteq> CHR '':''"
    by (auto simp: needle_for_def)
  have first: "\<not> starts_with n (DQ # name @ DQ # CHR '':'' # r)"
  proof
    assume "starts_with n (DQ # name @ DQ # CHR '':'' # r)"
    then obtain t where "name @ DQ # (CHR '':'' # r) = key @ DQ # (CHR '':'' # ps @ t)"
      unfolding n by (auto simp: starts_with_iff)
    with assms(2,3) key(2) show False by (simp add: cons_sep_inject)
  qed
  have skip: "find_str n (name @ DQ # CHR '':'' # r) = map_option (\<lambda>i. length name + i) (find_str n (DQ # CHR '':'' # r))"
    unfolding n by (rule find_str_quote_skip [OF assms(2)])
  obtain k ks where k: "key = k # ks" "k \<noteq> CHR '':''" using key(1,3) by (cases key) auto
  have "find_str n (DQ # CHR '':'' # r) = map_option (\<lambda>i. 2 + i) (find_str n r)"
    using k by (simp add: n option.map_comp comp_def)
  then have "find_str n (name @ DQ # CHR '':'' # r) = map_option (\<lambda>i. length name + 2 + i) (find_str n r)"
    by (simp add: skip option.map_comp comp_def)
  with first show ?thesis by (cases "find_str n r") simp_all
qed

lemma find_past_string_field:
  assumes "needle_for key n" "DQ \<notin> set name" "name \<noteq> key"
  shows "find_str n (json_string_needle name @ json_escape t @ DQ # CHR '','' # r) =
    map_option (\<lambda>i. length name + length (json_escape t) + 6 + i) (find_str n r)"
proof -
  from assms(1) obtain ps k ks where n: "n = DQ # k # ks @ DQ # CHR '':'' # ps"
      and key: "DQ \<notin> set (k # ks)" "BS \<notin> set (k # ks)" "k \<noteq> CHR '',''"
    by (auto simp: needle_for_def neq_Nil_conv)
  have "\<not> starts_with n (DQ # json_escape t @ DQ # CHR '','' # r)"
    using key_not_in_escape [OF key(1,2), of ps t r] by (simp add: n)
  then have "find_str n (DQ # json_escape t @ DQ # CHR '','' # r) = map_option (\<lambda>i. length (json_escape t) + 3 + i) (find_str n r)"
    using find_key_past_text [OF key, of ps t r] by (cases "find_str n r") (simp_all add: n)
  then show ?thesis
    using find_past_name [OF assms, of "DQ # json_escape t @ DQ # CHR '','' # r"]
    by (cases "find_str n r") (simp_all add: json_string_needle_def)
qed

lemma find_past_number_field:
  assumes "needle_for key n" "DQ \<notin> set name" "name \<noteq> key"
  shows "find_str n (json_number_needle name @ show_word v @ CHR '','' # r) =
    map_option (\<lambda>i. length name + length (show_word v) + 4 + i) (find_str n r)"
proof -
  obtain m where n: "n = DQ # m" using assms(1) by (auto simp: needle_for_def)
  have "find_str n ((show_word v @ '','') @ r) = map_option (\<lambda>i. length (show_word v @ '','') + i) (find_str n r)"
    unfolding n by (rule find_str_quote_skip) simp
  then show ?thesis
    using find_past_name [OF assms, of "show_word v @ CHR '','' # r"]
    by (cases "find_str n r") (simp_all add: json_number_needle_def)
qed

lemma find_past_brace: "needle_for key n \<Longrightarrow> find_str n (CHR ''{'' # r) = map_option Suc (find_str n r)"
  by (auto simp: needle_for_def)

lemmas find_past = find_past_brace find_past_string_field find_past_number_field

lemma extract_string_at:
  assumes "find_str (json_string_needle key) (pre @ json_string_needle key @ rest) = Some (length pre)"
  shows "peers_extract_string_field (pre @ json_string_needle key @ rest) key = unescape [] rest"
  using assms by (simp add: peers_extract_string_field_def Let_def)

lemma extract_number_at:
  assumes "find_str (json_number_needle key) (pre @ json_number_needle key @ show_word v @ e # rest) = Some (length pre)" "\<not> is_digit e"
  shows "peers_extract_number_field (pre @ json_number_needle key @ show_word v @ e # rest) key = Some (show_word v)"
proof -
  have "find_char (\<lambda>c. \<not> is_digit c) (show_word v @ e # rest) = Some (length (show_word v))"
    using assms(2) by (subst find_char_append) (auto dest: show_word_digits)
  with assms(1) show ?thesis by (simp add: peers_extract_number_field_def Let_def)
qed

lemma comma_not_digit [simp]: "\<not> is_digit (CHR '','')" and brace_not_digit [simp]: "\<not> is_digit (CHR ''}'')"
  by (simp_all add: is_digit_def)

lemma length_needles [simp]: "length (json_string_needle key) = length key + 4" "length (json_number_needle key) = length key + 3"
  by (simp_all add: json_string_needle_def json_number_needle_def)

lemma json_numbers:
  shows json_last_ts: "peers_extract_number_field (to_json p) ''last_ts'' = Some (show_word (ps_last_ts p))"
    and json_unread: "peers_extract_number_field (to_json p) ''unread'' = Some (show_word (ps_unread p))"
proof -
  let ?r2 = "json_string_needle ''last_snippet'' @ json_escape (ps_last_snippet p) @ [DQ, CHR '','']
       @ json_number_needle ''unread'' @ show_word (ps_unread p) @ ''}''"
  let ?pre1 = "CHR ''{'' # json_string_needle ''display_name'' @ json_escape (ps_display_name p) @ [DQ, CHR '','']"
  have "find_str (json_number_needle ''last_ts'') (?pre1 @ json_number_needle ''last_ts'' @ show_word (ps_last_ts p) @ CHR '','' # ?r2)
      = Some (length ?pre1)"
    using needle_for_number [of "''last_ts''"] by (simp add: find_past del: find_str.simps)
  from extract_number_at [OF this]
  show "peers_extract_number_field (to_json p) ''last_ts'' = Some (show_word (ps_last_ts p))" by (simp add: to_json_def)
  let ?pre2 = "?pre1 @ json_number_needle ''last_ts'' @ show_word (ps_last_ts p) @ '',''
       @ json_string_needle ''last_snippet'' @ json_escape (ps_last_snippet p) @ [DQ, CHR '','']"
  have "find_str (json_number_needle ''unread'') (?pre2 @ json_number_needle ''unread'' @ show_word (ps_unread p) @ CHR ''}'' # [])
      = Some (length ?pre2)"
    using needle_for_number [of "''unread''"] by (simp add: find_past del: find_str.simps)
  from extract_number_at [OF this]
  show "peers_extract_number_field (to_json p) ''unread'' = Some (show_word (ps_unread p))" by (simp add: to_json_def)
qed

lemma json_texts:
  shows json_display_name: "peers_extract_string_field (to_json p) ''display_name'' = Some (read_back (ps_display_name p))"
    and json_last_snippet: "peers_extract_string_field (to_json p) ''last_snippet'' = Some (read_back (ps_last_snippet p))"
proof -
  let ?r3 = "json_number_needle ''unread'' @ show_word (ps_unread p) @ ''}''"
  let ?r1 = "json_number_needle ''last_ts'' @ show_word (ps_last_ts p) @ '',''
       @ json_string_needle ''last_snippet'' @ json_escape (ps_last_snippet p) @ DQ # CHR '','' # ?r3"
  have "find_str (json_string_needle ''display_name'') (''{'' @ json_string_needle ''display_name'' @ json_escape (ps_display_name p) @ DQ # CHR '','' # ?r1)
      = Some (length ''{'')"
    using needle_for_string [of "''display_name''"] by (simp add: find_past del: find_str.simps)
  from extract_string_at [OF this]
  show "peers_extract_string_field (to_json p) ''display_name'' = Some (read_back (ps_display_name p))"
    by (simp add: to_json_def unescape_escape)
  let ?pre = "CHR ''{'' # json_string_needle ''display_name'' @ json_escape (ps_display_name p) @ [DQ, CHR '','']
     @ json_number_needle ''last_ts'' @ show_word (ps_last_ts p) @ '',''"
  have "find_str (json_string_needle ''last_snippet'') (?pre @ json_string_needle ''last_snippet'' @ json_escape (ps_last_snippet p) @ DQ # CHR '','' # ?r3)
      = Some (length ?pre)"
    using needle_for_string [of "''last_snippet''"] by (simp add: find_past del: find_str.simps)
  from extract_string_at [OF this]
  show "peers_extract_string_field (to_json p) ''last_snippet'' = Some (read_back (ps_last_snippet p))"
    by (simp add: to_json_def unescape_escape)
qed

section \<open>Validity of what is written\<close>

lemma utf8_valid_ascii_char: "(of_char c :: nat) < 0x80 \<Longrightarrow> utf8_valid [c]"
  by (rule utf8_valid_ascii) simp

lemma escape_ascii: "(of_char c :: nat) < 0x80 \<Longrightarrow> x \<in> set (escape_char c) \<Longrightarrow> (of_char x :: nat) < 0x80"
  using of_char_hex_char [of "of_char c div 16"] of_char_hex_char [of "of_char c mod 16"]
  by (auto simp: escape_char_def split: if_splits)

lemma escape_high: "0x80 \<le> (of_char c :: nat) \<Longrightarrow> escape_char c = [c]"
  by (auto simp: escape_char_def)

text \<open>Replacing ASCII bytes by ASCII strings and keeping all others preserves validity.\<close>

lemma ascii_substitution_valid:
  assumes low: "\<And>c x. (of_char c :: nat) < 0x80 \<Longrightarrow> x \<in> set (f c) \<Longrightarrow> (of_char x :: nat) < 0x80"
    and high: "\<And>c. 0x80 \<le> (of_char c :: nat) \<Longrightarrow> f c = [c]" and t: "utf8_valid t"
  shows "utf8_valid (concat (map f t))"
proof -
  have point: "utf8_valid (concat (map f b))" if cp: "code_point b" for b
    using cp
  proof (cases rule: code_point_cases)
    case (ascii c)
    then show ?thesis by (auto intro!: utf8_valid_ascii dest: low)
  next
    case (multi c cs)
    then have "\<forall>x \<in> set b. f x = [x]" by (auto simp: is_cont_def intro: high)
    then have "concat (map f b) = b" by (induction b) simp_all
    then show ?thesis using cp unfolding utf8_valid_blocks by (intro exI [of _ "[b]"]) simp
  qed
  have "list_all code_point bs \<Longrightarrow> utf8_valid (concat (map f (concat bs)))" for bs
    by (induction bs) (auto simp: point utf8_valid_def [of "[]"])
  with t show ?thesis unfolding utf8_valid_blocks [of t] by blast
qed

lemma json_escape_valid: "utf8_valid t \<Longrightarrow> utf8_valid (json_escape t)"
  unfolding json_escape_def by (rule ascii_substitution_valid [OF escape_ascii escape_high])

lemma read_back_valid: "utf8_valid t \<Longrightarrow> utf8_valid (read_back t)"
  unfolding read_back_def
  by (rule ascii_substitution_valid) (auto simp: escape_high dest: escape_ascii split: if_splits)

lemma show_word_valid [simp]: "utf8_valid (show_word w)"
  by (rule utf8_valid_ascii) (auto simp: is_digit_def dest!: show_word_digits)

lemma to_json_valid:
  assumes "utf8_valid (ps_display_name p)" "utf8_valid (ps_last_snippet p)"
  shows "utf8_valid (to_json p)"
proof -
  have lit: "utf8_valid (CHR ''{'' # json_string_needle ''display_name'')" "utf8_valid [DQ, CHR '','']"
    "utf8_valid (json_number_needle ''last_ts'')" "utf8_valid '',''" "utf8_valid (json_string_needle ''last_snippet'')"
    "utf8_valid (json_number_needle ''unread'')" "utf8_valid ''}''"
    by (auto intro!: utf8_valid_ascii simp: json_string_needle_def json_number_needle_def)
  have "to_json p = (CHR ''{'' # json_string_needle ''display_name'') @ json_escape (ps_display_name p) @ [DQ, CHR '','']
       @ json_number_needle ''last_ts'' @ show_word (ps_last_ts p) @ '',''
       @ json_string_needle ''last_snippet'' @ json_escape (ps_last_snippet p) @ [DQ, CHR '','']
       @ json_number_needle ''unread'' @ show_word (ps_unread p) @ ''}''"
    by (simp add: to_json_def)
  with lit assms show ?thesis by (simp only:) (intro utf8_valid_append json_escape_valid show_word_valid)
qed

lemma floor_boundary: "is_char_boundary s (floor_boundary s e) \<and> floor_boundary s e \<le> e"
  by (induction e) (auto simp: is_char_boundary_def)

lemma floor_boundary_max: "i \<le> e \<Longrightarrow> is_char_boundary s i \<Longrightarrow> i \<le> floor_boundary s e"
  by (induction e) (auto simp: le_Suc_eq)

lemma ellipsis_valid: "utf8_valid ellipsis"
  by (simp add: utf8_valid_def ellipsis_def utf8_step_def utf8_width_def second_ok_def byte_in_def is_cont_def Let_def)

lemma truncate_valid: "utf8_valid s \<Longrightarrow> utf8_valid (truncate_snippet s)"
  unfolding truncate_snippet_def
  using floor_boundary [of s] ellipsis_valid by (auto intro: utf8_valid_take)

section \<open>Properties\<close>

lemma from_to_json:
  "from_json u (to_json p) = Some (p\<lparr>ps_uuid := u,
     ps_display_name := read_back (ps_display_name p), ps_last_snippet := read_back (ps_last_snippet p)\<rparr>)"
  by (simp add: from_json_def json_numbers json_texts)

lemma write_then_read:
  assumes "healthy_pddb P view" "utf8_valid (ps_display_name p)" "utf8_valid (ps_last_snippet p)"
  shows "write_summary P p s = (Inr (), snd (write_summary P p s))
    \<and> view (snd (write_summary P p s)) = (view s)((PEERS_DICT, ps_uuid p) \<mapsto> to_json p)
    \<and> peer_read P (ps_uuid p) (snd (write_summary P p s)) = from_json (ps_uuid p) (to_json p)"
proof -
  obtain s1 where s1: "pddb_replace P PEERS_DICT (ps_uuid p) (to_json p) s = (Inr (), s1)"
      "view s1 = (view s)((PEERS_DICT, ps_uuid p) \<mapsto> to_json p)"
    using healthy_pddb.replace_eq [OF assms(1)] healthy_pddb.replace_view [OF assms(1)] by (metis snd_conv)
  then show ?thesis
    using to_json_valid [OF assms(2,3)]
    by (simp add: write_summary_def peer_read_def healthy_pddb.get_string_eq [OF assms(1)])
qed

text \<open>C33. A written summary is read back, and no text can forge a field of it: whatever the
  display name and the snippet contain, the timestamp and the unread count that are read are
  those that were written; the texts themselves come back unless they contain a control
  character other than tab, line feed and carriage return; other peers keep their record.\<close>

theorem peer_summary_roundtrip:
  assumes "healthy_pddb P view" and "utf8_valid (ps_display_name p)" and "utf8_valid (ps_last_snippet p)"
  shows "\<exists>q s'. write_summary P p s = (Inr (), s') \<and> peer_read P (ps_uuid p) s' = Some q
    \<and> ps_uuid q = ps_uuid p \<and> ps_last_ts q = ps_last_ts p \<and> ps_unread q = ps_unread p
    \<and> (json_safe (ps_display_name p) \<and> json_safe (ps_last_snippet p) \<longrightarrow> q = p)
    \<and> (\<forall>u. u \<noteq> ps_uuid p \<longrightarrow> peer_read P u s' = peer_read P u s)"
proof -
  define s' where "s' = snd (write_summary P p s)"
  from write_then_read [OF assms, of s] have w: "write_summary P p s = (Inr (), s')"
    "view s' = (view s)((PEERS_DICT, ps_uuid p) \<mapsto> to_json p)"
    "peer_read P (ps_uuid p) s' = from_json (ps_uuid p) (to_json p)"
    by (simp_all add: s'_def)
  have "\<forall>u. u \<noteq> ps_uuid p \<longrightarrow> peer_read P u s' = peer_read P u s"
    by (simp add: peer_read_def healthy_pddb.get_string_eq [OF assms(1)] w(2))
  with w(1,3) show ?thesis
    by (intro exI [of _ "the (from_json (ps_uuid p) (to_json p))"] exI [of _ s'])
      (simp add: from_to_json read_back_safe)
qed

definition demo_summary :: peer_summary where
  "demo_summary = \<lparr>ps_uuid = ''u'', ps_display_name = ''Bob'', ps_last_ts = 5,
     ps_last_snippet = [DQ] @ '',x'', ps_unread = 3\<rparr>"

theorem peer_summary_roundtrip_witness:
  "peer_read mem_pddb ''u'' (snd (write_summary mem_pddb demo_summary [])) = Some demo_summary"
proof -
  have "utf8_valid (ps_display_name demo_summary)" "utf8_valid (ps_last_snippet demo_summary)"
    by (rule utf8_valid_ascii, auto simp: demo_summary_def)+
  moreover have "json_safe (ps_display_name demo_summary)" "json_safe (ps_last_snippet demo_summary)"
    by (simp_all add: json_safe_def demo_summary_def)
  moreover have "ps_uuid demo_summary = ''u''" by (simp add: demo_summary_def)
  ultimately show ?thesis
    using peer_summary_roundtrip [where p = demo_summary and view = map_of and s = "[]", OF mem.healthy_pddb_axioms] by auto
qed

text \<open>Snippets: at most 83 bytes, valid UTF-8 when the body is, the body itself when it
  has at most 80 bytes, and otherwise its longest prefix of at most 80 bytes that ends at a
  character boundary, followed by an ellipsis.\<close>

theorem truncate_snippet_spec:
  "length (truncate_snippet b) \<le> 83
   \<and> (utf8_valid b \<longrightarrow> utf8_valid (truncate_snippet b))
   \<and> (length b \<le> 80 \<longrightarrow> truncate_snippet b = b)
   \<and> (80 < length b \<longrightarrow> (\<exists>i \<le> 80. is_char_boundary b i \<and> truncate_snippet b = take i b @ ellipsis
        \<and> (\<forall>j \<le> 80. is_char_boundary b j \<longrightarrow> j \<le> i)))"
proof -
  have "length (truncate_snippet b) \<le> 83"
    using floor_boundary [of b 80] by (auto simp: truncate_snippet_def ellipsis_def)
  moreover have "\<exists>i \<le> 80. is_char_boundary b i \<and> truncate_snippet b = take i b @ ellipsis
        \<and> (\<forall>j \<le> 80. is_char_boundary b j \<longrightarrow> j \<le> i)" if "80 < length b"
    using that floor_boundary [of b 80] floor_boundary_max [of _ 80 b]
    by (intro exI [of _ "floor_boundary b 80"]) (simp add: truncate_snippet_def)
  ultimately show ?thesis using truncate_valid [of b] by (simp add: truncate_snippet_def)
qed

theorem truncate_snippet_spec_witness:
  "length (truncate_snippet (replicate 79 (CHR ''a'') @ ellipsis)) \<le> 83
   \<and> truncate_snippet ''hello'' = ''hello''"
  using truncate_snippet_spec [of "replicate 79 (CHR ''a'') @ ellipsis"] truncate_snippet_spec [of "''hello''"] by simp

subsection \<open>The unread counter\<close>

text \<open>The inbound messages of one peer in order, none while the peer is focused.\<close>

fun record_all :: "'s pddb \<Rightarrow> string \<Rightarrow> (u64 \<times> string) list \<Rightarrow> 's \<Rightarrow> 's" where
  "record_all P uuid [] s = s"
| "record_all P uuid ((ts, body) # ms) s = record_all P uuid ms (snd (record_inbound P uuid ts body False s))"

lemma unat_saturating_inc: "unat (saturating_inc n) = min (unat n + 1) (2 ^ 32 - 1)"
proof (cases "n = - 1")
  case True
  moreover have "unat (- 1 :: u32) = 4294967295" by (simp add: unsigned_minus_1_eq_mask mask_eq_exp_minus_1)
  ultimately show ?thesis by (simp add: saturating_inc_def)
next
  case False
  then have "unat (n + 1) = unat n + 1" by (metis Suc_eq_plus1 add.commute add_eq_0_iff unatSuc)
  moreover have "unat (n + 1) < 2 ^ LENGTH(32)" by (rule unsigned_less)
  ultimately show ?thesis using False by (simp add: saturating_inc_def)
qed

lemma record_inbound_summary:
  assumes hp: "healthy_pddb P view" and u: "utf8_valid uuid" "json_safe uuid" and b: "utf8_valid body"
    and old: "peer_read P uuid s = None \<or> (\<exists>q. peer_read P uuid s = Some q \<and> ps_uuid q = uuid \<and> ps_display_name q = uuid)"
  shows "\<exists>q. peer_read P uuid (snd (record_inbound P uuid ts body focused s)) = Some q
    \<and> ps_uuid q = uuid \<and> ps_display_name q = uuid \<and> utf8_valid (ps_last_snippet q) \<and> ps_last_ts q = ts
    \<and> ps_unread q = (let n = ps_unread (unwrap_or (fresh_summary uuid) (peer_read P uuid s)) in if focused then n else saturating_inc n)"
proof -
  define o' where "o' = unwrap_or (fresh_summary uuid) (peer_read P uuid s)"
  have o': "ps_uuid o' = uuid" "ps_display_name o' = uuid"
    using old by (auto simp: o'_def fresh_summary_def)
  define p where "p = o'\<lparr>ps_last_ts := ts, ps_last_snippet := truncate_snippet body,
    ps_unread := (if focused then ps_unread o' else saturating_inc (ps_unread o'))\<rparr>"
  have "record_inbound P uuid ts body focused s = write_summary P p s"
    by (simp add: record_inbound_def Let_def p_def o'_def)
  moreover have "ps_uuid p = uuid" "ps_display_name p = uuid" "utf8_valid (ps_last_snippet p)"
    using o' truncate_valid [OF b] by (simp_all add: p_def)
  ultimately show ?thesis
    using write_then_read [OF hp, of p s] u
    by (simp add: from_to_json read_back_safe read_back_valid p_def o'_def [symmetric] Let_def)
qed

lemma record_all_summary:
  assumes hp: "healthy_pddb P view" and u: "utf8_valid uuid" "json_safe uuid"
  shows "peer_read P uuid s = Some q \<Longrightarrow> ps_uuid q = uuid \<Longrightarrow> ps_display_name q = uuid \<Longrightarrow> utf8_valid (ps_last_snippet q)
    \<Longrightarrow> list_all (\<lambda>m. utf8_valid (snd m)) ms \<Longrightarrow>
    \<exists>q'. peer_read P uuid (record_all P uuid ms s) = Some q' \<and> ps_uuid q' = uuid \<and> ps_display_name q' = uuid
      \<and> utf8_valid (ps_last_snippet q')
      \<and> unat (ps_unread q') = min (unat (ps_unread q) + length ms) (2 ^ 32 - 1)"
proof (induction ms arbitrary: s q)
  case Nil
  have "unat (ps_unread q) < 2 ^ LENGTH(32)" by (rule unsigned_less)
  with Nil show ?case by simp
next
  case (Cons m ms)
  obtain ts body where m: "m = (ts, body)" by (cases m)
  let ?s = "snd (record_inbound P uuid ts body False s)"
  obtain q1 where q1: "peer_read P uuid ?s = Some q1" "ps_uuid q1 = uuid" "ps_display_name q1 = uuid" "utf8_valid (ps_last_snippet q1)"
      "ps_unread q1 = saturating_inc (ps_unread q)"
    using record_inbound_summary [OF hp u, of body s ts False] Cons.prems m by auto
  from Cons.IH [OF q1(1-4)] Cons.prems(5) obtain q' where
    "peer_read P uuid (record_all P uuid ms ?s) = Some q'" "ps_uuid q' = uuid" "ps_display_name q' = uuid" "utf8_valid (ps_last_snippet q')"
    "unat (ps_unread q') = min (unat (ps_unread q1) + length ms) (2 ^ 32 - 1)" by auto
  then show ?case by (simp add: m q1(5) unat_saturating_inc)
qed

lemma record_all_fresh:
  assumes hp: "healthy_pddb P view" and u: "utf8_valid uuid" "json_safe uuid"
    and none: "peer_read P uuid s = None" and ms: "ms \<noteq> []" "list_all (\<lambda>m. utf8_valid (snd m)) ms"
  shows "\<exists>q. peer_read P uuid (record_all P uuid ms s) = Some q \<and> ps_uuid q = uuid \<and> ps_display_name q = uuid
      \<and> utf8_valid (ps_last_snippet q) \<and> unat (ps_unread q) = min (length ms) (2 ^ 32 - 1)"
proof -
  obtain ts body ms' where m: "ms = (ts, body) # ms'" using ms(1) by (metis list.exhaust surj_pair)
  let ?s = "snd (record_inbound P uuid ts body False s)"
  obtain q1 where q1: "peer_read P uuid ?s = Some q1" "ps_uuid q1 = uuid" "ps_display_name q1 = uuid" "utf8_valid (ps_last_snippet q1)"
      "ps_unread q1 = saturating_inc 0"
    using record_inbound_summary [OF hp u, of body s ts False] ms(2) none m by (auto simp: fresh_summary_def)
  then have "unat (ps_unread q1) = 1" by (simp add: unat_saturating_inc)
  with record_all_summary [OF hp u q1(1-4), of ms'] ms(2) m show ?thesis by auto
qed

text \<open>Unread counts: after any sequence of inbound messages from a peer without a record,
  none of them while it is focused, the unread count is the number of messages (saturating
  at the largest \<open>u32\<close>), and \<open>clear_unread\<close> brings it to zero and keeps the timestamp.\<close>

theorem unread_counts:
  assumes "healthy_pddb P view" and "utf8_valid uuid" and "json_safe uuid"
    and "peer_read P uuid s = None" and "ms \<noteq> []" and "list_all (\<lambda>m. utf8_valid (snd m)) ms"
    and "clear_unread P uuid (record_all P uuid ms s) = (r, s')"
  shows "\<exists>q q'. peer_read P uuid (record_all P uuid ms s) = Some q \<and> unat (ps_unread q) = min (length ms) (2 ^ 32 - 1)
    \<and> r = Inr () \<and> peer_read P uuid s' = Some q' \<and> ps_unread q' = 0 \<and> ps_last_ts q' = ps_last_ts q"
proof -
  obtain q where q: "peer_read P uuid (record_all P uuid ms s) = Some q" "ps_uuid q = uuid" "ps_display_name q = uuid"
      "utf8_valid (ps_last_snippet q)" "unat (ps_unread q) = min (length ms) (2 ^ 32 - 1)"
    using record_all_fresh [OF assms(1-6)] by blast
  from q(5) assms(5) have ne: "ps_unread q \<noteq> 0" by (cases ms) auto
  let ?p = "q\<lparr>ps_unread := 0\<rparr>"
  have "clear_unread P uuid (record_all P uuid ms s) = write_summary P ?p (record_all P uuid ms s)"
    by (simp add: clear_unread_def q(1) ne)
  with write_then_read [OF assms(1), of ?p "record_all P uuid ms s"] q assms(2,7)
  have "r = Inr ()" "peer_read P uuid s' = from_json uuid (to_json ?p)" by auto
  then show ?thesis using q(1,5) by (simp add: from_to_json)
qed

theorem unread_counts_witness:
  "\<exists>q. peer_read mem_pddb ''u'' (record_all mem_pddb ''u'' [(1, ''a''), (2, ''b'')] []) = Some q \<and> unat (ps_unread q) = 2"
proof -
  have "utf8_valid ''u''" "list_all (\<lambda>m. utf8_valid (snd m)) [(1 :: u64, ''a''), (2, ''b'')]"
    by (auto intro!: utf8_valid_ascii)
  moreover have "peer_read mem_pddb ''u'' [] = None" by (simp add: peer_read_def mem.get_string_eq)
  moreover obtain r s' where "clear_unread mem_pddb ''u'' (record_all mem_pddb ''u'' [(1, ''a''), (2, ''b'')] []) = (r, s')"
    by fastforce
  ultimately show ?thesis
    using unread_counts [where P = mem_pddb and view = map_of and uuid = "''u''" and s = "[]" and ms = "[(1, ''a''), (2, ''b'')]"
        and r = r and s' = s', OF mem.healthy_pddb_axioms] by (auto simp: json_safe_def)
qed

text \<open>The conversation list holds exactly the readable summaries, most recent first.\<close>

theorem list_sorted_spec:
  assumes "healthy_pddb P view"
  shows "set (list_sorted P s) = {q. \<exists>u. peer_read P u s = Some q}
    \<and> sorted_wrt (\<lambda>p q. ps_last_ts q \<le> ps_last_ts p) (list_sorted P s)"
proof -
  have keys: "(case pd_list P PEERS_DICT s of Inl _ \<Rightarrow> {} | Inr ks \<Rightarrow> set ks) = {k. view s (PEERS_DICT, k) \<noteq> None}"
    by (rule healthy_pddb.list_keys [OF assms])
  have read: "peer_read P u s = Some q \<Longrightarrow> view s (PEERS_DICT, u) \<noteq> None" for u q
    by (auto simp: peer_read_def healthy_pddb.get_string_eq [OF assms] bind_eq_Some_conv)
  have "set (list_sorted P s) = {q. \<exists>u. peer_read P u s = Some q}"
  proof (cases "pd_list P PEERS_DICT s")
    case (Inl e)
    with keys read show ?thesis by (auto simp: list_sorted_def)
  next
    case (Inr ks)
    then have "set (list_sorted P s) = {q. \<exists>u \<in> set ks. peer_read P u s = Some q}"
      by (simp add: list_sorted_def set_map_filter peer_read_def)
    also have "\<dots> = {q. \<exists>u. peer_read P u s = Some q}"
      using keys Inr read by (simp, blast)
    finally show ?thesis .
  qed
  moreover have "sorted_wrt (\<lambda>p q. ps_last_ts q \<le> ps_last_ts p) (sort_key (\<lambda>p. 2 ^ 64 - unat (ps_last_ts p)) xs)" for xs :: "peer_summary list"
  proof -
    have lt: "unat (ps_last_ts p) < 2 ^ 64" for p :: peer_summary
      using unsigned_less [of "ps_last_ts p"] by simp
    have imp: "2 ^ 64 - unat (ps_last_ts p) \<le> 2 ^ 64 - unat (ps_last_ts q) \<Longrightarrow> ps_last_ts q \<le> ps_last_ts p" for p q :: peer_summary
      using lt [of p] lt [of q] by (simp add: word_le_nat_alt)
    have "sorted_wrt (\<lambda>p q. 2 ^ 64 - unat (ps_last_ts p) \<le> 2 ^ 64 - unat (ps_last_ts q))
        (sort_key (\<lambda>p. 2 ^ 64 - unat (ps_last_ts p)) xs)"
      using sorted_sort_key [of "\<lambda>p. 2 ^ 64 - unat (ps_last_ts p)" xs] by (simp add: sorted_map)
    then show ?thesis
      by (rule sorted_wrt_mono_rel [rotated]) (erule imp)
  qed
  ultimately show ?thesis by (auto simp: list_sorted_def split: sum.split)
qed

theorem list_sorted_spec_witness:
  "set (list_sorted mem_pddb (snd (write_summary mem_pddb demo_summary []))) =
     {q. \<exists>u. peer_read mem_pddb u (snd (write_summary mem_pddb demo_summary [])) = Some q}"
  using list_sorted_spec [OF mem.healthy_pddb_axioms] by blast

end
