(* ===== verification/Signal_Ws.thy ===== *)
theory Signal_Ws
  imports Send
begin

text \<open>
  \<open>src/src/manager/signal_ws.rs\<close>: the WebSocket of the program. How one is opened (TCP, TLS, the upgrade
  request) is over the network parameter \<open>net_lib\<close>; reading, sending and closing are over the record
  \<open>ws_lib\<close>, which holds what \<open>tungstenite\<close>, the TCP socket and the ticktimer offer on an open connection.
  \<open>SignalWS::close\<close> flushes until a flush fails, so it is a partial function: \<open>None\<close> is a close that
  never returns, and \<open>close_returns_iff\<close> says when that is.
\<close>

section \<open>Definitions\<close>

subsection \<open>An open connection\<close>

datatype ws_frame = Binary bytes | Text string | Ping bytes | Pong bytes | Close | OtherFrame

datatype tung_error = TungIo io_error | TungOther string

record 'c ws_lib =
  wl_send :: "ws_frame \<Rightarrow> 'c \<Rightarrow> ('c, tung_error, unit) sres"
  wl_read :: "'c \<Rightarrow> ('c, tung_error, ws_frame) sres"
  wl_ws_close :: "'c \<Rightarrow> ('c, tung_error, unit) sres"
  wl_flush :: "'c \<Rightarrow> ('c, tung_error, unit) sres"
  wl_set_read_timeout :: "nat \<Rightarrow> 'c \<Rightarrow> 'c"
  wl_ticktimer_new :: "'c \<Rightarrow> bool"
  wl_elapsed_ms :: "'c \<Rightarrow> u64 \<times> 'c"
  wl_sleep_ms :: "u64 \<Rightarrow> 'c \<Rightarrow> 'c"

definition is_timeout :: "tung_error \<Rightarrow> bool" where
  "is_timeout e = (case e of TungIo io \<Rightarrow> io_error_kind io \<in> {WouldBlock, TimedOut} | TungOther _ \<Rightarrow> False)"

text \<open>\<open>read_once\<close>: timeout, one read, and back to blocking mode.\<close>

definition read_once ::
  "'c ws_lib \<Rightarrow> (nat option \<Rightarrow> 'c \<Rightarrow> ('c, io_error, unit) sres) \<Rightarrow> nat \<Rightarrow> 'c \<Rightarrow> ('c, io_error, ws_frame) sres" where
  "read_once C set_read_timeout timeout c =
     sbind (set_read_timeout (Some timeout) c) (\<lambda>_ c1.
     (case wl_read C c1 of
        (Inr f, c2) \<Rightarrow> (Inr f, snd (set_read_timeout None c2))
      | (Inl e, c2) \<Rightarrow>
          (Inl (if is_timeout e then IoError TimedOut ''ws read_once timeout'' else IoError OtherKind ''ws read error''),
           snd (set_read_timeout None c2))))"

text \<open>\<open>close\<close>: flush until the first error. It returns only if some flush fails, so not returning is
  \<open>None\<close>.\<close>

partial_function (option) flush_loop :: "('c \<Rightarrow> ('c, tung_error, unit) sres) \<Rightarrow> 'c \<Rightarrow> 'c option" where
  "flush_loop flush c = (case flush c of (Inr _, c1) \<Rightarrow> flush_loop flush c1 | (Inl _, c1) \<Rightarrow> Some c1)"

definition ws_close :: "('c \<Rightarrow> ('c, tung_error, unit) sres) \<Rightarrow> ('c \<Rightarrow> ('c, tung_error, unit) sres) \<Rightarrow> 'c \<Rightarrow> 'c option" where
  "ws_close close flush c = flush_loop flush (snd (close c))"

subsection \<open>The upgrade request\<close>

definition ws_login :: "libsignal \<Rightarrow> string \<Rightarrow> u32 \<Rightarrow> string \<Rightarrow> string" where
  "ws_login L aci_service_id device_id password =
     b64_std_encode L (aci_service_id @ ''.'' @ show_word device_id @ '':'' @ password)"

definition message_url :: "string \<Rightarrow> string" where
  "message_url host = ''wss://'' @ host @ ''/v1/websocket/''"

text \<open>The upgrade request by its headers; \<open>finish\<close> is the \<open>http\<close> crate's check of the whole request.\<close>

definition build_ws_upgrade_request ::
  "(string \<Rightarrow> (string \<times> string) list \<Rightarrow> string + unit) \<Rightarrow> string option \<Rightarrow> string \<Rightarrow> string \<Rightarrow> string option \<Rightarrow> io_error + (string \<times> string) list" where
  "build_ws_upgrade_request finish host_str url key auth =
     rbind (ok_or (IoError InvalidInput ''url missing host'') host_str) (\<lambda>host.
     let headers =
       [(''Host'', host), (''Connection'', ''Upgrade''), (''Upgrade'', ''websocket''), (''Sec-WebSocket-Version'', ''13''),
        (''Sec-WebSocket-Key'', key), (''X-Signal-Receive-Stories'', ''false'')]
       @ (case auth of None \<Rightarrow> [] | Some credentials \<Rightarrow> [(''Authorization'', ''Basic '' @ credentials)])
     in rbind (map_err (\<lambda>e. IoError InvalidInput (''build ws upgrade req: '' @ e)) (finish url headers)) (\<lambda>_. Inr headers))"

subsection \<open>Opening a WebSocket\<close>

type_synonym headers = "(string \<times> string) list"

text \<open>\<open>'k\<close> is a stream, \<open>'c\<close> an open WebSocket, \<open>'n\<close> the state of the network.\<close>

record ('n, 'k, 'c) net_lib =
  nl_url_parse :: "string \<Rightarrow> string + url"
  nl_set_scheme :: "string \<Rightarrow> url \<Rightarrow> url option"
  nl_extend_path :: "string list \<Rightarrow> url \<Rightarrow> url option"
  nl_host_str :: "url \<Rightarrow> string option"
  nl_as_str :: "url \<Rightarrow> string"
  nl_tcp_connect :: "string \<Rightarrow> nat \<Rightarrow> 'n \<Rightarrow> ('n, io_error, 'k) sres"
  nl_tls_stream :: "string \<Rightarrow> 'k \<Rightarrow> 'n \<Rightarrow> ('n, io_error, 'k) sres"
  nl_generate_key :: "'n \<Rightarrow> string \<times> 'n"
  nl_request_body :: "string \<Rightarrow> headers \<Rightarrow> string + unit"
  nl_client :: "string \<Rightarrow> headers \<Rightarrow> 'k \<Rightarrow> 'n \<Rightarrow> ('n, string, 'c) sres"

text \<open>\<open>SignalWS::connect\<close>; \<open>None\<close> is the panic on a URL without a host. The key of the handshake is drawn while the
  request is built.\<close>

definition connect ::
  "('n, 'k, 'c) net_lib \<Rightarrow> url \<Rightarrow> string option \<Rightarrow> 'n \<Rightarrow> ('n, io_error, 'c) sres option" where
  "connect N url auth n =
     map_option (\<lambda>host.
       sbind (nl_tcp_connect N host 443 n) (\<lambda>sock n1.
       sbind (nl_tls_stream N host sock n1) (\<lambda>tls_stream n2.
       case nl_generate_key N n2 of (key, n3) \<Rightarrow>
       case build_ws_upgrade_request (nl_request_body N) (nl_host_str N url) (nl_as_str N url) key auth of
         Inl e \<Rightarrow> (Inl e, n3)
       | Inr request \<Rightarrow>
           (case nl_client N (nl_as_str N url) request tls_stream n3 of
              (Inr socket, n4) \<Rightarrow> (Inr socket, n4)
            | (Inl _, n4) \<Rightarrow> (Inl (IoError ConnectionRefused ''connection refused''), n4)))))
     (nl_host_str N url)"

definition new_with_auth :: "('n, 'k, 'c) net_lib \<Rightarrow> url \<Rightarrow> string \<Rightarrow> 'n \<Rightarrow> ('n, io_error, 'c) sres option" where
  "new_with_auth N url auth n = connect N url (Some auth) n"

definition new_plain :: "('n, 'k, 'c) net_lib \<Rightarrow> url \<Rightarrow> 'n \<Rightarrow> ('n, io_error, 'c) sres option" where
  "new_plain N url n = connect N url None n"

definition new_message ::
  "('n, 'k, 'c) net_lib \<Rightarrow> libsignal \<Rightarrow> string \<Rightarrow> string \<Rightarrow> u32 \<Rightarrow> string \<Rightarrow> 'n \<Rightarrow> ('n, io_error, 'c) sres option" where
  "new_message N L host aci_service_id device_id password n =
     (case nl_url_parse N (message_url host) of
        Inl _ \<Rightarrow> Some (Inl (IoError InvalidInput ''invalid host for ws url''), n)
      | Inr url \<Rightarrow> new_with_auth N url (ws_login L aci_service_id device_id password) n)"

definition PROVISIONING_PATH :: "string list" where
  "PROVISIONING_PATH = [''v1'', ''websocket'', ''provisioning'', '''']"

definition REGISTRATION_PATH :: "string list" where
  "REGISTRATION_PATH = [''v1'', ''registration'', '''']"

text \<open>\<open>new_provision\<close> and \<open>new_register\<close>; they differ in the path, and panic when the URL cannot take it.\<close>

definition open_at :: "('n, 'k, 'c) net_lib \<Rightarrow> string list \<Rightarrow> url \<Rightarrow> 'n \<Rightarrow> ('n, io_error, 'c) sres option" where
  "open_at N path url n =
     Option.bind (nl_set_scheme N ''wss'' url) (\<lambda>u. Option.bind (nl_extend_path N path u) (\<lambda>v. new_plain N v n))"

definition open_provision :: "('n, 'k, 'c) net_lib \<Rightarrow> url \<Rightarrow> 'n \<Rightarrow> ('n, io_error, 'c) sres option" where
  "open_provision N url n = open_at N PROVISIONING_PATH url n"

definition new_register :: "('n, 'k, 'c) net_lib \<Rightarrow> url \<Rightarrow> 'n \<Rightarrow> ('n, io_error, 'c) sres option" where
  "new_register N url n = open_at N REGISTRATION_PATH url n"

section \<open>Closing\<close>

text \<open>The connection after one flush, and after \<open>n\<close> of them.\<close>

definition flushed :: "('c \<Rightarrow> ('c, tung_error, unit) sres) \<Rightarrow> 'c \<Rightarrow> 'c" where
  "flushed flush c = snd (flush c)"

lemma flush_loop_step: "fst (flush c) = Inr () \<Longrightarrow> flush_loop flush c = flush_loop flush (flushed flush c)"
  and flush_loop_stop: "fst (flush c) = Inl e \<Longrightarrow> flush_loop flush c = Some (flushed flush c)"
  by (subst flush_loop.simps; cases "flush c"; simp add: flushed_def)+

lemma flush_loop_returns: "fst (flush ((flushed flush ^^ n) c)) = Inl e \<Longrightarrow> \<exists>c'. flush_loop flush c = Some c'"
proof (induction n arbitrary: c)
  case 0
  then show ?case by (simp add: flush_loop_stop)
next
  case (Suc n)
  show ?case
  proof (cases "fst (flush c)")
    case (Inr u)
    moreover have "\<exists>c'. flush_loop flush (flushed flush c) = Some c'"
      using Suc.prems by (intro Suc.IH) (simp add: funpow_swap1)
    ultimately show ?thesis by (simp add: flush_loop_step)
  qed (simp add: flush_loop_stop)
qed

lemma flush_loop_fails: "flush_loop flush c = Some c' \<Longrightarrow> \<exists>n e. fst (flush ((flushed flush ^^ n) c)) = Inl e"
proof (erule flush_loop.raw_induct [where P = "\<lambda>flush c c'. \<exists>n e. fst (flush ((flushed flush ^^ n) c)) = Inl e", rotated])
  fix loop and flush :: "'c \<Rightarrow> ('c, tung_error, unit) sres" and c c'
  assume IH: "\<And>flush c c'. loop flush c = Some c' \<Longrightarrow> \<exists>n e. fst (flush ((flushed flush ^^ n) c)) = Inl e"
    and body: "(case flush c of (Inl x, c1) \<Rightarrow> Some c1 | (Inr x, c1) \<Rightarrow> loop flush c1) = Some c'"
  show "\<exists>n e. fst (flush ((flushed flush ^^ n) c)) = Inl e"
  proof (cases "fst (flush c)")
    case (Inl e)
    then show ?thesis by (intro exI [of _ 0]) simp
  next
    case (Inr u)
    with body have "loop flush (flushed flush c) = Some c'" by (cases "flush c") (simp add: flushed_def)
    then obtain n e where "fst (flush ((flushed flush ^^ n) (flushed flush c))) = Inl e" using IH by blast
    then show ?thesis by (intro exI [of _ "Suc n"]) (simp add: funpow_swap1)
  qed
qed

lemma ws_close_returns:
  "(\<exists>c'. ws_close close flush c = Some c') \<longleftrightarrow> (\<exists>n e. fst (flush ((flushed flush ^^ n) (snd (close c)))) = Inl e)"
  by (auto simp: ws_close_def dest: flush_loop_fails flush_loop_returns)

section \<open>Properties\<close>

text \<open>C15. When closing ends: \<open>close\<close> returns exactly if one of the flushes that follow each other
  fails. A socket that keeps flushing without error keeps the caller in the loop for ever.\<close>

theorem close_returns_iff:
  "(\<exists>c'. ws_close close flush c = Some c') \<longleftrightarrow> (\<exists>n e. fst (flush ((flushed flush ^^ n) (snd (close c)))) = Inl e)"
  by (rule ws_close_returns)

end
