(* ===== verification/Receive.thy ===== *)
theory Receive
  imports Peers Signal_Ws
begin

text \<open>
  \<open>src/src/manager/main_ws.rs\<close>: the authenticated receive worker. Frames of the WebSocket are
  decoded, envelopes decrypted (sealed sender or plain), their Content delivered to the chat
  UI, and every server request is acknowledged; the outer loop reconnects with exponential
  backoff. libsignal's decryption is the record \<open>rx_lib\<close> over the PDDB state; the socket, its
  opening and the ticktimer are those of \<open>Signal_Ws\<close> over the connection state; calls into the
  chat UI, which return nothing, are a list of events. A panic of the thread is the error value
  \<open>panic\<close>; a session whose closing never returns is \<open>None\<close>. Log lines are left out.
\<close>

section \<open>Definitions\<close>

abbreviation (input) KEEPALIVE_MS :: u64 where "KEEPALIVE_MS \<equiv> 25000"
abbreviation (input) APP_KEEPALIVE_MS :: u64 where "APP_KEEPALIVE_MS \<equiv> 55000"
abbreviation (input) WS_TYPE_REQUEST :: u32 where "WS_TYPE_REQUEST \<equiv> 1"
abbreviation (input) WS_TYPE_RESPONSE :: u32 where "WS_TYPE_RESPONSE \<equiv> 2"
abbreviation (input) ENVELOPE_UNIDENTIFIED_SENDER :: u32 where "ENVELOPE_UNIDENTIFIED_SENDER \<equiv> 6"
abbreviation (input) RECONNECT_BACKOFF_INITIAL_MS :: u64 where "RECONNECT_BACKOFF_INITIAL_MS \<equiv> 2000"
abbreviation (input) RECONNECT_BACKOFF_MAX_MS :: u64 where "RECONNECT_BACKOFF_MAX_MS \<equiv> 64000"

definition SEALED_SENDER_TRUST_ROOTS :: "string list" where
  "SEALED_SENDER_TRUST_ROOTS =
     [''BXu6QIKVz5MA8gstzfOgRQGqyLqOwNKHL6INkv3IHWMF'', ''BUkY0I+9+oPgDCn4+Ac6Iu813yvqkDr/ga8DzLxFxuk6'']"

subsection \<open>Parameters and state\<close>

datatype usmc = Usmc bytes
datatype sender_cert = SenderCert bytes
datatype prekey_message = PreKeyMessage bytes
datatype signal_message = SignalMsg bytes
datatype ciphertext_type = PreKeyType | WhisperType | OtherType string

record 's rx_lib =
  rl_b64_decode :: "string \<Rightarrow> string + bytes"
  rl_public_deserialize :: "bytes \<Rightarrow> sig_error + public_key"
  rl_sealed_decrypt_to_usmc :: "bytes \<Rightarrow> 's \<Rightarrow> sig_error + usmc"
  rl_usmc_sender :: "usmc \<Rightarrow> sig_error + sender_cert"
  rl_usmc_msg_type :: "usmc \<Rightarrow> sig_error + ciphertext_type"
  rl_usmc_contents :: "usmc \<Rightarrow> sig_error + bytes"
  rl_cert_validate :: "sender_cert \<Rightarrow> public_key list \<Rightarrow> u64 \<Rightarrow> sig_error + bool"
  rl_cert_sender_uuid :: "sender_cert \<Rightarrow> sig_error + string"
  rl_cert_sender_device :: "sender_cert \<Rightarrow> sig_error + u8"
  rl_prekey_try_from :: "bytes \<Rightarrow> sig_error + prekey_message"
  rl_signal_try_from :: "bytes \<Rightarrow> sig_error + signal_message"
  rl_decrypt_prekey :: "prekey_message \<Rightarrow> protocol_address \<Rightarrow> protocol_address \<Rightarrow> 's \<Rightarrow> ('s, sig_error, bytes) sres"
  rl_decrypt_signal :: "signal_message \<Rightarrow> protocol_address \<Rightarrow> 's \<Rightarrow> ('s, sig_error, bytes) sres"

datatype ui_event =
    PostAdd string u64 string
  | DialogueSet string "string option"
  | Redraw

datatype panic = SliceNotCharBoundary | UrlWithoutHost

record ('s, 'c) rx =
  rx_store :: 's
  rx_ui :: "ui_event list"
  rx_conn :: 'c

definition emit :: "ui_event \<Rightarrow> ('s, 'c) rx \<Rightarrow> ('s, 'c) rx" where
  "emit e st = st\<lparr>rx_ui := rx_ui st @ [e]\<rparr>"

subsection \<open>Delivery\<close>

text \<open>\<open>strip_signal_padding\<close> pops from the end of the vector: its loop runs on the reversed
  list.\<close>

definition strip_signal_padding :: "bytes \<Rightarrow> bytes" where
  "strip_signal_padding plaintext =
     (let r = dropWhile (\<lambda>c. c = CHR 0x00) (rev plaintext)
      in rev (case r of c # cs \<Rightarrow> if c = CHR 0x80 then cs else r | [] \<Rightarrow> r))"

definition cf_dialogue_set :: "string \<Rightarrow> string option \<Rightarrow> ('s, 'c) rx \<Rightarrow> ('s, 'c) rx" where
  "cf_dialogue_set dict key st = emit (DialogueSet dict key) st"

definition post_to_peer_dialogue ::
  "string \<Rightarrow> string \<Rightarrow> u64 \<Rightarrow> string \<Rightarrow> string option \<Rightarrow> ('s, 'c) rx \<Rightarrow> ('s, 'c) rx" where
  "post_to_peer_dialogue peer_uuid author ts body focused_uuid st =
     (if focused_uuid = Some peer_uuid then emit (PostAdd author ts body) st
      else
        (let st1 = cf_dialogue_set DIALOGUE_DICT (Some peer_uuid) st;
             st2 = emit (PostAdd author ts body) st1
         in case focused_uuid of
              Some focused \<Rightarrow> cf_dialogue_set DIALOGUE_DICT (Some focused) st2
            | None \<Rightarrow> st2))"

definition deliver_data_message ::
  "'s pddb \<Rightarrow> data_message \<Rightarrow> protocol_address \<Rightarrow> u64 \<Rightarrow> ('s, 'c) rx \<Rightarrow> bool \<times> ('s, 'c) rx" where
  "deliver_data_message P dm remote_addr server_ts st =
     (let author = pa_name remote_addr; body = unwrap_or [] (dm_body dm) in
      if body = [] then (False, st)
      else
        (let ts = unwrap_or server_ts (dm_timestamp dm);
             focused_uuid = focused_peer_uuid P (rx_store st);
             is_focused = (focused_uuid = Some author);
             st1 = st\<lparr>rx_store := snd (record_inbound P author ts body is_focused (rx_store st))\<rparr>
         in (True, post_to_peer_dialogue author author ts body focused_uuid st1)))"

definition arrow :: string where
  "arrow = [CHR 0xE2, CHR 0x86, CHR 0x92]"

definition deliver_sync_message ::
  "'s pddb \<Rightarrow> in_sync_message \<Rightarrow> u64 \<Rightarrow> ('s, 'c) rx \<Rightarrow> (('s, 'c) rx, panic, bool) sres" where
  "deliver_sync_message P sync server_ts st =
     (case isy_sent sync of
        None \<Rightarrow> (Inr False, st)
      | Some sent \<Rightarrow>
          (let dest = unwrap_or [] (is_destination_service_id sent) in
           case is_message sent of
             None \<Rightarrow> (Inr False, st)
           | Some dm \<Rightarrow>
               (let body = unwrap_or [] (dm_body dm) in
                if body = [] then (Inr False, st)
                else
                  (let ts = unwrap_or (unwrap_or server_ts (is_timestamp sent)) (dm_timestamp dm) in
                   if dest = [] then (Inr False, st)
                   else case slice_to dest (min (length dest) 8) of
                          None \<Rightarrow> (Inl SliceNotCharBoundary, st)
                        | Some short \<Rightarrow>
                            (let author = arrow @ short;
                                 focused_uuid = focused_peer_uuid P (rx_store st);
                                 st1 = st\<lparr>rx_store := snd (record_outbound P dest ts body (rx_store st))\<rparr>
                             in (Inr True, post_to_peer_dialogue dest author ts body focused_uuid st1))))))"

definition deliver_content ::
  "wire_codec \<Rightarrow> 's pddb \<Rightarrow> bytes \<Rightarrow> protocol_address \<Rightarrow> u64 \<Rightarrow> ('s, 'c) rx \<Rightarrow> (('s, 'c) rx, panic, unit) sres" where
  "deliver_content W P plaintext remote_addr server_ts st =
     (case decode_in_content W (strip_signal_padding plaintext) of
        None \<Rightarrow> (Inr (), st)
      | Some content \<Rightarrow>
          sbind (case ic_data_message content of
                   Some dm \<Rightarrow>
                     (case deliver_data_message P dm remote_addr server_ts st of
                        (was_delivered, st1) \<Rightarrow>
                          (Inr was_delivered,
                           if was_delivered
                           then st1\<lparr>rx_store := snd (set_current_recipient P remote_addr (rx_store st1))\<rparr>
                           else st1))
                 | None \<Rightarrow>
                     (case ic_sync_message content of
                        Some sync \<Rightarrow> deliver_sync_message P sync server_ts st
                      | None \<Rightarrow> (Inr False, st)))
            (\<lambda>delivered st2. (Inr (), if delivered then emit Redraw st2 else st2)))"

subsection \<open>Envelopes\<close>

definition open_prekey ::
  "'s rx_lib \<Rightarrow> bytes \<Rightarrow> protocol_address \<Rightarrow> protocol_address \<Rightarrow> 's \<Rightarrow> bytes option \<times> 's" where
  "open_prekey R content remote_addr local_addr s =
     (case rl_prekey_try_from R content of
        Inl _ \<Rightarrow> (None, s)
      | Inr msg \<Rightarrow> (case rl_decrypt_prekey R msg remote_addr local_addr s of (r, s1) \<Rightarrow> (res_ok r, s1)))"

definition open_signal :: "'s rx_lib \<Rightarrow> bytes \<Rightarrow> protocol_address \<Rightarrow> 's \<Rightarrow> bytes option \<times> 's" where
  "open_signal R content remote_addr s =
     (case rl_signal_try_from R content of
        Inl _ \<Rightarrow> (None, s)
      | Inr msg \<Rightarrow> (case rl_decrypt_signal R msg remote_addr s of (r, s1) \<Rightarrow> (res_ok r, s1)))"

definition deliver_opened ::
  "wire_codec \<Rightarrow> 's pddb \<Rightarrow> bytes option \<times> 's \<Rightarrow> protocol_address \<Rightarrow> u64 \<Rightarrow> ('s, 'c) rx \<Rightarrow> (('s, 'c) rx, panic, unit) sres" where
  "deliver_opened W P opened remote_addr ts st =
     (case opened of
        (None, s1) \<Rightarrow> (Inr (), st\<lparr>rx_store := s1\<rparr>)
      | (Some plaintext, s1) \<Rightarrow> deliver_content W P plaintext remote_addr ts (st\<lparr>rx_store := s1\<rparr>))"

definition trust_roots :: "'s rx_lib \<Rightarrow> public_key list" where
  "trust_roots R =
     List.map_filter (\<lambda>b64. Option.bind (res_ok (rl_b64_decode R b64)) (\<lambda>raw. res_ok (rl_public_deserialize R raw)))
       SEALED_SENDER_TRUST_ROOTS"

text \<open>The sender of a sealed envelope: every failure and an invalid certificate drop it.\<close>

definition sealed_sender ::
  "'s rx_lib \<Rightarrow> usmc \<Rightarrow> u64 \<Rightarrow> protocol_address option" where
  "sealed_sender R u ts =
     (case rl_usmc_sender R u of
        Inl _ \<Rightarrow> None
      | Inr sender_cert \<Rightarrow>
          (case rl_cert_validate R sender_cert (trust_roots R) ts of
             Inl _ \<Rightarrow> None
           | Inr False \<Rightarrow> None
           | Inr True \<Rightarrow>
               (case rl_cert_sender_uuid R sender_cert of
                  Inl _ \<Rightarrow> None
                | Inr sender_uuid \<Rightarrow>
                    (case rl_cert_sender_device R sender_cert of
                       Inl _ \<Rightarrow> None
                     | Inr sender_dev_id \<Rightarrow> Some \<lparr>pa_name = sender_uuid, pa_device = sender_dev_id\<rparr>))))"

definition dispatch_sealed ::
  "wire_codec \<Rightarrow> 's pddb \<Rightarrow> 's rx_lib \<Rightarrow> bytes \<Rightarrow> u64 \<Rightarrow> protocol_address \<Rightarrow> ('s, 'c) rx \<Rightarrow> (('s, 'c) rx, panic, unit) sres" where
  "dispatch_sealed W P R content ts local_addr st =
     (case rl_sealed_decrypt_to_usmc R content (rx_store st) of
        Inl _ \<Rightarrow> (Inr (), st)
      | Inr u \<Rightarrow>
          (case sealed_sender R u ts of
             None \<Rightarrow> (Inr (), st)
           | Some remote_addr \<Rightarrow>
               (let inner = (case rl_usmc_contents R u of Inl _ \<Rightarrow> [] | Inr b \<Rightarrow> b) in
                case rl_usmc_msg_type R u of
                  Inr PreKeyType \<Rightarrow>
                    deliver_opened W P (open_prekey R inner remote_addr local_addr (rx_store st)) remote_addr ts st
                | Inr WhisperType \<Rightarrow>
                    deliver_opened W P (open_signal R inner remote_addr (rx_store st)) remote_addr ts st
                | _ \<Rightarrow> (Inr (), st))))"

definition dispatch_envelope ::
  "wire_codec \<Rightarrow> libsignal \<Rightarrow> 's pddb \<Rightarrow> 's rx_lib \<Rightarrow> bytes \<Rightarrow> protocol_address \<Rightarrow> ('s, 'c) rx
     \<Rightarrow> (('s, 'c) rx, panic, unit) sres" where
  "dispatch_envelope W L P R body local_addr st =
     (case decode_envelope W body of
        None \<Rightarrow> (Inr (), st)
      | Some envelope \<Rightarrow>
          (let source_id = unwrap_or [] (env_source_service_id envelope);
               source_dev = unwrap_or 1 (env_source_device envelope);
               typ = unwrap_or 0 (env_type envelope);
               ts = unwrap_or 0 (env_server_timestamp envelope)
           in case env_content envelope of
                None \<Rightarrow> (Inr (), st)
              | Some content \<Rightarrow>
                  (if typ = ENVELOPE_UNIDENTIFIED_SENDER then dispatch_sealed W P R content ts local_addr st
                   else if source_dev = 0 \<or> source_dev > 127 then (Inr (), st)
                   else case ls_device_id_new L (ucast source_dev) of
                          Inl _ \<Rightarrow> (Inr (), st)
                        | Inr sender_device \<Rightarrow>
                            (let remote_addr = \<lparr>pa_name = source_id, pa_device = sender_device\<rparr> in
                             if typ = ENVELOPE_PREKEY_BUNDLE then
                               deliver_opened W P (open_prekey R content remote_addr local_addr (rx_store st)) remote_addr ts st
                             else if typ = ENVELOPE_CIPHERTEXT then
                               deliver_opened W P (open_signal R content remote_addr (rx_store st)) remote_addr ts st
                             else (Inr (), st)))))"

subsection \<open>Requests\<close>

definition ack_message :: "u64 \<Rightarrow> u32 \<Rightarrow> ws_message" where
  "ack_message req_id status =
     \<lparr>wm_type = Some WS_TYPE_RESPONSE, wm_request = None,
      wm_response = Some \<lparr>wp_id = Some req_id, wp_status = Some status, wp_message = Some ''OK'', wp_body = None, wp_headers = []\<rparr>\<rparr>"

definition send_ack :: "wire_codec \<Rightarrow> 'c ws_lib \<Rightarrow> u64 \<Rightarrow> u32 \<Rightarrow> ('s, 'c) rx \<Rightarrow> ('s, 'c) rx" where
  "send_ack W C req_id status st =
     st\<lparr>rx_conn := snd (wl_send C (Binary (encode_ws_message W (ack_message req_id status))) (rx_conn st))\<rparr>"

definition handle_request ::
  "wire_codec \<Rightarrow> libsignal \<Rightarrow> 's pddb \<Rightarrow> 's rx_lib \<Rightarrow> 'c ws_lib \<Rightarrow> ws_request \<Rightarrow> protocol_address \<Rightarrow> ('s, 'c) rx
     \<Rightarrow> (('s, 'c) rx, panic, unit) sres" where
  "handle_request W L P R C req local_addr st =
     (let req_id = unwrap_or 0 (wr_id req); verb = unwrap_or [] (wr_verb req); path = unwrap_or [] (wr_path req) in
      if verb = ''PUT'' \<and> path = ''/api/v1/message'' then
        sbind (case wr_body req of
                 Some body \<Rightarrow> dispatch_envelope W L P R body local_addr st
               | None \<Rightarrow> (Inr (), st))
          (\<lambda>_ st1. (Inr (), send_ack W C req_id 200 st1))
      else if verb = ''PUT'' \<and> path = ''/api/v1/queue/empty'' then (Inr (), send_ack W C req_id 200 st)
      else (Inr (), send_ack W C req_id 200 st))"

subsection \<open>The session loop\<close>

record session_vars =
  sv_last_ping_ms :: u64
  sv_next_request_id :: u64
  sv_last_app_keepalive_ms :: u64

definition saturating_sub :: "u64 \<Rightarrow> u64 \<Rightarrow> u64" where
  "saturating_sub a b = (if b \<le> a then a - b else 0)"

definition elapsed :: "'c ws_lib \<Rightarrow> ('s, 'c) rx \<Rightarrow> u64 \<times> ('s, 'c) rx" where
  "elapsed C st = (case wl_elapsed_ms C (rx_conn st) of (t, c) \<Rightarrow> (t, st\<lparr>rx_conn := c\<rparr>))"

definition ws_send :: "'c ws_lib \<Rightarrow> ws_frame \<Rightarrow> ('s, 'c) rx \<Rightarrow> (('s, 'c) rx, tung_error, unit) sres" where
  "ws_send C f st = (case wl_send C f (rx_conn st) of (r, c) \<Rightarrow> (r, st\<lparr>rx_conn := c\<rparr>))"

definition ws_read :: "'c ws_lib \<Rightarrow> ('s, 'c) rx \<Rightarrow> (('s, 'c) rx, tung_error, ws_frame) sres" where
  "ws_read C st = (case wl_read C (rx_conn st) of (r, c) \<Rightarrow> (r, st\<lparr>rx_conn := c\<rparr>))"

definition keepalive_request :: "u64 \<Rightarrow> ws_message" where
  "keepalive_request req_id =
     \<lparr>wm_type = Some WS_TYPE_REQUEST,
      wm_request = Some \<lparr>wr_verb = Some ''GET'', wr_path = Some ''/v1/keepalive'', wr_body = None, wr_id = Some req_id, wr_headers = []\<rparr>,
      wm_response = None\<rparr>"

text \<open>The two keepalive stages of a round; \<open>None\<close> is the \<open>break\<close> on a failed send.\<close>

definition ping_stage :: "'c ws_lib \<Rightarrow> session_vars \<Rightarrow> ('s, 'c) rx \<Rightarrow> session_vars option \<times> ('s, 'c) rx" where
  "ping_stage C v st =
     (case elapsed C st of (t, st1) \<Rightarrow>
        if saturating_sub t (sv_last_ping_ms v) \<ge> KEEPALIVE_MS then
          (case ws_send C (Ping []) st1 of
             (Inr _, st2) \<Rightarrow> (case elapsed C st2 of (t2, st3) \<Rightarrow> (Some (v\<lparr>sv_last_ping_ms := t2\<rparr>), st3))
           | (Inl _, st2) \<Rightarrow> (None, st2))
        else (Some v, st1))"

definition app_keepalive_stage ::
  "wire_codec \<Rightarrow> 'c ws_lib \<Rightarrow> session_vars \<Rightarrow> ('s, 'c) rx \<Rightarrow> session_vars option \<times> ('s, 'c) rx" where
  "app_keepalive_stage W C v st =
     (case elapsed C st of (t, st1) \<Rightarrow>
        if saturating_sub t (sv_last_app_keepalive_ms v) \<ge> APP_KEEPALIVE_MS then
          (case ws_send C (Binary (encode_ws_message W (keepalive_request (sv_next_request_id v)))) st1 of
             (Inr _, st2) \<Rightarrow>
               (case elapsed C st2 of (t2, st3) \<Rightarrow>
                  (Some (v\<lparr>sv_last_app_keepalive_ms := t2, sv_next_request_id := sv_next_request_id v + 1\<rparr>), st3))
           | (Inl _, st2) \<Rightarrow> (None, st2))
        else (Some v, st1))"

datatype round_read = GotFrame bytes | ContinueLoop | BreakLoop

definition read_stage :: "'c ws_lib \<Rightarrow> ('s, 'c) rx \<Rightarrow> round_read \<times> ('s, 'c) rx" where
  "read_stage C st =
     (case ws_read C st of
        (Inr (Binary b), st1) \<Rightarrow> (GotFrame b, st1)
      | (Inr Close, st1) \<Rightarrow> (BreakLoop, st1)
      | (Inr _, st1) \<Rightarrow> (ContinueLoop, st1)
      | (Inl e, st1) \<Rightarrow> (if is_timeout e then ContinueLoop else BreakLoop, st1))"

definition handle_frame ::
  "wire_codec \<Rightarrow> libsignal \<Rightarrow> 's pddb \<Rightarrow> 's rx_lib \<Rightarrow> 'c ws_lib \<Rightarrow> protocol_address \<Rightarrow> bytes \<Rightarrow> ('s, 'c) rx
     \<Rightarrow> (('s, 'c) rx, panic, unit) sres" where
  "handle_frame W L P R C local_addr raw st =
     (case decode_ws_message W raw of
        None \<Rightarrow> (Inr (), st)
      | Some ws_msg \<Rightarrow>
          (if wm_type ws_msg = Some WS_TYPE_REQUEST then
             (case wm_request ws_msg of
                Some req \<Rightarrow> handle_request W L P R C req local_addr st
              | None \<Rightarrow> (Inr (), st))
           else (Inr (), st)))"

text \<open>One round of the loop: \<open>Inr (Some v)\<close> goes on with \<open>v\<close>, \<open>Inr None\<close> leaves the loop.\<close>

definition session_round ::
  "wire_codec \<Rightarrow> libsignal \<Rightarrow> 's pddb \<Rightarrow> 's rx_lib \<Rightarrow> 'c ws_lib \<Rightarrow> protocol_address \<Rightarrow> session_vars \<Rightarrow> ('s, 'c) rx
     \<Rightarrow> (('s, 'c) rx, panic, session_vars option) sres" where
  "session_round W L P R C local_addr v st =
     (case ping_stage C v st of
        (None, st1) \<Rightarrow> (Inr None, st1)
      | (Some v1, st1) \<Rightarrow>
          (case app_keepalive_stage W C v1 st1 of
             (None, st2) \<Rightarrow> (Inr None, st2)
           | (Some v2, st2) \<Rightarrow>
               (case read_stage C st2 of
                  (BreakLoop, st3) \<Rightarrow> (Inr None, st3)
                | (ContinueLoop, st3) \<Rightarrow> (Inr (Some v2), st3)
                | (GotFrame raw, st3) \<Rightarrow>
                    sbind (handle_frame W L P R C local_addr raw st3) (\<lambda>_ st4. (Inr (Some v2), st4)))))"

partial_function (option) session_loop ::
  "wire_codec \<Rightarrow> libsignal \<Rightarrow> 's pddb \<Rightarrow> 's rx_lib \<Rightarrow> 'c ws_lib \<Rightarrow> protocol_address \<Rightarrow> session_vars \<Rightarrow> ('s, 'c) rx
     \<Rightarrow> (('s, 'c) rx, panic, unit) sres option" where
  "session_loop W L P R C local_addr v st =
     (case session_round W L P R C local_addr v st of
        (Inl p, st1) \<Rightarrow> Some (Inl p, st1)
      | (Inr None, st1) \<Rightarrow> Some (Inr (), st1)
      | (Inr (Some v1), st1) \<Rightarrow> session_loop W L P R C local_addr v1 st1)"

definition session_start :: "'c ws_lib \<Rightarrow> ('s, 'c) rx \<Rightarrow> session_vars \<times> ('s, 'c) rx" where
  "session_start C st =
     (case elapsed C st of (t1, st1) \<Rightarrow>
      case elapsed C st1 of (t2, st2) \<Rightarrow>
        (\<lparr>sv_last_ping_ms = t1, sv_next_request_id = 1,
          sv_last_app_keepalive_ms = saturating_sub t2 APP_KEEPALIVE_MS\<rparr>, st2))"

text \<open>\<open>None\<close>: the session never ends, in its loop or in its final close. A panic unwinds past the
  close.\<close>

definition close_conn :: "'c ws_lib \<Rightarrow> ('s, 'c) rx \<Rightarrow> ('s, 'c) rx option" where
  "close_conn C st = map_option (\<lambda>c. st\<lparr>rx_conn := c\<rparr>) (ws_close (wl_ws_close C) (wl_flush C) (rx_conn st))"

definition run_session ::
  "wire_codec \<Rightarrow> libsignal \<Rightarrow> 's pddb \<Rightarrow> 's rx_lib \<Rightarrow> 'c ws_lib \<Rightarrow> protocol_address \<Rightarrow> ('s, 'c) rx
     \<Rightarrow> (('s, 'c) rx, panic, unit) sres option" where
  "run_session W L P R C local_addr st =
     (let st0 = st\<lparr>rx_conn := wl_set_read_timeout C 500 (rx_conn st)\<rparr> in
      if \<not> wl_ticktimer_new C (rx_conn st0) then map_option (Pair (Inr ())) (close_conn C st0)
      else case session_start C st0 of (v, st1) \<Rightarrow>
             Option.bind (session_loop W L P R C local_addr v st1) (\<lambda>r.
               case r of
                 (Inl p, st2) \<Rightarrow> Some (Inl p, st2)
               | (Inr _, st2) \<Rightarrow> map_option (Pair (Inr ())) (close_conn C st2)))"

subsection \<open>The reconnect loop\<close>

definition next_backoff :: "u64 \<Rightarrow> u64" where
  "next_backoff backoff_ms = min (backoff_ms * 2) RECONNECT_BACKOFF_MAX_MS"

text \<open>The connection state of the worker is its view of the network, with the socket it has open, if
  any; \<open>new_message\<close> opens the socket.\<close>

definition worker_round ::
  "wire_codec \<Rightarrow> libsignal \<Rightarrow> 's pddb \<Rightarrow> 's rx_lib \<Rightarrow> ('c, 'k, unit) net_lib \<Rightarrow> 'c ws_lib \<Rightarrow> protocol_address \<Rightarrow> string \<Rightarrow> u32
     \<Rightarrow> string \<Rightarrow> string \<Rightarrow> u64 \<Rightarrow> ('s, 'c) rx \<Rightarrow> (('s, 'c) rx, panic, u64) sres option" where
  "worker_round W L P R N C local_addr aci device_id password host backoff_ms st =
     (case (case new_message N L host aci device_id password (rx_conn st) of
              None \<Rightarrow> Some (Inl UrlWithoutHost, st)
            | Some (Inr _, c) \<Rightarrow>
                map_option (\<lambda>r. sbind r (\<lambda>_ st1. (Inr RECONNECT_BACKOFF_INITIAL_MS, st1)))
                  (run_session W L P R C local_addr (st\<lparr>rx_conn := c\<rparr>))
            | Some (Inl _, c) \<Rightarrow> Some (Inr backoff_ms, st\<lparr>rx_conn := c\<rparr>)) of
        None \<Rightarrow> None
      | Some r \<Rightarrow>
          Some (sbind r (\<lambda>b st1.
            (Inr (next_backoff b),
             if wl_ticktimer_new C (rx_conn st1) then st1\<lparr>rx_conn := wl_sleep_ms C b (rx_conn st1)\<rparr> else st1))))"

text \<open>The outer loop ends only by a panic: \<open>n\<close> rounds of it.\<close>

fun worker_rounds ::
  "nat \<Rightarrow> wire_codec \<Rightarrow> libsignal \<Rightarrow> 's pddb \<Rightarrow> 's rx_lib \<Rightarrow> ('c, 'k, unit) net_lib \<Rightarrow> 'c ws_lib \<Rightarrow> protocol_address \<Rightarrow> string
     \<Rightarrow> u32 \<Rightarrow> string \<Rightarrow> string \<Rightarrow> u64 \<Rightarrow> ('s, 'c) rx \<Rightarrow> (('s, 'c) rx, panic, u64) sres option" where
  "worker_rounds 0 W L P R N C la aci d pw host b st = Some (Inr b, st)"
| "worker_rounds (Suc n) W L P R N C la aci d pw host b st =
     (case worker_round W L P R N C la aci d pw host b st of
        None \<Rightarrow> None
      | Some (Inl p, st1) \<Rightarrow> Some (Inl p, st1)
      | Some (Inr b1, st1) \<Rightarrow> worker_rounds n W L P R N C la aci d pw host b1 st1)"

definition main_ws_worker_loop ::
  "nat \<Rightarrow> wire_codec \<Rightarrow> libsignal \<Rightarrow> 's pddb \<Rightarrow> 's rx_lib \<Rightarrow> ('c, 'k, unit) net_lib \<Rightarrow> 'c ws_lib \<Rightarrow> string \<Rightarrow> u32 \<Rightarrow> string
     \<Rightarrow> string \<Rightarrow> ('s, 'c) rx \<Rightarrow> (('s, 'c) rx, panic, unit) sres option" where
  "main_ws_worker_loop n W L P R N C aci device_id password host st =
     (if device_id = 0 \<or> device_id > 127 then Some (Inr (), st)
      else case ls_device_id_new L (ucast device_id) of
             Inl _ \<Rightarrow> Some (Inr (), st)
           | Inr local_device \<Rightarrow>
               map_option (\<lambda>r. sbind r (\<lambda>_ st1. (Inr (), st1)))
                 (worker_rounds n W L P R N C \<lparr>pa_name = aci, pa_device = local_device\<rparr> aci device_id password host
                    RECONNECT_BACKOFF_INITIAL_MS st))"

subsection \<open>Instances of the parameters\<close>

text \<open>A socket that logs what is sent and reads from a script, with a clock that stands still;
  a libsignal whose messages are their plaintext and whose sealed content is the sender's
  name.\<close>

record log_conn =
  lc_sent :: "ws_frame list"
  lc_incoming :: "ws_frame list"
  lc_now :: u64

definition log_ws :: "log_conn ws_lib" where
  "log_ws =
     \<lparr>wl_send = (\<lambda>f c. (Inr (), c\<lparr>lc_sent := lc_sent c @ [f]\<rparr>)),
      wl_read = (\<lambda>c. case lc_incoming c of [] \<Rightarrow> (Inr Close, c) | f # fs \<Rightarrow> (Inr f, c\<lparr>lc_incoming := fs\<rparr>)),
      wl_ws_close = (\<lambda>c. (Inr (), c)), wl_flush = (\<lambda>c. (Inl (TungOther ''ConnectionClosed''), c)),
      wl_set_read_timeout = (\<lambda>_ c. c), wl_ticktimer_new = (\<lambda>_. True),
      wl_elapsed_ms = (\<lambda>c. (lc_now c, c)), wl_sleep_ms = (\<lambda>n c. c\<lparr>lc_now := lc_now c + n\<rparr>)\<rparr>"

text \<open>A network that refuses every connection.\<close>

definition refusing_net :: "(log_conn, unit, unit) net_lib" where
  "refusing_net =
     \<lparr>nl_url_parse = (\<lambda>s. Inr (Url s)), nl_set_scheme = (\<lambda>_ u. Some u), nl_extend_path = (\<lambda>_ u. Some u),
      nl_host_str = (\<lambda>_. Some ''chat.signal.org''), nl_as_str = (\<lambda>u. case u of Url s \<Rightarrow> s),
      nl_tcp_connect = (\<lambda>_ _ n. (Inl (IoError ConnectionRefused ''refused''), n)), nl_tls_stream = (\<lambda>_ _ n. (Inr (), n)),
      nl_generate_key = (\<lambda>n. (''key'', n)), nl_request_body = (\<lambda>_ _. Inr ()),
      nl_client = (\<lambda>u h _ n. (Inr (), n))\<rparr>"

definition token_rx :: "'s rx_lib" where
  "token_rx =
     \<lparr>rl_b64_decode = Inr, rl_public_deserialize = (\<lambda>b. Inr (PublicKey b)),
      rl_sealed_decrypt_to_usmc = (\<lambda>b s. Inr (Usmc b)), rl_usmc_sender = (\<lambda>u. case u of Usmc b \<Rightarrow> Inr (SenderCert b)),
      rl_usmc_msg_type = (\<lambda>u. Inr WhisperType), rl_usmc_contents = (\<lambda>u. case u of Usmc b \<Rightarrow> Inr b),
      rl_cert_validate = (\<lambda>c ks t. Inr (c = SenderCert ''alice'')),
      rl_cert_sender_uuid = (\<lambda>c. case c of SenderCert b \<Rightarrow> Inr b), rl_cert_sender_device = (\<lambda>c. Inr 1),
      rl_prekey_try_from = (\<lambda>b. Inr (PreKeyMessage b)), rl_signal_try_from = (\<lambda>b. Inr (SignalMsg b)),
      rl_decrypt_prekey = (\<lambda>m a l s. case m of PreKeyMessage b \<Rightarrow> (Inr b, s)),
      rl_decrypt_signal = (\<lambda>m a s. case m of SignalMsg b \<Rightarrow> (Inr b, s))\<rparr>"

section \<open>Padding and content\<close>

lemma strip_pad: "strip_signal_padding (signal_pad c) = c"
proof -
  obtain n where "signal_pad c = c @ CHR 0x80 # replicate n (CHR 0x00)" using signal_pad_shape by blast
  then show ?thesis by (simp add: strip_signal_padding_def dropWhile_append)
qed

lemma opt_simps [simp]:
  "opt_len t None = []" "opt_len t (Some b) = [(t, LenDelim b)]"
  "opt_u64 t None = []" "opt_u64 t (Some n) = [(t, Varint n)]"
  "opt_u32 t None = []" "opt_u32 t (Some m) = [(t, Varint (ucast m))]"
  "opt_i32 t None = []" "opt_i32 t (Some m) = [(t, Varint (scast m))]"
  by (simp_all add: opt_len_def opt_u64_def opt_u32_def opt_i32_def)

lemma decode_encoded:
  "wire_format W \<Longrightarrow> list_all encodable fs \<Longrightarrow> decode_message W f m (wc_encode W fs) = merge_fields f fs m"
  by (simp add: decode_message_def wire_format.roundtrip)


lemma decode_sent_transcript:
  assumes "wire_format W" "utf8_valid body"
  shows "decode_in_content W (strip_signal_padding (build_padded_sync_transcript_content W dest body ts)) =
    Some \<lparr>ic_data_message = None, ic_sync_message = Some \<lparr>isy_sent = Some
      \<lparr>is_destination_service_id = None, is_timestamp = Some ts, is_message = Some \<lparr>dm_body = Some body, dm_timestamp = Some ts\<rparr>\<rparr>\<rparr>\<rparr>"
  using assms
  by (simp add: build_padded_sync_transcript_content_def strip_pad Let_def encode_out_content_def encode_out_sync_def
      encode_out_sent_def encode_data_message_def data_message_fields_def decode_in_content_def decode_encoded
      merge_nested_def data_message_default_def in_sent_default_def)

lemma decode_ack:
  assumes "wire_format W"
  shows "decode_ws_message W (encode_ws_message W (ack_message i st)) = Some (ack_message i st)"
proof -
  have "(ucast (scast (2 :: u32) :: u64) :: u32) = 2" "(ucast (ucast st :: u64) :: u32) = st"
    by (simp, rule bit_word_eqI) (simp add: bit_simps)
  moreover have "utf8_valid ''OK''" by (rule utf8_valid_ascii) auto
  ultimately show ?thesis
    using assms
    by (simp add: ack_message_def encode_ws_message_def encode_ws_response_def decode_ws_message_def decode_encoded
        merge_nested_def ws_response_default_def)
qed

section \<open>What each stage leaves alone\<close>

lemma rx_conn_emit [simp]: "rx_conn (emit e st) = rx_conn st" and rx_store_emit [simp]: "rx_store (emit e st) = rx_store st"
  and rx_ui_emit [simp]: "rx_ui (emit e st) = rx_ui st @ [e]"
  by (simp_all add: emit_def)

lemma post_conn [simp]: "rx_conn (post_to_peer_dialogue u a ts b f st) = rx_conn st"
  and post_store [simp]: "rx_store (post_to_peer_dialogue u a ts b f st) = rx_store st"
  by (simp_all add: post_to_peer_dialogue_def cf_dialogue_set_def Let_def split: option.split)

lemma deliver_sync_conn: "deliver_sync_message P m ts st = (r, st') \<Longrightarrow> rx_conn st' = rx_conn st"
  by (auto simp: deliver_sync_message_def Let_def split: option.splits if_splits)

lemma deliver_data_conn: "deliver_data_message P m a ts st = (r, st') \<Longrightarrow> rx_conn st' = rx_conn st"
  by (auto simp: deliver_data_message_def Let_def split: if_splits)

lemma deliver_content_conn: "deliver_content W P b a ts st = (r, st') \<Longrightarrow> rx_conn st' = rx_conn st"
proof (cases "decode_in_content W (strip_signal_padding b)")
  case (Some c)
  obtain q v where d: "(case ic_data_message c of
                   Some dm \<Rightarrow>
                     (case deliver_data_message P dm a ts st of
                        (was_delivered, st1) \<Rightarrow>
                          (Inr was_delivered,
                           if was_delivered
                           then st1\<lparr>rx_store := snd (set_current_recipient P a (rx_store st1))\<rparr>
                           else st1))
                 | None \<Rightarrow>
                     (case ic_sync_message c of
                        Some sync \<Rightarrow> deliver_sync_message P sync ts st
                      | None \<Rightarrow> (Inr False, st))) = (q, v)" by fastforce
  then have "rx_conn v = rx_conn st"
    by (auto split: option.splits prod.splits if_splits dest: deliver_sync_conn deliver_data_conn)
  moreover assume "deliver_content W P b a ts st = (r, st')"
  ultimately show ?thesis by (cases q) (auto simp: deliver_content_def Some d)
qed (simp add: deliver_content_def)

lemma deliver_opened_conn: "deliver_opened W P o' a ts st = (r, st') \<Longrightarrow> rx_conn st' = rx_conn st"
  by (auto simp: deliver_opened_def split: prod.splits option.splits dest!: deliver_content_conn)

lemma dispatch_conn: "dispatch_envelope W L P R b la st = (r, st') \<Longrightarrow> rx_conn st' = rx_conn st"
  by (auto simp: dispatch_envelope_def dispatch_sealed_def Let_def dest: deliver_opened_conn
      split: option.splits if_splits sum.splits ciphertext_type.splits)

section \<open>Properties\<close>

text \<open>The dialogue the UI shows after a list of events.\<close>

fun displayed :: "string option \<Rightarrow> ui_event list \<Rightarrow> string option" where
  "displayed d [] = d"
| "displayed d (DialogueSet _ k # es) = displayed k es"
| "displayed d (PostAdd _ _ _ # es) = displayed d es"
| "displayed d (Redraw # es) = displayed d es"

lemma displayed_append [simp]: "displayed d (xs @ ys) = displayed (displayed d xs) ys"
  by (induction d xs rule: displayed.induct) simp_all





text \<open>C35. A sync transcript this program builds is dropped by this program: the sender writes
  the destination at tag 7, the receiver reads it at tag 1, finds none and delivers nothing.\<close>

theorem own_transcript_dropped:
  assumes "wire_format W" and "utf8_valid body"
  shows "deliver_content W P (build_padded_sync_transcript_content W dest body ts) a sts st = (Inr (), st)"
  by (simp add: deliver_content_def decode_sent_transcript [OF assms] deliver_sync_message_def)

theorem own_transcript_dropped_witness:
  "deliver_content pb_wire mem_pddb (build_padded_sync_transcript_content pb_wire ''bob'' ''hi'' 7) \<lparr>pa_name = ''me'', pa_device = 2\<rparr> 9
     \<lparr>rx_store = [], rx_ui = [], rx_conn = ()\<rparr> = (Inr (), \<lparr>rx_store = [], rx_ui = [], rx_conn = ()\<rparr>)"
proof -
  have "utf8_valid ''hi''" by (rule utf8_valid_ascii) auto
  from own_transcript_dropped [OF pb.wire_format_axioms this] show ?thesis .
qed

text \<open>When the delivery panics: only on a sync transcript whose destination is longer than eight
  bytes and continues a character at byte 8.\<close>

definition cut_transcript :: "in_content \<Rightarrow> bool" where
  "cut_transcript c \<longleftrightarrow> ic_data_message c = None \<and> (\<exists>sync sent dest. ic_sync_message c = Some sync \<and> isy_sent sync = Some sent
     \<and> is_destination_service_id sent = Some dest \<and> 8 < length dest \<and> is_cont (dest ! 8))"

lemma deliver_sync_panic:
  "deliver_sync_message P m ts st = (Inl p, st') \<Longrightarrow> p = SliceNotCharBoundary
     \<and> (\<exists>sent dest. isy_sent m = Some sent \<and> is_destination_service_id sent = Some dest \<and> 8 < length dest \<and> is_cont (dest ! 8))"
  by (cases "isy_sent m"; cases "is_destination_service_id (the (isy_sent m))")
    (auto simp: deliver_sync_message_def Let_def slice_to_def is_char_boundary_def min_def split: option.splits if_splits)

lemma deliver_content_panic:
  "deliver_content W P b a ts st = (Inl p, st') \<Longrightarrow> p = SliceNotCharBoundary
     \<and> (\<exists>c. decode_in_content W (strip_signal_padding b) = Some c \<and> cut_transcript c)"
proof (cases "decode_in_content W (strip_signal_padding b)")
  case (Some c)
  assume run: "deliver_content W P b a ts st = (Inl p, st')"
  then have none: "ic_data_message c = None" by (cases "ic_data_message c") (auto simp: deliver_content_def Some split: prod.splits)
  with run obtain sync where sync: "ic_sync_message c = Some sync" by (cases "ic_sync_message c") (auto simp: deliver_content_def Some)
  obtain q v where "deliver_sync_message P sync ts st = (q, v)" by (metis surj_pair)
  with run none sync have "deliver_sync_message P sync ts st = (Inl p, v)" by (cases q) (auto simp: deliver_content_def Some)
  from deliver_sync_panic [OF this] none sync Some show ?thesis by (auto simp: cut_transcript_def)
qed (simp add: deliver_content_def)

lemma dispatch_panic:
  assumes "dispatch_envelope W L P R body la st = (Inl p, st')"
  shows "p = SliceNotCharBoundary \<and> (\<exists>c remote plaintext s1 content.
    (open_prekey R c remote la (rx_store st) = (Some plaintext, s1) \<or> open_signal R c remote (rx_store st) = (Some plaintext, s1))
    \<and> decode_in_content W (strip_signal_padding plaintext) = Some content \<and> cut_transcript content)"
proof -
  obtain c remote ts where "deliver_opened W P (open_prekey R c remote la (rx_store st)) remote ts st = (Inl p, st')
      \<or> deliver_opened W P (open_signal R c remote (rx_store st)) remote ts st = (Inl p, st')"
    using assms by (auto simp: dispatch_envelope_def dispatch_sealed_def Let_def
        split: option.splits if_splits sum.splits ciphertext_type.splits)
  then show ?thesis by (auto simp: deliver_opened_def split: prod.splits option.splits dest!: deliver_content_panic)
qed

text \<open>C29. A server request is acknowledged exactly once, with its own id and status 200, whatever
  became of its envelope (decoding or decryption failures included), and the server reads the
  acknowledgement back as such. The one exception is a panic of the worker, after which nothing is
  sent: the request put a message whose decrypted content is a sync transcript with a
  destination of more than eight bytes that is cut inside a character at byte 8.\<close>

theorem request_acknowledged:
  assumes "wire_format W"
  shows "case handle_request W L P R C req la st of
      (Inr _, st') \<Rightarrow> (\<exists>b. rx_conn st' = snd (wl_send C (Binary b) (rx_conn st))
        \<and> decode_ws_message W b = Some (ack_message (unwrap_or 0 (wr_id req)) 200))
    | (Inl p, st') \<Rightarrow> p = SliceNotCharBoundary \<and> rx_conn st' = rx_conn st
        \<and> wr_verb req = Some ''PUT'' \<and> wr_path req = Some ''/api/v1/message'' \<and> wr_body req \<noteq> None
        \<and> (\<exists>c remote plaintext s1 content.
            (open_prekey R c remote la (rx_store st) = (Some plaintext, s1) \<or> open_signal R c remote (rx_store st) = (Some plaintext, s1))
            \<and> decode_in_content W (strip_signal_padding plaintext) = Some content \<and> cut_transcript content)"
proof -
  let ?b = "encode_ws_message W (ack_message (unwrap_or 0 (wr_id req)) 200)"
  obtain r st' where run: "handle_request W L P R C req la st = (r, st')" by (metis surj_pair)
  show ?thesis
  proof (cases r)
    case (Inr u)
    with run have "rx_conn st' = snd (wl_send C (Binary ?b) (rx_conn st))"
      by (auto simp: handle_request_def Let_def send_ack_def res_simps split: if_splits option.splits dest: dispatch_conn)
    with Inr run decode_ack [OF assms] show ?thesis by auto
  next
    case (Inl p)
    with run obtain body where req: "wr_verb req = Some ''PUT''" "wr_path req = Some ''/api/v1/message''" "wr_body req = Some body"
      by (cases "wr_verb req"; cases "wr_path req"; cases "wr_body req") (auto simp: handle_request_def Let_def split: if_splits)
    obtain q v where d: "dispatch_envelope W L P R body la st = (q, v)" by (metis surj_pair)
    with run Inl req have "dispatch_envelope W L P R body la st = (Inl p, st')" by (cases q) (auto simp: handle_request_def)
    from dispatch_panic [OF this] dispatch_conn [OF this] run Inl req show ?thesis by simp
  qed
qed


definition idle_conn :: log_conn where
  "idle_conn = \<lparr>lc_sent = [], lc_incoming = [], lc_now = 0\<rparr>"

theorem request_acknowledged_witness:
  "\<exists>b. lc_sent (rx_conn (snd (handle_request pb_wire token_libsignal mem_pddb token_rx log_ws
       \<lparr>wr_verb = Some ''PUT'', wr_path = Some ''/api/v1/queue/empty'', wr_body = None, wr_id = Some 5, wr_headers = []\<rparr>
       \<lparr>pa_name = ''me'', pa_device = 2\<rparr> \<lparr>rx_store = [], rx_ui = [], rx_conn = idle_conn\<rparr>))) = [Binary b]
     \<and> decode_ws_message pb_wire b = Some (ack_message 5 200)"
proof -
  let ?req = "\<lparr>wr_verb = Some ''PUT'', wr_path = Some ''/api/v1/queue/empty'', wr_body = None, wr_id = Some 5, wr_headers = []\<rparr>"
  let ?st = "\<lparr>rx_store = [] :: mem_state, rx_ui = [], rx_conn = idle_conn\<rparr>"
  obtain st' where run: "handle_request pb_wire token_libsignal mem_pddb token_rx log_ws ?req \<lparr>pa_name = ''me'', pa_device = 2\<rparr> ?st = (Inr (), st')"
    by (simp add: handle_request_def Let_def)
  from request_acknowledged [OF pb.wire_format_axioms, where L = token_libsignal and P = mem_pddb and R = token_rx and C = log_ws and req = ?req
      and la = "\<lparr>pa_name = ''me'', pa_device = 2\<rparr>" and st = ?st] run show ?thesis
    by (auto simp: log_ws_def idle_conn_def)
qed

text \<open>C28. Sealed sender: unless the sender's certificate validates against the built-in trust
  roots at the server's timestamp, a sealed envelope changes nothing and shows nothing.\<close>

theorem unvalidated_sender_dropped:
  assumes "decode_envelope W body = Some env" and "env_type env = Some ENVELOPE_UNIDENTIFIED_SENDER"
    and "\<And>c u cert. env_content env = Some c \<Longrightarrow> rl_sealed_decrypt_to_usmc R c (rx_store st) = Inr u \<Longrightarrow>
       rl_usmc_sender R u = Inr cert \<Longrightarrow>
       rl_cert_validate R cert (trust_roots R) (unwrap_or 0 (env_server_timestamp env)) \<noteq> Inr True"
  shows "dispatch_envelope W L P R body la st = (Inr (), st)"
proof (cases "env_content env")
  case (Some c)
  have "sealed_sender R u (unwrap_or 0 (env_server_timestamp env)) = None"
    if "rl_sealed_decrypt_to_usmc R c (rx_store st) = Inr u" for u
    using assms(3) [OF Some that] by (auto simp: sealed_sender_def split: sum.splits bool.splits)
  then show ?thesis
    by (simp add: dispatch_envelope_def assms(1,2) Some dispatch_sealed_def Let_def split: sum.splits)
qed (simp add: dispatch_envelope_def assms(1))

theorem unvalidated_sender_dropped_witness:
  "dispatch_envelope pb_wire token_libsignal mem_pddb token_rx
     (wc_encode pb_wire [(1, Varint 6), (8, LenDelim ''mallory'')]) \<lparr>pa_name = ''me'', pa_device = 2\<rparr>
     \<lparr>rx_store = [], rx_ui = [], rx_conn = ()\<rparr> = (Inr (), \<lparr>rx_store = [], rx_ui = [], rx_conn = ()\<rparr>)"
proof (rule unvalidated_sender_dropped)
  let ?env = "envelope_default\<lparr>env_type := Some 6, env_content := Some ''mallory''\<rparr>"
  show "decode_envelope pb_wire (wc_encode pb_wire [(1, Varint 6), (8, LenDelim ''mallory'')]) = Some ?env"
    by (simp add: decode_envelope_def decode_encoded [OF pb.wire_format_axioms] envelope_default_def)
  show "env_type ?env = Some 6" by simp
  show "rl_cert_validate (token_rx :: mem_state rx_lib) cert (trust_roots (token_rx :: mem_state rx_lib)) (unwrap_or 0 (env_server_timestamp ?env)) \<noteq> Inr True"
    if "env_content ?env = Some c" "rl_sealed_decrypt_to_usmc token_rx c (rx_store \<lparr>rx_store = [] :: mem_state, rx_ui = [], rx_conn = ()\<rparr>) = Inr u"
      "rl_usmc_sender (token_rx :: mem_state rx_lib) u = Inr cert" for c u cert
    using that by (auto simp: token_rx_def)
qed

text \<open>The application keepalive on connect: a session that starts when the clock shows at
  least 55 seconds since boot sends the keepalive with request id 1 in its first round; one
  that starts earlier sends none (the subtraction saturates at zero).\<close>

theorem initial_keepalive:
  fixes C :: "'c ws_lib" and st :: "('s, 'c) rx"
  assumes "wl_elapsed_ms C (rx_conn st) = (t, rx_conn st)" and "session_start C st = (v, st1)"
  shows "app_keepalive_stage W C v st1 =
    (if t < APP_KEEPALIVE_MS then (Some v, st)
     else case ws_send C (Binary (encode_ws_message W (keepalive_request 1))) st of
            (Inr _, st2) \<Rightarrow>
              (case elapsed C st2 of (t2, st3) \<Rightarrow> (Some (v\<lparr>sv_last_app_keepalive_ms := t2, sv_next_request_id := 2\<rparr>), st3))
          | (Inl _, st2) \<Rightarrow> (None, st2))"
proof -
  have el: "elapsed C st = (t, st)" by (simp add: elapsed_def assms(1))
  have v: "v = \<lparr>sv_last_ping_ms = t, sv_next_request_id = 1, sv_last_app_keepalive_ms = saturating_sub t 55000\<rparr>" "st1 = st"
    using assms(2) by (simp_all add: session_start_def el)
  have "saturating_sub t (saturating_sub t 55000) = (if t < 55000 then t else 55000)"
    by (auto simp: saturating_sub_def word_sub_le_iff not_less)
  then show ?thesis
    by (auto simp: app_keepalive_stage_def el v not_less not_le split: prod.splits sum.splits)
qed

theorem initial_keepalive_witness:
  "\<exists>v. app_keepalive_stage pb_wire log_ws v \<lparr>rx_store = (), rx_ui = [], rx_conn = idle_conn\<rparr> =
     (Some v, \<lparr>rx_store = (), rx_ui = [], rx_conn = idle_conn\<rparr>)"
proof -
  let ?st = "\<lparr>rx_store = (), rx_ui = [], rx_conn = idle_conn\<rparr>"
  have clock: "wl_elapsed_ms log_ws (rx_conn ?st) = (0, rx_conn ?st)" by (simp add: log_ws_def idle_conn_def)
  then obtain v where "session_start log_ws ?st = (v, ?st)" by (simp add: session_start_def elapsed_def)
  from initial_keepalive [OF clock this, of pb_wire] show ?thesis by auto
qed

abbreviation (input) backoff_steps :: "u64 set" where
  "backoff_steps \<equiv> {2000, 4000, 8000, 16000, 32000, 64000}"

lemma next_backoff_steps: "b \<in> backoff_steps \<Longrightarrow> next_backoff b \<in> backoff_steps"
  by (auto simp: next_backoff_def min_def)

lemma worker_round_steps:
  assumes "worker_round W L P R N C la aci d pw host b st = Some (Inr b1, st1)" "b \<in> backoff_steps"
  shows "b1 \<in> backoff_steps"
proof -
  have "b1 = next_backoff b \<or> b1 = next_backoff 2000"
    using assms(1) by (auto simp: worker_round_def res_simps split: prod.splits sum.splits option.splits)
  then show ?thesis using next_backoff_steps assms(2) by auto
qed

text \<open>The reconnect backoff stays within 2 to 64 seconds and only takes the six doubled
  values, over any number of rounds and whatever the connections do.\<close>

theorem reconnect_backoff_range:
  assumes "worker_rounds n W L P R N C la aci d pw host RECONNECT_BACKOFF_INITIAL_MS st = Some (Inr b, st')"
  shows "b \<in> {2000, 4000, 8000, 16000, 32000, 64000}"
proof -
  have "worker_rounds n W L P R N C la aci d pw host b0 st = Some (Inr b, st') \<Longrightarrow> b0 \<in> backoff_steps \<Longrightarrow> b \<in> backoff_steps" for b0 st
  proof (induction n arbitrary: b0 st)
    case (Suc n)
    then obtain b1 st1 where "worker_round W L P R N C la aci d pw host b0 st = Some (Inr b1, st1)"
        "worker_rounds n W L P R N C la aci d pw host b1 st1 = Some (Inr b, st')"
      by (auto split: option.splits sum.splits)
    with Suc.IH Suc.prems(2) worker_round_steps show ?case by blast
  qed auto
  from this [OF assms] show ?thesis by simp
qed

theorem reconnect_backoff_range_witness:
  "\<exists>b st'. worker_rounds 2 pb_wire token_libsignal mem_pddb token_rx refusing_net log_ws \<lparr>pa_name = ''me'', pa_device = 2\<rparr> ''me'' 2 ''pw'' ''h'' 2000
       \<lparr>rx_store = [], rx_ui = [], rx_conn = idle_conn\<rparr> = Some (Inr b, st') \<and> b \<in> {2000, 4000, 8000, 16000, 32000, 64000} \<and> b = 8000"
proof -
  let ?st = "\<lparr>rx_store = [] :: mem_state, rx_ui = [], rx_conn = idle_conn\<rparr>"
  have nb: "next_backoff 2000 = 4000" "next_backoff 4000 = 8000" by (simp_all add: next_backoff_def min_def)
  have worker_rounds_2: "worker_rounds 2 W L P R N C la aci d pw host b st = worker_rounds (Suc (Suc 0)) W L P R N C la aci d pw host b st"
    for W L P R C la aci d pw host b and N :: "(log_conn, unit, unit) net_lib" and st :: "(mem_state, log_conn) rx" by (simp only: numeral_2_eq_2)
  obtain st' where run: "worker_rounds 2 pb_wire token_libsignal mem_pddb token_rx refusing_net log_ws \<lparr>pa_name = ''me'', pa_device = 2\<rparr> ''me'' 2 ''pw'' ''h'' 2000 ?st
      = Some (Inr 8000, st')"
    using worker_rounds_2 by (auto simp: worker_round_def new_message_def new_with_auth_def connect_def refusing_net_def log_ws_def nb)
  from reconnect_backoff_range [OF run] run show ?thesis by blast
qed

text \<open>A transcript whose destination has no character boundary at byte 8 panics the
  receive worker: the author label slices the destination by bytes.\<close>

theorem transcript_slice_panics:
  assumes "isy_sent sync = Some sent" and "is_message sent = Some dm" and "dm_body dm = Some body" and "body \<noteq> []"
    and "is_destination_service_id sent = Some dest" and "8 < length dest" and "is_cont (dest ! 8)"
  shows "deliver_sync_message P sync ts st = (Inl SliceNotCharBoundary, st)"
  using assms by (auto simp: deliver_sync_message_def Let_def slice_to_def is_char_boundary_def)

theorem transcript_slice_panics_witness:
  "deliver_sync_message mem_pddb \<lparr>isy_sent = Some \<lparr>is_destination_service_id = Some (''aaaaaa'' @ ellipsis),
       is_timestamp = None, is_message = Some \<lparr>dm_body = Some ''x'', dm_timestamp = None\<rparr>\<rparr>\<rparr> 0
     \<lparr>rx_store = [], rx_ui = [], rx_conn = ()\<rparr> = (Inl SliceNotCharBoundary, \<lparr>rx_store = [], rx_ui = [], rx_conn = ()\<rparr>)"
proof -
  let ?dm = "\<lparr>dm_body = Some ''x'', dm_timestamp = None\<rparr>"
  let ?sent = "\<lparr>is_destination_service_id = Some (''aaaaaa'' @ ellipsis), is_timestamp = None, is_message = Some ?dm\<rparr>"
  show ?thesis
    by (rule transcript_slice_panics [of _ ?sent ?dm "''x''" "''aaaaaa'' @ ellipsis"]) (simp_all add: ellipsis_def is_cont_def)
qed

end
