(* ===== verification/Ws_Server.thy ===== *)
theory Ws_Server
  imports Receive
begin

text \<open>
  \<open>src/src/manager/ws_server.rs\<close>.

  The worker of the provisioning WebSocket is a state machine: each iteration of its loop takes
  at most one IPC message, checks the deadline, sends a keepalive, reads one frame and answers
  the parked caller. One iteration is \<open>worker_iteration\<close>, a run over the messages that arrive is
  \<open>worker_run\<close>, the reachable states are the inductive set \<open>worker_reachable\<close>; \<open>None\<close> is a panic there.
  After the loop the worker closes its socket and destroys its server, \<open>worker_exit\<close>, which is \<open>None\<close>
  when \<open>SignalWS::close\<close> never returns. Pages
  lent by callers come back as \<open>PageBack\<close> events; a message dropped unanswered returns its page
  as it was lent.
\<close>

section \<open>Definitions\<close>

subsection \<open>Results and pages\<close>

abbreviation (input) WS_PROVISION_MAX :: nat where "WS_PROVISION_MAX \<equiv> 8192"
abbreviation (input) STATUS_BINARY :: u8 where "STATUS_BINARY \<equiv> 0"
abbreviation (input) STATUS_CLOSED :: u8 where "STATUS_CLOSED \<equiv> 1"
abbreviation (input) STATUS_TIMED_OUT :: u8 where "STATUS_TIMED_OUT \<equiv> 2"
abbreviation (input) STATUS_CANCELLED :: u8 where "STATUS_CANCELLED \<equiv> 3"
abbreviation (input) STATUS_ERROR :: u8 where "STATUS_ERROR \<equiv> 4"

record ws_result_buf =
  rb_status :: u8
  rb_len :: u32
  rb_bytes :: bytes

definition empty_buf :: ws_result_buf where
  "empty_buf = \<lparr>rb_status = 255, rb_len = 0, rb_bytes = replicate WS_PROVISION_MAX (CHR 0x00)\<rparr>"

datatype ws_result = ResBinary bytes | ResClosed | ResTimedOut | ResCancelled | ResError io_error

datatype pending_result = PendBinary bytes | PendClosed | PendTimedOut | PendCancelled | PendError

text \<open>The memory message of a \<open>WaitAndTakeBinary\<close>: none, a page that does not decode, or a page and
  whether writing it back succeeds.\<close>

datatype page = NoMemory | BadPage | GoodPage ws_result_buf bool

record wait_msg =
  wq_sender :: nat
  wq_page :: page

definition fill_payload :: "ws_result_buf \<Rightarrow> pending_result \<Rightarrow> ws_result_buf option" where
  "fill_payload p r =
     (case r of
        PendBinary b \<Rightarrow>
          (if length b \<le> length (rb_bytes p)
           then Some (p\<lparr>rb_status := STATUS_BINARY, rb_len := of_nat (length b), rb_bytes := b @ drop (length b) (rb_bytes p)\<rparr>)
           else None)
      | PendClosed \<Rightarrow> Some (p\<lparr>rb_status := STATUS_CLOSED\<rparr>)
      | PendTimedOut \<Rightarrow> Some (p\<lparr>rb_status := STATUS_TIMED_OUT\<rparr>)
      | PendCancelled \<Rightarrow> Some (p\<lparr>rb_status := STATUS_CANCELLED\<rparr>)
      | PendError \<Rightarrow> Some (p\<lparr>rb_status := STATUS_ERROR\<rparr>))"

definition fill_buf :: "wait_msg \<Rightarrow> pending_result \<Rightarrow> page option" where
  "fill_buf msg r =
     (case wq_page msg of
        GoodPage p writable \<Rightarrow> map_option (\<lambda>p'. GoodPage (if writable then p' else p) writable) (fill_payload p r)
      | other \<Rightarrow> Some other)"

text \<open>What \<open>wait_and_take_binary\<close> makes of the contents it gets back.\<close>

definition result_of_buf :: "ws_result_buf \<Rightarrow> ws_result" where
  "result_of_buf b =
     (if rb_status b = STATUS_BINARY then
        (if WS_PROVISION_MAX < unat (rb_len b)
         then ResError (IoError InvalidData ''payload len exceeds WS_PROVISION_MAX'')
         else ResBinary (take (unat (rb_len b)) (rb_bytes b)))
      else if rb_status b = STATUS_CLOSED then ResClosed
      else if rb_status b = STATUS_TIMED_OUT then ResTimedOut
      else if rb_status b = STATUS_CANCELLED then ResCancelled
      else if rb_status b = STATUS_ERROR then ResError (IoError OtherKind ''worker error'')
      else ResError (IoError OtherKind (''unknown WsResultBuf.status '' @ show_word (rb_status b))))"

text \<open>The call itself: allocate the page, lend it until the worker answers, and decode it.\<close>

definition wait_and_take_binary :: "string + unit \<Rightarrow> string + unit \<Rightarrow> string + ws_result_buf \<Rightarrow> ws_result" where
  "wait_and_take_binary into_buf lend_mut to_original =
     (case into_buf of
        Inl e \<Rightarrow> ResError (IoError OtherKind (''ipc into_buf: '' @ e))
      | Inr _ \<Rightarrow>
          (case lend_mut of
             Inl e \<Rightarrow> ResError (IoError OtherKind (''ipc lend_mut: '' @ e))
           | Inr _ \<Rightarrow>
               (case to_original of
                  Inl e \<Rightarrow> ResError (IoError OtherKind (''ipc to_original: '' @ e))
                | Inr b \<Rightarrow> result_of_buf b)))"

subsection \<open>The cancel handle\<close>

text \<open>\<open>cancel_flap\<close> on the shared flag: whether a message is sent, and the flag afterwards.\<close>

definition cancel_flap :: "bool \<Rightarrow> bool \<times> bool" where
  "cancel_flap flap_signaled = (\<not> flap_signaled, True)"

subsection \<open>The worker\<close>

datatype ipc = NoMessage | ReceiveError | WaitMsg wait_msg | CancelMsg nat | FlapMsg | UnknownMsg

datatype ws_event = PageBack nat page | ScalarBack nat | SidDestroyed

record 'c ws_worker =
  wk_conn :: 'c
  wk_deadline_ms :: u64
  wk_last_send_at :: u64
  wk_pending :: "pending_result option"
  wk_waiter :: "wait_msg option"
  wk_flap_cancelled :: bool
  wk_events :: "ws_event list"

definition log_event :: "ws_event \<Rightarrow> 'c ws_worker \<Rightarrow> 'c ws_worker" where
  "log_event e w = w\<lparr>wk_events := wk_events w @ [e]\<rparr>"

definition reply :: "wait_msg \<Rightarrow> pending_result \<Rightarrow> 'c ws_worker \<Rightarrow> 'c ws_worker option" where
  "reply msg r w = map_option (\<lambda>p. log_event (PageBack (wq_sender msg) p) w) (fill_buf msg r)"

definition drop_waiter :: "'c ws_worker \<Rightarrow> 'c ws_worker" where
  "drop_waiter w =
     (case wk_waiter w of
        None \<Rightarrow> w
      | Some old \<Rightarrow> log_event (PageBack (wq_sender old) (wq_page old)) (w\<lparr>wk_waiter := None\<rparr>))"

text \<open>(1) One IPC message; the flag says whether the loop goes on.\<close>

definition ipc_stage :: "ipc \<Rightarrow> 'c ws_worker \<Rightarrow> (bool \<times> 'c ws_worker) option" where
  "ipc_stage i w =
     (case i of
        WaitMsg msg \<Rightarrow>
          (case wk_pending w of
             Some r \<Rightarrow> map_option (Pair True) (reply msg r (w\<lparr>wk_pending := None\<rparr>))
           | None \<Rightarrow> Some (True, (drop_waiter w)\<lparr>wk_waiter := Some msg\<rparr>))
      | CancelMsg sender \<Rightarrow>
          map_option (\<lambda>w1. (False, log_event (ScalarBack sender) w1))
            (case wk_waiter w of
               Some m \<Rightarrow> reply m PendCancelled (w\<lparr>wk_waiter := None\<rparr>)
             | None \<Rightarrow> Some w)
      | FlapMsg \<Rightarrow>
          Some (True, w\<lparr>wk_flap_cancelled := True,
                         wk_pending := (case wk_pending w of None \<Rightarrow> Some PendCancelled | Some r \<Rightarrow> Some r)\<rparr>)
      | ReceiveError \<Rightarrow> Some (False, w)
      | UnknownMsg \<Rightarrow> Some (True, w)
      | NoMessage \<Rightarrow> Some (True, w))"

text \<open>(2) The deadline.\<close>

definition clock :: "'c ws_lib \<Rightarrow> 'c ws_worker \<Rightarrow> u64 \<times> 'c ws_worker" where
  "clock C w = (case wl_elapsed_ms C (wk_conn w) of (t, c) \<Rightarrow> (t, w\<lparr>wk_conn := c\<rparr>))"

definition deadline_stage :: "'c ws_lib \<Rightarrow> 'c ws_worker \<Rightarrow> 'c ws_worker" where
  "deadline_stage C w =
     (if wk_pending w = None
      then (case clock C w of (t, w1) \<Rightarrow> if wk_deadline_ms w1 \<le> t then w1\<lparr>wk_pending := Some PendTimedOut\<rparr> else w1)
      else w)"

text \<open>(3) The keepalive.\<close>

definition keepalive_stage :: "'c ws_lib \<Rightarrow> 'c ws_worker \<Rightarrow> 'c ws_worker" where
  "keepalive_stage C w =
     (if \<not> wk_flap_cancelled w \<and> wk_pending w = None then
        (case clock C w of (t, w1) \<Rightarrow>
           if KEEPALIVE_MS \<le> saturating_sub t (wk_last_send_at w1) then
             (case wl_send C (Ping []) (wk_conn w1) of
                (Inr _, c) \<Rightarrow> (case clock C (w1\<lparr>wk_conn := c\<rparr>) of (t2, w2) \<Rightarrow> w2\<lparr>wk_last_send_at := t2\<rparr>)
              | (Inl _, c) \<Rightarrow> w1\<lparr>wk_conn := c, wk_pending := Some PendError\<rparr>)
           else w1)
      else w)"

text \<open>(4) One read.\<close>

definition pending_of_read :: "tung_error + ws_frame \<Rightarrow> pending_result option" where
  "pending_of_read r =
     (case r of
        Inr (Binary b) \<Rightarrow> Some (if WS_PROVISION_MAX < length b then PendError else PendBinary b)
      | Inr Close \<Rightarrow> Some PendClosed
      | Inr _ \<Rightarrow> None
      | Inl e \<Rightarrow> (if is_timeout e then None else Some PendError))"

definition ws_read_stage :: "'c ws_lib \<Rightarrow> 'c ws_worker \<Rightarrow> 'c ws_worker" where
  "ws_read_stage C w =
     (if \<not> wk_flap_cancelled w \<and> wk_pending w = None
      then (case wl_read C (wk_conn w) of (r, c) \<Rightarrow> w\<lparr>wk_conn := c, wk_pending := pending_of_read r\<rparr>)
      else w)"

text \<open>(5) The answer to a parked caller.\<close>

definition deliver_stage :: "'c ws_worker \<Rightarrow> 'c ws_worker option" where
  "deliver_stage w =
     (case (wk_pending w, wk_waiter w) of
        (Some r, Some m) \<Rightarrow> reply m r (w\<lparr>wk_pending := None, wk_waiter := None\<rparr>)
      | _ \<Rightarrow> Some w)"

text \<open>One iteration; \<open>False\<close> is the \<open>break\<close> out of the loop.\<close>

definition worker_iteration :: "'c ws_lib \<Rightarrow> ipc \<Rightarrow> 'c ws_worker \<Rightarrow> (bool \<times> 'c ws_worker) option" where
  "worker_iteration C i w =
     Option.bind (ipc_stage i w) (\<lambda>(go, w1).
     if \<not> go then Some (False, w1)
     else map_option (Pair True) (deliver_stage (ws_read_stage C (keepalive_stage C (deadline_stage C w1)))))"

text \<open>After the loop: the socket is closed, the server destroyed, and a caller still parked gets its
  page back when the function returns. \<open>None\<close>: the close never returns.\<close>

definition worker_exit :: "'c ws_lib \<Rightarrow> 'c ws_worker \<Rightarrow> 'c ws_worker option" where
  "worker_exit C w =
     map_option (\<lambda>c. drop_waiter (log_event SidDestroyed (w\<lparr>wk_conn := c\<rparr>)))
       (ws_close (wl_ws_close C) (wl_flush C) (wk_conn w))"


definition saturating_mul :: "u64 \<Rightarrow> u64 \<Rightarrow> u64" where
  "saturating_mul a b = (if unat a * unat b < 2 ^ 64 then a * b else - 1)"

text \<open>The worker before its first iteration; \<open>None\<close> when there is no tick timer. The sum of the clock and
  the deadline wraps as in a release build, whose profile leaves overflow checks off; the deadline
  the program passes is 180 seconds.\<close>

definition worker_start :: "'c ws_lib \<Rightarrow> u64 \<Rightarrow> 'c \<Rightarrow> 'c ws_worker option" where
  "worker_start C deadline_secs c =
     (let c1 = wl_set_read_timeout C 500 c in
      if \<not> wl_ticktimer_new C c1 then None
      else case wl_elapsed_ms C c1 of (t, c2) \<Rightarrow>
           case wl_elapsed_ms C c2 of (t2, c3) \<Rightarrow>
             Some \<lparr>wk_conn = c3, wk_deadline_ms = t + saturating_mul deadline_secs 1000, wk_last_send_at = t2,
                   wk_pending = None, wk_waiter = None, wk_flap_cancelled = False, wk_events = []\<rparr>)"

section \<open>Pages\<close>

fun result_of_pending :: "pending_result \<Rightarrow> ws_result" where
  "result_of_pending (PendBinary b) = ResBinary b"
| "result_of_pending PendClosed = ResClosed"
| "result_of_pending PendTimedOut = ResTimedOut"
| "result_of_pending PendCancelled = ResCancelled"
| "result_of_pending PendError = ResError (IoError OtherKind ''worker error'')"

definition pending_ok :: "pending_result \<Rightarrow> bool" where
  "pending_ok r \<longleftrightarrow> (case r of PendBinary b \<Rightarrow> length b \<le> WS_PROVISION_MAX | _ \<Rightarrow> True)"

definition page_ok :: "page \<Rightarrow> bool" where
  "page_ok p \<longleftrightarrow> (case p of GoodPage b _ \<Rightarrow> length (rb_bytes b) = WS_PROVISION_MAX | _ \<Rightarrow> True)"

lemma fill_payload_result:
  assumes "length (rb_bytes p) = WS_PROVISION_MAX" "pending_ok r"
  obtains p' where "fill_payload p r = Some p'" "result_of_buf p' = result_of_pending r" "length (rb_bytes p') = WS_PROVISION_MAX"
proof (cases r)
  case (PendBinary b)
  with assms have le: "length b \<le> 8192" by (simp add: pending_ok_def)
  then have "unat (of_nat (length b) :: u32) = length b" by (simp add: unat_of_nat take_bit_nat_eq_self)
  with assms le PendBinary show ?thesis
    by (intro that [of "p\<lparr>rb_status := STATUS_BINARY, rb_len := of_nat (length b), rb_bytes := b @ drop (length b) (rb_bytes p)\<rparr>"])
       (simp_all add: fill_payload_def result_of_buf_def)
qed (use assms in \<open>auto intro: that simp: fill_payload_def result_of_buf_def\<close>)

lemma fill_buf_ok: "page_ok (wq_page m) \<Longrightarrow> pending_ok r \<Longrightarrow> \<exists>p. fill_buf m r = Some p"
  by (cases "wq_page m") (auto simp: fill_buf_def page_ok_def elim: fill_payload_result)

lemma reply_Some: "page_ok (wq_page m) \<Longrightarrow> pending_ok r \<Longrightarrow>
    \<exists>p. reply m r w = Some (log_event (PageBack (wq_sender m) p) w)"
  using fill_buf_ok [of m r] by (auto simp: reply_def)

section \<open>The invariant of the worker\<close>

text \<open>A pending frame fits the page, a parked page has its full size, and between iterations a
  result and a caller never wait at the same time.\<close>

definition worker_sized :: "'c ws_worker \<Rightarrow> bool" where
  "worker_sized w \<longleftrightarrow> (\<forall>r. wk_pending w = Some r \<longrightarrow> pending_ok r) \<and> (\<forall>m. wk_waiter w = Some m \<longrightarrow> page_ok (wq_page m))"

definition worker_inv :: "'c ws_worker \<Rightarrow> bool" where
  "worker_inv w \<longleftrightarrow> worker_sized w \<and> (wk_pending w = None \<or> wk_waiter w = None)"

definition ipc_ok :: "ipc \<Rightarrow> bool" where
  "ipc_ok i \<longleftrightarrow> (case i of WaitMsg m \<Rightarrow> page_ok (wq_page m) | _ \<Rightarrow> True)"

definition going :: "ipc \<Rightarrow> bool" where
  "going i \<longleftrightarrow> (case i of CancelMsg _ \<Rightarrow> False | ReceiveError \<Rightarrow> False | _ \<Rightarrow> True)"

inductive worker_reachable :: "'c ws_lib \<Rightarrow> 'c ws_worker \<Rightarrow> bool" for C where
  start: "worker_start C deadline_secs c = Some w \<Longrightarrow> worker_reachable C w"
| step: "worker_reachable C w \<Longrightarrow> ipc_ok i \<Longrightarrow> worker_iteration C i w = Some (True, w') \<Longrightarrow> worker_reachable C w'"

text \<open>Who has been answered, who is parked, who asks.\<close>

definition answered :: "ws_event list \<Rightarrow> nat list" where
  "answered es = concat (map (\<lambda>e. case e of PageBack s _ \<Rightarrow> [s] | _ \<Rightarrow> []) es)"

definition parked :: "'c ws_worker \<Rightarrow> nat list" where
  "parked w = (case wk_waiter w of None \<Rightarrow> [] | Some m \<Rightarrow> [wq_sender m])"

definition asking :: "ipc \<Rightarrow> nat list" where
  "asking i = (case i of WaitMsg m \<Rightarrow> [wq_sender m] | _ \<Rightarrow> [])"

lemma answered_append [simp]: "answered (xs @ ys) = answered xs @ answered ys"
  and answered_simps [simp]: "answered (PageBack s p # es) = s # answered es" "answered (ScalarBack s # es) = answered es"
    "answered (SidDestroyed # es) = answered es" "answered [] = []"
  by (simp_all add: answered_def)

lemma log_event_simps [simp]:
  "wk_conn (log_event e w) = wk_conn w" "wk_pending (log_event e w) = wk_pending w" "wk_waiter (log_event e w) = wk_waiter w"
  "wk_flap_cancelled (log_event e w) = wk_flap_cancelled w" "wk_events (log_event e w) = wk_events w @ [e]"
  "wk_deadline_ms (log_event e w) = wk_deadline_ms w"
  by (simp_all add: log_event_def)

lemma clock_simps [simp]:
  "clock C w = (t, w1) \<Longrightarrow> wk_pending w1 = wk_pending w \<and> wk_waiter w1 = wk_waiter w \<and> wk_events w1 = wk_events w
     \<and> wk_flap_cancelled w1 = wk_flap_cancelled w"
  by (auto simp: clock_def split: prod.splits)

text \<open>The stages between the message and the delivery touch neither the caller nor the events.\<close>

lemma drive_stages:
  assumes "worker_sized w"
  shows "worker_sized (ws_read_stage C (keepalive_stage C (deadline_stage C w)))"
    and "wk_waiter (ws_read_stage C (keepalive_stage C (deadline_stage C w))) = wk_waiter w"
    and "wk_events (ws_read_stage C (keepalive_stage C (deadline_stage C w))) = wk_events w"
proof -
  have pend: "pending_of_read x = Some r \<Longrightarrow> pending_ok r" for x r
    by (auto simp: pending_of_read_def pending_ok_def split: sum.splits ws_frame.splits if_splits)
  have "worker_sized w \<Longrightarrow> worker_sized (deadline_stage C w) \<and> wk_waiter (deadline_stage C w) = wk_waiter w \<and> wk_events (deadline_stage C w) = wk_events w" for w
    by (auto simp: deadline_stage_def worker_sized_def pending_ok_def dest!: clock_simps split: prod.splits)
  moreover have "worker_sized w \<Longrightarrow> worker_sized (keepalive_stage C w) \<and> wk_waiter (keepalive_stage C w) = wk_waiter w \<and> wk_events (keepalive_stage C w) = wk_events w" for w
    by (auto simp: keepalive_stage_def worker_sized_def pending_ok_def dest!: clock_simps split: prod.splits sum.splits)
  moreover have "worker_sized w \<Longrightarrow> worker_sized (ws_read_stage C w) \<and> wk_waiter (ws_read_stage C w) = wk_waiter w \<and> wk_events (ws_read_stage C w) = wk_events w" for w
    by (auto simp: ws_read_stage_def worker_sized_def dest!: pend split: prod.splits)
  ultimately show "worker_sized (ws_read_stage C (keepalive_stage C (deadline_stage C w)))"
    "wk_waiter (ws_read_stage C (keepalive_stage C (deadline_stage C w))) = wk_waiter w"
    "wk_events (ws_read_stage C (keepalive_stage C (deadline_stage C w))) = wk_events w"
    using assms by simp_all
qed

lemma deliver_ok:
  assumes "worker_sized w"
  shows "\<exists>w'. deliver_stage w = Some w' \<and> worker_inv w' \<and> answered (wk_events w') @ parked w' = answered (wk_events w) @ parked w"
proof (cases "wk_pending w"; cases "wk_waiter w")
  fix r m assume rm: "wk_pending w = Some r" "wk_waiter w = Some m"
  with assms have "page_ok (wq_page m)" "pending_ok r" by (simp_all add: worker_sized_def)
  then obtain p where "deliver_stage w = Some (log_event (PageBack (wq_sender m) p) (w\<lparr>wk_pending := None, wk_waiter := None\<rparr>))"
    using reply_Some rm by (fastforce simp: deliver_stage_def)
  with rm show ?thesis by (simp add: worker_inv_def worker_sized_def parked_def)
qed (use assms in \<open>simp_all add: deliver_stage_def worker_inv_def\<close>)

lemma ipc_going:
  assumes "worker_inv w" "ipc_ok i" "going i"
  shows "\<exists>w'. ipc_stage i w = Some (True, w') \<and> worker_sized w' \<and> answered (wk_events w') @ parked w' = answered (wk_events w) @ parked w @ asking i"
proof (cases i)
  case (WaitMsg m)
  show ?thesis
  proof (cases "wk_pending w")
    case None
    then show ?thesis
      using assms WaitMsg by (auto simp: ipc_stage_def worker_inv_def worker_sized_def drop_waiter_def ipc_ok_def asking_def parked_def split: option.splits)
  next
    case (Some r)
    with assms WaitMsg have "page_ok (wq_page m)" "pending_ok r" and none: "wk_waiter w = None"
      by (auto simp: worker_inv_def worker_sized_def ipc_ok_def)
    then obtain p where "ipc_stage i w = Some (True, log_event (PageBack (wq_sender m) p) (w\<lparr>wk_pending := None\<rparr>))"
      using reply_Some Some WaitMsg by (fastforce simp: ipc_stage_def)
    with none show ?thesis by (simp add: WaitMsg worker_sized_def asking_def parked_def)
  qed
qed (use assms in \<open>auto simp: ipc_stage_def going_def asking_def parked_def worker_inv_def worker_sized_def pending_ok_def split: option.splits\<close>)

lemma iteration_going:
  assumes "worker_inv w" "ipc_ok i" "going i"
  shows "\<exists>w'. worker_iteration C i w = Some (True, w') \<and> worker_inv w' \<and> answered (wk_events w') @ parked w' = answered (wk_events w) @ parked w @ asking i"
proof -
  obtain w1 where w1: "ipc_stage i w = Some (True, w1)" "worker_sized w1"
    "answered (wk_events w1) @ parked w1 = answered (wk_events w) @ parked w @ asking i" using ipc_going [OF assms] by blast
  note d = drive_stages [OF w1(2), of C]
  obtain w' where "deliver_stage (ws_read_stage C (keepalive_stage C (deadline_stage C w1))) = Some w'" "worker_inv w'"
    "answered (wk_events w') @ parked w' = answered (wk_events w1) @ parked w1"
    using deliver_ok [OF d(1)] d(2,3) by (auto simp: parked_def)
  with w1 show ?thesis by (simp add: worker_iteration_def)
qed

lemma iteration_ending:
  assumes "worker_inv w" "\<not> going i"
  shows "\<exists>w'. worker_iteration C i w = Some (False, w') \<and> worker_inv w' \<and> answered (wk_events w') @ parked w' = answered (wk_events w) @ parked w
    \<and> (\<forall>s. i = CancelMsg s \<longrightarrow> wk_waiter w' = None \<and> (\<exists>es. wk_events w' = es @ [ScalarBack s]))"
proof (cases i)
  case (CancelMsg s)
  show ?thesis
  proof (cases "wk_waiter w")
    case (Some m)
    with assms have "page_ok (wq_page m)" by (simp add: worker_inv_def worker_sized_def)
    then obtain p where "reply m PendCancelled (w\<lparr>wk_waiter := None\<rparr>) = Some (log_event (PageBack (wq_sender m) p) (w\<lparr>wk_waiter := None\<rparr>))"
      using reply_Some [of m PendCancelled] by (auto simp: pending_ok_def)
    with Some CancelMsg assms(1) show ?thesis
      by (simp add: worker_iteration_def ipc_stage_def parked_def worker_inv_def worker_sized_def)
  qed (use assms(1) in \<open>simp add: CancelMsg worker_iteration_def ipc_stage_def parked_def worker_inv_def worker_sized_def\<close>)
qed (use assms in \<open>auto simp: going_def worker_iteration_def ipc_stage_def\<close>)

text \<open>The exit gives back the page of a parked caller, and completes exactly when the close does.\<close>

lemma exit_answers:
  "worker_exit C w = Some w' \<Longrightarrow> wk_waiter w' = None \<and> answered (wk_events w') = answered (wk_events w) @ parked w"
  by (cases "wk_waiter w") (auto simp: worker_exit_def drop_waiter_def parked_def)


lemma exit_returns:
  "(\<exists>w'. worker_exit C w = Some w')
     \<longleftrightarrow> (\<exists>n e. fst (wl_flush C ((flushed (wl_flush C) ^^ n) (snd (wl_ws_close C (wk_conn w))))) = Inl e)"
  using ws_close_returns [of "wl_ws_close C" "wl_flush C" "wk_conn w"] by (auto simp: worker_exit_def)

lemma start_inv: "worker_start C d c = Some w \<Longrightarrow> worker_inv w \<and> wk_events w = [] \<and> wk_waiter w = None"
  by (auto simp: worker_start_def worker_inv_def worker_sized_def Let_def split: if_splits prod.splits)

lemma reachable_inv: "worker_reachable C w \<Longrightarrow> worker_inv w"
proof (induction rule: worker_reachable.induct)
  case (start d c w)
  then show ?case by (blast dest: start_inv)
next
  case (step w i w')
  then have "going i" using iteration_ending [of w i C] by fastforce
  with step show ?case using iteration_going [of w i C] by fastforce
qed


text \<open>C6. The worker's loop never panics: from every reachable state and for every message the
  iteration completes, and it leaves the loop exactly on the shutdown message or a failed
  receive; a result and a parked caller never stay behind together, and a frame kept for delivery
  always fits the caller's page. What follows the loop may not complete: the exit returns exactly
  if a flush of the closing socket fails sooner or later, and then it has given back the page of a
  caller still parked.\<close>

theorem worker_never_panics:
  assumes "worker_reachable C w" and "ipc_ok i"
  shows "\<exists>go w'. worker_iteration C i w = Some (go, w') \<and> (go \<longleftrightarrow> (\<forall>s. i \<noteq> CancelMsg s) \<and> i \<noteq> ReceiveError)
    \<and> (wk_pending w' = None \<or> wk_waiter w' = None)
    \<and> (\<forall>b. wk_pending w = Some (PendBinary b) \<longrightarrow> length b \<le> WS_PROVISION_MAX)
    \<and> (\<not> go \<longrightarrow>
        ((\<exists>w''. worker_exit C w' = Some w'')
           \<longleftrightarrow> (\<exists>n e. fst (wl_flush C ((flushed (wl_flush C) ^^ n) (snd (wl_ws_close C (wk_conn w'))))) = Inl e))
        \<and> (\<forall>w''. worker_exit C w' = Some w'' \<longrightarrow>
             wk_waiter w'' = None \<and> answered (wk_events w'') = answered (wk_events w') @ parked w'))"
proof -
  note inv = reachable_inv [OF assms(1)]
  have "going i \<longleftrightarrow> (\<forall>s. i \<noteq> CancelMsg s) \<and> i \<noteq> ReceiveError" by (cases i) (simp_all add: going_def)
  then obtain w' where "worker_iteration C i w = Some ((\<forall>s. i \<noteq> CancelMsg s) \<and> i \<noteq> ReceiveError, w')" "wk_pending w' = None \<or> wk_waiter w' = None"
    using iteration_going [OF inv assms(2), of C] iteration_ending [OF inv, of i C] by (cases "going i") (auto simp: worker_inv_def)
  moreover have "\<forall>b. wk_pending w = Some (PendBinary b) \<longrightarrow> length b \<le> WS_PROVISION_MAX"
    using inv by (auto simp: worker_inv_def worker_sized_def pending_ok_def)
  ultimately show ?thesis
    using exit_answers [of C w'] exit_returns [of C w']
    by (intro exI [of _ "(\<forall>s. i \<noteq> CancelMsg s) \<and> i \<noteq> ReceiveError"] exI [of _ w']) simp
qed

definition demo_worker :: "log_conn ws_worker" where
  "demo_worker = \<lparr>wk_conn = \<lparr>lc_sent = [], lc_incoming = [Binary ''envelope''], lc_now = 5\<rparr>, wk_deadline_ms = 180005, wk_last_send_at = 5,
     wk_pending = None, wk_waiter = None, wk_flap_cancelled = False, wk_events = []\<rparr>"

lemma demo_start: "worker_start log_ws 180 \<lparr>lc_sent = [], lc_incoming = [Binary ''envelope''], lc_now = 5\<rparr> = Some demo_worker"
  by (simp add: worker_start_def log_ws_def demo_worker_def saturating_mul_def)

theorem worker_never_panics_witness:
  "(\<exists>w'. worker_iteration log_ws (WaitMsg \<lparr>wq_sender = 1, wq_page = GoodPage empty_buf True\<rparr>) demo_worker = Some (True, w')
     \<and> (wk_pending w' = None \<or> wk_waiter w' = None))
   \<and> (\<exists>w' w''. worker_iteration log_ws (CancelMsg 2) demo_worker = Some (False, w') \<and> worker_exit log_ws w' = Some w'')"
proof
  note start = worker_reachable.start [OF demo_start]
  have ok: "ipc_ok (WaitMsg \<lparr>wq_sender = 1, wq_page = GoodPage empty_buf True\<rparr>)" by (simp add: ipc_ok_def page_ok_def empty_buf_def)
  from worker_never_panics [OF start ok]
  show "\<exists>w'. worker_iteration log_ws (WaitMsg \<lparr>wq_sender = 1, wq_page = GoodPage empty_buf True\<rparr>) demo_worker = Some (True, w')
     \<and> (wk_pending w' = None \<or> wk_waiter w' = None)" by auto
  have "ipc_ok (CancelMsg 2)" by (simp add: ipc_ok_def)
  from worker_never_panics [OF start this]
  show "\<exists>w' w''. worker_iteration log_ws (CancelMsg 2) demo_worker = Some (False, w') \<and> worker_exit log_ws w' = Some w''"
    by (auto simp: log_ws_def)
qed



text \<open>A WiFi flap ends the wait: when a flap-cancel arrives with no result pending, the socket is
  left alone, a parked caller gets \<open>Cancelled\<close> at once, and otherwise the next caller does.\<close>

theorem flap_ends_wait:
  assumes "worker_reachable C w" and "wk_pending w = None"
  shows "\<exists>w'. worker_iteration C FlapMsg w = Some (True, w') \<and> wk_conn w' = wk_conn w \<and> wk_flap_cancelled w'
    \<and> (case wk_waiter w of
         Some m \<Rightarrow> \<forall>p. wq_page m = GoodPage p True \<longrightarrow>
           (\<exists>p'. wk_events w' = wk_events w @ [PageBack (wq_sender m) (GoodPage p' True)] \<and> result_of_buf p' = ResCancelled)
       | None \<Rightarrow> \<forall>m p. wq_page m = GoodPage p True \<longrightarrow>
           (\<exists>p' w''. worker_iteration C (WaitMsg m) w' = Some (True, w'')
              \<and> wk_events w'' = wk_events w @ [PageBack (wq_sender m) (GoodPage p' True)] \<and> result_of_buf p' = ResCancelled))"
proof -
  let ?f = "w\<lparr>wk_flap_cancelled := True, wk_pending := Some PendCancelled\<rparr>"
  have cancelled: "result_of_buf (p\<lparr>rb_status := STATUS_CANCELLED\<rparr>) = ResCancelled" for p by (simp add: result_of_buf_def)
  have drive: "ws_read_stage C (keepalive_stage C (deadline_stage C ?f)) = ?f"
    by (simp add: deadline_stage_def keepalive_stage_def ws_read_stage_def)
  have iter: "worker_iteration C FlapMsg w = map_option (Pair True) (deliver_stage ?f)"
    using assms(2) by (simp add: worker_iteration_def ipc_stage_def drive)
  show ?thesis
  proof (cases "wk_waiter w")
    case (Some m)
    have "page_ok (wq_page m)" using reachable_inv [OF assms(1)] Some by (simp add: worker_inv_def worker_sized_def)
    then obtain p where "fill_buf m PendCancelled = Some p" using fill_buf_ok [of m PendCancelled] by (auto simp: pending_ok_def)
    with Some show ?thesis unfolding iter
      by (auto simp: deliver_stage_def reply_def fill_buf_def fill_payload_def cancelled split: page.splits)
  next
    case None
    have quiet: "wk_flap_cancelled v \<Longrightarrow> wk_waiter v = None \<Longrightarrow>
        \<exists>v'. deliver_stage (ws_read_stage C (keepalive_stage C (deadline_stage C v))) = Some v' \<and> wk_events v' = wk_events v" for v
      by (auto simp: deliver_stage_def ws_read_stage_def keepalive_stage_def deadline_stage_def dest!: clock_simps split: prod.splits option.splits)
    have "\<exists>p' w''. worker_iteration C (WaitMsg m) ?f = Some (True, w'')
        \<and> wk_events w'' = wk_events w @ [PageBack (wq_sender m) (GoodPage p' True)] \<and> result_of_buf p' = ResCancelled"
      if "wq_page m = GoodPage p True" for m p
    proof -
      let ?e = "PageBack (wq_sender m) (GoodPage (p\<lparr>rb_status := STATUS_CANCELLED\<rparr>) True)"
      have "ipc_stage (WaitMsg m) ?f = Some (True, log_event ?e (?f\<lparr>wk_pending := None\<rparr>))"
        using that by (simp add: ipc_stage_def reply_def fill_buf_def fill_payload_def)
      moreover obtain v' where "deliver_stage (ws_read_stage C (keepalive_stage C (deadline_stage C (log_event ?e (?f\<lparr>wk_pending := None\<rparr>))))) = Some v'"
          "wk_events v' = wk_events w @ [?e]"
        using quiet [of "log_event ?e (?f\<lparr>wk_pending := None\<rparr>)"] None by auto
      ultimately show ?thesis using cancelled by (auto simp: worker_iteration_def)
    qed
    with None show ?thesis unfolding iter by (auto simp: deliver_stage_def)
  qed
qed

theorem flap_ends_wait_witness:
  "\<exists>w'. worker_iteration log_ws FlapMsg demo_worker = Some (True, w') \<and> wk_conn w' = wk_conn demo_worker"
  using flap_ends_wait [OF worker_reachable.start [OF demo_start]] by (auto simp: demo_worker_def)

end
