(* ===== verification/Wifi.thy ===== *)
theory Wifi
  imports Ws_Server
begin

text \<open>
  \<open>src/src/manager/wifi_observer.rs\<close> and \<open>src/src/manager/cancellation.rs\<close>: the snapshot of the WiFi
  link kept from the net service's broadcasts, its listeners, the one-way cancellation token
  and the flap watcher that ties them to a running provisioning attempt.

  The link states of \<open>com_rs\<close> are a type variable with the one value the code compares against,
  \<open>connected\<close>; instants are natural numbers. The listeners the program registers are the closures
  of \<open>FlapWatcher::new\<close>, whose callback cancels a token and sends one flap-cancel to the WebSocket
  worker of the attempt.
\<close>

section \<open>Definitions\<close>

subsection \<open>Tokens and the flap-cancel\<close>

text \<open>The shared flags: cancelled tokens, the workers already signalled, and the flap-cancels sent.\<close>

record signals =
  sg_cancelled :: "nat \<Rightarrow> bool"
  sg_flap_signaled :: "nat \<Rightarrow> bool"
  sg_sent :: "nat list"

definition token_new :: "nat \<Rightarrow> signals \<Rightarrow> signals" where
  "token_new t sg = sg\<lparr>sg_cancelled := (sg_cancelled sg)(t := False)\<rparr>"

definition token_cancel :: "nat \<Rightarrow> signals \<Rightarrow> signals" where
  "token_cancel t sg = sg\<lparr>sg_cancelled := (sg_cancelled sg)(t := True)\<rparr>"

definition is_cancelled :: "nat \<Rightarrow> signals \<Rightarrow> bool" where
  "is_cancelled t sg = sg_cancelled sg t"

definition send_flap :: "nat \<Rightarrow> signals \<Rightarrow> signals" where
  "send_flap server sg =
     (case cancel_flap (sg_flap_signaled sg server) of (send, flag) \<Rightarrow>
        sg\<lparr>sg_flap_signaled := (sg_flap_signaled sg)(server := flag),
           sg_sent := (if send then sg_sent sg @ [server] else sg_sent sg)\<rparr>)"

subsection \<open>The observer\<close>

record 'l wifi_state =
  wf_link_state :: 'l
  wf_last_change :: nat

record 'l flap_listener =
  fl_last :: 'l
  fl_token :: nat
  fl_server :: nat

record 'l observer =
  ob_state :: "'l wifi_state"
  ob_listeners :: "'l flap_listener list"
  ob_wakeups :: nat

definition observer_new :: "'l \<Rightarrow> nat \<Rightarrow> 'l observer" where
  "observer_new unknown now = \<lparr>ob_state = \<lparr>wf_link_state = unknown, wf_last_change = now\<rparr>, ob_listeners = [], ob_wakeups = 0\<rparr>"

definition is_connected :: "'l \<Rightarrow> 'l observer \<Rightarrow> bool" where
  "is_connected connected ob \<longleftrightarrow> wf_link_state (ob_state ob) = connected"

text \<open>The callback the manager installs, and the listener around it.\<close>

definition on_flap :: "'l flap_listener \<Rightarrow> signals \<Rightarrow> signals" where
  "on_flap l sg = send_flap (fl_server l) (token_cancel (fl_token l) sg)"

definition call_listener :: "'l \<Rightarrow> 'l wifi_state \<Rightarrow> 'l flap_listener \<Rightarrow> signals \<Rightarrow> 'l flap_listener \<times> signals" where
  "call_listener connected new l sg =
     (l\<lparr>fl_last := wf_link_state new\<rparr>,
      if fl_last l = connected \<and> wf_link_state new \<noteq> connected then on_flap l sg else sg)"

definition flap_watcher_new :: "nat \<Rightarrow> nat \<Rightarrow> 'l observer \<Rightarrow> 'l observer" where
  "flap_watcher_new token server ob =
     ob\<lparr>ob_listeners := ob_listeners ob @ [\<lparr>fl_last = wf_link_state (ob_state ob), fl_token = token, fl_server = server\<rparr>]\<rparr>"

fun notify :: "'l \<Rightarrow> 'l wifi_state \<Rightarrow> 'l flap_listener list \<Rightarrow> signals \<Rightarrow> 'l flap_listener list \<times> signals" where
  "notify connected new [] sg = ([], sg)"
| "notify connected new (l # ls) sg =
     (case call_listener connected new l sg of (l1, sg1) \<Rightarrow>
      case notify connected new ls sg1 of (ls1, sg2) \<Rightarrow> (l1 # ls1, sg2))"

definition update_state :: "'l \<Rightarrow> 'l wifi_state \<Rightarrow> 'l observer \<times> signals \<Rightarrow> 'l observer \<times> signals" where
  "update_state connected new w =
     (case w of (ob, sg) \<Rightarrow>
        if wf_last_change new < wf_last_change (ob_state ob) then w
        else case notify connected new (ob_listeners ob) sg of (ls, sg1) \<Rightarrow>
               (ob\<lparr>ob_state := new, ob_listeners := ls, ob_wakeups := ob_wakeups ob + 1\<rparr>, sg1))"

text \<open>The observer's worker: updates until shutdown or a receive error; what does not decode is
  skipped.\<close>

datatype wifi_msg = WifiUpdate u16 nat | WifiUndecodable | WifiUnknownOp | WifiShutdown | WifiReceiveError

fun observer_loop :: "(u16 \<Rightarrow> 'l) \<Rightarrow> 'l \<Rightarrow> wifi_msg list \<Rightarrow> 'l observer \<times> signals \<Rightarrow> 'l observer \<times> signals" where
  "observer_loop decode connected [] w = w"
| "observer_loop decode connected (m # ms) w =
     (case m of
        WifiShutdown \<Rightarrow> w
      | WifiReceiveError \<Rightarrow> w
      | WifiUpdate link now \<Rightarrow>
          observer_loop decode connected ms (update_state connected \<lparr>wf_link_state = decode link, wf_last_change = now\<rparr> w)
      | _ \<Rightarrow> observer_loop decode connected ms w)"

text \<open>\<open>wait_for_connection\<close>: each round sees the link, the time, whether the wait timed out and the
  link after it. \<open>None\<close> while the rounds so far have not ended the wait.\<close>

record wait_round =
  wr_connected :: bool
  wr_now :: nat
  wr_timed_out :: bool
  wr_connected_after :: bool

definition wait_timed_out :: io_error where
  "wait_timed_out = IoError TimedOut ''wait_for_connection timed out''"

fun wait_loop :: "nat \<Rightarrow> wait_round list \<Rightarrow> (io_error + unit) option" where
  "wait_loop deadline [] = None"
| "wait_loop deadline (r # rs) =
     (if wr_connected r then Some (Inr ())
      else if deadline \<le> wr_now r then Some (Inl wait_timed_out)
      else if wr_timed_out r \<and> \<not> wr_connected_after r then Some (Inl wait_timed_out)
      else wait_loop deadline rs)"

definition wait_for_connection :: "bool \<Rightarrow> nat \<Rightarrow> nat \<Rightarrow> wait_round list \<Rightarrow> (io_error + unit) option" where
  "wait_for_connection connected_now now timeout rs = (if connected_now then Some (Inr ()) else wait_loop (now + timeout) rs)"

section \<open>Flaps\<close>

text \<open>The specification: how often a sequence of links leaves \<open>connected\<close>.\<close>

fun flaps :: "'l \<Rightarrow> 'l \<Rightarrow> 'l list \<Rightarrow> nat" where
  "flaps connected prev [] = 0"
| "flaps connected prev (l # ls) = (if prev = connected \<and> l \<noteq> connected then 1 else 0) + flaps connected l ls"

fun apply_updates :: "'l \<Rightarrow> ('l \<times> nat) list \<Rightarrow> 'l observer \<times> signals \<Rightarrow> 'l observer \<times> signals" where
  "apply_updates connected [] w = w"
| "apply_updates connected ((l, t) # us) w = apply_updates connected us (update_state connected \<lparr>wf_link_state = l, wf_last_change = t\<rparr> w)"

lemma on_flap_signals:
  "sg_cancelled (on_flap l sg) t = (sg_cancelled sg t \<or> fl_token l = t)"
  "sg_flap_signaled (on_flap l sg) v = (sg_flap_signaled sg v \<or> fl_server l = v)"
  "count_list (sg_sent (on_flap l sg)) v = count_list (sg_sent sg) v + (if fl_server l = v \<and> \<not> sg_flap_signaled sg v then 1 else 0)"
  by (auto simp: on_flap_def send_flap_def token_cancel_def cancel_flap_def)

text \<open>Listeners aimed elsewhere do not matter.\<close>

definition elsewhere :: "nat \<Rightarrow> nat \<Rightarrow> 'l flap_listener list \<Rightarrow> bool" where
  "elsewhere t v ls \<longleftrightarrow> list_all (\<lambda>l. fl_token l \<noteq> t \<and> fl_server l \<noteq> v) ls"

lemma notify_elsewhere:
  "elsewhere t v ls \<Longrightarrow> notify connected new ls sg = (ls', sg') \<Longrightarrow>
   elsewhere t v ls' \<and> sg_cancelled sg' t = sg_cancelled sg t \<and> sg_flap_signaled sg' v = sg_flap_signaled sg v
     \<and> count_list (sg_sent sg') v = count_list (sg_sent sg) v"
proof (induction connected new ls sg arbitrary: ls' sg' rule: notify.induct)
  case (2 connected new l ls sg)
  then show ?case
    by (fastforce simp: elsewhere_def call_listener_def on_flap_signals split: prod.splits if_splits)
qed (simp add: elsewhere_def)

lemma notify_append:
  "notify connected new (xs @ ys) sg =
     (case notify connected new xs sg of (xs1, sg1) \<Rightarrow> case notify connected new ys sg1 of (ys1, sg2) \<Rightarrow> (xs1 @ ys1, sg2))"
  by (induction connected new xs sg rule: notify.induct) (simp_all split: prod.split)

lemma updates_flaps:
  assumes "elsewhere t v ls" "sorted (wf_last_change (ob_state ob) # map snd us)"
    and "ob_listeners ob = ls @ [\<lparr>fl_last = prev, fl_token = t, fl_server = v\<rparr>]"
    and "apply_updates connected us (ob, sg) = (ob', sg')"
  shows "sg_cancelled sg' t = (sg_cancelled sg t \<or> 0 < flaps connected prev (map fst us))
    \<and> count_list (sg_sent sg') v = count_list (sg_sent sg) v + (if \<not> sg_flap_signaled sg v \<and> 0 < flaps connected prev (map fst us) then 1 else 0)"
  using assms
proof (induction us arbitrary: ob sg ls prev)
  case (Cons u us)
  obtain l k where u: "u = (l, k)" by (cases u)
  let ?new = "\<lparr>wf_link_state = l, wf_last_change = k\<rparr>" and ?mine = "\<lparr>fl_last = prev, fl_token = t, fl_server = v\<rparr>"
  obtain ls1 sg1 where n1: "notify connected ?new ls sg = (ls1, sg1)" by (metis surj_pair)
  note e1 = notify_elsewhere [OF Cons.prems(1) n1]
  let ?sg2 = "if prev = connected \<and> l \<noteq> connected then on_flap ?mine sg1 else sg1"
  let ?ob = "ob\<lparr>ob_state := ?new, ob_listeners := ls1 @ [?mine\<lparr>fl_last := l\<rparr>], ob_wakeups := ob_wakeups ob + 1\<rparr>"
  have "notify connected ?new (ls @ [?mine]) sg = (ls1 @ [?mine\<lparr>fl_last := l\<rparr>], ?sg2)"
    by (simp add: notify_append n1 call_listener_def)
  then have up: "update_state connected ?new (ob, sg) = (?ob, ?sg2)"
    using Cons.prems(2,3) by (simp add: u update_state_def)
  have run: "apply_updates connected us (?ob, ?sg2) = (ob', sg')" using Cons.prems(4) by (simp only: u apply_updates.simps up)
  have "sorted (wf_last_change (ob_state ?ob) # map snd us)" using Cons.prems(2) by (simp add: u)
  from Cons.IH [OF conjunct1 [OF e1] this _ run, of l] show ?case
    using e1 by (auto simp: u on_flap_signals)
qed simp

text \<open>C8. A watcher reacts to exactly the flaps it can see: over any sequence of broadcasts in time
  order, the token of a new watcher is cancelled if and only if the link leaves \<open>connected\<close> at some
  point after the watcher was created, starting from the link the observer then had, and the
  worker gets exactly one flap-cancel however often that happens. A drop that was already
  recorded when the watcher is created cancels nothing.\<close>

theorem flap_cancels_exactly:
  assumes "elsewhere t v (ob_listeners ob)" and "sorted (wf_last_change (ob_state ob) # map snd us)"
    and "\<not> sg_cancelled sg t" and "\<not> sg_flap_signaled sg v" and "count_list (sg_sent sg) v = 0"
    and "apply_updates connected us (flap_watcher_new t v ob, sg) = (ob', sg')"
  shows "(is_cancelled t sg' \<longleftrightarrow> 0 < flaps connected (wf_link_state (ob_state ob)) (map fst us))
    \<and> count_list (sg_sent sg') v = (if is_cancelled t sg' then 1 else 0)"
  using updates_flaps [OF assms(1) _ _ assms(6), of "wf_link_state (ob_state ob)"] assms(2-5)
  by (auto simp: flap_watcher_new_def is_cancelled_def)

theorem flap_cancels_exactly_witness:
  "is_cancelled 0 (snd (apply_updates True [(True, 1), (False, 2), (True, 3), (False, 4)]
       (flap_watcher_new 0 5 (observer_new False 0), \<lparr>sg_cancelled = (\<lambda>_. False), sg_flap_signaled = (\<lambda>_. False), sg_sent = []\<rparr>)))
   \<and> count_list (sg_sent (snd (apply_updates True [(True, 1), (False, 2), (True, 3), (False, 4)]
       (flap_watcher_new 0 5 (observer_new False 0), \<lparr>sg_cancelled = (\<lambda>_. False), sg_flap_signaled = (\<lambda>_. False), sg_sent = []\<rparr>)))) 5 = 1"
  using flap_cancels_exactly [of 0 5 "observer_new False 0" "[(True, 1), (False, 2), (True, 3), (False, 4)]"
      "\<lparr>sg_cancelled = (\<lambda>_. False), sg_flap_signaled = (\<lambda>_. False), sg_sent = []\<rparr>" True, OF _ _ _ _ _ prod.collapse [symmetric]]
  by (simp add: elsewhere_def observer_new_def)

end
