(* ===== verification/Manager.thy ===== *)
theory Manager
  imports Account Wifi
begin

text \<open>
  \<open>src/src/manager.rs\<close> with \<open>src/src/manager/config.rs\<close>, \<open>src/src/manager/trust_mode.rs\<close>,
  \<open>src/src/manager/link_state.rs\<close> and \<open>src/src/manager/group_permission.rs\<close>: the manager that links this device and
  starts the receive threads.

  A provisioning attempt runs three threads: the main thread, the WebSocket worker and the WiFi
  observer. The worker and the observer are those of \<open>Ws_Server\<close> and \<open>Wifi\<close>; what they do while the
  main thread is blocked is a list of turns, an input of the model, so that every interleaving is
  covered. The worker leaves its loop, closes its socket (which may never end) and is gone; the
  main thread goes on as soon as its handshake is answered. \<open>None\<close> is a main thread that has
  panicked or is still blocked when the turns end.
\<close>

section \<open>Definitions\<close>

subsection \<open>Settings\<close>

datatype trust_mode = OnFirstUse | Always | Never

fun trust_mode_to_string :: "trust_mode \<Rightarrow> string" where
  "trust_mode_to_string OnFirstUse = ''OnFirstUse''"
| "trust_mode_to_string Always = ''Always''"
| "trust_mode_to_string Never = ''Never''"

definition trust_mode_from_str :: "string \<Rightarrow> trust_mode option" where
  "trust_mode_from_str input =
     (if input = ''OnFirstUse'' then Some OnFirstUse
      else if input = ''Always'' then Some Always
      else if input = ''Never'' then Some Never else None)"

datatype link_state = Enabled | EnabledWithApproval | Disabled

fun link_state_to_string :: "link_state \<Rightarrow> string" where
  "link_state_to_string Enabled = ''Enabled''"
| "link_state_to_string EnabledWithApproval = ''EnabledWithApproval''"
| "link_state_to_string Disabled = ''Disabled''"

definition link_state_from_str :: "string \<Rightarrow> link_state option" where
  "link_state_from_str input =
     (if input = ''Enabled'' then Some Enabled
      else if input = ''EnabledWithApproval'' then Some EnabledWithApproval
      else if input = ''Disabled'' then Some Disabled else None)"

datatype group_permission = EveryMember | OnlyAdmins

fun group_permission_to_string :: "group_permission \<Rightarrow> string" where
  "group_permission_to_string EveryMember = ''EveryMember''"
| "group_permission_to_string OnlyAdmins = ''OnlyAdmins''"

definition group_permission_from_str :: "string \<Rightarrow> group_permission option" where
  "group_permission_from_str input =
     (if input = ''EveryMember'' then Some EveryMember
      else if input = ''OnlyAdmins'' then Some OnlyAdmins else None)"

text \<open>The configuration; \<open>None\<close> when \<open>unwrap\<close> panics on the URL.\<close>

record config =
  cf_host :: host
  cf_service_environment :: service_environment
  cf_url :: url

definition config_new :: "account_lib \<Rightarrow> host \<Rightarrow> service_environment \<Rightarrow> config option" where
  "config_new A h env =
     (let host_base = al_host_to_string A h;
          url = (case env of
                   Live \<Rightarrow> al_url_parse A (''https://chat.'' @ host_base)
                 | Staging \<Rightarrow> al_url_parse A (''https://chat.staging.'' @ host_base))
      in map_option (\<lambda>u. \<lparr>cf_host = h, cf_service_environment = env, cf_url = u\<rparr>) (res_ok url))"

record manager =
  mg_account :: account
  mg_config :: config
  mg_trust_mode :: trust_mode
  mg_websocket :: "nat option"
  mg_log_verbose :: bool
  mg_log_scrub :: bool
  mg_log_send :: bool

definition manager_new :: "account_lib \<Rightarrow> account \<Rightarrow> trust_mode \<Rightarrow> manager option" where
  "manager_new A a mode =
     map_option (\<lambda>cfg. \<lparr>mg_account = a, mg_config = cfg, mg_trust_mode = mode, mg_websocket = None,
                        mg_log_verbose = False, mg_log_scrub = False, mg_log_send = False\<rparr>)
       (config_new A (ac_host a) (ac_service_environment a))"

definition trust_mode_set :: "trust_mode \<Rightarrow> manager \<Rightarrow> manager" where
  "trust_mode_set mode m = m\<lparr>mg_trust_mode := mode\<rparr>"

subsection \<open>The threads of a provisioning attempt\<close>

text \<open>A turn of one of the other threads: the observer gets a broadcast, the worker runs one
  iteration, or the worker's \<open>try_receive_message\<close> fails.\<close>

datatype 'l turn = Broadcast 'l nat | WorkerTurn | WorkerReceiveError

text \<open>Where the worker thread is: in its loop, closing its socket after it, or gone with its server.\<close>

datatype worker_phase = InLoop | Closing | Gone

record ('l, 'c) session =
  se_observer :: "'l observer"
  se_signals :: signals
  se_worker :: "'c ws_worker"
  se_phase :: worker_phase
  se_inbox :: "ipc list"

text \<open>A broadcast runs the listeners; a flap-cancel they send to this worker arrives in its inbox.\<close>

definition broadcast :: "'l \<Rightarrow> nat \<Rightarrow> 'l \<Rightarrow> nat \<Rightarrow> ('l, 'c) session \<Rightarrow> ('l, 'c) session" where
  "broadcast connected server l now se =
     (case update_state connected \<lparr>wf_link_state = l, wf_last_change = now\<rparr> (se_observer se, se_signals se) of (ob, sg) \<Rightarrow>
        se\<lparr>se_observer := ob, se_signals := sg,
           se_inbox := se_inbox se @ replicate (count_list (sg_sent sg) server - count_list (sg_sent (se_signals se)) server) FlapMsg\<rparr>)"

definition worker_step :: "'c ws_lib \<Rightarrow> ipc \<Rightarrow> ('l, 'c) session \<Rightarrow> ('l, 'c) session option" where
  "worker_step C i se =
     map_option (\<lambda>(go, w). se\<lparr>se_worker := w, se_phase := if go then InLoop else Closing\<rparr>) (worker_iteration C i (se_worker se))"

text \<open>A closing worker whose close does not return stays as it is.\<close>

definition worker_finish :: "'c ws_lib \<Rightarrow> ('l, 'c) session \<Rightarrow> ('l, 'c) session" where
  "worker_finish C se =
     (case worker_exit C (se_worker se) of None \<Rightarrow> se | Some w \<Rightarrow> se\<lparr>se_worker := w, se_phase := Gone\<rparr>)"

definition worker_turn :: "'c ws_lib \<Rightarrow> ('l, 'c) session \<Rightarrow> ('l, 'c) session option" where
  "worker_turn C se =
     (case se_phase se of
        InLoop \<Rightarrow>
          (case se_inbox se of
             [] \<Rightarrow> worker_step C NoMessage se
           | i # is \<Rightarrow> worker_step C i (se\<lparr>se_inbox := is\<rparr>))
      | Closing \<Rightarrow> Some (worker_finish C se)
      | Gone \<Rightarrow> Some se)"

fun turn_step :: "'c ws_lib \<Rightarrow> 'l \<Rightarrow> nat \<Rightarrow> 'l turn \<Rightarrow> ('l, 'c) session \<Rightarrow> ('l, 'c) session option" where
  "turn_step C connected server (Broadcast l now) se = Some (broadcast connected server l now se)"
| "turn_step C connected server WorkerTurn se = worker_turn C se"
| "turn_step C connected server WorkerReceiveError se =
     (if se_phase se = InLoop then worker_step C ReceiveError se else Some se)"

fun turns :: "'c ws_lib \<Rightarrow> 'l \<Rightarrow> nat \<Rightarrow> 'l turn list \<Rightarrow> ('l, 'c) session \<Rightarrow> ('l, 'c) session option" where
  "turns C connected server [] se = Some se"
| "turns C connected server (t # ts) se = Option.bind (turn_step C connected server t se) (turns C connected server ts)"

definition post_ipc :: "ipc \<Rightarrow> ('l, 'c) session \<Rightarrow> ('l, 'c) session" where
  "post_ipc i se = se\<lparr>se_inbox := se_inbox se @ [i]\<rparr>"

text \<open>\<open>wait_and_take_binary\<close>: the page is lent and the main thread blocks until it comes back. A
  page lent to a server that is gone fails with \<open>gone\<close>, the kernel's error.\<close>

fun page_back :: "ws_event list \<Rightarrow> ws_result_buf option" where
  "page_back [] = None"
| "page_back (PageBack _ (GoodPage b _) # es) = Some b"
| "page_back (_ # es) = page_back es"

fun await_page ::
  "'c ws_lib \<Rightarrow> string \<Rightarrow> 'l \<Rightarrow> nat \<Rightarrow> 'l turn list \<Rightarrow> ('l, 'c) session \<Rightarrow> (ws_result \<times> ('l, 'c) session) option" where
  "await_page C gone connected server [] se = None"
| "await_page C gone connected server (t # ts) se =
     Option.bind (turn_step C connected server t se) (\<lambda>se1.
       case page_back (wk_events (se_worker se1)) of
         Some b \<Rightarrow> Some (wait_and_take_binary (Inr ()) (Inr ()) (Inr b), se1)
       | None \<Rightarrow>
           (if se_phase se1 \<noteq> Gone then await_page C gone connected server ts se1
            else Some (wait_and_take_binary (Inr ()) (Inl gone) (Inr empty_buf), se1)))"

definition lend_page ::
  "'c ws_lib \<Rightarrow> string \<Rightarrow> 'l \<Rightarrow> nat \<Rightarrow> 'l turn list \<Rightarrow> ('l, 'c) session \<Rightarrow> (ws_result \<times> ('l, 'c) session) option" where
  "lend_page C gone connected server ts se =
     (if se_phase se \<noteq> Gone
      then await_page C gone connected server ts (post_ipc (WaitMsg \<lparr>wq_sender = 0, wq_page = GoodPage empty_buf True\<rparr>) se)
      else Some (wait_and_take_binary (Inr ()) (Inl gone) (Inr empty_buf), se))"

text \<open>\<open>cancel\<close>: a blocking scalar. After the other threads' turns the worker takes what is in its
  inbox, the shutdown last, and a worker that has left its loop finishes; the main thread goes on
  when its scalar is answered or the server is gone, and is blocked for ever otherwise.\<close>

definition cancel_over :: "('l, 'c) session \<Rightarrow> bool" where
  "cancel_over se \<longleftrightarrow> ScalarBack 0 \<in> set (wk_events (se_worker se)) \<or> se_phase se = Gone"

fun drain :: "'c ws_lib \<Rightarrow> nat \<Rightarrow> ('l, 'c) session \<Rightarrow> ('l, 'c) session option" where
  "drain C n se =
     (if cancel_over se then Some se
      else case n of 0 \<Rightarrow> None | Suc k \<Rightarrow> Option.bind (worker_turn C se) (drain C k))"

declare drain.simps [simp del]

definition cancel_server :: "'c ws_lib \<Rightarrow> 'l \<Rightarrow> nat \<Rightarrow> 'l turn list \<Rightarrow> ('l, 'c) session \<Rightarrow> ('l, 'c) session option" where
  "cancel_server C connected server ts se =
     Option.bind (turns C connected server ts (post_ipc (CancelMsg 0) se)) (\<lambda>se1. drain C (Suc (length (se_inbox se1))) se1)"

subsection \<open>One provisioning attempt\<close>

text \<open>\<open>'n\<close> is the state of the network, \<open>'t\<close> a TCP stream, \<open>'c\<close> an open connection.\<close>

record ('n, 't, 'c) prov_env =
  pv_net :: "('n, 't, 'c) net_lib"
  pv_ws :: "'c ws_lib"
  pv_set_read_timeout :: "nat option \<Rightarrow> 'c \<Rightarrow> ('c, io_error, unit) sres"
  pv_parse_with_params :: "string \<Rightarrow> (string \<times> string) list \<Rightarrow> string + string"
  pv_std_no_pad_encode :: "bytes \<Rightarrow> string"
  pv_gone :: string

text \<open>What the rest of the system does during one attempt: the network that the attempt finds when it
  connects, the broadcasts until the watcher is attached, the answers of the name server, the modals and the
  thread spawn, and the turns while the QR code is shown, while the result is awaited and during
  the shutdown.\<close>

record ('l, 'n) attempt_input =
  at_net :: 'n
  at_before :: "('l \<times> nat) list"
  at_names :: "string + unit"
  at_modals :: "string + unit"
  at_spawn :: "io_error + unit"
  at_shown :: "'l turn list"
  at_notification :: "string + unit"
  at_waiting :: "'l turn list"
  at_cancelling :: "'l turn list"

text \<open>The world of an attempt: the observer, the shared flags, the random generator, the QR codes
  shown and the connections that the main thread has closed.\<close>

record ('l, 'c, 'g) attempt_world =
  aw_observer :: "'l observer"
  aw_signals :: signals
  aw_rng :: 'g
  aw_shown :: "string list"
  aw_closed :: "'c list"

definition link_err :: io_error where
  "link_err = IoError OtherKind ''failed to link device''"

definition initial_uuid :: "wire_codec \<Rightarrow> ('n, 't, 'c) prov_env \<Rightarrow> 'c \<Rightarrow> (io_error + string) \<times> 'c" where
  "initial_uuid W E c =
     (case read_once (pv_ws E) (pv_set_read_timeout E) 5000 c of
        (Inr (Binary uuid), c1) \<Rightarrow> (map_err (\<lambda>_. link_err) (provisioning_uuid_decode W uuid), c1)
      | (_, c1) \<Rightarrow> (Inl link_err, c1))"

definition device_link_uri :: "libsignal \<Rightarrow> ('n, 't, 'c) prov_env \<Rightarrow> identity_key_pair \<Rightarrow> string \<Rightarrow> io_error + string" where
  "device_link_uri L E keys uuid =
     (let b = (case b64_url_decode L (ik_djb_identity_key keys) of Inl _ \<Rightarrow> [] | Inr b \<Rightarrow> b) in
      if length b \<noteq> 33 then Inl link_err
      else map_err (\<lambda>_. link_err)
             (pv_parse_with_params E ''sgnl://linkdevice''
                [(''uuid'', uuid), (''pub_key'', pv_std_no_pad_encode E b), (''capabilities'', ''backup5'')]))"

definition attempt_result :: "identity_key_pair \<Rightarrow> ws_result \<Rightarrow> io_error + bytes \<times> identity_key_pair" where
  "attempt_result keys r =
     (case r of
        ResBinary b \<Rightarrow> Inr (b, keys)
      | ResClosed \<Rightarrow> Inl link_err
      | ResTimedOut \<Rightarrow> Inl link_err
      | ResCancelled \<Rightarrow> Inl (IoError Interrupted ''ws cancelled by flap watcher'')
      | ResError _ \<Rightarrow> Inl link_err)"

text \<open>From the spawn of the worker on: the watcher, the QR code, the wait and the shutdown.\<close>

definition end_session :: "('l, 'c) session \<Rightarrow> ('l, 'c, 'g) attempt_world \<Rightarrow> ('l, 'c, 'g) attempt_world" where
  "end_session se w =
     w\<lparr>aw_observer := se_observer se, aw_signals := se_signals se\<rparr>"

definition provision_session ::
  "('n, 't, 'c) prov_env \<Rightarrow> 'l \<Rightarrow> nat \<Rightarrow> nat \<Rightarrow> ('l, 'n) attempt_input \<Rightarrow> identity_key_pair \<Rightarrow> string \<Rightarrow> 'c \<Rightarrow> ('l, 'c, 'g) attempt_world
     \<Rightarrow> ((io_error + bytes \<times> identity_key_pair) \<times> ('l, 'c, 'g) attempt_world) option" where
  "provision_session E connected token server i keys uri c w =
     (let C = pv_ws E in
      Option.bind (worker_start C 180 c) (\<lambda>wk.
      let se = \<lparr>se_observer = flap_watcher_new token server (aw_observer w), se_signals = aw_signals w,
                se_worker = wk, se_phase = InLoop, se_inbox = []\<rparr>;
          w = w\<lparr>aw_shown := aw_shown w @ [uri]\<rparr>
      in Option.bind (turns C connected server (at_shown i) se) (\<lambda>se1.
         case at_notification i of
           Inl _ \<Rightarrow>
             map_option (\<lambda>se2. (Inl link_err, end_session se2 w)) (cancel_server C connected server (at_cancelling i) se1)
         | Inr _ \<Rightarrow>
             Option.bind (lend_page C (pv_gone E) connected server (at_waiting i) se1) (\<lambda>(result, se2).
             map_option (\<lambda>se3. (attempt_result keys result, end_session se3 w))
               (cancel_server C connected server (at_cancelling i) se2)))))"

text \<open>The early failures close the connection on the main thread, which blocks it (\<open>None\<close>) when the
  close does not return; a failed thread spawn has moved it into the closure and drops it.\<close>

definition fail_closing ::
  "('n, 't, 'c) prov_env \<Rightarrow> 'c \<Rightarrow> ('l, 'c, 'g) attempt_world \<Rightarrow> ((io_error + 'a) \<times> ('l, 'c, 'g) attempt_world) option" where
  "fail_closing E c w =
     map_option (\<lambda>c1. (Inl link_err, w\<lparr>aw_closed := aw_closed w @ [c1]\<rparr>))
       (ws_close (wl_ws_close (pv_ws E)) (wl_flush (pv_ws E)) c)"

definition provision_one_attempt ::
  "wire_codec \<Rightarrow> libsignal \<Rightarrow> 'g crypto \<Rightarrow> ('n, 't, 'c) prov_env \<Rightarrow> 'l \<Rightarrow> config \<Rightarrow> nat \<Rightarrow> nat \<Rightarrow> ('l, 'n) attempt_input
     \<Rightarrow> ('l, 'c, 'g) attempt_world \<Rightarrow> ((io_error + bytes \<times> identity_key_pair) \<times> ('l, 'c, 'g) attempt_world) option" where
  "provision_one_attempt W L Y E connected cfg token server i w0 =
     (case apply_updates connected (at_before i) (aw_observer w0, aw_signals w0) of (ob, sg) \<Rightarrow>
      let w = w0\<lparr>aw_observer := ob, aw_signals := sg\<rparr>
      in Option.bind (open_provision (pv_net E) (cf_url cfg) (at_net i)) (\<lambda>(r, _).
         case r of
           Inl e \<Rightarrow> Some (Inl e, w)
         | Inr c \<Rightarrow>
             (case initial_uuid W E c of
                (Inl _, c1) \<Rightarrow> fail_closing E c1 w
              | (Inr uuid, c1) \<Rightarrow>
                  (case generate_identity_key_pair L Y (aw_rng w) of (keys, g) \<Rightarrow>
                     let w = w\<lparr>aw_rng := g\<rparr> in
                     case device_link_uri L E keys uuid of
                       Inl _ \<Rightarrow> fail_closing E c1 w
                     | Inr uri \<Rightarrow>
                         (case at_names i of
                            Inl _ \<Rightarrow> fail_closing E c1 w
                          | Inr _ \<Rightarrow>
                              (case at_modals i of
                                 Inl _ \<Rightarrow> fail_closing E c1 w
                               | Inr _ \<Rightarrow>
                                   (case at_spawn i of
                                      Inl _ \<Rightarrow> Some (Inl link_err, w)
                                    | Inr _ \<Rightarrow> provision_session E connected token server i keys uri c1 w)))))))"

subsection \<open>Linking\<close>

text \<open>The rounds of \<open>wait_for_connection\<close> as the observer sees them: the broadcasts of a round, the
  clock at its start and whether the condition variable timed out.\<close>

type_synonym 'l wait_input = "(('l \<times> nat) list \<times> nat \<times> bool) list"

fun observed_rounds :: "'l \<Rightarrow> 'l wait_input \<Rightarrow> 'l observer \<times> signals \<Rightarrow> wait_round list" where
  "observed_rounds connected [] w = []"
| "observed_rounds connected ((us, now, timed_out) # rs) w =
     (let w1 = apply_updates connected us w in
      \<lparr>wr_connected = is_connected connected (fst w), wr_now = now, wr_timed_out = timed_out,
       wr_connected_after = is_connected connected (fst w1)\<rparr> # observed_rounds connected rs w1)"

fun after_rounds :: "'l \<Rightarrow> 'l wait_input \<Rightarrow> 'l observer \<times> signals \<Rightarrow> 'l observer \<times> signals" where
  "after_rounds connected [] w = w"
| "after_rounds connected ((us, _, _) # rs) w = after_rounds connected rs (apply_updates connected us w)"

record ('l, 'n) link_input =
  li_subscribed :: bool
  li_now :: nat
  li_first :: "('l, 'n) attempt_input"
  li_wait_now :: nat
  li_wait :: "'l wait_input"
  li_second :: "('l, 'n) attempt_input"

text \<open>Without a subscription the observer never hears a broadcast.\<close>

definition unheard :: "('l, 'n) attempt_input \<Rightarrow> ('l, 'n) attempt_input" where
  "unheard i =
     (let worker_only = filter (\<lambda>t. case t of Broadcast _ _ \<Rightarrow> False | _ \<Rightarrow> True) in
      i\<lparr>at_before := [], at_shown := worker_only (at_shown i), at_waiting := worker_only (at_waiting i),
        at_cancelling := worker_only (at_cancelling i)\<rparr>)"

definition heard :: "('l, 'n) link_input \<Rightarrow> ('l, 'n) link_input" where
  "heard i =
     (if li_subscribed i then i
      else i\<lparr>li_first := unheard (li_first i), li_second := unheard (li_second i),
             li_wait := map (\<lambda>(_, r). ([], r)) (li_wait i)\<rparr>)"

text \<open>The world outside an attempt, and the last part of \<open>link\<close>: decode the message and link the
  account; a failed \<open>Account::link\<close> is \<open>Ok(false)\<close>.\<close>

record ('c, 's, 'g, 'h) manager_world =
  mw_store :: 's
  mw_rng :: 'g
  mw_net :: 'h
  mw_shown :: "string list"
  mw_closed :: "'c list"

definition finish_link ::
  "wire_codec \<Rightarrow> libsignal \<Rightarrow> 'g crypto \<Rightarrow> 'g attrs_lib \<Rightarrow> 'g keygen \<Rightarrow> 'h rest_lib \<Rightarrow> account_lib \<Rightarrow> 's pddb \<Rightarrow> string
     \<Rightarrow> bytes \<times> identity_key_pair \<Rightarrow> manager \<Rightarrow> ('c, 's, 'g, 'h) manager_world
     \<Rightarrow> ((io_error + bool) \<times> manager \<times> ('c, 's, 'g, 'h) manager_world) option" where
  "finish_link W L Y T G H A P name provisioned m w =
     (case provision_message_decode W L Y (snd provisioned) (fst provisioned) of
        Inl _ \<Rightarrow> Some (Inl link_err, m, w)
      | Inr msg \<Rightarrow>
          (case link W L Y T G H A P name msg
                  \<lparr>lw_account = mg_account m, lw_store = mw_store w, lw_rng = mw_rng w, lw_net = mw_net w\<rparr> of (r, lw) \<Rightarrow>
             let m1 = m\<lparr>mg_account := lw_account lw\<rparr>;
                 w1 = w\<lparr>mw_store := lw_store lw, mw_rng := lw_rng lw, mw_net := lw_net lw\<rparr>
             in case r of
                  Inr linked \<Rightarrow> Some (Inr linked, m1, w1)
                | Inl (IoFault _) \<Rightarrow> Some (Inr False, m1, w1)
                | Inl UnwrapPanic \<Rightarrow> None))"

definition keep_attempt :: "('l, 'c, 'g) attempt_world \<Rightarrow> ('c, 's, 'g, 'h) manager_world \<Rightarrow> ('c, 's, 'g, 'h) manager_world" where
  "keep_attempt aw w = w\<lparr>mw_rng := aw_rng aw, mw_shown := aw_shown aw, mw_closed := aw_closed aw\<rparr>"

definition no_signals :: signals where
  "no_signals = \<lparr>sg_cancelled = (\<lambda>_. False), sg_flap_signaled = (\<lambda>_. False), sg_sent = []\<rparr>"

text \<open>The world of the first attempt, and of the second, after the wait for the link.\<close>

definition first_world :: "'l \<Rightarrow> nat \<Rightarrow> ('c, 's, 'g, 'h) manager_world \<Rightarrow> ('l, 'c, 'g) attempt_world" where
  "first_world unknown now w =
     \<lparr>aw_observer = observer_new unknown now, aw_signals = token_new 0 no_signals,
      aw_rng = mw_rng w, aw_shown = mw_shown w, aw_closed = mw_closed w\<rparr>"

definition second_world :: "'l \<Rightarrow> 'l wait_input \<Rightarrow> ('l, 'c, 'g) attempt_world \<Rightarrow> ('l, 'c, 'g) attempt_world" where
  "second_world connected rounds aw =
     (case after_rounds connected rounds (aw_observer aw, aw_signals aw) of (ob, sg) \<Rightarrow>
        aw\<lparr>aw_observer := ob, aw_signals := token_new 1 sg\<rparr>)"

definition reconnected :: "'l \<Rightarrow> nat \<Rightarrow> 'l wait_input \<Rightarrow> ('l, 'c, 'g) attempt_world \<Rightarrow> (io_error + unit) option" where
  "reconnected connected now rounds aw =
     wait_for_connection (is_connected connected (aw_observer aw)) now 120000
       (observed_rounds connected rounds (aw_observer aw, aw_signals aw))"

definition manager_link ::
  "wire_codec \<Rightarrow> libsignal \<Rightarrow> 'g crypto \<Rightarrow> 'g attrs_lib \<Rightarrow> 'g keygen \<Rightarrow> 'h rest_lib \<Rightarrow> account_lib \<Rightarrow> 's pddb
     \<Rightarrow> ('n, 't, 'c) prov_env \<Rightarrow> 'l \<Rightarrow> 'l \<Rightarrow> ('l, 'n) link_input \<Rightarrow> string \<Rightarrow> manager \<Rightarrow> ('c, 's, 'g, 'h) manager_world
     \<Rightarrow> ((io_error + bool) \<times> manager \<times> ('c, 's, 'g, 'h) manager_world) option" where
  "manager_link W L Y T G H A P E connected unknown input name m w =
     (let i = heard input in
      Option.bind (provision_one_attempt W L Y E connected (mg_config m) 0 0 (li_first i) (first_world unknown (li_now i) w)) (\<lambda>(r1, aw1).
        case r1 of
          Inr provisioned \<Rightarrow> finish_link W L Y T G H A P name provisioned m (keep_attempt aw1 w)
        | Inl e \<Rightarrow>
            if is_cancelled 0 (aw_signals aw1) then
              Option.bind (reconnected connected (li_wait_now i) (li_wait i) aw1) (\<lambda>wr.
                case wr of
                  Inl _ \<Rightarrow> Some (Inl link_err, m, keep_attempt aw1 w)
                | Inr _ \<Rightarrow>
                    Option.bind (provision_one_attempt W L Y E connected (mg_config m) 1 1 (li_second i)
                                   (second_world connected (li_wait i) aw1)) (\<lambda>(r2, aw2).
                    case r2 of
                      Inl _ \<Rightarrow> Some (Inl link_err, m, keep_attempt aw2 w)
                    | Inr provisioned \<Rightarrow> finish_link W L Y T G H A P name provisioned m (keep_attempt aw2 w)))
            else Some (Inl e, m, keep_attempt aw1 w)))"

subsection \<open>Receiving\<close>

text \<open>The threads \<open>start_receive\<close> spawns; \<open>replenish_aci_one_time_prekeys\<close> and \<open>main_ws_worker_loop\<close> run in them.\<close>

datatype thread = ReplenishThread url string u32 string | ReceiveThread string u32 string string

definition manager_start_receive ::
  "account_lib \<Rightarrow> bool \<Rightarrow> string + unit \<Rightarrow> manager \<Rightarrow> (io_error + unit) \<times> thread list" where
  "manager_start_receive A replenish_spawned receive_spawn m =
     (let a = mg_account m in
      case ac_aci_service_id a of
        None \<Rightarrow> (Inl (IoError OtherKind ''account has no ACI service_id''), [])
      | Some aci \<Rightarrow>
          (case ac_password a of
             None \<Rightarrow> (Inl (IoError OtherKind ''account has no password''), [])
           | Some password \<Rightarrow>
               (let host = chat_host A a;
                    replenish = (case al_url_parse A (''https://'' @ host) of
                                   Inl _ \<Rightarrow> []
                                 | Inr url \<Rightarrow> if replenish_spawned then [ReplenishThread url aci (ac_device_id a) password] else [])
                in case receive_spawn of
                     Inl e \<Rightarrow> (Inl (IoError OtherKind (''start_receive: main_ws spawn: '' @ e)), replenish)
                   | Inr _ \<Rightarrow> (Inr (), replenish @ [ReceiveThread aci (ac_device_id a) password host]))))"

section \<open>An interrupted wait is a flap\<close>

text \<open>Listeners that signal this server cancel this token.\<close>

definition aimed :: "nat \<Rightarrow> nat \<Rightarrow> 'l flap_listener list \<Rightarrow> bool" where
  "aimed token server ls \<longleftrightarrow> list_all (\<lambda>l. fl_server l = server \<longrightarrow> fl_token l = token) ls"

lemma aimed_Nil [simp]: "aimed t v []"
  and aimed_append [simp]: "aimed t v (ls @ ms) \<longleftrightarrow> aimed t v ls \<and> aimed t v ms"
  by (simp_all add: aimed_def)

lemma notify_aimed:
  "aimed t v ls \<Longrightarrow> notify connected new ls sg = (ls', sg') \<Longrightarrow>
   aimed t v ls' \<and> (sg_cancelled sg t \<longrightarrow> sg_cancelled sg' t)
     \<and> count_list (sg_sent sg) v \<le> count_list (sg_sent sg') v
     \<and> (count_list (sg_sent sg') v \<noteq> count_list (sg_sent sg) v \<longrightarrow> sg_cancelled sg' t)"
proof (induction connected new ls sg arbitrary: ls' sg' rule: notify.induct)
  case (2 connected new l ls sg)
  obtain l1 sg1 where c: "call_listener connected new l sg = (l1, sg1)" by (metis surj_pair)
  obtain ls1 sg2 where n: "notify connected new ls sg1 = (ls1, sg2)" by (metis surj_pair)
  have "aimed t v ls" "fl_server l = v \<longrightarrow> fl_token l = t" using 2(2) by (simp_all add: aimed_def)
  moreover have "fl_server l1 = fl_server l" "fl_token l1 = fl_token l"
    "sg1 = (if fl_last l = connected \<and> wf_link_state new \<noteq> connected then on_flap l sg else sg)"
    using c by (auto simp: call_listener_def)
  ultimately show ?case
    using 2(1) [OF c [symmetric] \<open>aimed t v ls\<close> n] 2(3) c n by (auto simp: aimed_def on_flap_signals split: if_splits)
qed auto

lemma update_aimed:
  assumes "aimed t v (ob_listeners ob)" "update_state connected new (ob, sg) = (ob', sg')"
  shows "aimed t v (ob_listeners ob')" "sg_cancelled sg t \<Longrightarrow> sg_cancelled sg' t"
    "count_list (sg_sent sg') v \<noteq> count_list (sg_sent sg) v \<Longrightarrow> sg_cancelled sg' t"
proof -
  obtain ls1 sg1 where n: "notify connected new (ob_listeners ob) sg = (ls1, sg1)" by (metis surj_pair)
  note * = notify_aimed [OF assms(1) n]
  show "aimed t v (ob_listeners ob')" "sg_cancelled sg t \<Longrightarrow> sg_cancelled sg' t"
    "count_list (sg_sent sg') v \<noteq> count_list (sg_sent sg) v \<Longrightarrow> sg_cancelled sg' t"
    using assms * n by (auto simp: update_state_def split: if_splits)
qed

text \<open>While the token is not cancelled nothing in the session says \<open>Cancelled\<close>.\<close>

definition calm_page :: "page \<Rightarrow> bool" where
  "calm_page p \<longleftrightarrow> (case p of GoodPage b _ \<Rightarrow> length (rb_bytes b) = WS_PROVISION_MAX \<and> result_of_buf b \<noteq> ResCancelled | _ \<Rightarrow> True)"

definition calm_ipc :: "ipc \<Rightarrow> bool" where
  "calm_ipc i \<longleftrightarrow> (case i of WaitMsg m \<Rightarrow> calm_page (wq_page m) | FlapMsg \<Rightarrow> False | CancelMsg _ \<Rightarrow> False | _ \<Rightarrow> True)"

definition calm_pending :: "pending_result option \<Rightarrow> bool" where
  "calm_pending r \<longleftrightarrow> (case r of None \<Rightarrow> True | Some r \<Rightarrow> pending_ok r \<and> r \<noteq> PendCancelled)"

definition calm_worker :: "'c ws_worker \<Rightarrow> bool" where
  "calm_worker w \<longleftrightarrow> calm_pending (wk_pending w) \<and> (\<forall>m. wk_waiter w = Some m \<longrightarrow> calm_page (wq_page m))
     \<and> (\<forall>s p. PageBack s p \<in> set (wk_events w) \<longrightarrow> calm_page p)"

definition calm :: "nat \<Rightarrow> nat \<Rightarrow> ('l, 'c) session \<Rightarrow> bool" where
  "calm t v se \<longleftrightarrow> aimed t v (ob_listeners (se_observer se))
     \<and> (\<not> sg_cancelled (se_signals se) t \<longrightarrow> calm_worker (se_worker se) \<and> list_all calm_ipc (se_inbox se))"

lemma fill_buf_calm:
  assumes "calm_page (wq_page m)" "calm_pending (Some r)" "fill_buf m r = Some p"
  shows "calm_page p"
proof (cases "wq_page m")
  case (GoodPage b wr)
  with assms have len: "length (rb_bytes b) = WS_PROVISION_MAX" and r: "pending_ok r" "r \<noteq> PendCancelled"
    by (simp_all add: calm_page_def calm_pending_def)
  obtain p' where p': "fill_payload b r = Some p'" "result_of_buf p' = result_of_pending r" "length (rb_bytes p') = WS_PROVISION_MAX"
    by (rule fill_payload_result [OF len r(1)])
  have "result_of_pending r \<noteq> ResCancelled" using r(2) by (cases r) simp_all
  moreover have "p = GoodPage (if wr then p' else b) wr" using assms(3) GoodPage p'(1) by (simp add: fill_buf_def)
  ultimately show ?thesis using assms(1) GoodPage p' by (simp add: calm_page_def)
qed (use assms in \<open>auto simp: fill_buf_def calm_page_def\<close>)

lemma reply_calm:
  "reply m r w = Some w' \<Longrightarrow> calm_page (wq_page m) \<Longrightarrow> calm_pending (Some r) \<Longrightarrow> calm_worker w \<Longrightarrow> calm_worker w'"
  by (auto simp: reply_def calm_worker_def dest: fill_buf_calm)

lemma ipc_calm:
  assumes "calm_worker w" "calm_ipc i" "ipc_stage i w = Some (go, w')"
  shows "calm_worker w'"
proof (cases i)
  case (WaitMsg m)
  then have m: "calm_page (wq_page m)" using assms(2) by (simp add: calm_ipc_def)
  show ?thesis
  proof (cases "wk_pending w")
    case None
    then show ?thesis using assms m WaitMsg
      by (auto simp: ipc_stage_def drop_waiter_def calm_worker_def calm_pending_def split: option.splits)
  next
    case (Some r)
    moreover have "calm_pending (Some r)" "calm_worker (w\<lparr>wk_pending := None\<rparr>)"
      using assms(1) Some by (simp_all add: calm_worker_def calm_pending_def)
    ultimately show ?thesis using assms m WaitMsg reply_calm by (auto simp: ipc_stage_def)
  qed
qed (use assms in \<open>auto simp: ipc_stage_def calm_ipc_def\<close>)

lemma drive_calm:
  assumes "calm_worker w"
  shows "calm_worker (ws_read_stage C (keepalive_stage C (deadline_stage C w)))"
proof -
  have read: "calm_pending (pending_of_read x)" for x
    by (auto simp: pending_of_read_def calm_pending_def pending_ok_def split: sum.splits ws_frame.splits if_splits)
  have "calm_worker w \<Longrightarrow> calm_worker (deadline_stage C w)" for w
    by (auto simp: deadline_stage_def calm_worker_def calm_pending_def pending_ok_def dest!: clock_simps split: prod.splits)
  moreover have "calm_worker w \<Longrightarrow> calm_worker (keepalive_stage C w)" for w
    by (auto simp: keepalive_stage_def calm_worker_def calm_pending_def pending_ok_def dest!: clock_simps split: prod.splits sum.splits)
  moreover have "calm_worker w \<Longrightarrow> calm_worker (ws_read_stage C w)" for w
    by (auto simp: ws_read_stage_def calm_worker_def read split: prod.splits)
  ultimately show ?thesis using assms by simp
qed

lemma deliver_calm:
  assumes "calm_worker w" "deliver_stage w = Some w'"
  shows "calm_worker w'"
proof (cases "wk_pending w"; cases "wk_waiter w")
  fix r m assume rm: "wk_pending w = Some r" "wk_waiter w = Some m"
  then have "reply m r (w\<lparr>wk_pending := None, wk_waiter := None\<rparr>) = Some w'" using assms(2) by (simp add: deliver_stage_def)
  then show ?thesis
    by (rule reply_calm) (use assms(1) rm in \<open>auto simp: calm_worker_def calm_pending_def\<close>)
qed (use assms in \<open>simp_all add: deliver_stage_def\<close>)

lemma iteration_calm:
  assumes "calm_worker w" "calm_ipc i" "worker_iteration C i w = Some (go, w')"
  shows "calm_worker w'"
proof -
  obtain g w1 where w1: "ipc_stage i w = Some (g, w1)" using assms(3) by (cases "ipc_stage i w") (auto simp: worker_iteration_def)
  note c1 = ipc_calm [OF assms(1,2) w1]
  show ?thesis
  proof (cases g)
    case True
    with assms(3) w1 drive_calm [OF c1, of C] show ?thesis by (auto simp: worker_iteration_def dest: deliver_calm)
  qed (use assms(3) w1 c1 in \<open>simp add: worker_iteration_def\<close>)
qed

lemma exit_calm: "calm_worker w \<Longrightarrow> worker_exit C w = Some w' \<Longrightarrow> calm_worker w'"
  by (cases "wk_waiter w") (auto simp: worker_exit_def drop_waiter_def calm_worker_def)

lemma worker_step_calm:
  assumes "calm t v se" "calm_ipc i" "worker_step C i se = Some se'"
  shows "calm t v se'" "se_signals se' = se_signals se"
  using assms by (auto simp: worker_step_def calm_def dest: iteration_calm)

lemma worker_finish_calm:
  assumes "calm t v se"
  shows "calm t v (worker_finish C se)" "se_signals (worker_finish C se) = se_signals se"
  using assms by (auto simp: worker_finish_def calm_def dest: exit_calm split: option.splits)

text \<open>A worker turn touches neither the observer nor the flags.\<close>

lemma worker_turn_others: "worker_turn C se = Some se' \<Longrightarrow> se_signals se' = se_signals se \<and> se_observer se' = se_observer se"
  by (auto simp: worker_turn_def worker_step_def worker_finish_def split: worker_phase.splits list.splits option.splits)

lemma worker_turn_calm:
  assumes "calm t v se" "worker_turn C se = Some se'"
  shows "calm t v se'" "se_signals se' = se_signals se"
proof -
  show signals: "se_signals se' = se_signals se" using worker_turn_others [OF assms(2)] by simp
  have observer: "se_observer se' = se_observer se" using worker_turn_others [OF assms(2)] by simp
  show "calm t v se'"
  proof (cases "sg_cancelled (se_signals se) t")
    case True
    with assms(1) signals observer show ?thesis by (simp add: calm_def)
  next
    case False
    show ?thesis
    proof (cases "se_phase se")
      case InLoop
      show ?thesis
      proof (cases "se_inbox se")
        case Nil
        with InLoop show ?thesis using assms worker_step_calm [of t v se NoMessage C se'] by (simp add: worker_turn_def calm_ipc_def)
      next
        case (Cons i "is")
        with assms(1) False have "calm t v (se\<lparr>se_inbox := is\<rparr>)" "calm_ipc i" by (simp_all add: calm_def)
        moreover have "worker_step C i (se\<lparr>se_inbox := is\<rparr>) = Some se'" using assms(2) InLoop Cons by (simp add: worker_turn_def)
        ultimately show ?thesis by (rule worker_step_calm)
      qed
    qed (use assms worker_finish_calm [OF assms(1), of C] in \<open>auto simp: worker_turn_def\<close>)
  qed
qed

lemma turn_calm:
  assumes "calm t v se" "turn_step C connected v u se = Some se'"
  shows "calm t v se'" "sg_cancelled (se_signals se) t \<Longrightarrow> sg_cancelled (se_signals se') t"
proof -
  have "calm t v se' \<and> (sg_cancelled (se_signals se) t \<longrightarrow> sg_cancelled (se_signals se') t)"
  proof (cases u)
    case (Broadcast l now)
    obtain ob sg where up: "update_state connected \<lparr>wf_link_state = l, wf_last_change = now\<rparr> (se_observer se, se_signals se) = (ob, sg)"
      by (metis surj_pair)
    have "aimed t v (ob_listeners (se_observer se))" using assms(1) by (simp add: calm_def)
    note a = update_aimed [OF this up]
    have se': "se' = se\<lparr>se_observer := ob, se_signals := sg,
      se_inbox := se_inbox se @ replicate (count_list (sg_sent sg) v - count_list (sg_sent (se_signals se)) v) FlapMsg\<rparr>"
      using assms(2) up Broadcast by (simp add: broadcast_def)
    show ?thesis
      using a assms(1) unfolding se' calm_def by (cases "count_list (sg_sent sg) v = count_list (sg_sent (se_signals se)) v") auto
  next
    case WorkerTurn
    then show ?thesis using worker_turn_calm [OF assms(1), of C se'] assms(2) by simp
  next
    case WorkerReceiveError
    then show ?thesis using worker_step_calm [OF assms(1), of ReceiveError C se'] assms by (auto simp: calm_ipc_def split: if_splits)
  qed
  then show "calm t v se'" "sg_cancelled (se_signals se) t \<Longrightarrow> sg_cancelled (se_signals se') t" by simp_all
qed

lemma turns_calm:
  "calm t v se \<Longrightarrow> turns C connected v us se = Some se' \<Longrightarrow>
   calm t v se' \<and> (sg_cancelled (se_signals se) t \<longrightarrow> sg_cancelled (se_signals se') t)"
proof (induction us arbitrary: se)
  case (Cons u us)
  then obtain se1 where "turn_step C connected v u se = Some se1" "turns C connected v us se1 = Some se'"
    by (cases "turn_step C connected v u se") auto
  with Cons.IH [of se1] turn_calm [OF Cons.prems(1)] show ?case by blast
qed simp

text \<open>Once cancelled, a token stays cancelled, whatever is in the inbox.\<close>

lemma turn_cancelled:
  assumes "aimed t v (ob_listeners (se_observer se))" "turn_step C connected v u se = Some se'"
  shows "aimed t v (ob_listeners (se_observer se'))" "sg_cancelled (se_signals se) t \<Longrightarrow> sg_cancelled (se_signals se') t"
proof -
  have "aimed t v (ob_listeners (se_observer se')) \<and> (sg_cancelled (se_signals se) t \<longrightarrow> sg_cancelled (se_signals se') t)"
  proof (cases u)
    case (Broadcast l now)
    with assms update_aimed [OF assms(1)] show ?thesis by (auto simp: broadcast_def split: prod.splits)
  qed (use assms worker_turn_others [of C se se'] in \<open>auto simp: worker_step_def split: if_splits\<close>)
  then show "aimed t v (ob_listeners (se_observer se'))" "sg_cancelled (se_signals se) t \<Longrightarrow> sg_cancelled (se_signals se') t"
    by simp_all
qed

lemma turns_cancelled:
  "aimed t v (ob_listeners (se_observer se)) \<Longrightarrow> sg_cancelled (se_signals se) t \<Longrightarrow> turns C connected v us se = Some se' \<Longrightarrow>
   sg_cancelled (se_signals se') t"
proof (induction us arbitrary: se)
  case (Cons u us)
  then obtain se1 where "turn_step C connected v u se = Some se1" "turns C connected v us se1 = Some se'"
    by (cases "turn_step C connected v u se") auto
  with Cons.IH [of se1] turn_cancelled [OF Cons.prems(1)] Cons.prems(2) show ?case by blast
qed simp

lemma drain_signals: "drain C n se = Some se' \<Longrightarrow> se_signals se' = se_signals se \<and> se_observer se' = se_observer se"
proof (induction n arbitrary: se)
  case 0
  then show ?case by (subst (asm) drain.simps) (simp split: if_splits)
next
  case (Suc n)
  show ?case
  proof (cases "cancel_over se")
    case False
    with Suc.prems obtain se1 where se1: "worker_turn C se = Some se1" "drain C n se1 = Some se'"
      by (subst (asm) drain.simps) (auto simp: bind_eq_Some_conv)
    from Suc.IH [OF se1(2)] worker_turn_others [OF se1(1)] show ?thesis by simp
  qed (use Suc.prems in \<open>subst (asm) drain.simps, simp\<close>)
qed

lemma cancel_keeps_cancelled:
  assumes "aimed t v (ob_listeners (se_observer se))" "sg_cancelled (se_signals se) t" "cancel_server C connected v us se = Some se'"
  shows "sg_cancelled (se_signals se') t"
proof -
  obtain se1 where se1: "turns C connected v us (post_ipc (CancelMsg 0) se) = Some se1" "drain C (Suc (length (se_inbox se1))) se1 = Some se'"
    using assms(3) by (cases "turns C connected v us (post_ipc (CancelMsg 0) se)") (auto simp: cancel_server_def)
  have "sg_cancelled (se_signals se1) t" by (rule turns_cancelled [OF _ _ se1(1)]) (use assms in \<open>simp_all add: post_ipc_def\<close>)
  then show ?thesis using drain_signals [OF se1(2)] by simp
qed

lemma page_back_event: "page_back es = Some b \<Longrightarrow> \<exists>s wr. PageBack s (GoodPage b wr) \<in> set es"
  by (induction es rule: page_back.induct) auto

lemma await_calm:
  "calm t v se \<Longrightarrow> await_page C gone connected v us se = Some (r, se') \<Longrightarrow>
   calm t v se' \<and> (r = ResCancelled \<longrightarrow> sg_cancelled (se_signals se') t)"
proof (induction us arbitrary: se)
  case (Cons u us)
  then obtain se1 where se1: "turn_step C connected v u se = Some se1"
    by (cases "turn_step C connected v u se") auto
  have c1: "calm t v se1" by (rule turn_calm [OF Cons.prems(1) se1])
  show ?case
  proof (cases "page_back (wk_events (se_worker se1))")
    case None
    then show ?thesis
      using Cons.IH [OF c1] Cons.prems(2) se1 c1 by (auto simp: wait_and_take_binary_def split: if_splits)
  next
    case (Some b)
    then obtain s wr where "PageBack s (GoodPage b wr) \<in> set (wk_events (se_worker se1))" using page_back_event by blast
    then have "\<not> sg_cancelled (se_signals se1) t \<Longrightarrow> calm_page (GoodPage b wr)" using c1 by (auto simp: calm_def calm_worker_def)
    then show ?thesis
      using Some Cons.prems(2) se1 c1 by (auto simp: wait_and_take_binary_def calm_page_def)
  qed
qed simp

lemma lend_calm:
  assumes "calm t v se" "lend_page C gone connected v us se = Some (r, se')"
  shows "calm t v se' \<and> (r = ResCancelled \<longrightarrow> sg_cancelled (se_signals se') t)"
proof (cases "se_phase se = Gone")
  case False
  have "calm_ipc (WaitMsg \<lparr>wq_sender = 0, wq_page = GoodPage empty_buf True\<rparr>)"
    by (simp add: calm_ipc_def calm_page_def empty_buf_def result_of_buf_def)
  then have "calm t v (post_ipc (WaitMsg \<lparr>wq_sender = 0, wq_page = GoodPage empty_buf True\<rparr>) se)"
    using assms(1) by (simp add: calm_def post_ipc_def)
  from await_calm [OF this] show ?thesis using assms(2) False by (simp add: lend_page_def)
qed (use assms in \<open>auto simp: lend_page_def wait_and_take_binary_def\<close>)

lemma session_interrupted:
  assumes "aimed t v (ob_listeners (aw_observer w))"
    and "provision_session E connected t v i keys uri c w = Some (Inl e, w')" "io_error_kind e = Interrupted"
  shows "is_cancelled t (aw_signals w')"
proof -
  let ?C = "pv_ws E"
  obtain wk where wk: "worker_start ?C 180 c = Some wk"
    using assms(2) by (cases "worker_start ?C 180 c") (auto simp: provision_session_def)
  let ?se = "\<lparr>se_observer = flap_watcher_new t v (aw_observer w), se_signals = aw_signals w,
                se_worker = wk, se_phase = InLoop, se_inbox = []\<rparr>"
  obtain se1 where se1: "turns ?C connected v (at_shown i) ?se = Some se1"
    using assms(2) wk by (cases "turns ?C connected v (at_shown i) ?se") (auto simp: provision_session_def)
  have "calm_worker wk" using wk start_inv [OF wk]
    by (auto simp: calm_worker_def calm_pending_def worker_start_def Let_def split: if_splits prod.splits)
  then have "calm t v ?se" using assms(1) by (simp add: calm_def flap_watcher_new_def aimed_def)
  then have c1: "calm t v se1" using turns_calm [OF _ se1] by blast
  show ?thesis
  proof (cases "at_notification i")
    case (Inl x)
    then show ?thesis using assms(2,3) wk se1 by (auto simp: provision_session_def link_err_def)
  next
    case (Inr x)
    then obtain r se2 se3 where r: "lend_page ?C (pv_gone E) connected v (at_waiting i) se1 = Some (r, se2)"
      "cancel_server ?C connected v (at_cancelling i) se2 = Some se3" "attempt_result keys r = Inl e"
      "w' = end_session se3 (w\<lparr>aw_shown := aw_shown w @ [uri]\<rparr>)"
      using assms(2) wk se1 by (auto simp: provision_session_def Let_def bind_eq_Some_conv)
    have "r = ResCancelled" using r(3) assms(3) by (auto simp: attempt_result_def link_err_def split: ws_result.splits)
    then have "sg_cancelled (se_signals se2) t" "calm t v se2" using lend_calm [OF c1 r(1)] by simp_all
    then have "sg_cancelled (se_signals se3) t" using cancel_keeps_cancelled [OF _ _ r(2)] by (simp add: calm_def)
    then show ?thesis by (simp add: r(4) end_session_def is_cancelled_def)
  qed
qed

lemma apply_aimed: "aimed t v (ob_listeners ob) \<Longrightarrow> apply_updates connected us (ob, sg) = (ob', sg') \<Longrightarrow> aimed t v (ob_listeners ob')"
proof (induction us arbitrary: ob sg)
  case (Cons u us)
  obtain l k where u: "u = (l, k)" by (cases u)
  obtain ob1 sg1 where up: "update_state connected \<lparr>wf_link_state = l, wf_last_change = k\<rparr> (ob, sg) = (ob1, sg1)" by (metis surj_pair)
  from Cons.IH [OF update_aimed(1) [OF Cons.prems(1) up]] show ?case using Cons.prems(2) up by (simp add: u)
qed simp

lemma unwatched: "ob_listeners ob = [] \<Longrightarrow> apply_updates connected us (ob, sg) = (ob', sg') \<Longrightarrow> sg' = sg"
proof (induction us arbitrary: ob)
  case (Cons u us)
  obtain l k where u: "u = (l, k)" by (cases u)
  obtain ob1 sg1 where up: "update_state connected \<lparr>wf_link_state = l, wf_last_change = k\<rparr> (ob, sg) = (ob1, sg1)" by (metis surj_pair)
  with Cons.prems(1) have "ob_listeners ob1 = []" "sg1 = sg" by (auto simp: update_state_def split: if_splits)
  with Cons.IH [of ob1] Cons.prems(2) up show ?case by (simp add: u)
qed simp

text \<open>An attempt that ends as \<open>Interrupted\<close> failed to connect, with that error, or was cancelled.\<close>

lemma attempt_interrupted:
  assumes "aimed t v (ob_listeners (aw_observer w))"
    and "provision_one_attempt W L Y E connected cfg t v i w = Some (Inl e, w')" "io_error_kind e = Interrupted"
    and "open_provision (pv_net E) (cf_url cfg) (at_net i) = Some (Inr c, n)"
  shows "is_cancelled t (aw_signals w')"
proof -
  obtain ob sg where up: "apply_updates connected (at_before i) (aw_observer w, aw_signals w) = (ob, sg)" by (metis surj_pair)
  note a = apply_aimed [OF assms(1) up]
  have fails: "fail_closing E c w1 \<noteq> Some (Inl e, w')" for c w1 using assms(3) by (auto simp: fail_closing_def link_err_def)
  have no: "link_err \<noteq> e" using assms(3) by (auto simp: link_err_def)
  obtain u c1 where u: "initial_uuid W E c = (u, c1)" by (metis surj_pair)
  obtain keys g where keys: "generate_identity_key_pair L Y (aw_rng w) = (keys, g)" by (metis surj_pair)
  have "\<exists>uri. provision_session E connected t v i keys uri c1 (w\<lparr>aw_observer := ob, aw_signals := sg, aw_rng := g\<rparr>) = Some (Inl e, w')"
    using assms(2,4) up u keys fails no by (auto simp: provision_one_attempt_def Let_def split: sum.splits)
  then obtain uri where s: "provision_session E connected t v i keys uri c1 (w\<lparr>aw_observer := ob, aw_signals := sg, aw_rng := g\<rparr>) = Some (Inl e, w')" ..
  show ?thesis by (rule session_interrupted [OF _ s assms(3)]) (simp add: a)
qed

lemma first_interrupted:
  assumes "provision_one_attempt W L Y E connected cfg 0 0 i (first_world unknown now w) = Some (Inl e, aw)" "io_error_kind e = Interrupted"
  shows "if is_cancelled 0 (aw_signals aw) then \<exists>c n. open_provision (pv_net E) (cf_url cfg) (at_net i) = Some (Inr c, n)
         else \<exists>n. open_provision (pv_net E) (cf_url cfg) (at_net i) = Some (Inl e, n)"
proof -
  have aimed: "aimed 0 0 (ob_listeners (aw_observer (first_world unknown now w)))" by (simp add: first_world_def observer_new_def)
  obtain r n where op: "open_provision (pv_net E) (cf_url cfg) (at_net i) = Some (r, n)"
    using assms(1) by (cases "open_provision (pv_net E) (cf_url cfg) (at_net i)") (auto simp: provision_one_attempt_def split: prod.splits)
  show ?thesis
  proof (cases r)
    case (Inr c)
    with op attempt_interrupted [OF aimed assms] show ?thesis by auto
  next
    case (Inl x)
    obtain ob sg where up: "apply_updates connected (at_before i) (observer_new unknown now, token_new 0 no_signals) = (ob, sg)" by (metis surj_pair)
    then have "sg = token_new 0 no_signals" by (rule unwatched [rotated]) (simp add: observer_new_def)
    moreover have "x = e" "aw_signals aw = sg" using assms(1) op Inl up by (auto simp: provision_one_attempt_def first_world_def)
    ultimately show ?thesis using op Inl by (simp add: is_cancelled_def token_new_def)
  qed
qed

section \<open>Retrying after a flap\<close>

text \<open>C17. A flap costs one attempt: whenever the first attempt ends as \<open>Interrupted\<close>, whatever the
  interleaving of the three threads, either the connection itself failed with that error, before
  the watcher was there, and \<open>link\<close> reports it without a retry; or the connection was opened, the
  attempt's token is cancelled, and \<open>link\<close> waits up to two minutes for the WiFi. If that wait
  fails, so does \<open>link\<close>; if the WiFi comes back, the outcome is that of exactly one more attempt:
  its provisioning message is decoded and linked, its failure is the failure of \<open>link\<close>.\<close>

theorem flap_retries_once:
  assumes "i = heard input"
    and "provision_one_attempt W L Y E connected (mg_config m) 0 0 (li_first i) (first_world unknown (li_now i) w) = Some (Inl e, aw)"
    and "io_error_kind e = Interrupted"
  shows "if is_cancelled 0 (aw_signals aw)
    then (\<exists>c n. open_provision (pv_net E) (cf_url (mg_config m)) (at_net (li_first i)) = Some (Inr c, n))
      \<and> manager_link W L Y T G H A P E connected unknown input name m w
        = (case reconnected connected (li_wait_now i) (li_wait i) aw of
             None \<Rightarrow> None
           | Some (Inl _) \<Rightarrow> Some (Inl link_err, m, keep_attempt aw w)
           | Some (Inr _) \<Rightarrow>
               (case provision_one_attempt W L Y E connected (mg_config m) 1 1 (li_second i) (second_world connected (li_wait i) aw) of
                  None \<Rightarrow> None
                | Some (Inl _, aw2) \<Rightarrow> Some (Inl link_err, m, keep_attempt aw2 w)
                | Some (Inr provisioned, aw2) \<Rightarrow> finish_link W L Y T G H A P name provisioned m (keep_attempt aw2 w)))
    else (\<exists>n. open_provision (pv_net E) (cf_url (mg_config m)) (at_net (li_first i)) = Some (Inl e, n))
      \<and> manager_link W L Y T G H A P E connected unknown input name m w = Some (Inl e, m, keep_attempt aw w)"
  using first_interrupted [OF assms(2,3)] assms(1,2)
  by (auto simp: manager_link_def Let_def split: option.split sum.split)

text \<open>A run of it: the link comes up and drops while the code is shown, comes back, and the second
  connection is refused.\<close>

definition demo_net :: "(io_error + log_conn, unit, log_conn) net_lib" where
  "demo_net =
     \<lparr>nl_url_parse = (\<lambda>s. Inr (Url s)), nl_set_scheme = (\<lambda>_ u. Some u), nl_extend_path = (\<lambda>_ u. Some u),
      nl_host_str = (\<lambda>_. Some ''chat.signal.org''), nl_as_str = (\<lambda>u. case u of Url s \<Rightarrow> s),
      nl_tcp_connect = (\<lambda>_ _ n. (case n of Inl e \<Rightarrow> Inl e | Inr _ \<Rightarrow> Inr (), n)), nl_tls_stream = (\<lambda>_ _ n. (Inr (), n)),
      nl_generate_key = (\<lambda>n. (''key'', n)), nl_request_body = (\<lambda>_ _. Inr ()),
      nl_client = (\<lambda>_ _ _ n. (case n of Inl _ \<Rightarrow> Inl ''down'' | Inr c \<Rightarrow> Inr c, n))\<rparr>"

definition demo_prov_env :: "(io_error + log_conn, unit, log_conn) prov_env" where
  "demo_prov_env =
     \<lparr>pv_net = demo_net, pv_ws = log_ws, pv_set_read_timeout = (\<lambda>_ c. (Inr (), c)),
      pv_parse_with_params = (\<lambda>u ps. Inr (u @ concat (map snd ps))), pv_std_no_pad_encode = id, pv_gone = ''ServerNotFound''\<rparr>"

lemma demo_open: "open_provision (pv_net demo_prov_env) u n = Some (n, n)"
  by (cases n) (simp_all add: open_provision_def open_at_def new_plain_def connect_def demo_prov_env_def demo_net_def
      build_ws_upgrade_request_def)

definition demo_keys_lib :: libsignal where
  "demo_keys_lib = token_libsignal\<lparr>ls_public_serialize := (\<lambda>k. case k of PublicKey b \<Rightarrow> fill 33 b)\<rparr>"

definition demo_attempt :: "io_error + log_conn \<Rightarrow> (bool, io_error + log_conn) attempt_input" where
  "demo_attempt n =
     \<lparr>at_net = n, at_before = [(True, 1)], at_names = Inr (), at_modals = Inr (), at_spawn = Inr (),
      at_shown = [Broadcast False 2, WorkerTurn], at_notification = Inr (), at_waiting = [WorkerTurn], at_cancelling = []\<rparr>"

definition demo_link_input :: "(bool, io_error + log_conn) link_input" where
  "demo_link_input =
     \<lparr>li_subscribed = True, li_now = 0,
      li_first = demo_attempt (Inr \<lparr>lc_sent = [],
        lc_incoming = [Binary [CHR 0x12, CHR 0x05, CHR 0x1A, CHR 0x03, CHR 0x0A, CHR 0x01, CHR ''u'']], lc_now = 0\<rparr>),
      li_wait_now = 0, li_wait = [([(True, 3)], 0, False), ([], 1, False)],
      li_second = demo_attempt (Inl (IoError OtherKind ''refused''))\<rparr>"

definition demo_config :: config where
  "demo_config = \<lparr>cf_host = Host ''signal.org'', cf_service_environment = Live, cf_url = Url ''https://chat.signal.org/''\<rparr>"

definition demo_manager :: manager where
  "demo_manager =
     \<lparr>mg_account = fresh_account ACCOUNT_DICT (Host ''signal.org'') Live, mg_config = demo_config, mg_trust_mode = OnFirstUse, mg_websocket = None,
      mg_log_verbose = False, mg_log_scrub = False, mg_log_send = False\<rparr>"

lemma demo_uuid:
  "provisioning_uuid_decode pb_wire [CHR 0x12, CHR 0x05, CHR 0x1A, CHR 0x03, CHR 0x0A, CHR 0x01, CHR ''u''] = Inr ''u''"
  by code_simp

lemma log_ws_simps:
  "wl_read log_ws c = (case lc_incoming c of [] \<Rightarrow> (Inr Close, c) | f # fs \<Rightarrow> (Inr f, c\<lparr>lc_incoming := fs\<rparr>))"
  "wl_ws_close log_ws c = (Inr (), c)" "wl_flush log_ws c = (Inl (TungOther ''ConnectionClosed''), c)" "wl_set_read_timeout log_ws k c = c" "wl_ticktimer_new log_ws c" "wl_elapsed_ms log_ws c = (lc_now c, c)"
  by (simp_all add: log_ws_def)

lemmas worker_eval = worker_turn_def worker_step_def worker_iteration_def ipc_stage_def deadline_stage_def keepalive_stage_def
  ws_read_stage_def deliver_stage_def clock_def pending_of_read_def saturating_sub_def reply_def fill_buf_def fill_payload_def
  log_event_def drop_waiter_def log_ws_simps

lemmas observer_eval = observer_new_def is_connected_def flap_watcher_new_def broadcast_def update_state_def call_listener_def
  on_flap_def send_flap_def cancel_flap_def token_cancel_def token_new_def no_signals_def

definition flapped_observer :: "bool observer" where
  "flapped_observer = \<lparr>ob_state = \<lparr>wf_link_state = False, wf_last_change = 2\<rparr>,
     ob_listeners = [\<lparr>fl_last = False, fl_token = 0, fl_server = 0\<rparr>], ob_wakeups = 2\<rparr>"

definition flapped_signals :: signals where
  "flapped_signals = \<lparr>sg_cancelled = (\<lambda>_. False)(0 := True), sg_flap_signaled = (\<lambda>_. False)(0 := True), sg_sent = [0]\<rparr>"

definition demo_session_state :: "pending_result option \<Rightarrow> ws_event list \<Rightarrow> worker_phase \<Rightarrow> (bool, log_conn) session" where
  "demo_session_state r es ph =
     \<lparr>se_observer = flapped_observer, se_signals = flapped_signals,
      se_worker = \<lparr>wk_conn = \<lparr>lc_sent = [], lc_incoming = [], lc_now = 0\<rparr>, wk_deadline_ms = 180000, wk_last_send_at = 0,
        wk_pending = r, wk_waiter = None, wk_flap_cancelled = True, wk_events = es\<rparr>,
      se_phase = ph, se_inbox = []\<rparr>"

lemma demo_shown:
  "turns log_ws True 0 [Broadcast False 2, WorkerTurn]
     \<lparr>se_observer = flap_watcher_new 0 0 \<lparr>ob_state = \<lparr>wf_link_state = True, wf_last_change = 1\<rparr>, ob_listeners = [], ob_wakeups = 1\<rparr>,
      se_signals = token_new 0 no_signals,
      se_worker = \<lparr>wk_conn = \<lparr>lc_sent = [], lc_incoming = [], lc_now = 0\<rparr>, wk_deadline_ms = 180000, wk_last_send_at = 0,
        wk_pending = None, wk_waiter = None, wk_flap_cancelled = False, wk_events = []\<rparr>, se_phase = InLoop, se_inbox = []\<rparr>
   = Some (demo_session_state (Some PendCancelled) [] InLoop)"
  by (simp add: observer_eval worker_eval demo_session_state_def flapped_observer_def flapped_signals_def)

abbreviation (input) cancelled_page :: ws_event where
  "cancelled_page \<equiv> PageBack 0 (GoodPage (empty_buf\<lparr>rb_status := STATUS_CANCELLED\<rparr>) True)"

lemma demo_wait:
  "lend_page log_ws gone True 0 [WorkerTurn] (demo_session_state (Some PendCancelled) [] InLoop)
   = Some (ResCancelled, (demo_session_state None [cancelled_page] InLoop))"
  by (simp add: lend_page_def post_ipc_def worker_eval demo_session_state_def wait_and_take_binary_def result_of_buf_def)

lemma demo_cancel:
  "cancel_server log_ws True 0 [] (demo_session_state None [cancelled_page] InLoop)
   = Some (demo_session_state None [cancelled_page, ScalarBack 0] Closing)"
  by (simp add: cancel_server_def post_ipc_def drain.simps cancel_over_def worker_eval demo_session_state_def)

lemma flap_session:
  "provision_session demo_prov_env True 0 0 (li_first demo_link_input) keys uri \<lparr>lc_sent = [], lc_incoming = [], lc_now = 0\<rparr>
      (w\<lparr>aw_observer := \<lparr>ob_state = \<lparr>wf_link_state = True, wf_last_change = 1\<rparr>, ob_listeners = [], ob_wakeups = 1\<rparr>,
         aw_signals := token_new 0 no_signals\<rparr>)
   = Some (Inl (IoError Interrupted ''ws cancelled by flap watcher''),
       end_session (demo_session_state None [cancelled_page, ScalarBack 0] Closing) (w\<lparr>aw_shown := aw_shown w @ [uri]\<rparr>))"
proof -
  have i: "at_shown (li_first demo_link_input) = [Broadcast False 2, WorkerTurn]" "at_notification (li_first demo_link_input) = Inr ()"
    "at_waiting (li_first demo_link_input) = [WorkerTurn]" "at_cancelling (li_first demo_link_input) = []"
    by (simp_all add: demo_link_input_def demo_attempt_def)
  have "pv_ws demo_prov_env = log_ws" by (simp add: demo_prov_env_def)
  moreover have "worker_start log_ws 180 \<lparr>lc_sent = [], lc_incoming = [], lc_now = 0\<rparr>
    = Some \<lparr>wk_conn = \<lparr>lc_sent = [], lc_incoming = [], lc_now = 0\<rparr>, wk_deadline_ms = 180000, wk_last_send_at = 0,
        wk_pending = None, wk_waiter = None, wk_flap_cancelled = False, wk_events = []\<rparr>"
    by (simp add: worker_start_def log_ws_simps saturating_mul_def)
  ultimately show ?thesis
    by (simp add: provision_session_def Let_def i demo_shown [unfolded One_nat_def] demo_wait demo_cancel attempt_result_def end_session_def
        del: turns.simps)
qed

lemma demo_reconnected: "reconnected True 0 (li_wait demo_link_input) (end_session (demo_session_state r es b) w) = Some (Inr ())"
  by (simp add: reconnected_def end_session_def demo_session_state_def demo_link_input_def flapped_observer_def flapped_signals_def
      wait_for_connection_def observer_eval Let_def)

lemma demo_first_attempt:
  "\<exists>aw. provision_one_attempt pb_wire demo_keys_lib token_crypto demo_prov_env True demo_config 0 0 (li_first demo_link_input)
      (first_world False 0 w)
        = Some (Inl (IoError Interrupted ''ws cancelled by flap watcher''), aw)
     \<and> reconnected True 0 (li_wait demo_link_input) aw = Some (Inr ())"
proof -
  let ?c = "\<lparr>lc_sent = [], lc_incoming = [Binary [CHR 0x12, CHR 0x05, CHR 0x1A, CHR 0x03, CHR 0x0A, CHR 0x01, CHR ''u'']], lc_now = 0\<rparr>"
  have connect: "at_net (li_first demo_link_input) = Inr ?c" by (simp add: demo_link_input_def demo_attempt_def)
  have uuid: "initial_uuid pb_wire demo_prov_env ?c = (Inr ''u'', ?c\<lparr>lc_incoming := []\<rparr>)"
    by (simp add: initial_uuid_def read_once_def demo_prov_env_def log_ws_simps demo_uuid)
  have rest: "at_before (li_first demo_link_input) = [(True, 1)]" "at_names (li_first demo_link_input) = Inr ()"
    "at_modals (li_first demo_link_input) = Inr ()" "at_spawn (li_first demo_link_input) = Inr ()"
    by (simp_all add: demo_link_input_def demo_attempt_def)
  let ?keys = "generate_identity_key_pair demo_keys_lib token_crypto (mw_rng w)"
  obtain uri where uri: "device_link_uri demo_keys_lib demo_prov_env (fst ?keys) ''u'' = Inr uri"
    by (simp add: device_link_uri_def generate_identity_key_pair_def demo_keys_lib_def token_crypto_def token_libsignal_def demo_prov_env_def)
  show ?thesis
    using flap_session [where keys = "fst ?keys" and uri = uri and w = "(first_world False 0 w)\<lparr>aw_rng := snd ?keys\<rparr>"]
    by (simp add: provision_one_attempt_def demo_open connect uuid rest uri first_world_def observer_eval split_beta demo_reconnected)
qed

definition demo_world :: "(log_conn, mem_state, nat, script_agent) manager_world" where
  "demo_world = \<lparr>mw_store = [], mw_rng = 0, mw_net = ([], []), mw_shown = [], mw_closed = []\<rparr>"

theorem flap_retries_once_witness:
  "\<exists>aw2. manager_link pb_wire demo_keys_lib token_crypto token_attrs counting_keygen script_rest token_account_lib mem_pddb demo_prov_env
      True False demo_link_input ''precursor'' demo_manager demo_world
      = Some (Inl link_err, demo_manager, keep_attempt (aw2 :: (bool, log_conn, nat) attempt_world) demo_world)"
proof -
  let ?w = demo_world
  obtain aw where aw: "provision_one_attempt pb_wire demo_keys_lib token_crypto demo_prov_env True demo_config 0 0 (li_first demo_link_input)
      (first_world False 0 ?w) = Some (Inl (IoError Interrupted ''ws cancelled by flap watcher''), aw)"
    "reconnected True 0 (li_wait demo_link_input) aw = Some (Inr ())" using demo_first_attempt by blast
  have heard: "heard demo_link_input = demo_link_input" "li_now demo_link_input = 0" "li_wait_now demo_link_input = 0"
    by (simp_all add: heard_def demo_link_input_def)
  have m: "mg_config demo_manager = demo_config" by (simp add: demo_manager_def)
  have net: "at_net (li_first demo_link_input) \<noteq> Inl e" "at_net (li_second demo_link_input) = Inl (IoError OtherKind ''refused'')" for e
    by (simp_all add: demo_link_input_def demo_attempt_def)
  obtain aw2 where aw2: "provision_one_attempt pb_wire demo_keys_lib token_crypto demo_prov_env True demo_config 1 1 (li_second demo_link_input)
      (second_world True (li_wait demo_link_input) aw) = Some (Inl (IoError OtherKind ''refused''), aw2)"
    by (simp add: provision_one_attempt_def demo_open net split_beta)
  show ?thesis
    using flap_retries_once [where i = demo_link_input and input = demo_link_input and m = demo_manager and w = ?w and aw = aw
        and e = "IoError Interrupted ''ws cancelled by flap watcher''" and E = demo_prov_env and W = pb_wire and L = demo_keys_lib
        and Y = token_crypto and connected = True and unknown = False and T = token_attrs and G = counting_keygen and H = script_rest
        and A = token_account_lib and P = mem_pddb and name = "''precursor''"] aw aw2 heard m net(1)
    by (auto simp: demo_open split: if_splits)
qed

end
