(* ===== verification/Send_Bounds.thy ===== *)
theory Send_Bounds
  imports Send
begin

text \<open>
  What the send pipeline of \<open>src/src/manager/send.rs\<close> guarantees: bounds on requests and
  sleeping, what a successful submission has put on the wire, how 410 and first contact are
  handled on the PDDB-backed session store.
\<close>

section \<open>Interfaces\<close>

text \<open>A cost of the world that only PUTs and sleeping raise.\<close>

locale costed_env =
  fixes E :: "'w send_env" and cost :: "'w \<Rightarrow> nat" and per_put per_ms :: nat
  assumes encrypt_cost: "se_message_encrypt E m a l w = (r, w1) \<Longrightarrow> cost w1 = cost w"
    and process_cost: "sv_process_prekey_bundle E a b w = (q, w1) \<Longrightarrow> cost w1 = cost w"
    and delete_cost: "cost (sv_delete E a w) = cost w"
    and get_cost: "sv_get_json E u auth w = (g, w1) \<Longrightarrow> cost w1 = cost w"
    and put_cost: "sv_put_json E u auth body w = (g, w1) \<Longrightarrow> cost w1 \<le> cost w + per_put"
    and sleep_cost: "cost (sv_sleep E n w) \<le> cost w + per_ms * n"
begin

lemma encrypt_padded_cost:
  "encrypt_padded_for_recipient L E m ts a l w = (r, w1) \<Longrightarrow> cost w1 = cost w"
  by (auto simp: encrypt_padded_for_recipient_def encrypt_cost
      split: sum.splits option.splits prod.splits ciphertext_message.splits)

lemma encrypt_each_cost: "encrypt_each L E m ts u l ids w = (r, w1) \<Longrightarrow> cost w1 = cost w"
proof (induction ids arbitrary: w r w1)
  case (Cons d ids)
  show ?case
  proof (cases "checked_device L ''device id '' d")
    case (Inr dev)
    obtain r1 v where e: "encrypt_padded_for_recipient L E m ts \<lparr>pa_name = u, pa_device = dev\<rparr> l w = (r1, v)"
      by fastforce
    obtain r2 v2 where rec: "encrypt_each L E m ts u l ids v = (r2, v2)" by fastforce
    from Cons.IH [OF rec] encrypt_padded_cost [OF e] Cons.prems show ?thesis
      by (cases r1; cases r2) (auto simp: Inr e rec)
  qed (use Cons.prems in simp)
qed simp

lemma submit_messages_cost: "submit_messages L U E u es ts acct w = (r, w1) \<Longrightarrow> cost w1 \<le> cost w + per_put"
  by (auto simp: submit_messages_def Let_def put_cost split: sum.splits prod.splits)

lemma drop_sessions_cost: "cost (drop_sessions L E u ids w) = cost w"
  unfolding drop_sessions_def
  by (induction ids arbitrary: w) (auto simp: delete_cost split: option.splits)

lemma process_one_cost: "process_one_prekey_bundle L U E u d pre w = (r, w1) \<Longrightarrow> cost w1 = cost w"
  by (auto simp: process_one_prekey_bundle_def Let_def process_cost split: sum.splits prod.splits)

lemma sbind_cost:
  assumes "r = (q, v)" "cost v = c" "\<And>x. q = Inr x \<Longrightarrow> cost (snd (f x v)) = c"
  shows "cost (snd (sbind r f)) = c"
  using assms by (cases q) auto

lemma fetch_missing_cost: "cost (snd (fetch_missing L U E u acct ids w)) = cost w"
proof (induction ids arbitrary: w)
  case (Cons d ids)
  show ?case
  proof (cases "chat_base_url U acct")
    case (Inr base)
    obtain g v where g: "sv_get_json E (sl_url_as_str U (sl_url_set_path U (''/v2/keys/'' @ u @ ''/'' @ show_word d) base))
        (basic_auth L acct) w = (g, v)" by fastforce
    have "cost (snd (sbind (process_one_prekey_bundle L U E u d pre v) (\<lambda>_ w2. fetch_missing L U E u acct ids w2))) = cost w" for pre
    proof (cases "process_one_prekey_bundle L U E u d pre v")
      case (Pair q v2)
      have "cost v2 = cost w" using process_one_cost [OF Pair] get_cost [OF g] by simp
      with Cons.IH [of v2] show ?thesis by (intro sbind_cost [OF Pair]) simp_all
    qed
    with Cons.IH [of v] get_cost [OF g] show ?thesis
      by (auto simp: Inr g Let_def simp del: append_Cons split: sum.split)
  qed simp
qed simp

lemma mismatched_cost: "handle_mismatched_devices L U E a mm acct w = (r, w1) \<Longrightarrow> cost w1 = cost w"
  using fetch_missing_cost [of L U "pa_name a" acct "missing_devices mm" "drop_sessions L E (pa_name a) (extra_devices mm) w"]
  by (simp add: handle_mismatched_devices_def drop_sessions_cost)

lemma establish_each_cost: "establish_each L U E u excl idk ds w = (r, w1) \<Longrightarrow> cost w1 = cost w"
proof (induction ds arbitrary: w r w1)
  case (Cons d ds)
  obtain b where b: "rbind (build_prekey_bundle L U d idk) (\<lambda>bundle.
                rbind (ok_or (BadResponse (''device id '' @ show_word (de_device_id d) @ '' out of range''))
                         (device_protocol_address L u (de_device_id d))) (\<lambda>dev_addr.
                Inr (dev_addr, bundle))) = b" by blast
  show ?case
  proof (cases b)
    case (Inl e)
    with Cons.prems Cons.IH [of w] b show ?thesis by (auto split: if_splits)
  next
    case (Inr p)
    obtain a k where p: "p = (a, k)" by (cases p)
    obtain q v where q: "sv_process_prekey_bundle E a k w = (q, v)" by fastforce
    obtain r2 v2 where rec: "establish_each L U E u excl idk ds v = (r2, v2)" by fastforce
    show ?thesis
      using Cons.prems Cons.IH [OF rec] Cons.IH [of w] b Inr p q rec process_cost [OF q]
      by (cases q; cases r2) (auto split: if_splits)
  qed
qed simp

lemma discover_cost:
  "discover_and_establish_account_devices L U E u excl acct w = (r, w1) \<Longrightarrow> cost w1 = cost w"
  by (auto simp: discover_and_establish_account_devices_def Let_def get_cost
      dest!: establish_each_cost split: sum.splits prod.splits if_splits)

lemma attempt_step_cost:
  assumes "attempt_step L U E m ts u fb excl l acct n w = (r, w1)"
  shows "cost w1 \<le> cost w + per_put + per_ms * backoff n"
proof (cases "fan_out_devices E u fb excl w")
  case None
  with assms show ?thesis by (simp add: attempt_step_def)
next
  case (Some ids)
  show ?thesis
  proof (cases "checked_device L ''fallback device id '' fb")
    case (Inl e)
    with assms Some show ?thesis by (simp add: attempt_step_def)
  next
    case (Inr dev)
    obtain r1 v1 where e: "encrypt_each L E m ts u l ids w = (r1, v1)" by fastforce
    show ?thesis
    proof (cases r1)
      case (Inl x)
      with assms Some Inr e encrypt_each_cost [OF e] show ?thesis by (simp add: attempt_step_def)
    next
      case (Inr es)
      obtain r2 v2 where s: "submit_messages L U E u es ts acct v1 = (r2, v2)" by fastforce
      have le: "cost v2 \<le> cost w + per_put"
        using submit_messages_cost [OF s] encrypt_each_cost [OF e] by simp
      have "cost w1 = cost v2 \<or> w1 = sv_sleep E (backoff n) v2"
        using assms Some e s \<open>checked_device L ''fallback device id '' fb = Inr dev\<close> Inr
        by (auto simp: attempt_step_def Let_def handle_stale_devices_def drop_sessions_cost mismatched_cost
            split: attempt_decision.splits sum.splits prod.splits)
      with le sleep_cost [of "backoff n" v2] show ?thesis by auto
    qed
  qed
qed

text \<open>The loop: at most three attempts, each with one PUT and one backoff.\<close>

lemma retry_loop_cost:
  "retry_loop L U E m ts u fb excl l acct start n w = (r, w1) \<Longrightarrow>
     cost w1 \<le> cost w + (3 - n) * per_put + per_ms * (\<Sum>i \<leftarrow> [n..<3]. backoff (i + 1))"
proof (induction "3 - n" arbitrary: n w)
  case 0
  then have "n \<ge> 3" by simp
  with 0 show ?case by (subst (asm) retry_loop.simps) (simp split: if_splits)
next
  case (Suc k)
  then have n: "n < 3" by simp
  then have sum: "(\<Sum>i \<leftarrow> [n..<3]. backoff (i + 1)) = backoff (n + 1) + (\<Sum>i \<leftarrow> [Suc n..<3]. backoff (i + 1))"
    by (simp add: upt_conv_Cons)
  obtain st v where st: "attempt_step L U E m ts u fb excl l acct (n + 1) w = (st, v)" by fastforce
  note c = attempt_step_cost [OF st]
  show ?case
  proof (cases "sv_now_ms E w - start > RETRY_BUDGET_MS")
    case True
    with Suc.prems show ?thesis by (subst (asm) retry_loop.simps) simp
  next
    case False
    show ?thesis
    proof (cases st)
      case (Return x)
      with Suc.prems False n st have "w1 = v" by (subst (asm) retry_loop.simps) simp
      moreover have "1 * per_put \<le> (3 - n) * per_put" using n by (intro mult_le_mono1) simp
      moreover have "x \<le> y + p + a \<Longrightarrow> 1 * p \<le> q \<Longrightarrow> x \<le> y + q + (a + b)" for x y p q a b :: nat by linarith
      ultimately show ?thesis using c unfolding sum distrib_left by blast
    next
      case Again
      with Suc.prems False n st have "retry_loop L U E m ts u fb excl l acct start (Suc n) v = (r, w1)"
        by (subst (asm) retry_loop.simps) simp
      with Suc.hyps(1) [of "Suc n"] Suc.hyps(2)
      have "cost w1 \<le> cost v + (3 - Suc n) * per_put + per_ms * (\<Sum>i \<leftarrow> [Suc n..<3]. backoff (i + 1))" by simp
      moreover have "(3 - n) * per_put = per_put + (3 - Suc n) * per_put" using n
        by (metis Suc_diff_Suc mult_Suc numeral_3_eq_3)
      ultimately show ?thesis using c unfolding sum distrib_left by linarith
    qed
  qed
qed

lemma submit_padded_cost:
  assumes "submit_padded_with_retry_generic L U E m ts u fb excl l acct w = (r, w1)"
  shows "cost w1 \<le> cost w + 3 * per_put + 3500 * per_ms"
proof -
  have "(\<Sum>i \<leftarrow> [0..<3]. backoff (i + 1)) = 3500" by code_simp
  with retry_loop_cost [OF assms [unfolded submit_padded_with_retry_generic_def]] show ?thesis by simp
qed

lemma sbind_unit_cost: "cost (snd (sbind r (\<lambda>_ w. (Inr (), w)))) = cost (snd r)"
  by (cases r; cases "fst r") auto

lemma submit_padded_cost': "cost (snd (submit_padded_with_retry_generic L U E m ts u fb excl l acct w))
    \<le> cost w + 3 * per_put + 3500 * per_ms"
  by (metis submit_padded_cost surjective_pairing)

lemma submit_generic_cost:
  "cost (snd (submit_with_retry_generic W L U E t ts a l acct w)) \<le> cost w + 3 * per_put + 3500 * per_ms"
  unfolding submit_with_retry_generic_def sbind_unit_cost by (rule submit_padded_cost')

lemma submit_sync_cost:
  "cost (snd (submit_sync_transcript_generic W L U E t u ts own d l acct w)) \<le> cost w + 3 * per_put + 3500 * per_ms"
proof (cases "discover_and_establish_account_devices L U E own (Some d) acct w")
  case (Pair q v)
  note eq = discover_cost [OF Pair]
  show ?thesis
    using submit_padded_cost' [of L U _ ts own d "Some d" l acct w] submit_padded_cost' [of L U _ ts own d "Some d" l acct v] eq
    by (auto simp: submit_sync_transcript_generic_def Let_def Pair sbind_unit_cost split: sum.splits)
qed

lemma submit_with_stores_cost:
  "cost (snd (submit_with_retry_with_stores W L U E t ts a l acct w)) \<le> cost w + 6 * per_put + 7000 * per_ms"
proof (cases "submit_with_retry_generic W L U E t ts a l acct w")
  case (Pair q v)
  have "cost v \<le> cost w + 3 * per_put + 3500 * per_ms"
    using submit_generic_cost [of W L U t ts a l acct w] Pair by simp
  moreover have "cost (snd (submit_sync_transcript_generic W L U E t (pa_name a) ts (ai_aci_service_id acct)
      (ai_device_id acct) l acct v)) \<le> cost v + 3 * per_put + 3500 * per_ms"
    by (rule submit_sync_cost)
  ultimately show ?thesis
    by (cases q) (simp_all add: submit_with_retry_with_stores_def Pair)
qed

end

text \<open>A network that counts the PUTs it was asked for and the milliseconds slept.\<close>

locale counted_net =
  fixes N :: "'h net" and puts slept :: "'h \<Rightarrow> nat"
  assumes put_counts: "nt_put N u a b h = (r, h1) \<Longrightarrow> puts h1 = puts h + 1 \<and> slept h1 = slept h"
    and get_counts: "nt_get N u a h = (r, h1) \<Longrightarrow> puts h1 = puts h \<and> slept h1 = slept h"
    and sleep_counts: "puts (nt_sleep N n h) = puts h \<and> slept (nt_sleep N n h) = slept h + n"
begin

lemma puts_costed: "costed_env (pddb_env L P R N) (puts \<circ> snd) 1 0"
  and slept_costed: "costed_env (pddb_env L P R N) (slept \<circ> snd) 0 1"
  by unfold_locales
    (auto simp: pddb_env_def on_fst_def on_snd_def sleep_counts dest: put_counts get_counts split: prod.splits)

end

interpretation scripted: counted_net scripted "length \<circ> sn_puts" sn_slept
  by unfold_locales (auto simp: scripted_def)

text \<open>What \<open>DeviceId::new\<close> documents: the id it accepts is the id it was given.\<close>

locale device_id_law =
  fixes L :: libsignal
  assumes new_id: "ls_device_id_new L d = Inr e \<Longrightarrow> e = d"
begin

lemma ucast_small: "did < 256 \<Longrightarrow> (ucast (ucast (did :: u32) :: u8) :: u32) = did"
  by (simp add: word_eq_iff_unsigned unsigned_ucast_eq take_bit_eq_mod word_less_nat_alt unat_arith_simps)

lemma checked_device_eq: "checked_device L what did = Inr dev \<Longrightarrow> ucast dev = did"
  by (auto simp: checked_device_def u8_try_from_def ucast_small dest!: new_id simp: res_simps split: if_splits)

text \<open>Each entity of a fan-out is addressed to the device it was encrypted for.\<close>

lemma encrypt_each_devices:
  "encrypt_each L E m ts u l ids w = (Inr es, w1) \<Longrightarrow> map ome_destination_device_id es = ids"
proof (induction ids arbitrary: w es)
  case (Cons d ids)
  then obtain dev where dev: "checked_device L ''device id '' d = Inr dev"
    by (cases "checked_device L ''device id '' d") auto
  obtain r v where e: "encrypt_padded_for_recipient L E m ts \<lparr>pa_name = u, pa_device = dev\<rparr> l w = (r, v)"
    by fastforce
  with Cons.prems dev obtain enc where r: "r = Inr enc" by (cases r) auto
  with Cons.prems dev e obtain es' where es: "encrypt_each L E m ts u l ids v = (Inr es', w1)" "es = enc_to_entity L enc # es'"
    by (auto simp: res_simps)
  have "em_destination_device_id enc = ucast dev"
    using e r by (auto simp: encrypt_padded_for_recipient_def encrypted_def
        split: sum.splits option.splits prod.splits ciphertext_message.splits)
  with Cons.IH [OF es(1)] es(2) checked_device_eq [OF dev] show ?case by (simp add: enc_to_entity_def)
qed simp

end

interpretation token: device_id_law token_libsignal
  by unfold_locales (auto simp: token_libsignal_def split: if_splits)

section \<open>Properties\<close>

text \<open>C2. A send is bounded, whatever the server answers and at whatever pace. On the production
  environment one call of \<open>submit_padded_with_retry_generic\<close> issues at most three PUTs and
  sleeps at most 3500 milliseconds; one call of \<open>submit_with_retry_with_stores\<close>, which makes
  one such call for the recipient and at most one for the sync transcript, issues at most six
  PUTs and sleeps at most 7000 milliseconds.\<close>

theorem send_bounded:
  assumes "counted_net N puts slept"
  shows "(let h' = snd (snd (submit_padded_with_retry_generic L U (pddb_env L P R N) padded ts u fb excl l acct (s, h)))
          in puts h' \<le> puts h + 3 \<and> slept h' \<le> slept h + 3500)
       \<and> (let h' = snd (snd (submit_with_retry_with_stores W L U (pddb_env L P R N) body ts a l acct (s, h)))
          in puts h' \<le> puts h + 6 \<and> slept h' \<le> slept h + 7000)"
proof -
  note puts = counted_net.puts_costed [OF assms, of L P R] and slept = counted_net.slept_costed [OF assms, of L P R]
  show ?thesis
    using costed_env.submit_padded_cost' [OF puts, of L U padded ts u fb excl l acct "(s, h)"]
      costed_env.submit_padded_cost' [OF slept, of L U padded ts u fb excl l acct "(s, h)"]
      costed_env.submit_with_stores_cost [OF puts, of W L U body ts a l acct "(s, h)"]
      costed_env.submit_with_stores_cost [OF slept, of W L U body ts a l acct "(s, h)"]
    by (simp add: Let_def)
qed

definition demo_account :: account_info where
  "demo_account = \<lparr>ai_aci_service_id = ''me'', ai_device_id = 2, ai_password = ''pw'', ai_host = ''h''\<rparr>"

definition demo_bob :: protocol_address where
  "demo_bob = \<lparr>pa_name = ''bob'', pa_device = 1\<rparr>"

definition demo_me :: protocol_address where
  "demo_me = \<lparr>pa_name = ''me'', pa_device = 2\<rparr>"

definition demo_env :: "(mem_state \<times> script_net) send_env" where
  "demo_env = pddb_env token_libsignal mem_pddb token_protocol scripted"

definition idle_net :: "http_response list \<Rightarrow> script_net" where
  "idle_net answers = \<lparr>sn_answers = answers, sn_puts = [], sn_clock = 0, sn_slept = 0\<rparr>"

theorem send_bounded_witness:
  "(let h' = snd (snd (submit_padded_with_retry_generic token_libsignal token_send_lib demo_env ''hi'' 7 ''bob'' 1 None
       demo_me demo_account ([((SESSION_DICT, ''bob.1''), ''S'')], idle_net [])))
    in length (sn_puts h') \<le> 3 \<and> sn_slept h' \<le> 3500)
   \<and> (let h' = snd (snd (submit_with_retry_with_stores pb_wire token_libsignal token_send_lib demo_env ''hi'' 7
       demo_bob demo_me demo_account ([((SESSION_DICT, ''bob.1''), ''S'')], idle_net [])))
    in length (sn_puts h') \<le> 6 \<and> sn_slept h' \<le> 7000)"
  using send_bounded [OF scripted.counted_net_axioms, where L = token_libsignal and U = token_send_lib and P = mem_pddb
      and R = token_protocol and padded = "''hi''" and body = "''hi''" and ts = 7 and u = "''bob''" and fb = 1 and excl = None
      and l = demo_me and acct = demo_account and s = "[((SESSION_DICT, ''bob.1''), ''S'')]" and h = "idle_net []"
      and W = pb_wire and a = demo_bob]
  by (simp add: Let_def demo_env_def idle_net_def)

lemma attempt_step_done:
  assumes "device_id_law L" and "attempt_step L U E m ts u fb excl l acct n w = (Return (Inr True), w')"
  shows "\<exists>v1 ids es. fan_out_devices E u fb excl w = Some ids
     \<and> map ome_destination_device_id es = ids
     \<and> submit_messages L U E u es ts acct v1 = (Inr (), w')"
proof -
  from assms(2) obtain ids where ids: "fan_out_devices E u fb excl w = Some ids"
    by (cases "fan_out_devices E u fb excl w") (auto simp: attempt_step_def)
  obtain r v where e: "encrypt_each L E m ts u l ids w = (r, v)" by fastforce
  from assms(2) ids e obtain es where es: "r = Inr es"
    by (cases r) (auto simp: attempt_step_def Let_def split: sum.splits)
  obtain q v2 where sub: "submit_messages L U E u es ts acct v = (q, v2)" by fastforce
  have "classify_attempt q = Done \<and> v2 = w'"
    using assms(2) ids e es sub
    by (auto simp: attempt_step_def Let_def split: sum.splits attempt_decision.splits prod.splits)
  then have "q = Inr ()" "v2 = w'" by (auto elim: classify_attempt.elims split: if_splits)
  with ids device_id_law.encrypt_each_devices [OF assms(1) e [unfolded es]] sub show ?thesis by blast
qed

lemma retry_loop_done:
  assumes "device_id_law L"
  shows "retry_loop L U E m ts u fb excl l acct start n w = (Inr True, w') \<Longrightarrow>
     \<exists>v v1 ids es. fan_out_devices E u fb excl v = Some ids
       \<and> map ome_destination_device_id es = ids
       \<and> submit_messages L U E u es ts acct v1 = (Inr (), w')"
proof (induction "3 - n" arbitrary: n w)
  case 0
  then show ?case by (subst (asm) retry_loop.simps) (simp split: if_splits)
next
  case (Suc k)
  obtain st v where st: "attempt_step L U E m ts u fb excl l acct (n + 1) w = (st, v)" by fastforce
  show ?case
  proof (cases st)
    case (Return x)
    with Suc.prems st have "attempt_step L U E m ts u fb excl l acct (n + 1) w = (Return (Inr True), w')"
      by (subst (asm) retry_loop.simps) (simp split: if_splits)
    from attempt_step_done [OF assms this] show ?thesis by blast
  next
    case Again
    with Suc.prems st have "retry_loop L U E m ts u fb excl l acct start (Suc n) v = (Inr True, w')"
      by (subst (asm) retry_loop.simps) (simp split: if_splits)
    with Suc.hyps(1) [of "Suc n"] Suc.hyps(2) show ?thesis by simp
  qed
qed

text \<open>C3. A submission that reports success has delivered: the last thing it did was a PUT
  answered 200 or 204 whose entities are addressed, one each and in order, to the devices the
  fan-out computed in some state of the run, and the excluded device is not among them.\<close>

theorem submit_success_sound:
  assumes "device_id_law L"
    and "submit_padded_with_retry_generic L U E m ts u fb excl l acct w = (Inr True, w')"
  shows "\<exists>v v1 ids es resp base body. fan_out_devices E u fb excl v = Some ids
     \<and> map ome_destination_device_id es = ids \<and> ids \<noteq> [] \<and> excl \<notin> Some ` set ids
     \<and> chat_base_url U acct = Inr base
     \<and> sl_request_to_json U \<lparr>smr_messages = es, smr_online = False, smr_urgent = True, smr_timestamp = ts\<rparr> = Inr body
     \<and> sv_put_json E (sl_url_as_str U (sl_url_set_path U (''/v1/messages/'' @ u) base)) (basic_auth L acct) body v1 = (Inr resp, w')
     \<and> hr_status resp \<in> {200, 204}"
proof -
  from retry_loop_done [OF assms(1) assms(2) [unfolded submit_padded_with_retry_generic_def]]
  obtain v v1 ids es where f: "fan_out_devices E u fb excl v = Some ids" "map ome_destination_device_id es = ids"
    "submit_messages L U E u es ts acct v1 = (Inr (), w')" by blast
  have ids: "ids \<noteq> []" "excl \<notin> Some ` set ids"
    using f(1) by (auto simp: fan_out_devices_def Let_def split: option.splits if_splits)
  from f(3) obtain base body resp where "chat_base_url U acct = Inr base"
    "sl_request_to_json U \<lparr>smr_messages = es, smr_online = False, smr_urgent = True, smr_timestamp = ts\<rparr> = Inr body"
    "sv_put_json E (sl_url_as_str U (sl_url_set_path U (''/v1/messages/'' @ u) base)) (basic_auth L acct) body v1 = (Inr resp, w')"
    "interpret_send_status resp = Inr ()"
    by (auto simp: submit_messages_def Let_def simp del: append_Cons split: sum.splits prod.splits)
  moreover from this(4) have "hr_status resp \<in> {200, 204}"
    by (auto simp: interpret_send_status_def Let_def split: if_splits)
  ultimately show ?thesis using f(1, 2) ids by blast
qed

text \<open>A run that evaluates: one session for \<open>bob\<close>, one answer 200.\<close>

definition demo_store :: mem_state where
  "demo_store = [((SESSION_DICT, ''bob.1''), ''S'')]"

lemma demo_devices: "device_ids_for mem_pddb SESSION_DICT ''bob'' demo_store = [1]"
  by (simp add: demo_store_def device_ids_for_def mem_pddb_def map_filter_def strip_prefix_def parse_u32_def
      parse_unsigned_def strip_plus_def is_digit_def)

lemma demo_session: "load_session token_libsignal mem_pddb SESSION_DICT demo_bob demo_store = Inr (Some (SessionRecord ''S''))"
proof -
  have "address_key demo_bob = ''bob.1''" by code_simp
  moreover have "ls_session_deserialize token_libsignal b = Inr (SessionRecord b)" for b
    by (simp add: token_libsignal_def)
  ultimately show ?thesis by (simp add: mem.load_session_eq demo_store_def)
qed

lemma demo_run:
  "\<exists>w'. submit_padded_with_retry_generic token_libsignal token_send_lib demo_env ''m'' 7 ''bob'' 1 None demo_me
     demo_account (demo_store, idle_net [\<lparr>hr_status = 200, hr_body = []\<rparr>]) = (Inr True, w')"
proof -
  have dev: "checked_device token_libsignal what 1 = Inr 1" for what
    by (simp add: checked_device_def u8_try_from_def token_libsignal_def)
  have base: "chat_base_url token_send_lib demo_account = Inr (Url ''https://chat.h'')"
    by (simp add: chat_base_url_def token_send_lib_def demo_account_def)
  have fields: "ls_remote_registration_id token_libsignal q = Inr 4242" for q by (simp add: token_libsignal_def)
  obtain j where json: "\<And>q. sl_request_to_json token_send_lib q = Inr (j q)"
    by (simp add: token_send_lib_def)
  have enc: "pr_message_encrypt token_protocol m a l s = (Inr (SignalMessage m), s)" for m a l and s :: mem_state
    by (simp add: token_protocol_def)
  have net: "nt_now scripted = sn_clock" by (simp add: scripted_def)
  have "\<exists>h'. nt_put scripted u a b (idle_net [\<lparr>hr_status = 200, hr_body = []\<rparr>]) = (Inr \<lparr>hr_status = 200, hr_body = []\<rparr>, h')" for u a b
    by (simp add: scripted_def idle_net_def)
  then obtain h' where put: "\<And>u a b. nt_put scripted u a b (idle_net [\<lparr>hr_status = 200, hr_body = []\<rparr>]) = (Inr \<lparr>hr_status = 200, hr_body = []\<rparr>, h' u a b)"
    by metis
  show ?thesis
    using demo_session
    by (simp add: submit_padded_with_retry_generic_def retry_loop.simps attempt_step_def fan_out_devices_def
        demo_env_def demo_devices dev base encrypt_padded_for_recipient_def demo_bob_def fields json enc net put
        submit_messages_def on_fst_def on_snd_def Let_def interpret_send_status_def)
qed

theorem submit_success_sound_witness:
  "\<exists>v ids. fan_out_devices demo_env ''bob'' 1 None v = Some ids \<and> ids \<noteq> []"
proof -
  obtain w' where "submit_padded_with_retry_generic token_libsignal token_send_lib demo_env ''m'' 7 ''bob'' 1 None demo_me
     demo_account (demo_store, idle_net [\<lparr>hr_status = 200, hr_body = []\<rparr>]) = (Inr True, w')"
    using demo_run by blast
  from submit_success_sound [OF token.device_id_law_axioms this] show ?thesis by blast
qed

text \<open>C32. First contact is refused: with no session for any device of the recipient, the send
  fails with \<open>NoSession\<close> before any request is made and leaves store and network as they
  were. (A session is created only by receiving a prekey message or by a 409, and no PUT that
  could be answered 409 is ever issued.)\<close>

theorem first_contact_refused:
  assumes "signal_stores P view L" and "canonical_sessions (view (fst w))"
    and "device_ids_for P SESSION_DICT (pa_name a) (fst w) = []"
    and "ls_device_id_new L (pa_device a) = Inr (pa_device a)"
  shows "submit_with_retry_with_stores W L U (pddb_env L P R N) body ts a l acct w = (Inl (Encryption NoSession), w)"
proof -
  have dev: "checked_device L what (ucast (pa_device a)) = Inr (pa_device a)" for what
  proof -
    have "(ucast (pa_device a) :: u32) < 256"
      by (simp add: word_less_nat_alt unat_ucast_u8 order_less_le_trans [OF unsigned_less])
    then show ?thesis by (simp add: checked_device_def u8_try_from_def assms(4))
  qed
  have "ucast (pa_device a) \<notin> set (device_ids_for P SESSION_DICT (pa_name a) (fst w))" by (simp add: assms(3))
  then have "load_session L P SESSION_DICT \<lparr>pa_name = pa_name a, pa_device = pa_device a\<rparr> (fst w) = Inr None"
    using session_contract.ids_iff [OF signal_stores.sessions_ok [OF assms(1)] assms(2)] by blast
  then show ?thesis
    by (simp add: submit_with_retry_with_stores_def submit_with_retry_generic_def submit_padded_with_retry_generic_def
        retry_loop.simps attempt_step_def fan_out_devices_def assms(3) Let_def dev encrypt_padded_for_recipient_def)
qed

lemma drop_sessions_pddb:
  "drop_sessions L (pddb_env L P R N) u ids w =
     (fold (delete_session P SESSION_DICT) (List.map_filter (device_protocol_address L u) ids) (fst w), snd w)"
  unfolding drop_sessions_def
  by (induction ids arbitrary: w) (simp_all add: map_filter_simps split: option.split)

lemma device_protocol_address_Some:
  assumes "device_id_law L" "device_protocol_address L u d = Some b"
  shows "pa_name b = u \<and> ucast (pa_device b) = d"
  using assms(2)
  by (auto simp: device_protocol_address_def u8_try_from_def bind_eq_Some_conv device_id_law.ucast_small [OF assms(1)]
      split: if_splits)
    (metis assms(1) device_id_law.new_id device_id_law.ucast_small res_ok.simps option.distinct(1) option.inject sum.exhaust)

text \<open>A 410 drops exactly the stale devices: after \<open>handle_stale_devices\<close> the devices
  enumerated for the recipient are the former ones less those named stale (ids that are no
  device id are skipped), every other recipient keeps its devices and every other session
  its record, and the network is not touched.\<close>

theorem stale_devices_dropped:
  assumes "signal_stores P view L" and "device_id_law L" and "canonical_sessions (view (fst w))"
    and "handle_stale_devices L (pddb_env L P R N) a mm w = w'"
  shows "snd w' = snd w
    \<and> device_ids_for P SESSION_DICT u (fst w') =
        filter (\<lambda>d. u \<noteq> pa_name a \<or> d \<notin> set (stale_devices mm) \<or> device_protocol_address L u d = None)
          (device_ids_for P SESSION_DICT u (fst w))
    \<and> (pa_name b \<noteq> pa_name a \<or> ucast (pa_device b) \<notin> set (stale_devices mm) \<longrightarrow>
        load_session L P SESSION_DICT b (fst w') = load_session L P SESSION_DICT b (fst w))"
proof -
  note sc = signal_stores.sessions_ok [OF assms(1)]
  define as where "as = List.map_filter (device_protocol_address L (pa_name a)) (stale_devices mm)"
  have w': "w' = (fold (delete_session P SESSION_DICT) as (fst w), snd w)"
    using assms(4) by (simp add: handle_stale_devices_def drop_sessions_pddb as_def)
  have dpa: "c \<in> set as \<longleftrightarrow> pa_name c = pa_name a
      \<and> ucast (pa_device c) \<in> set (stale_devices mm) \<and> device_protocol_address L (pa_name a) (ucast (pa_device c)) = Some c" for c
    unfolding as_def set_map_filter mem_Collect_eq
    using device_protocol_address_Some [OF assms(2), of "pa_name a" _ c] by blast
  have "(\<forall>c \<in> set as. \<not> (pa_name c = u \<and> ucast (pa_device c) = d)) \<longleftrightarrow>
      u \<noteq> pa_name a \<or> d \<notin> set (stale_devices mm) \<or> device_protocol_address L u d = None" for d
  proof (cases "u = pa_name a \<and> d \<in> set (stale_devices mm)")
    case True
    show ?thesis
    proof (cases "device_protocol_address L u d")
      case None
      with True have "\<not> (pa_name c = u \<and> ucast (pa_device c) = d)" if "c \<in> set as" for c
        using that unfolding dpa by (metis option.distinct(1))
      with None show ?thesis by blast
    next
      case (Some c)
      from device_protocol_address_Some [OF assms(2) Some] have c: "pa_name c = u" "ucast (pa_device c) = d" by blast+
      with True Some have "c \<in> set as" unfolding dpa by simp
      with c True Some show ?thesis by auto
    qed
  next
    case False
    then have "\<not> (pa_name c = u \<and> ucast (pa_device c) = d)" if "c \<in> set as" for c
      using that dpa [of c] by metis
    with False show ?thesis by blast
  qed
  with session_contract.ids_fold_del [OF sc assms(3), of u as] w'
  have "device_ids_for P SESSION_DICT u (fst w') =
        filter (\<lambda>d. u \<noteq> pa_name a \<or> d \<notin> set (stale_devices mm) \<or> device_protocol_address L u d = None)
          (device_ids_for P SESSION_DICT u (fst w))" by simp
  moreover have "pa_name b \<noteq> pa_name a \<or> ucast (pa_device b) \<notin> set (stale_devices mm) \<Longrightarrow> b \<notin> set as"
    unfolding dpa by blast
  ultimately show ?thesis using w' session_contract.load_fold_del [OF sc, of b as "fst w"] by simp
qed

lemma demo_canonical: "canonical_sessions (map_of demo_store)"
proof -
  have "address_key demo_bob = ''bob.1''" by code_simp
  then show ?thesis
    by (auto simp: canonical_sessions_def demo_store_def intro!: exI [of _ demo_bob] split: if_splits)
qed

theorem first_contact_refused_witness:
  "submit_with_retry_with_stores pb_wire token_libsignal token_send_lib demo_env ''hi'' 7 demo_bob demo_me demo_account
     ([], idle_net [\<lparr>hr_status = 409, hr_body = []\<rparr>]) =
   (Inl (Encryption NoSession), ([], idle_net [\<lparr>hr_status = 409, hr_body = []\<rparr>]))"
  unfolding demo_env_def
proof (rule first_contact_refused [where view = map_of, OF mem.signal_stores_axioms])
  show "canonical_sessions (map_of (fst ([] :: mem_state, idle_net [\<lparr>hr_status = 409, hr_body = []\<rparr>])))"
    by (simp add: canonical_sessions_def)
  show "device_ids_for mem_pddb SESSION_DICT (pa_name demo_bob) (fst ([], idle_net [\<lparr>hr_status = 409, hr_body = []\<rparr>])) = []"
    by (simp add: device_ids_for_def mem_pddb_def map_filter_def)
  show "ls_device_id_new token_libsignal (pa_device demo_bob) = Inr (pa_device demo_bob)"
    by (simp add: token_libsignal_def demo_bob_def)
qed

theorem stale_devices_dropped_witness:
  "device_ids_for mem_pddb SESSION_DICT ''bob'' (fst (handle_stale_devices token_libsignal demo_env demo_bob
     \<lparr>missing_devices = [], extra_devices = [], stale_devices = [1]\<rparr> (demo_store, idle_net []))) = []"
proof -
  let ?mm = "\<lparr>missing_devices = [], extra_devices = [], stale_devices = [1]\<rparr>"
  have can: "canonical_sessions (map_of (fst (demo_store, idle_net [])))" by (simp add: demo_canonical)
  have "device_protocol_address token_libsignal ''bob'' 1 \<noteq> None"
    by (simp add: device_protocol_address_def u8_try_from_def token_libsignal_def)
  then show ?thesis
    using stale_devices_dropped [where view = map_of, OF mem.signal_stores_axioms token.device_id_law_axioms can,
        of token_protocol scripted demo_bob ?mm _ "''bob''", OF refl]
    by (simp add: demo_devices demo_bob_def demo_env_def)
qed

end
