(* ===== verification/App.thy ===== *)
theory App
  imports Manager Send_Bounds
begin

text \<open>
  \<open>src/src/lib.rs\<close> and the event loop of \<open>src/src/main.rs\<close>: the chat application. It connects (WiFi,
  account, manager), shows the conversation list, opens conversations and posts.

  The system modals, the WiFi manager and the TLS probe are the record \<open>ui_lib\<close> over a state of their
  own; the translations \<open>t!\<close> are its \<open>ui_t\<close>. What the chat server is sent is a list: \<open>ui_event\<close> for posts,
  dialogues and redraws, as in \<open>Receive\<close>, and \<open>status_event\<close> for the status line. A panic, from an
  \<open>expect\<close> or a slice, is \<open>None\<close>.
\<close>

section \<open>Definitions\<close>

record 'm ui_lib =
  ui_t :: "string \<Rightarrow> string"
  ui_add_list_item :: "string \<Rightarrow> 'm \<Rightarrow> ('m, string, unit) sres"
  ui_get_radiobutton :: "string \<Rightarrow> 'm \<Rightarrow> ('m, string, string) sres"
  ui_get_radio_index :: "'m \<Rightarrow> ('m, string, nat) sres"
  ui_show_notification :: "string \<Rightarrow> 'm \<Rightarrow> ('m, string, unit) sres"
  ui_text_field :: "string \<Rightarrow> string \<Rightarrow> 'm \<Rightarrow> ('m, string, string list) sres"
  ui_start_progress :: "'m \<Rightarrow> ('m, string, unit) sres"
  ui_update_progress :: "nat \<Rightarrow> 'm \<Rightarrow> ('m, string, unit) sres"
  ui_finish_progress :: "'m \<Rightarrow> ('m, string, unit) sres"
  ui_wifi_on :: "'m \<Rightarrow> ('m, string, unit) sres"
  ui_ticktimer :: "'m \<Rightarrow> ('m, string, unit) sres"
  ui_sleep_ms :: "nat \<Rightarrow> 'm \<Rightarrow> ('m, string, unit) sres"
  ui_dhcp_bound :: "'m \<Rightarrow> bool \<times> 'm"
  ui_tls_accessible :: "string \<Rightarrow> 'm \<Rightarrow> bool \<times> 'm"
  ui_host_str :: "url \<Rightarrow> string option"
  ui_dialogue_set :: "'m \<Rightarrow> ('m, string, unit) sres"

datatype status_event = StatusText string | BusyState bool

record ('c, 's, 'g, 'h, 'm) app =
  ap_manager :: "manager option"
  ap_world :: "('c, 's, 'g, 'h) manager_world"
  ap_ui :: "ui_event list"
  ap_status :: "status_event list"
  ap_modal :: 'm

text \<open>\<open>expect\<close> on a call into the modals, and the calls whose result is ignored.\<close>

definition expecting :: "('m \<Rightarrow> ('m, string, 'a) sres) \<Rightarrow> ('c, 's, 'g, 'h, 'm) app \<Rightarrow> ('a \<times> ('c, 's, 'g, 'h, 'm) app) option" where
  "expecting f st = (case f (ap_modal st) of (Inl _, _) \<Rightarrow> None | (Inr x, m) \<Rightarrow> Some (x, st\<lparr>ap_modal := m\<rparr>))"

definition ignoring :: "('m \<Rightarrow> ('m, string, 'a) sres) \<Rightarrow> ('c, 's, 'g, 'h, 'm) app \<Rightarrow> ('c, 's, 'g, 'h, 'm) app" where
  "ignoring f st = st\<lparr>ap_modal := snd (f (ap_modal st))\<rparr>"

definition status :: "status_event \<Rightarrow> ('c, 's, 'g, 'h, 'm) app \<Rightarrow> ('c, 's, 'g, 'h, 'm) app" where
  "status e st = st\<lparr>ap_status := ap_status st @ [e]\<rparr>"

definition tell :: "ui_event \<Rightarrow> ('c, 's, 'g, 'h, 'm) app \<Rightarrow> ('c, 's, 'g, 'h, 'm) app" where
  "tell e st = st\<lparr>ap_ui := ap_ui st @ [e]\<rparr>"

definition app_store :: "('c, 's, 'g, 'h, 'm) app \<Rightarrow> 's" where
  "app_store st = mw_store (ap_world st)"

definition with_store :: "('s \<Rightarrow> ('s, 'e, 'a) sres) \<Rightarrow> ('c, 's, 'g, 'h, 'm) app \<Rightarrow> ('c, 's, 'g, 'h, 'm) app" where
  "with_store f st = st\<lparr>ap_world := (ap_world st)\<lparr>mw_store := snd (f (app_store st))\<rparr>\<rparr>"

subsection \<open>Conversations\<close>

definition dialogue_set :: "'m ui_lib \<Rightarrow> string option \<Rightarrow> ('c, 's, 'g, 'h, 'm) app \<Rightarrow> ('c, 's, 'g, 'h, 'm) app option" where
  "dialogue_set U room_alias st = map_option (\<lambda>(_, st1). tell (DialogueSet DIALOGUE_DICT room_alias) st1) (expecting (ui_dialogue_set U) st)"

definition open_peer ::
  "libsignal \<Rightarrow> 's pddb \<Rightarrow> 'm ui_lib \<Rightarrow> string \<Rightarrow> u32 \<Rightarrow> ('c, 's, 'g, 'h, 'm) app \<Rightarrow> ('c, 's, 'g, 'h, 'm) app option" where
  "open_peer L P U peer_uuid device_id st =
     Option.bind (dialogue_set U (Some peer_uuid) st) (\<lambda>st1.
       let st2 = with_store (clear_unread P peer_uuid) st1 in
       Some (case ls_device_id_new L (ucast device_id) of
               Inl _ \<Rightarrow> st2
             | Inr dev \<Rightarrow> with_store (set_focused_peer P \<lparr>pa_name = peer_uuid, pa_device = dev\<rparr>) st2))"

text \<open>The conversation list. The slices cut at a byte, so they panic inside a character.\<close>

definition short :: "nat \<Rightarrow> string \<Rightarrow> string option" where
  "short n s = (if n < length s then slice_to s n else Some s)"

definition peer_label :: "peer_summary \<Rightarrow> string option" where
  "peer_label p =
     (let marker = (if 0 < ps_unread p then ''*'' else '' '') in
      Option.bind (short 12 (ps_display_name p)) (\<lambda>name_short.
      Option.bind (short 32 (ps_last_snippet p)) (\<lambda>snippet_short.
      Some (marker @ '' '' @ name_short @ ''  '' @ snippet_short))))"

fun peer_labels :: "peer_summary list \<Rightarrow> string list option" where
  "peer_labels [] = Some []"
| "peer_labels (p # ps) = Option.bind (peer_label p) (\<lambda>l. map_option (Cons l) (peer_labels ps))"

fun add_list_items :: "'m ui_lib \<Rightarrow> string list \<Rightarrow> ('c, 's, 'g, 'h, 'm) app \<Rightarrow> ('c, 's, 'g, 'h, 'm) app" where
  "add_list_items U [] st = st"
| "add_list_items U (l # ls) st = add_list_items U ls (ignoring (ui_add_list_item U l) st)"

fun position :: "('a \<Rightarrow> bool) \<Rightarrow> 'a list \<Rightarrow> nat option" where
  "position f [] = None"
| "position f (x # xs) = (if f x then Some 0 else map_option Suc (position f xs))"

definition show_peer_picker ::
  "'s pddb \<Rightarrow> 'm ui_lib \<Rightarrow> ('c, 's, 'g, 'h, 'm) app \<Rightarrow> (peer_summary option \<times> ('c, 's, 'g, 'h, 'm) app) option" where
  "show_peer_picker P U st =
     (let peers = list_sorted P (app_store st) in
      if peers = [] then Some (None, ignoring (ui_show_notification U ''No conversations yet. Wait for an incoming message.'') st)
      else
        Option.bind (peer_labels peers) (\<lambda>labels.
        let st1 = add_list_items U labels st in
        case ui_get_radiobutton U ''Conversations'' (ap_modal st1) of
          (Inl _, m) \<Rightarrow> Some (None, st1\<lparr>ap_modal := m\<rparr>)
        | (Inr chosen, m) \<Rightarrow>
            Some (map_option ((!) peers) (position (\<lambda>l. l = chosen) labels), st1\<lparr>ap_modal := m\<rparr>)))"

text \<open>\<open>post\<close>: local echo, then encrypt and submit to the current recipient; \<open>ts\<close> is the clock.\<close>

definition post ::
  "wire_codec \<Rightarrow> libsignal \<Rightarrow> send_lib \<Rightarrow> 's pddb \<Rightarrow> 's protocol \<Rightarrow> 'h net \<Rightarrow> u64 \<Rightarrow> string
     \<Rightarrow> ('c, 's, 'g, 'h, 'm) app \<Rightarrow> ('c, 's, 'g, 'h, 'm) app" where
  "post W L S P R N ts body st =
     (let st1 = status (StatusText ''sending...'') (status (BusyState True) st);
          st2 = tell Redraw (tell (PostAdd ''me'' ts body) st1);
          st3 = (case current_recipient L P (app_store st2) of
                   Inl _ \<Rightarrow> st2
                 | Inr recipient \<Rightarrow>
                     (case submit_with_retry W L S P fst (pddb_env L P R N) body ts recipient (app_store st2, mw_net (ap_world st2)) of
                        (r, (s, h)) \<Rightarrow>
                          let st = st2\<lparr>ap_world := (ap_world st2)\<lparr>mw_store := s, mw_net := h\<rparr>\<rparr> in
                          case r of
                            Inr _ \<Rightarrow> with_store (record_outbound P (pa_name recipient) ts body) st
                          | Inl _ \<Rightarrow> st))
      in status (BusyState False) st3)"

subsection \<open>WiFi\<close>

definition wifi_try_modal :: "'m ui_lib \<Rightarrow> ('c, 's, 'g, 'h, 'm) app \<Rightarrow> (bool \<times> ('c, 's, 'g, 'h, 'm) app) option" where
  "wifi_try_modal U st =
     Option.bind (expecting (ui_add_list_item U ''yes'') st) (\<lambda>(_, st).
     Option.bind (expecting (ui_add_list_item U ''no'') st) (\<lambda>(_, st).
     Option.bind (expecting (ui_get_radiobutton U ''Connect to WiFi?'') st) (\<lambda>(_, st).
     case ui_get_radio_index U (ap_modal st) of
       (Inr button, m) \<Rightarrow> Some (button = 0, st\<lparr>ap_modal := m\<rparr>)
     | (Inl _, m) \<Rightarrow> Some (False, st\<lparr>ap_modal := m\<rparr>))))"

definition dhcp_bound :: "'m ui_lib \<Rightarrow> ('c, 's, 'g, 'h, 'm) app \<Rightarrow> bool \<times> ('c, 's, 'g, 'h, 'm) app" where
  "dhcp_bound U st = (case ui_dhcp_bound U (ap_modal st) of (b, m) \<Rightarrow> (b, st\<lparr>ap_modal := m\<rparr>))"

definition WIFI_TIMEOUT :: nat where
  "WIFI_TIMEOUT = 10"

text \<open>The ten polls after switching the WiFi on; the list holds the seconds still to go.\<close>

fun wifi_poll :: "'m ui_lib \<Rightarrow> nat list \<Rightarrow> ('c, 's, 'g, 'h, 'm) app \<Rightarrow> (bool \<times> ('c, 's, 'g, 'h, 'm) app) option" where
  "wifi_poll U [] st = Some (False, st)"
| "wifi_poll U (wait # waits) st =
     Option.bind (expecting (ui_sleep_ms U 1000) st) (\<lambda>(_, st).
     Option.bind (expecting (ui_update_progress U wait) st) (\<lambda>(_, st).
     case dhcp_bound U st of (b, st) \<Rightarrow>
       if b then map_option (\<lambda>(_, st). (True, st)) (expecting (ui_finish_progress U) st)
       else wifi_poll U waits st))"

text \<open>The user is asked again until the link is up or the answer is no; \<open>None\<close> also when that never
  happens.\<close>

partial_function (option) wifi_loop ::
  "'m ui_lib \<Rightarrow> ('c, 's, 'g, 'h, 'm) app \<Rightarrow> (bool \<times> ('c, 's, 'g, 'h, 'm) app) option" where
  "wifi_loop U st =
     Option.bind (wifi_try_modal U st) (\<lambda>(yes, st).
     if yes then
       Option.bind (expecting (ui_wifi_on U) st) (\<lambda>(_, st).
       Option.bind (expecting (ui_start_progress U) st) (\<lambda>(_, st).
       Option.bind (expecting (ui_ticktimer U) st) (\<lambda>(_, st).
       Option.bind (wifi_poll U [0..<WIFI_TIMEOUT] st) (\<lambda>(up, st).
       if up then Some (True, st) else wifi_loop U st))))
     else Some (False, st))"

definition wifi :: "bool \<Rightarrow> 'm ui_lib \<Rightarrow> ('c, 's, 'g, 'h, 'm) app \<Rightarrow> (bool \<times> ('c, 's, 'g, 'h, 'm) app) option" where
  "wifi hosted_mode U st =
     (if hosted_mode then Some (True, st)
      else case dhcp_bound U st of (b, st) \<Rightarrow> if b then Some (True, st) else wifi_loop U st)"

subsection \<open>Account setup\<close>

abbreviation (input) other_error :: "string \<Rightarrow> io_error" where "other_error t \<equiv> IoError OtherKind t"

definition signal_config :: "account_lib \<Rightarrow> config option" where
  "signal_config A = Option.bind (res_ok (al_host_parse A ''signal.org'')) (\<lambda>h. config_new A h Live)"

definition probe_host :: "'m ui_lib \<Rightarrow> url \<Rightarrow> ('c, 's, 'g, 'h, 'm) app \<Rightarrow> (bool \<times> ('c, 's, 'g, 'h, 'm) app) option" where
  "probe_host U url st =
     (let st = status (BusyState True) (status (StatusText (ui_t U ''sigchat.status.probing'')) st) in
      Option.bind (ui_host_str U url) (\<lambda>host.
      case ui_tls_accessible U host (ap_modal st) of (accessible, m) \<Rightarrow>
        let st = st\<lparr>ap_modal := m\<rparr> in
        if accessible then Some (True, status (BusyState False) st)
        else map_option (\<lambda>(_, st). (False, status (BusyState False) st))
               (expecting (ui_show_notification U (ui_t U ''sigchat.account.abort'')) st)))"

text \<open>\<open>content()[0]\<close> panics on an empty payload.\<close>

definition name_modal :: "'m ui_lib \<Rightarrow> string \<Rightarrow> string \<Rightarrow> ('c, 's, 'g, 'h, 'm) app \<Rightarrow> (string \<times> ('c, 's, 'g, 'h, 'm) app) option" where
  "name_modal U default_name prompt st =
     (case ui_text_field U prompt default_name (ap_modal st) of
        (Inr (content # _), m) \<Rightarrow> Some (content, st\<lparr>ap_modal := m\<rparr>)
      | (Inr [], _) \<Rightarrow> None
      | (Inl _, m) \<Rightarrow> Some (default_name, st\<lparr>ap_modal := m\<rparr>))"

definition number_modal :: "'m ui_lib \<Rightarrow> ('c, 's, 'g, 'h, 'm) app \<Rightarrow> ((unit + string) \<times> ('c, 's, 'g, 'h, 'm) app) option" where
  "number_modal U st =
     (case ui_text_field U (ui_t U ''sigchat.number.title'') (ui_t U ''sigchat.number'') (ap_modal st) of
        (Inr (number # _), m) \<Rightarrow> Some (Inr number, st\<lparr>ap_modal := m\<rparr>)
      | (Inr [], _) \<Rightarrow> None
      | (Inl _, m) \<Rightarrow> Some (Inl (), st\<lparr>ap_modal := m\<rparr>))"

text \<open>The parameters of linking in one record: the wire codec, libsignal and the libraries below it,
  and what the rest of the system does during the link.\<close>

record ('l, 'n, 't, 'c, 's, 'g, 'h) link_lib =
  lk_wire :: wire_codec
  lk_signal :: libsignal
  lk_crypto :: "'g crypto"
  lk_attrs :: "'g attrs_lib"
  lk_keygen :: "'g keygen"
  lk_rest :: "'h rest_lib"
  lk_account :: account_lib
  lk_pddb :: "'s pddb"
  lk_prov :: "('n, 't, 'c) prov_env"
  lk_connected :: 'l
  lk_unknown :: 'l

definition run_link ::
  "('l, 'n, 't, 'c, 's, 'g, 'h) link_lib \<Rightarrow> ('l, 'n) link_input \<Rightarrow> string \<Rightarrow> manager \<Rightarrow> ('c, 's, 'g, 'h, 'm) app
     \<Rightarrow> ((io_error + bool) \<times> ('c, 's, 'g, 'h, 'm) app) option" where
  "run_link K i name m st =
     map_option (\<lambda>(r, _, w). (r, st\<lparr>ap_world := w\<rparr>))
       (manager_link (lk_wire K) (lk_signal K) (lk_crypto K) (lk_attrs K) (lk_keygen K) (lk_rest K) (lk_account K) (lk_pddb K)
          (lk_prov K) (lk_connected K) (lk_unknown K) i name m (ap_world st))"

text \<open>A fault of \<open>Account::new\<close> or \<open>read\<close> is an error value unless it is a panic.\<close>

fun no_panic :: "account_fault + 'a \<Rightarrow> (io_error + 'a) option" where
  "no_panic (Inr a) = Some (Inr a)"
| "no_panic (Inl (IoFault e)) = Some (Inl e)"
| "no_panic (Inl UnwrapPanic) = None"

definition account_link ::
  "('l, 'n, 't, 'c, 's, 'g, 'h) link_lib \<Rightarrow> ('l, 'n) link_input \<Rightarrow> 'm ui_lib \<Rightarrow> config \<Rightarrow> ('c, 's, 'g, 'h, 'm) app
     \<Rightarrow> ((io_error + account) \<times> ('c, 's, 'g, 'h, 'm) app) option" where
  "account_link K i U cfg st =
     (let A = lk_account K; P = lk_pddb K;
          st = status (BusyState True) (status (StatusText (ui_t U ''sigchat.status.initializing'')) st)
      in case account_new A P ACCOUNT_DICT (cf_host cfg) (cf_service_environment cfg) (app_store st) of (r, s) \<Rightarrow>
         let st = st\<lparr>ap_world := (ap_world st)\<lparr>mw_store := s\<rparr>\<rparr> in
         Option.bind (no_panic r) (\<lambda>r.
         case r of
           Inl _ \<Rightarrow>
             map_option (\<lambda>(_, st). (Inl (other_error ''failed to create new Account in pddb''), st))
               (expecting (ui_show_notification U (ui_t U ''sigchat.account.failed'')) st)
         | Inr a \<Rightarrow>
             Option.bind (manager_new A a OnFirstUse) (\<lambda>m.
             Option.bind (name_modal U ''xous'' (ui_t U ''sigchat.account.link.name'') st) (\<lambda>(name, st).
             let st = status (BusyState True) (status (StatusText (ui_t U ''sigchat.status.connecting'')) st) in
             Option.bind (run_link K i name m st) (\<lambda>(linked, st).
             case linked of
               Inr True \<Rightarrow>
                 map_option (\<lambda>r. (r, status (BusyState False) st)) (no_panic (read_account A P ACCOUNT_DICT (app_store st)))
             | Inr False \<Rightarrow> Some (Inl (other_error ''failed to link Signal Account''), status (BusyState False) st)
             | Inl e \<Rightarrow>
                 map_option (\<lambda>(_, st). (Inl (other_error ''error while linking Signal Account''), st))
                   (expecting (ui_show_notification U (io_error_text e)) (status (BusyState False) (with_store (account_delete P ACCOUNT_DICT) st))))))))"

definition account_register ::
  "account_lib \<Rightarrow> 's pddb \<Rightarrow> 'm ui_lib \<Rightarrow> config \<Rightarrow> ('c, 's, 'g, 'h, 'm) app
     \<Rightarrow> ((io_error + account) \<times> ('c, 's, 'g, 'h, 'm) app) option" where
  "account_register A P U cfg st =
     (let unimplemented = (\<lambda>st. Some (Inl (other_error ''not implmented''), st)) in
      Option.bind (expecting (ui_show_notification U (CHR ''s'' # ''orry - registration is not implemented yet'')) st) (\<lambda>(_, st).
      Option.bind (number_modal U st) (\<lambda>(number, st).
      case number of
        Inl _ \<Rightarrow> unimplemented st
      | Inr number \<Rightarrow>
          (case account_new A P ACCOUNT_DICT (cf_host cfg) (cf_service_environment cfg) (app_store st) of (r, s) \<Rightarrow>
             let st = st\<lparr>ap_world := (ap_world st)\<lparr>mw_store := s\<rparr>\<rparr> in
             Option.bind (no_panic r) (\<lambda>r.
             case r of
               Inl _ \<Rightarrow> unimplemented st
             | Inr a \<Rightarrow>
                 (case set_number P number (a, app_store st) of (r, (a, s)) \<Rightarrow>
                    let st = st\<lparr>ap_world := (ap_world st)\<lparr>mw_store := s\<rparr>\<rparr> in
                    Option.bind (no_panic r) (\<lambda>r.
                    case r of
                      Inl _ \<Rightarrow> unimplemented st
                    | Inr _ \<Rightarrow> Option.bind (manager_new A a OnFirstUse) (\<lambda>m. unimplemented (st\<lparr>ap_manager := Some m\<rparr>)))))))))"

definition account_setup ::
  "('l, 'n, 't, 'c, 's, 'g, 'h) link_lib \<Rightarrow> ('l, 'n) link_input \<Rightarrow> 'm ui_lib \<Rightarrow> ('c, 's, 'g, 'h, 'm) app
     \<Rightarrow> ((io_error + account) \<times> ('c, 's, 'g, 'h, 'm) app) option" where
  "account_setup K i U st =
     (let untrusted = other_error ''failed to trust host certificate'' in
      Option.bind (expecting (ui_add_list_item U (ui_t U ''sigchat.account.link'')) st) (\<lambda>(_, st).
      Option.bind (expecting (ui_add_list_item U (ui_t U ''sigchat.account.register'')) st) (\<lambda>(_, st).
      Option.bind (expecting (ui_add_list_item U (ui_t U ''sigchat.account.offline'')) st) (\<lambda>(_, st).
      Option.bind (expecting (ui_get_radiobutton U (ui_t U ''sigchat.account.title'')) st) (\<lambda>(_, st).
      case ui_get_radio_index U (ap_modal st) of
        (Inl _, m) \<Rightarrow> Some (Inl (other_error ''failed to present account setup radio buttons''), st\<lparr>ap_modal := m\<rparr>)
      | (Inr index, m) \<Rightarrow>
          let st = st\<lparr>ap_modal := m\<rparr> in
          if index = 0 then
            Option.bind (signal_config (lk_account K)) (\<lambda>cfg.
            Option.bind (probe_host U (cf_url cfg) st) (\<lambda>(trusted, st).
            if trusted then account_link K i U cfg st else Some (Inl untrusted, st)))
          else if index = 1 then
            Option.bind (signal_config (lk_account K)) (\<lambda>cfg.
            Option.bind (probe_host U (cf_url cfg) st) (\<lambda>(trusted, st).
            if trusted then account_register (lk_account K) (lk_pddb K) U cfg st else Some (Inl untrusted, st)))
          else if index = 2 then Some (Inl (other_error ''account setup aborted''), st)
          else Some (Inl (other_error ''invalid radio index''), st))))))"

subsection \<open>Connecting\<close>

text \<open>The account of the PDDB if it is registered. A panic of \<open>Account::read\<close> is \<open>None\<close>.\<close>

definition registered_account :: "account_lib \<Rightarrow> 's pddb \<Rightarrow> 's \<Rightarrow> account option option" where
  "registered_account A P s =
     map_option (\<lambda>r. case r of Inr a \<Rightarrow> if is_registered a then Some a else None | Inl _ \<Rightarrow> None)
       (no_panic (read_account A P ACCOUNT_DICT s))"

definition sigchat_new ::
  "account_lib \<Rightarrow> 's pddb \<Rightarrow> ('c, 's, 'g, 'h) manager_world \<Rightarrow> 'm \<Rightarrow> ('c, 's, 'g, 'h, 'm) app option" where
  "sigchat_new A P w modal =
     Option.bind (registered_account A P (mw_store w)) (\<lambda>r.
     map_option (\<lambda>m. \<lparr>ap_manager = m, ap_world = w, ap_ui = [], ap_status = [], ap_modal = modal\<rparr>)
       (case r of None \<Rightarrow> Some None | Some a \<Rightarrow> map_option Some (manager_new A a OnFirstUse)))"

definition is_ready :: "('c, 's, 'g, 'h, 'm) app \<Rightarrow> bool" where
  "is_ready st \<longleftrightarrow> ap_manager st \<noteq> None"

definition app_connect ::
  "bool \<Rightarrow> ('l, 'n, 't, 'c, 's, 'g, 'h) link_lib \<Rightarrow> ('l, 'n) link_input \<Rightarrow> 'm ui_lib \<Rightarrow> ('c, 's, 'g, 'h, 'm) app
     \<Rightarrow> ((io_error + bool) \<times> ('c, 's, 'g, 'h, 'm) app) option" where
  "app_connect hosted_mode K i U st =
     Option.bind (wifi hosted_mode U st) (\<lambda>(up, st).
     if \<not> up then
       map_option (\<lambda>(_, st). (Inr False, st)) (expecting (ui_show_notification U (ui_t U ''sigchat.wifi.warning'')) st)
     else
       let online = (\<lambda>st. (Inr True, status (StatusText (ui_t U ''sigchat.status.online'')) st)) in
       case ap_manager st of
         Some _ \<Rightarrow> Some (online st)
       | None \<Rightarrow>
           Option.bind (registered_account (lk_account K) (lk_pddb K) (app_store st)) (\<lambda>r.
           Option.bind (case r of Some a \<Rightarrow> Some (Inr a, st) | None \<Rightarrow> account_setup K i U st) (\<lambda>(r, st).
           case r of
             Inl e \<Rightarrow> Some (Inl e, status (StatusText (ui_t U ''sigchat.status.offline'')) st)
           | Inr a \<Rightarrow>
               let st = status (BusyState True) (status (StatusText (ui_t U ''sigchat.status.connecting'')) st) in
               map_option (\<lambda>m. online (status (BusyState False) (st\<lparr>ap_manager := Some m\<rparr>))) (manager_new (lk_account K) a OnFirstUse))))"

definition app_start_receive ::
  "account_lib \<Rightarrow> bool \<Rightarrow> string + unit \<Rightarrow> ('c, 's, 'g, 'h, 'm) app \<Rightarrow> (io_error + bool) \<times> thread list" where
  "app_start_receive A replenish_spawned receive_spawn st =
     (case ap_manager st of
        None \<Rightarrow> (Inr False, [])
      | Some m \<Rightarrow>
          (case manager_start_receive A replenish_spawned receive_spawn m of
             (Inr _, ts) \<Rightarrow> (Inr True, ts)
           | (Inl e, ts) \<Rightarrow> (Inl (other_error (''start_receive: '' @ io_error_text e)), ts)))"

subsection \<open>The event loop\<close>

text \<open>The messages of the loop. A focus event carries what the system answers if it connects; a post
  its text and the clock.\<close>

datatype ('l, 'n) sigchat_msg =
    EventFocus "('l, 'n) link_input" bool "string + unit"
  | EventF1
  | EventOther
  | MenuMsg
  | PostMsg string u64
  | Rawkeys
  | UnknownOp
  | Quit

record ('c, 's, 'g, 'h, 'm) main_state =
  mn_app :: "('c, 's, 'g, 'h, 'm) app"
  mn_first_focus :: bool
  mn_initial_dialogue_key :: string
  mn_threads :: "thread list"

record ('l, 'n, 't, 'c, 's, 'g, 'h, 'm) main_lib =
  ml_hosted_mode :: bool
  ml_link :: "('l, 'n, 't, 'c, 's, 'g, 'h) link_lib"
  ml_ui :: "'m ui_lib"
  ml_send :: send_lib
  ml_protocol :: "'s protocol"
  ml_net :: "'h net"

text \<open>Connect and, when that succeeds, show the dialogue and start the receive threads. The flag says
  whether \<open>connect\<close> returned \<open>Ok(true)\<close>.\<close>

definition bring_up ::
  "('l, 'n, 't, 'c, 's, 'g, 'h, 'm) main_lib \<Rightarrow> ('l, 'n) link_input \<Rightarrow> bool \<Rightarrow> string + unit \<Rightarrow> ('c, 's, 'g, 'h, 'm) main_state
     \<Rightarrow> (bool \<times> ('c, 's, 'g, 'h, 'm) main_state) option" where
  "bring_up M i replenish_spawned receive_spawn mn =
     Option.bind (app_connect (ml_hosted_mode M) (ml_link M) i (ml_ui M) (mn_app mn)) (\<lambda>(r, st).
     case r of
       Inr True \<Rightarrow>
         map_option (\<lambda>st1. (True, mn\<lparr>mn_app := st1,
             mn_threads := mn_threads mn @ snd (app_start_receive (lk_account (ml_link M)) replenish_spawned receive_spawn st1)\<rparr>))
           (dialogue_set (ml_ui M) (Some (mn_initial_dialogue_key mn)) st)
     | _ \<Rightarrow> Some (False, mn\<lparr>mn_app := st\<rparr>))"

definition main_start ::
  "('l, 'n, 't, 'c, 's, 'g, 'h, 'm) main_lib \<Rightarrow> string option \<Rightarrow> string option \<Rightarrow> ('l, 'n) link_input \<Rightarrow> bool \<Rightarrow> string + unit
     \<Rightarrow> ('c, 's, 'g, 'h) manager_world \<Rightarrow> 'm \<Rightarrow> ('c, 's, 'g, 'h, 'm) main_state option" where
  "main_start M uuid_env dev_env i replenish_spawned receive_spawn w modal =
     (let K = ml_link M; P = lk_pddb K in
      Option.bind (sigchat_new (lk_account K) P w modal) (\<lambda>st.
      let st = with_store (seed_demo_recipient_from_env (lk_signal K) P uuid_env dev_env) st;
          key = (case focused_peer_uuid P (app_store st) of Some uuid \<Rightarrow> uuid | None \<Rightarrow> ''default'');
          mn = \<lparr>mn_app = st, mn_first_focus = True, mn_initial_dialogue_key = key, mn_threads = []\<rparr>
      in if is_ready st then map_option snd (bring_up M i replenish_spawned receive_spawn (mn\<lparr>mn_first_focus := False\<rparr>))
         else Some mn))"

definition main_post ::
  "('l, 'n, 't, 'c, 's, 'g, 'h, 'm) main_lib \<Rightarrow> string \<Rightarrow> u64 \<Rightarrow> ('c, 's, 'g, 'h, 'm) main_state \<Rightarrow> ('c, 's, 'g, 'h, 'm) main_state" where
  "main_post M s ts mn =
     (if s = [] then mn
      else mn\<lparr>mn_app := post (lk_wire (ml_link M)) (lk_signal (ml_link M)) (ml_send M) (lk_pddb (ml_link M)) (ml_protocol M) (ml_net M) ts s (mn_app mn)\<rparr>)"

text \<open>One message; the flag says whether the loop goes on.\<close>

fun main_step ::
  "('l, 'n, 't, 'c, 's, 'g, 'h, 'm) main_lib \<Rightarrow> ('l, 'n) sigchat_msg \<Rightarrow> ('c, 's, 'g, 'h, 'm) main_state
     \<Rightarrow> (bool \<times> ('c, 's, 'g, 'h, 'm) main_state) option" where
  "main_step M (EventFocus i replenish_spawned receive_spawn) mn =
     map_option (\<lambda>mn1. (True, mn1\<lparr>mn_app := tell Redraw (mn_app mn1)\<rparr>))
       (if mn_first_focus mn
        then map_option (\<lambda>(ok, mn1). if ok then mn1\<lparr>mn_first_focus := False\<rparr> else mn1) (bring_up M i replenish_spawned receive_spawn mn)
        else Some mn)"
| "main_step M EventF1 mn =
     Option.bind (show_peer_picker (lk_pddb (ml_link M)) (ml_ui M) (mn_app mn)) (\<lambda>(picked, st).
     case picked of
       None \<Rightarrow> Some (True, mn\<lparr>mn_app := st\<rparr>)
     | Some p \<Rightarrow>
         map_option (\<lambda>st1. (True, mn\<lparr>mn_app := st1\<rparr>))
           (open_peer (lk_signal (ml_link M)) (lk_pddb (ml_link M)) (ml_ui M) (ps_uuid p) 1 st))"
| "main_step M (PostMsg s ts) mn = Some (True, main_post M s ts mn)"
| "main_step M Quit mn = Some (False, mn)"
| "main_step M _ mn = Some (True, mn)"

fun main_run ::
  "('l, 'n, 't, 'c, 's, 'g, 'h, 'm) main_lib \<Rightarrow> ('l, 'n) sigchat_msg list \<Rightarrow> ('c, 's, 'g, 'h, 'm) main_state
     \<Rightarrow> ('c, 's, 'g, 'h, 'm) main_state option" where
  "main_run M [] mn = Some mn"
| "main_run M (x # xs) mn = Option.bind (main_step M x mn) (\<lambda>(go, mn1). if go then main_run M xs mn1 else Some mn1)"

section \<open>The receive worker is started once\<close>

definition receivers :: "thread list \<Rightarrow> nat" where
  "receivers ts = length (filter (\<lambda>t. case t of ReceiveThread _ _ _ _ \<Rightarrow> True | _ \<Rightarrow> False) ts)"

lemma receivers_append [simp]: "receivers (xs @ ys) = receivers xs + receivers ys"
  by (simp add: receivers_def)

lemma start_receive_once: "receivers (snd (app_start_receive A b r st)) \<le> 1"
  by (auto simp: app_start_receive_def manager_start_receive_def receivers_def Let_def split: option.splits sum.splits)

lemma bring_up_threads:
  assumes "bring_up M i b r mn = Some (ok, mn')"
  shows "receivers (mn_threads mn') \<le> receivers (mn_threads mn) + 1 \<and> (\<not> ok \<longrightarrow> mn_threads mn' = mn_threads mn)
    \<and> mn_first_focus mn' = mn_first_focus mn"
proof -
  let ?c = "app_connect (ml_hosted_mode M) (ml_link M) i (ml_ui M) (mn_app mn)"
  obtain q st where c: "?c = Some (q, st)" using assms by (cases ?c) (auto simp: bring_up_def)
  show ?thesis
  proof (cases "q = Inr True")
    case True
    then obtain st1 where "dialogue_set (ml_ui M) (Some (mn_initial_dialogue_key mn)) st = Some st1"
      using assms c by (cases "dialogue_set (ml_ui M) (Some (mn_initial_dialogue_key mn)) st") (simp_all add: bring_up_def)
    then show ?thesis using assms c True start_receive_once by (auto simp: bring_up_def)
  next
    case False
    then have "mn' = mn\<lparr>mn_app := st\<rparr> \<and> \<not> ok" using assms c by (auto simp: bring_up_def split: sum.splits bool.splits)
    then show ?thesis by simp
  qed
qed

lemma step_threads:
  assumes "main_step M x mn = Some (go, mn')"
  shows "if mn_first_focus mn
    then (mn_first_focus mn' \<and> mn_threads mn' = mn_threads mn) \<or> (\<not> mn_first_focus mn' \<and> receivers (mn_threads mn') \<le> receivers (mn_threads mn) + 1)
    else mn_threads mn' = mn_threads mn \<and> \<not> mn_first_focus mn'"
proof (cases x)
  case (EventFocus i b r)
  show ?thesis
  proof (cases "mn_first_focus mn")
    case True
    then obtain ok mn1 where up: "bring_up M i b r mn = Some (ok, mn1)"
      using assms EventFocus by (cases "bring_up M i b r mn") auto
    then show ?thesis using True assms EventFocus bring_up_threads [OF up] by (cases ok) auto
  qed (use assms EventFocus in auto)
next
  case EventF1
  let ?p = "show_peer_picker (lk_pddb (ml_link M)) (ml_ui M) (mn_app mn)"
  obtain picked st where "?p = Some (picked, st)" using assms EventF1 by (cases ?p) auto
  then have "\<exists>st. mn' = mn\<lparr>mn_app := st\<rparr>" using assms EventF1 by (cases picked) auto
  then show ?thesis by auto
qed (use assms in \<open>auto simp: main_post_def split: if_splits\<close>)

lemma run_threads:
  "main_run M xs mn = Some mn' \<Longrightarrow>
   (\<not> mn_first_focus mn \<longrightarrow> mn_threads mn' = mn_threads mn) \<and> receivers (mn_threads mn') \<le> receivers (mn_threads mn) + (if mn_first_focus mn then 1 else 0)"
proof (induction xs arbitrary: mn)
  case (Cons x xs)
  then obtain go mn1 where s: "main_step M x mn = Some (go, mn1)" by (cases "main_step M x mn") auto
  note t = step_threads [OF s]
  show ?case
  proof (cases go)
    case True
    then have "main_run M xs mn1 = Some mn'" using Cons.prems s by simp
    from Cons.IH [OF this] t show ?thesis by (cases "mn_first_focus mn"; cases "mn_first_focus mn1") (simp_all split: if_splits)
  next
    case False
    then have "mn' = mn1" using Cons.prems s by simp
    with t show ?thesis by (cases "mn_first_focus mn") (auto split: if_splits)
  qed
qed simp

lemma is_ready_with_store [simp]: "is_ready (with_store f st) = is_ready st"
  by (simp add: is_ready_def with_store_def)

lemma main_start_ready:
  assumes "sigchat_new (lk_account (ml_link M)) (lk_pddb (ml_link M)) w modal = Some st" "is_ready st"
  shows "\<exists>mn. main_start M uuid_env dev_env i b r w modal = map_option snd (bring_up M i b r mn) \<and> mn_threads mn = [] \<and> \<not> mn_first_focus mn"
  using assms by (simp add: main_start_def Let_def) (rule exI, rule conjI [OF refl], simp)

text \<open>C40. The receive worker is started at most once, over any sequence of messages. It is started by
  the first connect that succeeds on a focus event; but when an account is already registered at
  the start, only the connect of the start itself counts: if that one fails, for instance because
  the WiFi was declined, no later focus event starts anything.\<close>

theorem receive_started_once:
  assumes "main_start M uuid_env dev_env i b r w modal = Some mn0" and "main_run M xs mn0 = Some mn"
  shows "receivers (mn_threads mn) \<le> 1
    \<and> (registered_account (lk_account (ml_link M)) (lk_pddb (ml_link M)) (mw_store w) \<noteq> Some None \<longrightarrow> mn_threads mn = mn_threads mn0)"
proof -
  let ?A = "lk_account (ml_link M)" and ?P = "lk_pddb (ml_link M)"
  obtain st where st: "sigchat_new ?A ?P w modal = Some st"
    using assms(1) by (cases "sigchat_new ?A ?P w modal") (auto simp: main_start_def)
  let ?st = "with_store (seed_demo_recipient_from_env (lk_signal (ml_link M)) ?P uuid_env dev_env) st"
  have ready: "is_ready ?st \<longleftrightarrow> registered_account ?A ?P (mw_store w) \<noteq> Some None"
    using st by (auto simp: sigchat_new_def is_ready_def with_store_def bind_eq_Some_conv split: option.splits)
  note run = run_threads [OF assms(2)]
  show ?thesis
  proof (cases "is_ready ?st")
    case True
    then have "is_ready st" by simp
    from main_start_ready [OF st this, of uuid_env dev_env i b r] assms(1)
    obtain mn1 where mn1: "map_option snd (bring_up M i b r mn1) = Some mn0" "mn_threads mn1 = []" "\<not> mn_first_focus mn1" by metis
    then obtain ok where up: "bring_up M i b r mn1 = Some (ok, mn0)" by auto
    from bring_up_threads [OF up] mn1(2,3) have "\<not> mn_first_focus mn0" "receivers (mn_threads mn0) \<le> 1"
      by (simp_all add: receivers_def)
    with run show ?thesis by simp
  next
    case False
    then have "mn_threads mn0 = []" "mn_first_focus mn0" using assms(1) st by (auto simp: main_start_def Let_def)
    with run ready False show ?thesis by (simp add: receivers_def)
  qed
qed

text \<open>A registered account, a WiFi that is down and a user who declines.\<close>

definition demo_ui :: "nat \<Rightarrow> unit ui_lib" where
  "demo_ui button =
     \<lparr>ui_t = id, ui_add_list_item = (\<lambda>_ m. (Inr (), m)), ui_get_radiobutton = (\<lambda>_ m. (Inr [], m)), ui_get_radio_index = (\<lambda>m. (Inr button, m)),
      ui_show_notification = (\<lambda>_ m. (Inr (), m)), ui_text_field = (\<lambda>_ d m. (Inr [d], m)), ui_start_progress = (\<lambda>m. (Inr (), m)),
      ui_update_progress = (\<lambda>_ m. (Inr (), m)), ui_finish_progress = (\<lambda>m. (Inr (), m)), ui_wifi_on = (\<lambda>m. (Inr (), m)),
      ui_ticktimer = (\<lambda>m. (Inr (), m)), ui_sleep_ms = (\<lambda>_ m. (Inr (), m)), ui_dhcp_bound = (\<lambda>m. (False, m)),
      ui_tls_accessible = (\<lambda>_ m. (True, m)), ui_host_str = (\<lambda>u. Some ''chat''), ui_dialogue_set = (\<lambda>m. (Inr (), m))\<rparr>"

definition registered_store :: mem_state where
  "registered_store =
     [((ACCOUNT_DICT, DEVICE_ID_KEY), ''2''), ((ACCOUNT_DICT, HOST_KEY), ''signal.org''), ((ACCOUNT_DICT, IS_MULTI_DEVICE_KEY), ''true''),
      ((ACCOUNT_DICT, REGISTERED_KEY), ''true''), ((ACCOUNT_DICT, SERVICE_ENVIRONMENT_KEY), ''Live''), ((ACCOUNT_DICT, STORE_MANIFEST_VERSION_KEY), ''-1'')]"

definition offline_rest :: "'h rest_lib" where
  "offline_rest =
     \<lparr>rs_put = (\<lambda>u a b h. (UreqTransport ''down'', h)), rs_get = (\<lambda>u a h. (UreqTransport ''down'', h)), rs_into_string = id,
      rs_url_set_path = (\<lambda>p u. u), rs_url_set_query = (\<lambda>q u. u), rs_url_to_string = (\<lambda>u. case u of Url b \<Rightarrow> b),
      rs_link_to_json = (\<lambda>b. Inr []), rs_attrs_to_json = (\<lambda>a. Inr []), rs_keys_to_json = (\<lambda>k. Inr []),
      rs_link_object = (\<lambda>s. Inl ''no json''), rs_count_from_json = (\<lambda>s. Inl ''no json''),
      rs_dump_body = (\<lambda>t h. h), rs_dump_error = (\<lambda>t h. h)\<rparr>"

definition demo_main :: "nat \<Rightarrow> (bool, io_error + log_conn, unit, log_conn, mem_state, nat, script_net, unit) main_lib" where
  "demo_main button =
     \<lparr>ml_hosted_mode = False,
      ml_link = \<lparr>lk_wire = pb_wire, lk_signal = token_libsignal, lk_crypto = token_crypto, lk_attrs = token_attrs, lk_keygen = counting_keygen,
                 lk_rest = offline_rest,
                 lk_account = token_account_lib, lk_pddb = mem_pddb, lk_prov = demo_prov_env, lk_connected = True, lk_unknown = False\<rparr>,
      ml_ui = demo_ui button, ml_send = token_send_lib, ml_protocol = token_protocol, ml_net = scripted\<rparr>"

lemma registered_fits: "map_of registered_store (d, k) = Some b \<Longrightarrow> fits b"
  by (auto simp: registered_store_def fits_def split: if_splits intro!: utf8_valid_ascii)

lemma registered_read: "\<exists>a. read_account token_account_lib mem_pddb ACCOUNT_DICT registered_store = Inr a \<and> is_registered a"
proof -
  have get: "account_get mem_pddb ACCOUNT_DICT k registered_store = Inr (map_of registered_store (ACCOUNT_DICT, k))" for k
    by (rule mem.account_get_fits) (rule registered_fits)
  show ?thesis
    by (simp add: read_account_def get) (simp add: registered_store_def host_or_default_def token_account_lib_def is_registered_def)
qed

definition demo_app_world :: "(log_conn, mem_state, nat, script_net) manager_world" where
  "demo_app_world =
     \<lparr>mw_store = registered_store, mw_rng = 0, mw_net = \<lparr>sn_answers = [], sn_puts = [], sn_clock = 0, sn_slept = 0\<rparr>, mw_shown = [], mw_closed = []\<rparr>"

lemma registered_demo: "\<exists>a. registered_account token_account_lib mem_pddb registered_store = Some (Some a)"
  using registered_read by (auto simp: registered_account_def)

lemma token_manager: "\<exists>m. manager_new token_account_lib a mode = Some m"
  by (cases "ac_service_environment a") (simp_all add: manager_new_def config_new_def token_account_lib_def Let_def)

lemma loop_declined: "\<exists>st'. wifi_loop (demo_ui 2) st = Some (False, st')"
  by (subst wifi_loop.simps) (simp add: wifi_try_modal_def expecting_def demo_ui_def)

lemma declined: "\<exists>st'. app_connect False K i (demo_ui 2) st = Some (Inr False, st')"
proof -
  obtain st' where "wifi_loop (demo_ui 2) (st\<lparr>ap_modal := ()\<rparr>) = Some (False, st')" using loop_declined by blast
  then have "wifi False (demo_ui 2) st = Some (False, st')"
    unfolding wifi_def dhcp_bound_def by (simp add: demo_ui_def)
  then show ?thesis by (auto simp: app_connect_def expecting_def demo_ui_def)
qed

theorem receive_started_once_witness:
  "\<exists>mn0 mn. main_start (demo_main 2) None None demo_link_input True (Inr ()) demo_app_world () = Some mn0
     \<and> main_run (demo_main 2) [EventFocus demo_link_input True (Inr ()), Quit] mn0 = Some mn
     \<and> mn_threads mn0 = [] \<and> mn_threads mn = mn_threads mn0"
proof -
  have m: "ml_hosted_mode (demo_main 2) = False" "ml_ui (demo_main 2) = demo_ui 2" "lk_account (ml_link (demo_main 2)) = token_account_lib"
    "lk_pddb (ml_link (demo_main 2)) = mem_pddb" by (simp_all add: demo_main_def)
  obtain a where a: "registered_account token_account_lib mem_pddb registered_store = Some (Some a)" using registered_demo by blast
  have up: "\<exists>mn'. bring_up (demo_main 2) i b r mn = Some (False, mn') \<and> mn_threads mn' = mn_threads mn \<and> mn_first_focus mn' = mn_first_focus mn" for i b r mn
    using declined [of "ml_link (demo_main 2)" i "mn_app mn"] by (auto simp: bring_up_def m)
  obtain m0 where "manager_new token_account_lib a OnFirstUse = Some m0" using token_manager by blast
  then obtain st where st: "sigchat_new token_account_lib mem_pddb demo_app_world () = Some st" "is_ready st"
    using a by (simp add: sigchat_new_def demo_app_world_def is_ready_def)
  from main_start_ready [OF _ st(2)] st(1) obtain mn1 where
    "main_start (demo_main 2) None None demo_link_input True (Inr ()) demo_app_world () = map_option snd (bring_up (demo_main 2) demo_link_input True (Inr ()) mn1)"
    "mn_threads mn1 = []" "\<not> mn_first_focus mn1" by (metis m(3,4))
  with up [of demo_link_input True "Inr ()" mn1]
  obtain mn0 where mn0: "main_start (demo_main 2) None None demo_link_input True (Inr ()) demo_app_world () = Some mn0"
    "mn_threads mn0 = []" "\<not> mn_first_focus mn0" by auto
  obtain mn where mn: "main_run (demo_main 2) [EventFocus demo_link_input True (Inr ()), Quit] mn0 = Some mn" using mn0(3) by simp
  from receive_started_once [OF mn0(1) mn] mn0 mn a show ?thesis by (auto simp: m demo_app_world_def)
qed

section \<open>The conversation list\<close>

lemma short_None: "short n s = None \<longleftrightarrow> n < length s \<and> \<not> is_char_boundary s n"
  by (simp add: short_def slice_to_def)

lemma peer_label_None:
  "peer_label p = None \<longleftrightarrow> short 12 (ps_display_name p) = None \<or> short 32 (ps_last_snippet p) = None"
  by (auto simp: peer_label_def Let_def split: option.splits bind_splits)

lemma peer_labels_None: "peer_labels ps = None \<longleftrightarrow> (\<exists>p \<in> set ps. peer_label p = None)"
  by (induction ps) (auto split: bind_splits)

text \<open>C39. When the conversation list crashes: opening it panics exactly if some stored conversation has
  a display name cut inside a character at byte 12, or a last message cut inside one at byte 32.
  Eleven three-byte characters in a message are enough, whoever sent it.\<close>

theorem picker_panics_iff:
  "(show_peer_picker P U st = None \<longleftrightarrow>
     (\<exists>p. p \<in> set (list_sorted P (app_store st))
        \<and> ((12 < length (ps_display_name p) \<and> \<not> is_char_boundary (ps_display_name p) 12)
         \<or> (32 < length (ps_last_snippet p) \<and> \<not> is_char_boundary (ps_last_snippet p) 32))))
   \<and> \<not> is_char_boundary (concat (replicate 11 [CHR 0xE6, CHR 0x97, CHR 0xA5])) 32"
proof
  show "show_peer_picker P U st = None \<longleftrightarrow>
     (\<exists>p. p \<in> set (list_sorted P (app_store st))
        \<and> ((12 < length (ps_display_name p) \<and> \<not> is_char_boundary (ps_display_name p) 12)
         \<or> (32 < length (ps_last_snippet p) \<and> \<not> is_char_boundary (ps_last_snippet p) 32)))"
  proof (cases "list_sorted P (app_store st) = []")
    case True
    then show ?thesis by (simp add: show_peer_picker_def)
  next
    case False
    then have "show_peer_picker P U st = None \<longleftrightarrow> peer_labels (list_sorted P (app_store st)) = None"
      by (cases "peer_labels (list_sorted P (app_store st))") (auto simp: show_peer_picker_def Let_def split: prod.splits sum.splits)
    then show ?thesis by (auto simp: peer_labels_None peer_label_None short_None)
  qed
qed code_simp

end
