(* ===== verification/Conversation.thy ===== *)
theory Conversation
  imports App
begin

text \<open>
  Who a post goes to. The main thread opens conversations and posts, the receive thread delivers
  messages; both act on the PDDB (the focused and the default recipient) and on the chat server
  (the dialogue shown). The steps of the two threads are the inductive relation \<open>conversation\<close>; the
  theorems relate the dialogue on the screen to the recipient of the next post.
\<close>

section \<open>Steps\<close>

text \<open>A delivery of the receive thread on the state of the application; \<open>None\<close> when it panics.\<close>

definition receive_content ::
  "wire_codec \<Rightarrow> 's pddb \<Rightarrow> bytes \<Rightarrow> protocol_address \<Rightarrow> u64 \<Rightarrow> ('c, 's, 'g, 'h, 'm) app \<Rightarrow> ('c, 's, 'g, 'h, 'm) app option" where
  "receive_content W P plaintext remote_addr server_ts st =
     (case deliver_content W P plaintext remote_addr server_ts \<lparr>rx_store = app_store st, rx_ui = ap_ui st, rx_conn = ()\<rparr> of
        (Inl _, _) \<Rightarrow> None
      | (Inr _, rx) \<Rightarrow> Some (st\<lparr>ap_world := (ap_world st)\<lparr>mw_store := rx_store rx\<rparr>, ap_ui := rx_ui rx\<rparr>))"

definition addressable :: "libsignal \<Rightarrow> protocol_address \<Rightarrow> bool" where
  "addressable L a \<longleftrightarrow> DQ \<notin> set (pa_name a) \<and> utf8_valid (peer_payload a) \<and> 1 \<le> pa_device a \<and> pa_device a \<le> 127
     \<and> ls_device_id_new L (pa_device a) = Inr (pa_device a)"

text \<open>The states of an open conversation with \<open>p\<close>: opened from any state, then any deliveries, posts
  and redraws, in any order.\<close>

inductive conversation ::
  "wire_codec \<Rightarrow> libsignal \<Rightarrow> 's pddb \<Rightarrow> 'm ui_lib \<Rightarrow> send_lib \<Rightarrow> 's protocol \<Rightarrow> 'h net \<Rightarrow> string \<Rightarrow> ('c, 's, 'g, 'h, 'm) app \<Rightarrow> bool"
  for W L P U S R N where
  opened: "addressable L \<lparr>pa_name = p, pa_device = d\<rparr> \<Longrightarrow> open_peer L P U p (ucast d) st = Some st' \<Longrightarrow> conversation W L P U S R N p st'"
| received: "conversation W L P U S R N p st \<Longrightarrow> receive_content W P plaintext a ts st = Some st' \<Longrightarrow> conversation W L P U S R N p st'"
| posted: "conversation W L P U S R N p st \<Longrightarrow> conversation W L P U S R N p (post W L S P R N ts body st)"
| redrawn: "conversation W L P U S R N p st \<Longrightarrow> conversation W L P U S R N p (tell Redraw st)"

section \<open>The dialogue shown\<close>

lemma post_store [simp]: "rx_store (post_to_peer_dialogue q author ts body foc rx) = rx_store rx"
  by (simp add: post_to_peer_dialogue_def cf_dialogue_set_def emit_def Let_def split: option.split)

lemma post_displayed:
  "displayed d (rx_ui (post_to_peer_dialogue q author ts body (Some p) rx)) = (if q = p then displayed d (rx_ui rx) else Some p)"
  "displayed d (rx_ui (post_to_peer_dialogue q author ts body None rx)) = Some q"
  by (simp_all add: post_to_peer_dialogue_def cf_dialogue_set_def emit_def Let_def)


section \<open>The pointers\<close>

context healthy_pddb
begin

lemma write_summary_frame: "view (snd (write_summary P p s)) (DIALOGUE_DICT, k) = view s (DIALOGUE_DICT, k)"
proof -
  obtain s1 where "pddb_replace P PEERS_DICT (ps_uuid p) (to_json p) s = (Inr (), s1)" using replace_eq by blast
  with replace_view [of PEERS_DICT "ps_uuid p" "to_json p" s] show ?thesis by (simp add: write_summary_def)
qed

lemma peers_frame:
  "view (snd (record_outbound P u ts body s)) (DIALOGUE_DICT, k) = view s (DIALOGUE_DICT, k)"
  "view (snd (record_inbound P u ts body f s)) (DIALOGUE_DICT, k) = view s (DIALOGUE_DICT, k)"
  "view (snd (clear_unread P u s)) (DIALOGUE_DICT, k) = view s (DIALOGUE_DICT, k)"
  by (simp_all add: record_outbound_def record_inbound_def clear_unread_def Let_def write_summary_frame split: option.split)

lemma pointer_view:
  "view (snd (set_focused_peer P a s)) = (view s)((DIALOGUE_DICT, FOCUSED_PEER_KEY) \<mapsto> peer_payload a)"
  "view (snd (set_current_recipient P a s)) = (view s)((DIALOGUE_DICT, DEFAULT_PEER_KEY) \<mapsto> peer_payload a)"
  by (simp_all add: set_focused_peer_def set_current_recipient_def replace_view split_beta)

text \<open>The focus pointer names \<open>a\<close>.\<close>

definition focused_on :: "protocol_address \<Rightarrow> 's \<Rightarrow> bool" where
  "focused_on a s \<longleftrightarrow> view s (DIALOGUE_DICT, FOCUSED_PEER_KEY) = Some (peer_payload a)"

lemma focused_recipient:
  assumes "addressable L a" "focused_on a s"
  shows "focused_peer_uuid P s = Some (pa_name a)" "current_recipient L P s = Inr a"
  using assms parse_peer_payload [of a L]
  by (simp_all add: addressable_def focused_on_def focused_peer_uuid_def current_recipient_def get_string_eq extract_uuid_payload)

lemma opened_focused:
  assumes "addressable L \<lparr>pa_name = p, pa_device = d\<rparr>" "open_peer L P U p (ucast d) st = Some st'"
  shows "focused_on \<lparr>pa_name = p, pa_device = d\<rparr> (app_store st')" "displayed None (ap_ui st') = Some p"
proof -
  have "(ucast (ucast d :: u32) :: u8) = d" by (rule word_unat_eq_iff [THEN iffD2]) (simp add: unat_ucast_u8)
  with assms show "focused_on \<lparr>pa_name = p, pa_device = d\<rparr> (app_store st')" "displayed None (ap_ui st') = Some p"
    by (auto simp: open_peer_def dialogue_set_def expecting_def addressable_def with_store_def app_store_def tell_def Let_def
        focused_on_def pointer_view bind_eq_Some_conv split: prod.splits sum.splits)
qed

lemma deliver_focused:
  assumes "addressable L a" "focused_on a (rx_store rx)" "displayed d0 (rx_ui rx) = Some (pa_name a)"
    and "deliver_content W P plaintext b ts rx = (Inr (), rx')"
  shows "focused_on a (rx_store rx') \<and> displayed d0 (rx_ui rx') = Some (pa_name a)"
proof -
  note foc = focused_recipient(1) [OF assms(1,2)]
  have data: "focused_on a (rx_store x) \<and> displayed d0 (rx_ui x) = Some (pa_name a)"
    if "deliver_data_message P dm b ts rx = (ok, x)" for dm ok x
    using that assms(2,3) foc
    by (auto simp: deliver_data_message_def Let_def focused_on_def peers_frame post_displayed split: if_splits)
  have sync: "focused_on a (rx_store x) \<and> displayed d0 (rx_ui x) = Some (pa_name a)"
    if "deliver_sync_message P sy ts rx = (r, x)" for sy r x
    using that assms(2,3) foc
    by (auto simp: deliver_sync_message_def Let_def focused_on_def peers_frame post_displayed split: if_splits option.splits)
  show ?thesis
  proof (cases "decode_in_content W (strip_signal_padding plaintext)")
    case None
    then show ?thesis using assms by (simp add: deliver_content_def)
  next
    case (Some content)
    show ?thesis
    proof (cases "ic_data_message content")
      case (Some dm)
      obtain ok x where x: "deliver_data_message P dm b ts rx = (ok, x)" by (metis surj_pair)
      from data [OF x] show ?thesis
        using assms(4) x Some \<open>decode_in_content W (strip_signal_padding plaintext) = Some content\<close>
        by (auto simp: deliver_content_def emit_def focused_on_def pointer_view split: if_splits)
    next
      case None
      show ?thesis
      proof (cases "ic_sync_message content")
        case (Some sy)
        obtain r x where x: "deliver_sync_message P sy ts rx = (r, x)" by (metis surj_pair)
        from sync [OF x] show ?thesis
          using assms(4) x None Some \<open>decode_in_content W (strip_signal_padding plaintext) = Some content\<close>
          by (cases r) (auto simp: deliver_content_def emit_def split: if_splits)
      qed (use assms None Some in \<open>simp add: deliver_content_def\<close>)
    qed
  qed
qed

end

section \<open>What sending leaves alone\<close>

text \<open>libsignal writes through the protocol stores only, so it never touches the dialogue dict.\<close>

locale dialogue_store = healthy_pddb P view for P :: "'s pddb" and view :: "'s \<Rightarrow> kv" +
  fixes R :: "'s protocol"
  assumes encrypt_frame: "view (snd (pr_message_encrypt R m a l s)) (DIALOGUE_DICT, k) = view s (DIALOGUE_DICT, k)"
    and process_frame: "view (snd (pr_process_prekey_bundle R a b s)) (DIALOGUE_DICT, k) = view s (DIALOGUE_DICT, k)"
begin

text \<open>The change of a key of the dialogue dict as a cost, which no call of a submission adds to.\<close>

lemma unchanged_costed:
  "costed_env (pddb_env L P R N) (\<lambda>w. if view (fst w) (DIALOGUE_DICT, k) = b then 0 else 1) 0 0"
proof unfold_locales
  fix m a l w r w1 assume "se_message_encrypt (pddb_env L P R N) m a l w = (r, w1)"
  then have "view (fst w1) (DIALOGUE_DICT, k) = view (fst w) (DIALOGUE_DICT, k)"
    using encrypt_frame [of m a l "fst w" k] by (auto simp: pddb_env_def on_fst_def split: prod.splits)
  then show "(if view (fst w1) (DIALOGUE_DICT, k) = b then 0 else 1) = (if view (fst w) (DIALOGUE_DICT, k) = b then 0 else 1 :: nat)"
    by simp
next
  fix a c w q w1 assume "sv_process_prekey_bundle (pddb_env L P R N) a c w = (q, w1)"
  then have "view (fst w1) (DIALOGUE_DICT, k) = view (fst w) (DIALOGUE_DICT, k)"
    using process_frame [of a c "fst w" k] by (auto simp: pddb_env_def on_fst_def split: prod.splits)
  then show "(if view (fst w1) (DIALOGUE_DICT, k) = b then 0 else 1) = (if view (fst w) (DIALOGUE_DICT, k) = b then 0 else 1 :: nat)"
    by simp
qed (auto simp: pddb_env_def on_snd_def delete_session_def delete_view sync_view split: prod.splits)

lemma submit_frame:
  "view (fst (snd (submit_with_retry W L S P fst (pddb_env L P R N) t ts a w))) (DIALOGUE_DICT, k) = view (fst w) (DIALOGUE_DICT, k)"
proof -
  have "view (fst (snd (submit_with_retry_with_stores W L S (pddb_env L P R N) t ts a l acct w))) (DIALOGUE_DICT, k) = view (fst w) (DIALOGUE_DICT, k)" for l acct
    using costed_env.submit_with_stores_cost [OF unchanged_costed [of L N k "view (fst w) (DIALOGUE_DICT, k)"],
        where w = w and W = W and L = L and U = S and t = t and ts = ts and a = a and l = l and acct = acct]
    by (simp split: if_splits)
  then show ?thesis by (auto simp: submit_with_retry_def split: sum.splits option.splits)
qed

section \<open>An open conversation stays open\<close>

lemma post_frame: "view (app_store (post W L S P R N ts body st)) (DIALOGUE_DICT, k) = view (app_store st) (DIALOGUE_DICT, k)"
proof (cases "current_recipient L P (app_store st)")
  case (Inl e)
  then show ?thesis by (simp add: post_def status_def tell_def app_store_def)
next
  case (Inr a)
  let ?w = "(app_store st, mw_net (ap_world st))"
  obtain r s h where run: "submit_with_retry W L S P fst (pddb_env L P R N) body ts a ?w = (r, (s, h))" by (metis surj_pair)
  have "view s (DIALOGUE_DICT, k) = view (app_store st) (DIALOGUE_DICT, k)"
    using submit_frame [of W L S N body ts a ?w k] run by simp
  then show ?thesis using Inr run
    by (cases r) (simp_all add: post_def status_def tell_def app_store_def with_store_def peers_frame Let_def)
qed

lemma post_ui: "ap_ui (post W L S P R N ts body st) = ap_ui st @ [PostAdd ''me'' ts body, Redraw]"
  by (auto simp: post_def status_def tell_def with_store_def Let_def split: sum.splits prod.splits)

lemma conversation_focused:
  assumes "conversation W L P U S R N p st"
  shows "\<exists>d. addressable L \<lparr>pa_name = p, pa_device = d\<rparr> \<and> focused_on \<lparr>pa_name = p, pa_device = d\<rparr> (app_store st) \<and> displayed None (ap_ui st) = Some p"
  using assms
proof (induction rule: conversation.induct)
  case (opened p d st st')
  then show ?case using opened_focused by blast
next
  case (received p st plaintext a ts st')
  then obtain d where d: "addressable L \<lparr>pa_name = p, pa_device = d\<rparr>" "focused_on \<lparr>pa_name = p, pa_device = d\<rparr> (app_store st)"
    "displayed None (ap_ui st) = Some p" by blast
  obtain rx' where rx': "deliver_content W P plaintext a ts \<lparr>rx_store = app_store st, rx_ui = ap_ui st, rx_conn = ()\<rparr> = (Inr (), rx')"
    "st' = st\<lparr>ap_world := (ap_world st)\<lparr>mw_store := rx_store rx'\<rparr>, ap_ui := rx_ui rx'\<rparr>"
    using received.hyps(2) by (auto simp: receive_content_def split: prod.splits sum.splits)
  show ?case using deliver_focused [OF d(1) _ _ rx'(1), of None] d rx'(2) by (auto simp: app_store_def)
next
  case (posted p st ts body)
  then obtain d where d: "addressable L \<lparr>pa_name = p, pa_device = d\<rparr>" "focused_on \<lparr>pa_name = p, pa_device = d\<rparr> (app_store st)"
    "displayed None (ap_ui st) = Some p" by blast
  then show ?case by (auto simp: focused_on_def post_frame post_ui)
next
  case (redrawn p st)
  then show ?case by (auto simp: tell_def app_store_def)
qed

lemma shown_peer:
  assumes "conversation W L P U S R N p st"
  shows "displayed None (ap_ui st) = Some p \<and> focused_peer_uuid P (app_store st) = Some p
    \<and> (\<exists>d. current_recipient L P (app_store st) = Inr \<lparr>pa_name = p, pa_device = d\<rparr>)
    \<and> displayed None (ap_ui (post W L S P R N ts body st)) = Some p"
proof -
  obtain d where d: "addressable L \<lparr>pa_name = p, pa_device = d\<rparr>" "focused_on \<lparr>pa_name = p, pa_device = d\<rparr> (app_store st)"
    "displayed None (ap_ui st) = Some p" using conversation_focused [OF assms] by blast
  with focused_recipient [OF d(1,2)] show ?thesis by (auto simp: post_ui)
qed

end

interpretation mem_dialogue: dialogue_store mem_pddb map_of token_protocol
  by unfold_locales (simp_all add: token_protocol_def)

section \<open>Properties\<close>

text \<open>C16. A post goes to the conversation on the screen: once a peer has been opened, and after any
  deliveries (from anyone, transcripts included), posts and redraws in any order, the dialogue
  shown is the peer's, the focus is the peer, and the peer is the recipient of the next post,
  whose echo is added to that dialogue.\<close>

theorem posts_reach_shown_peer:
  assumes "dialogue_store P view R" and "conversation W L P U S R N p st"
  shows "displayed None (ap_ui st) = Some p \<and> focused_peer_uuid P (app_store st) = Some p
    \<and> (\<exists>d. current_recipient L P (app_store st) = Inr \<lparr>pa_name = p, pa_device = d\<rparr>)
    \<and> displayed None (ap_ui (post W L S P R N ts body st)) = Some p"
  using assms by (rule dialogue_store.shown_peer)

text \<open>Opening a peer, delivering a message of somebody else and posting, on the in-memory PDDB.\<close>

definition demo_app :: "(unit, mem_state, nat, script_net, unit) app" where
  "demo_app = \<lparr>ap_manager = None,
     ap_world = \<lparr>mw_store = [], mw_rng = 0, mw_net = \<lparr>sn_answers = [], sn_puts = [], sn_clock = 0, sn_slept = 0\<rparr>, mw_shown = [], mw_closed = []\<rparr>,
     ap_ui = [], ap_status = [], ap_modal = ()\<rparr>"

lemma demo_addressable: "addressable token_libsignal \<lparr>pa_name = ''bob'', pa_device = 1\<rparr>" "addressable token_libsignal \<lparr>pa_name = ''eve'', pa_device = 1\<rparr>"
  by (auto simp: addressable_def token_libsignal_def peer_payload_def json_string_needle_def json_number_needle_def is_digit_def
      dest!: show_word_digits intro!: utf8_valid_ascii)

lemma demo_opened: "\<exists>st'. open_peer token_libsignal P (demo_ui 0) p d st = Some st'"
  by (simp add: open_peer_def dialogue_set_def expecting_def demo_ui_def Let_def)

theorem posts_reach_shown_peer_witness:
  "\<exists>st. open_peer token_libsignal mem_pddb (demo_ui 0) ''bob'' 1 demo_app = Some st \<and> displayed None (ap_ui st) = Some ''bob''
     \<and> (\<exists>d. current_recipient token_libsignal mem_pddb (app_store st) = Inr \<lparr>pa_name = ''bob'', pa_device = d\<rparr>)"
proof -
  obtain st where st: "open_peer token_libsignal mem_pddb (demo_ui 0) ''bob'' (ucast (1 :: u8)) demo_app = Some st" using demo_opened by blast
  from posts_reach_shown_peer [OF mem_dialogue.dialogue_store_axioms conversation.opened [OF demo_addressable(1) st,
      of pb_wire token_send_lib token_protocol scripted]] st
  show ?thesis by auto
qed

text \<open>C38. Switching conversations races with a delivery: if the receive thread has read the focus on
  \<open>p\<close> for a message of somebody else, and the main thread opens \<open>q\<close> before the message is posted, then
  the receive thread switches the screen back to \<open>p\<close> while posts go to \<open>q\<close>.\<close>

theorem delivery_race_misplaces:
  assumes "healthy_pddb P view" and "addressable L \<lparr>pa_name = q, pa_device = d\<rparr>"
    and "focused_peer_uuid P (app_store st) = Some p" and "author \<noteq> p"
    and "open_peer L P U q (ucast d) st = Some st1"
    and "rx = post_to_peer_dialogue author author ts body (focused_peer_uuid P (app_store st)) \<lparr>rx_store = app_store st1, rx_ui = ap_ui st1, rx_conn = c\<rparr>"
  shows "displayed None (rx_ui rx) = Some p \<and> current_recipient L P (rx_store rx) = Inr \<lparr>pa_name = q, pa_device = d\<rparr>"
proof -
  have "healthy_pddb.focused_on view \<lparr>pa_name = q, pa_device = d\<rparr> (app_store st1)"
    by (rule healthy_pddb.opened_focused(1) [OF assms(1,2,5)])
  then have "current_recipient L P (app_store st1) = Inr \<lparr>pa_name = q, pa_device = d\<rparr>"
    by (rule healthy_pddb.focused_recipient(2) [OF assms(1,2)])
  then show ?thesis using assms(3,4,6) by (simp add: post_displayed)
qed

theorem delivery_race_misplaces_witness:
  "\<exists>(st :: (unit, mem_state, nat, script_net, unit) app) st1. focused_peer_uuid mem_pddb (app_store st) = Some ''bob'' \<and> open_peer token_libsignal mem_pddb (demo_ui 0) ''eve'' 1 st = Some st1
     \<and> displayed None (rx_ui (post_to_peer_dialogue ''carol'' ''carol'' 7 ''hi'' (focused_peer_uuid mem_pddb (app_store st))
         \<lparr>rx_store = app_store st1, rx_ui = ap_ui st1, rx_conn = ()\<rparr>)) = Some ''bob''
     \<and> current_recipient token_libsignal mem_pddb (app_store st1) = Inr \<lparr>pa_name = ''eve'', pa_device = 1\<rparr>"
proof -
  obtain st where st: "open_peer token_libsignal mem_pddb (demo_ui 0) ''bob'' (ucast (1 :: u8)) demo_app = Some st" using demo_opened by blast
  have foc: "focused_peer_uuid mem_pddb (app_store st) = Some ''bob''"
    using mem.focused_recipient(1) [OF demo_addressable(1) mem.opened_focused(1) [OF demo_addressable(1) st]] by simp
  obtain st1 where st1: "open_peer token_libsignal mem_pddb (demo_ui 0) ''eve'' (ucast (1 :: u8)) st = Some st1" using demo_opened by blast
  from delivery_race_misplaces [OF mem.healthy_pddb_axioms demo_addressable(2) foc _ st1 refl, of "''carol''" 7 "''hi''" "()"] foc st1
  show ?thesis by (intro exI [of _ st] exI [of _ st1]) simp
qed

text \<open>C37. With no conversation opened and a recipient \<open>c\<close> set by an earlier message, a transcript of a
  message the user sent from another device to somebody else, \<open>b\<close>, brings the dialogue of \<open>b\<close> on
  the screen but leaves \<open>c\<close>, who is not the peer shown, the recipient of the next post.\<close>

theorem transcript_misroutes:
  assumes "healthy_pddb P view" and "focused_peer_uuid P (rx_store st) = None"
    and "current_recipient L P (rx_store st) = Inr c"
    and "isy_sent sync = Some sent" and "is_destination_service_id sent = Some b" and "pa_name c \<noteq> b"
    and "deliver_sync_message P sync ts st = (Inr True, st')"
  shows "displayed d (rx_ui st') = Some b \<and> current_recipient L P (rx_store st') = Inr c
    \<and> displayed d (rx_ui st') \<noteq> Some (pa_name c)"
proof -
  have "\<exists>au t body x. st' = post_to_peer_dialogue b au t body None (x\<lparr>rx_store := snd (record_outbound P b t body (rx_store st))\<rparr>)"
    using assms(2,4,5,7) by (auto simp: deliver_sync_message_def Let_def split: option.splits if_splits)
  then obtain au t body x where st': "st' = post_to_peer_dialogue b au t body None (x\<lparr>rx_store := snd (record_outbound P b t body (rx_store st))\<rparr>)"
    by blast
  then have "pddb_get_string P DIALOGUE_DICT k (rx_store st') = pddb_get_string P DIALOGUE_DICT k (rx_store st)" for k
    by (simp add: healthy_pddb.get_string_eq [OF assms(1)] healthy_pddb.peers_frame [OF assms(1)])
  then have "current_recipient L P (rx_store st') = current_recipient L P (rx_store st)" unfolding current_recipient_def by (simp only:)
  then show ?thesis using assms(3,6) by (simp add: st' post_displayed)
qed

text \<open>A message from eve has come in, and the transcript is of a message to bob.\<close>

theorem transcript_misroutes_witness:
  "\<exists>st'. deliver_sync_message mem_pddb
       \<lparr>isy_sent = Some \<lparr>is_destination_service_id = Some ''bob'', is_timestamp = None, is_message = Some \<lparr>dm_body = Some ''hi'', dm_timestamp = None\<rparr>\<rparr>\<rparr> 7
       \<lparr>rx_store = snd (set_current_recipient mem_pddb \<lparr>pa_name = ''eve'', pa_device = 1\<rparr> []), rx_ui = [], rx_conn = ()\<rparr> = (Inr True, st')
     \<and> displayed (Some ''eve'') (rx_ui st') = Some ''bob''
     \<and> current_recipient token_libsignal mem_pddb (rx_store st') = Inr \<lparr>pa_name = ''eve'', pa_device = 1\<rparr>"
proof -
  let ?sent = "\<lparr>is_destination_service_id = Some ''bob'', is_timestamp = None, is_message = Some \<lparr>dm_body = Some ''hi'', dm_timestamp = None\<rparr>\<rparr>"
  let ?eve = "\<lparr>pa_name = ''eve'', pa_device = 1\<rparr> :: protocol_address"
  let ?s = "snd (set_current_recipient mem_pddb ?eve [])"
  let ?st = "\<lparr>rx_store = ?s, rx_ui = [], rx_conn = ()\<rparr>"
  obtain s where s: "pddb_replace mem_pddb DIALOGUE_DICT DEFAULT_PEER_KEY (peer_payload ?eve) [] = (Inr (), s)"
      "map_of s = (map_of [])((DIALOGUE_DICT, DEFAULT_PEER_KEY) \<mapsto> peer_payload ?eve)"
    using mem.replace_eq mem.replace_view by (metis snd_conv)
  then have v: "map_of ?s = [(DIALOGUE_DICT, DEFAULT_PEER_KEY) \<mapsto> peer_payload ?eve]"
    by (simp only: set_current_recipient_def prod.case snd_conv) simp
  have foc: "focused_peer_uuid mem_pddb (rx_store ?st) = None"
    by (simp add: focused_peer_uuid_def mem.get_string_eq v)
  have "parse_peer_json token_libsignal (peer_payload ?eve) = Inr ?eve" "utf8_valid (peer_payload ?eve)"
    using demo_addressable(2) by (auto simp: addressable_def intro: parse_peer_payload)
  then have rec: "current_recipient token_libsignal mem_pddb (rx_store ?st) = Inr ?eve"
    by (simp add: current_recipient_def mem.get_string_eq v)
  obtain st' where st': "deliver_sync_message mem_pddb \<lparr>isy_sent = Some ?sent\<rparr> 7 ?st = (Inr True, st')"
    by (simp add: deliver_sync_message_def slice_to_def Let_def is_char_boundary_def)
  from transcript_misroutes [OF mem.healthy_pddb_axioms foc rec _ _ _ st'] st' show ?thesis by auto
qed

end
