(* ===== verification/Startup.thy ===== *)
theory Startup
  imports App
begin

text \<open>
  \<open>src/src/main.rs\<close> around the event loop of \<open>App\<close>: the process set-up of \<open>wrapped_main\<close> (the heap limit, the
  name, the chat server and its menu), the whole program, and its end. The kernel and the name server are the
  record \<open>boot_lib\<close>; every \<open>unwrap\<close>, \<open>expect\<close> and \<open>panic!\<close> is \<open>None\<close>.
\<close>

section \<open>Definitions\<close>

datatype sys_result = SysScalar2 nat nat | SysOther | SysError

abbreviation (input) HEAP_LARGER_LIMIT :: nat where "HEAP_LARGER_LIMIT \<equiv> 2048 * 1024"

record 'k boot_lib =
  bt_log_init :: "'k \<Rightarrow> bool \<times> 'k"
  bt_adjust_heap :: "nat \<Rightarrow> nat \<Rightarrow> 'k \<Rightarrow> sys_result \<times> 'k"
  bt_names :: "'k \<Rightarrow> bool \<times> 'k"
  bt_register_name :: "string \<Rightarrow> 'k \<Rightarrow> nat option \<times> 'k"
  bt_connect :: "nat \<Rightarrow> 'k \<Rightarrow> nat option \<times> 'k"
  bt_chat_new :: "nat \<Rightarrow> 'k \<Rightarrow> 'k"
  bt_menu_add :: "string \<Rightarrow> nat \<Rightarrow> 'k \<Rightarrow> bool \<times> 'k"
  bt_unregister :: "nat \<Rightarrow> 'k \<Rightarrow> bool \<times> 'k"
  bt_destroy_server :: "nat \<Rightarrow> 'k \<Rightarrow> bool \<times> 'k"

definition need :: "bool \<times> 'k \<Rightarrow> 'k option" where
  "need r = (if fst r then Some (snd r) else None)"

definition need_id :: "nat option \<times> 'k \<Rightarrow> (nat \<times> 'k) option" where
  "need_id r = map_option (\<lambda>i. (i, snd r)) (fst r)"

text \<open>The first call, with a wrong current limit, answers the real one; the second sets the new limit.\<close>

definition raise_heap_limit :: "'k boot_lib \<Rightarrow> 'k \<Rightarrow> 'k option" where
  "raise_heap_limit B k =
     (case bt_adjust_heap B 0 HEAP_LARGER_LIMIT k of
        (SysScalar2 flag current_limit, k1) \<Rightarrow>
          (if flag = 1
           then (case bt_adjust_heap B current_limit HEAP_LARGER_LIMIT k1 of
                   (SysError, _) \<Rightarrow> None
                 | (_, k2) \<Rightarrow> Some k2)
           else None)
      | _ \<Rightarrow> None)"

text \<open>Up to \<open>SigChat::new\<close>: the server the program listens on.\<close>

definition boot :: "'k boot_lib \<Rightarrow> 'k \<Rightarrow> (nat \<times> 'k) option" where
  "boot B k =
     Option.bind (need (bt_log_init B k)) (\<lambda>k1.
     Option.bind (raise_heap_limit B k1) (\<lambda>k2.
     Option.bind (need (bt_names B k2)) (\<lambda>k3.
     Option.bind (need_id (bt_register_name B ''_Signal chat_'' k3)) (\<lambda>(sid, k4).
     Option.bind (need_id (bt_connect B sid k4)) (\<lambda>(chat_cid, k5).
     let k6 = bt_chat_new B chat_cid k5 in
     Option.bind (need_id (bt_connect B sid k6)) (\<lambda>(cid, k7).
     map_option (Pair sid) (need (bt_menu_add B ''sigchat.menu.close'' cid k7))))))))"

definition shut_down :: "'k boot_lib \<Rightarrow> nat \<Rightarrow> 'k \<Rightarrow> 'k option" where
  "shut_down B sid k = Option.bind (need (bt_unregister B sid k)) (\<lambda>k1. need (bt_destroy_server B sid k1))"

text \<open>The whole program over the messages it gets before the one that ends it: the exit code, the state of the main
  loop and of the system.\<close>

definition wrapped_main ::
  "'k boot_lib \<Rightarrow> ('l, 'n, 't, 'c, 's, 'g, 'h, 'm) main_lib \<Rightarrow> string option \<Rightarrow> string option \<Rightarrow> ('l, 'n) link_input \<Rightarrow> bool
     \<Rightarrow> string + unit \<Rightarrow> ('c, 's, 'g, 'h) manager_world \<Rightarrow> 'm \<Rightarrow> ('l, 'n) sigchat_msg list \<Rightarrow> 'k
     \<Rightarrow> (nat \<times> ('c, 's, 'g, 'h, 'm) main_state \<times> 'k) option" where
  "wrapped_main B M uuid_env dev_env i replenish_spawned receive_spawn w modal msgs k =
     Option.bind (boot B k) (\<lambda>(sid, k1).
     Option.bind (main_start M uuid_env dev_env i replenish_spawned receive_spawn w modal) (\<lambda>mn0.
     Option.bind (main_run M (msgs @ [Quit]) mn0) (\<lambda>mn.
     map_option (\<lambda>k2. (0, mn, k2)) (shut_down B sid k1))))"

section \<open>The program as a whole\<close>

text \<open>\<open>Quit\<close> ends the loop and leaves the state alone.\<close>

lemma main_run_quit: "main_run M (xs @ [Quit]) mn = main_run M xs mn"
  by (induction xs arbitrary: mn) (auto split: bind_splits)

text \<open>Nothing the user or the network does makes the process exit with an error: a run that does not panic exits with
  0, after its name was given up and its server destroyed, and the state it ends in is the one the event loop
  reached.\<close>

theorem program_exit:
  assumes "wrapped_main B M uuid_env dev_env i b r w modal msgs k = Some (exit, mn, k')"
  shows "exit = 0 \<and> (\<exists>sid k1 mn0. boot B k = Some (sid, k1) \<and> main_start M uuid_env dev_env i b r w modal = Some mn0
    \<and> main_run M msgs mn0 = Some mn \<and> shut_down B sid k1 = Some k')"
  using assms by (auto simp: wrapped_main_def main_run_quit split: bind_splits)

end
