(* ===== verification/Store_Types.thy ===== *)
theory Store_Types
  imports Stores
begin

text \<open>
  A typing of the PDDB cells that \<open>src/src/manager/stores.rs\<close> writes: which keys a dict may hold and which
  bytes belong under them. Every operation of the five stores preserves the typing, whatever its
  result, and in a typed store no load fails on the bytes it finds. \<open>store_step\<close> is one call of an
  operation by libsignal, with any arguments and in any order.
\<close>

section \<open>Definitions\<close>

inductive cell_typed :: "libsignal \<Rightarrow> string \<Rightarrow> string \<Rightarrow> bytes \<Rightarrow> bool" for L where
  identity_cell: "ls_identity_decode L b = Inr k \<Longrightarrow> cell_typed L IDENTITY_DICT (address_key a) b"
| prekey_cell: "ls_prekey_deserialize L b = Inr r \<Longrightarrow> cell_typed L PREKEY_DICT (show_word (i :: u32)) b"
| signed_cell: "ls_signed_deserialize L b = Inr r \<Longrightarrow> cell_typed L SIGNED_PREKEY_DICT (show_word (i :: u32)) b"
| kyber_cell: "ls_kyber_deserialize L b = Inr r \<Longrightarrow> cell_typed L KYBER_PREKEY_DICT (show_word (i :: u32)) b"
| used_cell: "cell_typed L KYBER_PREKEY_DICT (kyber_dedup_key L i e k) [CHR 0x01]"
| session_cell: "ls_session_deserialize L b = Inr r \<Longrightarrow> cell_typed L SESSION_DICT (address_key a) b"
| other_cell: "d \<notin> {IDENTITY_DICT, PREKEY_DICT, SIGNED_PREKEY_DICT, KYBER_PREKEY_DICT, SESSION_DICT} \<Longrightarrow> cell_typed L d k b"

definition store_typed :: "libsignal \<Rightarrow> kv \<Rightarrow> bool" where
  "store_typed L v \<longleftrightarrow> (\<forall>d k b. v (d, k) = Some b \<longrightarrow> cell_typed L d k b)"

inductive store_step :: "libsignal \<Rightarrow> 's pddb \<Rightarrow> 's \<Rightarrow> 's \<Rightarrow> bool" for L P where
  step_save_identity: "store_step L P s (snd (save_identity L P IDENTITY_DICT a k s))"
| step_save_pre_key: "store_step L P s (snd (save_pre_key L P PREKEY_DICT i r s))"
| step_remove_pre_key: "store_step L P s (snd (remove_pre_key P PREKEY_DICT i s))"
| step_save_signed: "store_step L P s (snd (save_signed_pre_key L P SIGNED_PREKEY_DICT i q s))"
| step_save_kyber: "store_step L P s (snd (save_kyber_pre_key L P KYBER_PREKEY_DICT i y s))"
| step_mark_used: "store_step L P s (snd (mark_kyber_pre_key_used L P KYBER_PREKEY_DICT i e b s))"
| step_store_session: "store_step L P s (snd (store_session L P SESSION_DICT a z s))"
| step_delete_session: "store_step L P s (delete_session P SESSION_DICT a s)"

section \<open>Typing\<close>

declare cell_typed.intros [intro]

inductive_cases identity_cellE [elim!]: "cell_typed L IDENTITY_DICT k b"
inductive_cases prekey_cellE [elim!]: "cell_typed L PREKEY_DICT k b"
inductive_cases signed_cellE [elim!]: "cell_typed L SIGNED_PREKEY_DICT k b"
inductive_cases kyber_cellE [elim!]: "cell_typed L KYBER_PREKEY_DICT k b"
inductive_cases session_cellE [elim!]: "cell_typed L SESSION_DICT k b"

lemma store_typedI: "(\<And>d k b. v (d, k) = Some b \<Longrightarrow> cell_typed L d k b) \<Longrightarrow> store_typed L v"
  by (simp add: store_typed_def)

lemma store_typedD: "store_typed L v \<Longrightarrow> v (d, k) = Some b \<Longrightarrow> cell_typed L d k b"
  by (simp add: store_typed_def)

lemma store_typed_update: "store_typed L v \<Longrightarrow> cell_typed L d k b \<Longrightarrow> store_typed L (v((d, k) \<mapsto> b))"
  by (auto simp: store_typed_def)

lemma store_typed_delete: "store_typed L v \<Longrightarrow> store_typed L (v((d, k) := None))"
  by (auto simp: store_typed_def)

lemma store_typed_empty: "store_typed L (\<lambda>_. None)"
  by (simp add: store_typed_def)

lemma store_typed_canonical: "store_typed L v \<Longrightarrow> canonical_sessions v"
  by (auto simp: canonical_sessions_def dest!: store_typedD)

context signal_stores
begin

lemma write_typed:
  "store_typed L (view s) \<Longrightarrow> cell_typed L d k b \<Longrightarrow> store_typed L (view (snd (write_or_signal P d k b c s)))"
  by (simp add: write_eq replace_view store_typed_update)

lemma remove_view: "view (snd (remove_pre_key P d i s)) = (view s)((d, show_word i) := None)"
proof -
  obtain r s1 where "pd_delete P d (show_word i) s = (r, s1)" by (cases "pd_delete P d (show_word i) s")
  with delete_view [of d "show_word i" s] show ?thesis by (cases r) (auto simp: remove_pre_key_def)
qed

lemma step_typed:
  assumes "store_step L P s s'" "store_typed L (view s)"
  shows "store_typed L (view s')"
  using assms
proof cases
  case (step_save_identity a k)
  with assms(2) show ?thesis
    by (auto simp: save_identity_view intro!: store_typed_update identity_cell identity_codec)
next
  case (step_save_pre_key i r)
  with assms(2) prekey_codec show ?thesis
    by (auto simp: save_pre_key_def intro!: write_typed split: sum.splits)
next
  case (step_save_signed i q)
  with assms(2) signed_codec show ?thesis
    by (auto simp: save_signed_pre_key_def intro!: write_typed split: sum.splits)
next
  case (step_save_kyber i y)
  with assms(2) kyber_codec show ?thesis
    by (auto simp: save_kyber_pre_key_def intro!: write_typed split: sum.splits)
next
  case (step_mark_used i e b)
  with assms(2) show ?thesis
    by (auto simp: mark_used_eq replace_view intro!: store_typed_update)
next
  case (step_store_session a z)
  with assms(2) session_codec show ?thesis
    by (auto simp: store_session_def intro!: write_typed split: sum.splits)
qed (use assms(2) in \<open>simp_all add: remove_view delete_session_def delete_view store_typed_delete\<close>)

lemma steps_typed: "(store_step L P)\<^sup>*\<^sup>* s s' \<Longrightarrow> store_typed L (view s) \<Longrightarrow> store_typed L (view s')"
  by (induction rule: rtranclp_induct) (auto intro: step_typed)

text \<open>The three prekey stores in a typed store: the record is found, or the id is unknown.\<close>

lemma typed_get:
  assumes "\<And>k. get k s = (case pddb_read_binary P d (show_word (k :: u32)) s of
         Inr buf \<Rightarrow> des buf | Inl e \<Rightarrow> (if io_error_kind e = NotFound then Inl absent else Inl (other e)))"
    and "\<And>b. view s (d, show_word i) = Some b \<Longrightarrow> \<exists>r. des b = Inr r"
  shows "(\<exists>r. get i s = Inr r) \<or> get i s = Inl absent"
  using assms(2)
  by (cases rule: fetch_cases [of s d "show_word i"]) (auto simp: assms(1) pddb_read_binary_def)

lemma typed_loads:
  assumes "store_typed L (view s)"
  shows "\<exists>x. get_identity L P IDENTITY_DICT a s = Inr x" "\<exists>x. is_trusted_identity L P IDENTITY_DICT a k s = Inr x"
    "\<exists>x. load_session L P SESSION_DICT a s = Inr x"
    "(\<exists>x. get_pre_key L P PREKEY_DICT i s = Inr x) \<or> get_pre_key L P PREKEY_DICT i s = Inl InvalidPreKeyId"
    "(\<exists>x. get_signed_pre_key L P SIGNED_PREKEY_DICT i s = Inr x) \<or> get_signed_pre_key L P SIGNED_PREKEY_DICT i s = Inl InvalidSignedPreKeyId"
    "(\<exists>x. get_kyber_pre_key L P KYBER_PREKEY_DICT i s = Inr x) \<or> get_kyber_pre_key L P KYBER_PREKEY_DICT i s = Inl InvalidKyberPreKeyId"
proof -
  have id: "view s (IDENTITY_DICT, address_key a) = Some b \<Longrightarrow> \<exists>x. ls_identity_decode L b = Inr x" for b
    by (drule store_typedD [OF assms]) auto
  then show "\<exists>x. get_identity L P IDENTITY_DICT a s = Inr x" "\<exists>x. is_trusted_identity L P IDENTITY_DICT a k s = Inr x"
    by (fastforce simp: get_identity_eq is_trusted_eq split: option.split)+
  have "view s (SESSION_DICT, address_key a) = Some b \<Longrightarrow> \<exists>x. ls_session_deserialize L b = Inr x" for b
    by (drule store_typedD [OF assms]) auto
  then show "\<exists>x. load_session L P SESSION_DICT a s = Inr x"
    by (fastforce simp: load_session_eq split: option.split)
  show "(\<exists>x. get_pre_key L P PREKEY_DICT i s = Inr x) \<or> get_pre_key L P PREKEY_DICT i s = Inl InvalidPreKeyId"
    by (rule typed_get, rule get_pre_key_def) (drule store_typedD [OF assms], auto)
  show "(\<exists>x. get_signed_pre_key L P SIGNED_PREKEY_DICT i s = Inr x) \<or> get_signed_pre_key L P SIGNED_PREKEY_DICT i s = Inl InvalidSignedPreKeyId"
    by (rule typed_get, rule get_signed_pre_key_def) (drule store_typedD [OF assms], auto)
  show "(\<exists>x. get_kyber_pre_key L P KYBER_PREKEY_DICT i s = Inr x) \<or> get_kyber_pre_key L P KYBER_PREKEY_DICT i s = Inl InvalidKyberPreKeyId"
    by (rule typed_get, rule get_kyber_pre_key_def) (drule store_typedD [OF assms], auto simp: kyber_dedup_key_not_id kyber_dedup_key_not_id [symmetric])
qed

end

section \<open>Properties\<close>

text \<open>C18. The stores are type safe: every operation keeps each dict to its own keys and to bytes that decode as the
  records of that dict; so after any sequence of operations on a typed store (an empty one is typed) no load
  fails on what it reads: identities and sessions are found or absent, prekeys are found or unknown.\<close>

theorem stores_type_safe:
  assumes "signal_stores P view L" and "store_typed L (view s)" and "(store_step L P)\<^sup>*\<^sup>* s s'"
  shows "store_typed L (view s')
    \<and> (\<exists>x. get_identity L P IDENTITY_DICT a s' = Inr x) \<and> (\<exists>x. is_trusted_identity L P IDENTITY_DICT a k s' = Inr x)
    \<and> (\<exists>x. load_session L P SESSION_DICT a s' = Inr x)
    \<and> ((\<exists>x. get_pre_key L P PREKEY_DICT i s' = Inr x) \<or> get_pre_key L P PREKEY_DICT i s' = Inl InvalidPreKeyId)
    \<and> ((\<exists>x. get_signed_pre_key L P SIGNED_PREKEY_DICT i s' = Inr x) \<or> get_signed_pre_key L P SIGNED_PREKEY_DICT i s' = Inl InvalidSignedPreKeyId)
    \<and> ((\<exists>x. get_kyber_pre_key L P KYBER_PREKEY_DICT i s' = Inr x) \<or> get_kyber_pre_key L P KYBER_PREKEY_DICT i s' = Inl InvalidKyberPreKeyId)"
proof -
  have "store_typed L (view s')" using signal_stores.steps_typed [OF assms(1,3,2)] .
  with signal_stores.typed_loads [OF assms(1) this] show ?thesis by blast
qed

theorem stores_type_safe_witness:
  "\<exists>s'. (store_step token_libsignal mem_pddb)\<^sup>*\<^sup>* [] s' \<and> store_typed token_libsignal (map_of s')
     \<and> load_session token_libsignal mem_pddb SESSION_DICT \<lparr>pa_name = ''bob'', pa_device = 2\<rparr> s' = Inr (Some (SessionRecord ''S''))"
proof -
  let ?a = "\<lparr>pa_name = ''bob'', pa_device = 2\<rparr>"
  define s' where "s' = snd (store_session token_libsignal mem_pddb SESSION_DICT ?a (SessionRecord ''S'') [])"
  have st: "(store_step token_libsignal mem_pddb)\<^sup>*\<^sup>* [] s'"
    unfolding s'_def by (rule r_into_rtranclp) (rule step_store_session)
  have "store_typed token_libsignal (map_of s')"
    using stores_type_safe [where view = map_of, OF mem.signal_stores_axioms _ st] store_typed_empty by simp
  moreover have "load_session token_libsignal mem_pddb SESSION_DICT ?a s' = Inr (Some (SessionRecord ''S''))"
    unfolding s'_def by code_simp
  ultimately show ?thesis using st by blast
qed

text \<open>C36. A failed write loses the record: the value is deleted and the key created anew before the bytes are written,
  so when the write fails (the PDDB otherwise working) the session stored before is gone, an empty value stands
  in its place, and the next load decodes that instead of finding no session.\<close>

theorem failed_write_loses_session:
  assumes "signal_stores P view L" and "ls_session_serialize L z = Inr b"
    and "pd_write P' = (\<lambda>d k x s. (Inl e, s))" and "pd_create P' = pd_create P" and "pd_delete P' = pd_delete P" and "pd_fetch P' = pd_fetch P"
  shows "\<exists>s'. store_session L P' SESSION_DICT a z s = (Inl (io_err_to_signal ''write failed'' e), s')
    \<and> view s' = (view s)((SESSION_DICT, address_key a) \<mapsto> [])
    \<and> load_session L P' SESSION_DICT a s' = rbind (ls_session_deserialize L []) (\<lambda>r. Inr (Some r))"
proof -
  have hp: "healthy_pddb P view" using assms(1) by (simp add: signal_stores_def)
  let ?k = "address_key a"
  define s' where "s' = snd (pd_create P SESSION_DICT ?k (snd (pd_delete P SESSION_DICT ?k s)))"
  have create: "pd_create P SESSION_DICT ?k (snd (pd_delete P SESSION_DICT ?k s)) = (Inr (), s')"
    using healthy_pddb.create_ok [OF hp] by (metis prod.collapse s'_def)
  have v: "view s' = (view s)((SESSION_DICT, ?k) \<mapsto> [])"
    unfolding s'_def by (simp add: healthy_pddb.create_view [OF hp] healthy_pddb.delete_view [OF hp])
  then have "pd_fetch P SESSION_DICT ?k s' = Inr []" by (intro healthy_pddb.fetch_Some [OF hp]) simp
  with create v show ?thesis
    by (simp add: store_session_def assms(2-6) write_or_signal_def pddb_write_binary_def pddb_replace_def
        load_session_def pddb_read_binary_def)
qed

theorem failed_write_loses_session_witness:
  "\<exists>s'. snd (store_session token_libsignal (mem_pddb\<lparr>pd_write := (\<lambda>d k x s. (Inl no_key, s))\<rparr>) SESSION_DICT
       \<lparr>pa_name = ''bob'', pa_device = 2\<rparr> (SessionRecord ''new'') [((SESSION_DICT, ''bob.2''), ''old'')]) = s'
     \<and> map_of s' (SESSION_DICT, ''bob.2'') = Some []"
proof -
  have key: "address_key \<lparr>pa_name = ''bob'', pa_device = 2\<rparr> = ''bob.2''" by code_simp
  have ser: "ls_session_serialize token_libsignal (SessionRecord ''new'') = Inr ''new''" by (simp add: token_libsignal_def)
  from failed_write_loses_session [where view = map_of and P' = "mem_pddb\<lparr>pd_write := (\<lambda>d k x s. (Inl no_key, s))\<rparr>" and e = no_key
      and s = "[((SESSION_DICT, ''bob.2''), ''old'')]" and a = "\<lparr>pa_name = ''bob'', pa_device = 2\<rparr>", OF mem.signal_stores_axioms ser] key
  show ?thesis by auto
qed

end
