(* ===== verification/Self_Test.thy ===== *)
theory Self_Test
  imports Prekeys
begin

text \<open>
  \<open>src/src/bin/test_stores.rs\<close>: the smoke test of the protocol stores against a live PDDB. Each block of
  the program is a definition over the PDDB, the random generator and the tally of checks; \<open>None\<close> is a
  panic (an \<open>unwrap\<close>), the result of the run is the exit code of the process. The property: on a PDDB
  without faults, whatever it holds, no check fails.
\<close>

section \<open>Definitions\<close>

record tally =
  ta_passed :: nat
  ta_failed :: nat

definition pass :: "tally \<Rightarrow> tally" where "pass t = t\<lparr>ta_passed := ta_passed t + 1\<rparr>"

definition failure :: "tally \<Rightarrow> tally" where "failure t = t\<lparr>ta_failed := ta_failed t + 1\<rparr>"

text \<open>The macro \<open>check!\<close>, and the comparison of two serialised records.\<close>

definition check :: "'e + 'a \<Rightarrow> tally \<Rightarrow> tally" where
  "check r t = (case r of Inr _ \<Rightarrow> pass t | Inl _ \<Rightarrow> failure t)"

definition check_bytes :: "('r \<Rightarrow> sig_error + bytes) \<Rightarrow> 'r \<Rightarrow> sig_error + 'r \<Rightarrow> tally \<Rightarrow> tally option" where
  "check_bytes ser record loaded t =
     (case loaded of
        Inl _ \<Rightarrow> Some (failure t)
      | Inr l \<Rightarrow>
          (case ser record of
             Inl _ \<Rightarrow> None
           | Inr a \<Rightarrow> (case ser l of Inl _ \<Rightarrow> None | Inr b \<Rightarrow> Some (if a = b then pass t else failure t))))"

text \<open>What the program asks of libsignal beyond the stores and the key generation of \<open>Prekeys\<close>: an identity key
  pair (its private half) and the identity of a key pair.\<close>

record 'g identity_lib =
  il_generate :: "'g \<Rightarrow> private_key \<times> 'g"
  il_identity :: "keypair \<Rightarrow> identity_key"

abbreviation (input) TEST_PREKEY_DICT :: string where "TEST_PREKEY_DICT \<equiv> ''sigchat.test.prekey''"
abbreviation (input) TEST_SIGNED_DICT :: string where "TEST_SIGNED_DICT \<equiv> ''sigchat.test.signed_prekey''"
abbreviation (input) TEST_KYBER_DICT :: string where "TEST_KYBER_DICT \<equiv> ''sigchat.test.kyber_prekey''"
abbreviation (input) TEST_SESSION_DICT :: string where "TEST_SESSION_DICT \<equiv> ''sigchat.test.session''"
abbreviation (input) TEST_IDENTITY_DICT :: string where "TEST_IDENTITY_DICT \<equiv> ''sigchat.test.identity''"

type_synonym ('s, 'g) test_state = "'s \<times> 'g \<times> tally"

definition test_prekeys :: "libsignal \<Rightarrow> 's pddb \<Rightarrow> 'g keygen \<Rightarrow> ('s, 'g) test_state \<Rightarrow> ('s, 'g) test_state option" where
  "test_prekeys L P G w =
     (case w of (s, g, t) \<Rightarrow>
      case kg_generate G g of (kp, g1) \<Rightarrow>
      let record = kg_prekey_new G 42 kp in
      case save_pre_key L P TEST_PREKEY_DICT 42 record s of (r, s1) \<Rightarrow>
      map_option (\<lambda>t1.
        case remove_pre_key P TEST_PREKEY_DICT 42 s1 of (r2, s2) \<Rightarrow>
          let t2 = check r2 t1;
              t3 = (if get_pre_key L P TEST_PREKEY_DICT 42 s2 = Inl InvalidPreKeyId then pass t2 else failure t2)
          in (s2, g1, t3))
      (check_bytes (ls_prekey_serialize L) record (get_pre_key L P TEST_PREKEY_DICT 42 s1) (check r t)))"

definition test_signed :: "libsignal \<Rightarrow> 's pddb \<Rightarrow> 'g keygen \<Rightarrow> 'g identity_lib \<Rightarrow> ('s, 'g) test_state \<Rightarrow> ('s, 'g) test_state option" where
  "test_signed L P G I w =
     (case w of (s, g, t) \<Rightarrow>
      case il_generate I g of (id_pair, g1) \<Rightarrow>
      case kg_generate G g1 of (kp, g2) \<Rightarrow>
      case kg_sign G id_pair (kg_public_serialize G kp) g2 of
        (Inl _, _) \<Rightarrow> None
      | (Inr sig, g3) \<Rightarrow>
          let record = kg_signed_new G 1 0 kp sig in
          case save_signed_pre_key L P TEST_SIGNED_DICT 1 record s of (r, s1) \<Rightarrow>
          map_option (\<lambda>t1. (s1, g3, t1))
            (check_bytes (ls_signed_serialize L) record (get_signed_pre_key L P TEST_SIGNED_DICT 1 s1) (check r t)))"

definition test_kyber :: "libsignal \<Rightarrow> 's pddb \<Rightarrow> 'g keygen \<Rightarrow> 'g identity_lib \<Rightarrow> ('s, 'g) test_state \<Rightarrow> ('s, 'g) test_state option" where
  "test_kyber L P G I w =
     (case w of (s, g, t) \<Rightarrow>
      case il_generate I g of (id_pair, g1) \<Rightarrow>
      case kg_kyber_generate G 1 id_pair g1 of
        (Inl _, _) \<Rightarrow> None
      | (Inr record, g2) \<Rightarrow>
          case save_kyber_pre_key L P TEST_KYBER_DICT 1 record s of (r, s1) \<Rightarrow>
          map_option (\<lambda>t1. (s1, g2, t1))
            (check_bytes (ls_kyber_serialize L) record (get_kyber_pre_key L P TEST_KYBER_DICT 1 s1) (check r t)))"

definition missing_address :: protocol_address where
  "missing_address = \<lparr>pa_name = ''00000000-0000-0000-0000-000000000000'', pa_device = 1\<rparr>"

definition test_session :: "libsignal \<Rightarrow> 's pddb \<Rightarrow> ('s, 'g) test_state \<Rightarrow> ('s, 'g) test_state" where
  "test_session L P w =
     (case w of (s, g, t) \<Rightarrow>
        (s, g, if load_session L P TEST_SESSION_DICT missing_address s = Inr None then pass t else failure t))"

definition peer_address :: protocol_address where
  "peer_address = \<lparr>pa_name = ''aaaaaaaa-bbbb-cccc-dddd-eeeeeeeeeeee'', pa_device = 2\<rparr>"

definition test_identity :: "libsignal \<Rightarrow> 's pddb \<Rightarrow> 'g keygen \<Rightarrow> 'g identity_lib \<Rightarrow> ('s, 'g) test_state \<Rightarrow> ('s, 'g) test_state" where
  "test_identity L P G I w =
     (case w of (s, g, t) \<Rightarrow>
      case kg_generate G g of (kp, g1) \<Rightarrow>
      let identity = il_identity I kp in
      case save_identity L P TEST_IDENTITY_DICT peer_address identity s of (r, s1) \<Rightarrow>
      let t1 = check r t;
          t2 = (case get_identity L P TEST_IDENTITY_DICT peer_address s1 of
                  Inr (Some loaded) \<Rightarrow>
                    (if ls_identity_serialize L identity = ls_identity_serialize L loaded then pass t1 else failure t1)
                | _ \<Rightarrow> failure t1);
          t3 = (if is_trusted_identity L P TEST_IDENTITY_DICT peer_address identity s1 = Inr True then pass t2 else failure t2)
      in (s1, g1, t3))"

text \<open>The last block is skipped, without a failure, when no account is linked.\<close>

definition test_key_pair :: "libsignal \<Rightarrow> 's pddb \<Rightarrow> ('s, 'g) test_state \<Rightarrow> ('s, 'g) test_state" where
  "test_key_pair L P w =
     (case w of (s, g, t) \<Rightarrow>
        (s, g, case get_identity_key_pair L P ACCOUNT_DICT s of
                 Inl _ \<Rightarrow> t
               | Inr (identity_key, _) \<Rightarrow>
                   (case ls_identity_decode L (ls_identity_serialize L identity_key) of Inr _ \<Rightarrow> pass t | Inl _ \<Rightarrow> failure t)))"

text \<open>The whole program: the exit code with the state it leaves.\<close>

definition run_tests ::
  "libsignal \<Rightarrow> 's pddb \<Rightarrow> 'g keygen \<Rightarrow> 'g identity_lib \<Rightarrow> 's \<Rightarrow> 'g \<Rightarrow> (nat \<times> ('s, 'g) test_state) option" where
  "run_tests L P G I s g =
     Option.bind (test_prekeys L P G (s, g, \<lparr>ta_passed = 0, ta_failed = 0\<rparr>)) (\<lambda>w1.
     Option.bind (test_signed L P G I w1) (\<lambda>w2.
     Option.bind (test_kyber L P G I w2) (\<lambda>w3.
     let w = test_key_pair L P (test_identity L P G I (test_session L P w3)) in
     Some (if 0 < ta_failed (snd (snd w)) then 1 else 0, w))))"

section \<open>The stores pass\<close>

text \<open>What the program needs of libsignal, beyond the laws of the stores: fresh keys can be signed with and
  serialised.\<close>

locale testable = signal_stores P view L
  for P :: "'s pddb" and view :: "'s \<Rightarrow> kv" and L :: libsignal +
  fixes G :: "'g keygen"
  assumes sign_ok: "\<exists>sig g'. kg_sign G priv msg g = (Inr sig, g')"
    and kyber_ok: "\<exists>y g'. kg_kyber_generate G i priv g = (Inr y, g')"
    and prekey_ser: "\<exists>b. ls_prekey_serialize L r = Inr b"
    and signed_ser: "\<exists>b. ls_signed_serialize L q = Inr b"
    and kyber_ser: "\<exists>b. ls_kyber_serialize L y = Inr b"
begin

lemma check_bytes_same: "ser x = Inr b \<Longrightarrow> check_bytes ser x (Inr x) t = Some (pass t)"
  by (simp add: check_bytes_def)

text \<open>A save succeeds, the record is read back, and no other dict changes.\<close>

lemma prekey_saved:
  "\<exists>s'. save_pre_key L P d i r s = (Inr (), s') \<and> get_pre_key L P d i s' = Inr r \<and> (\<forall>e k. e \<noteq> d \<longrightarrow> view s' (e, k) = view s (e, k))"
proof -
  obtain b where b: "ls_prekey_serialize L r = Inr b" using prekey_ser by blast
  let ?s = "snd (pddb_replace P d (show_word i) b s)"
  have v: "view ?s (d, show_word i) = Some b" by (simp add: replace_view)
  show ?thesis
    by (rule exI [of _ ?s]) (simp add: save_pre_key_def b write_eq get_pre_key_def pddb_read_binary_def
        fetch_Some [OF v] prekey_codec [OF b] replace_view)
qed

lemma signed_saved:
  "\<exists>s'. save_signed_pre_key L P d i r s = (Inr (), s') \<and> get_signed_pre_key L P d i s' = Inr r \<and> (\<forall>e k. e \<noteq> d \<longrightarrow> view s' (e, k) = view s (e, k))"
proof -
  obtain b where b: "ls_signed_serialize L r = Inr b" using signed_ser by blast
  let ?s = "snd (pddb_replace P d (show_word i) b s)"
  have v: "view ?s (d, show_word i) = Some b" by (simp add: replace_view)
  show ?thesis
    by (rule exI [of _ ?s]) (simp add: save_signed_pre_key_def b write_eq get_signed_pre_key_def pddb_read_binary_def
        fetch_Some [OF v] signed_codec [OF b] replace_view)
qed

lemma kyber_saved:
  "\<exists>s'. save_kyber_pre_key L P d i r s = (Inr (), s') \<and> get_kyber_pre_key L P d i s' = Inr r \<and> (\<forall>e k. e \<noteq> d \<longrightarrow> view s' (e, k) = view s (e, k))"
proof -
  obtain b where b: "ls_kyber_serialize L r = Inr b" using kyber_ser by blast
  let ?s = "snd (pddb_replace P d (show_word i) b s)"
  have v: "view ?s (d, show_word i) = Some b" by (simp add: replace_view)
  show ?thesis
    by (rule exI [of _ ?s]) (simp add: save_kyber_pre_key_def b write_eq get_kyber_pre_key_def pddb_read_binary_def
        fetch_Some [OF v] kyber_codec [OF b] replace_view)
qed

lemma prekey_removed:
  "\<exists>s'. remove_pre_key P d i s = (Inr (), s') \<and> get_pre_key L P d i s' = Inl InvalidPreKeyId \<and> (\<forall>e k. e \<noteq> d \<longrightarrow> view s' (e, k) = view s (e, k))"
proof -
  obtain r s' where st: "pd_delete P d (show_word i) s = (r, s')" by (metis surj_pair)
  then have v: "view s' = (view s)((d, show_word i) := None)" using delete_view [of d "show_word i" s] by simp
  then obtain t where "pd_fetch P d (show_word i) s' = Inl (IoError NotFound t)" using fetch_None [of s' d "show_word i"] by auto
  moreover have "remove_pre_key P d i s = (Inr (), s')"
    using st delete_ok [of s d "show_word i"] delete_absent [of s d "show_word i"]
    by (cases "view s (d, show_word i)") (auto simp: remove_pre_key_def)
  ultimately show ?thesis using v by (intro exI [of _ s']) (simp add: get_pre_key_def pddb_read_binary_def)
qed

text \<open>The blocks: \<open>n\<close> checks passed, none failed, the test session dict as it was.\<close>

definition passes :: "nat \<Rightarrow> ('s, 'g) test_state \<Rightarrow> ('s, 'g) test_state \<Rightarrow> bool" where
  "passes n w w' \<longleftrightarrow> ta_passed (snd (snd w')) = ta_passed (snd (snd w)) + n \<and> ta_failed (snd (snd w')) = ta_failed (snd (snd w))
     \<and> (\<forall>k. view (fst w') (TEST_SESSION_DICT, k) = view (fst w) (TEST_SESSION_DICT, k))"

lemma prekeys_pass: "\<exists>w'. test_prekeys L P G w = Some w' \<and> passes 4 w w'"
proof -
  obtain s g t where w: "w = (s, g, t)" by (metis surj_pair)
  obtain kp g1 where kp: "kg_generate G g = (kp, g1)" by (metis surj_pair)
  obtain s1 where s1: "save_pre_key L P TEST_PREKEY_DICT 42 (kg_prekey_new G 42 kp) s = (Inr (), s1)"
    "get_pre_key L P TEST_PREKEY_DICT 42 s1 = Inr (kg_prekey_new G 42 kp)" "\<forall>e k. e \<noteq> TEST_PREKEY_DICT \<longrightarrow> view s1 (e, k) = view s (e, k)"
    using prekey_saved [of TEST_PREKEY_DICT 42 "kg_prekey_new G 42 kp" s] by auto
  obtain s2 where s2: "remove_pre_key P TEST_PREKEY_DICT 42 s1 = (Inr (), s2)" "get_pre_key L P TEST_PREKEY_DICT 42 s2 = Inl InvalidPreKeyId"
    "\<forall>e k. e \<noteq> TEST_PREKEY_DICT \<longrightarrow> view s2 (e, k) = view s1 (e, k)"
    using prekey_removed [of TEST_PREKEY_DICT 42 s1] by auto
  obtain b where "ls_prekey_serialize L (kg_prekey_new G 42 kp) = Inr b" using prekey_ser by blast
  with w kp s1 s2 show ?thesis
    by (auto simp: test_prekeys_def Let_def check_bytes_same check_def pass_def passes_def)
qed

lemma signed_pass: "\<exists>w'. test_signed L P G I w = Some w' \<and> passes 2 w w'"
proof -
  obtain s g t where w: "w = (s, g, t)" by (metis surj_pair)
  obtain priv g1 where a: "il_generate I g = (priv, g1)" by (metis surj_pair)
  obtain kp g2 where kp: "kg_generate G g1 = (kp, g2)" by (metis surj_pair)
  obtain sig g3 where sg: "kg_sign G priv (kg_public_serialize G kp) g2 = (Inr sig, g3)" using sign_ok by blast
  obtain s1 where s1: "save_signed_pre_key L P TEST_SIGNED_DICT 1 (kg_signed_new G 1 0 kp sig) s = (Inr (), s1)"
    "get_signed_pre_key L P TEST_SIGNED_DICT 1 s1 = Inr (kg_signed_new G 1 0 kp sig)" "\<forall>e k. e \<noteq> TEST_SIGNED_DICT \<longrightarrow> view s1 (e, k) = view s (e, k)"
    using signed_saved [of TEST_SIGNED_DICT 1 "kg_signed_new G 1 0 kp sig" s] by auto
  obtain b where "ls_signed_serialize L (kg_signed_new G 1 0 kp sig) = Inr b" using signed_ser by blast
  with w a kp sg s1 show ?thesis
    by (auto simp: test_signed_def Let_def check_bytes_same check_def pass_def passes_def)
qed

lemma kyber_pass: "\<exists>w'. test_kyber L P G I w = Some w' \<and> passes 2 w w'"
proof -
  obtain s g t where w: "w = (s, g, t)" by (metis surj_pair)
  obtain priv g1 where a: "il_generate I g = (priv, g1)" by (metis surj_pair)
  obtain y g2 where y: "kg_kyber_generate G 1 priv g1 = (Inr y, g2)" using kyber_ok by blast
  obtain s1 where s1: "save_kyber_pre_key L P TEST_KYBER_DICT 1 y s = (Inr (), s1)"
    "get_kyber_pre_key L P TEST_KYBER_DICT 1 s1 = Inr y" "\<forall>e k. e \<noteq> TEST_KYBER_DICT \<longrightarrow> view s1 (e, k) = view s (e, k)"
    using kyber_saved [of TEST_KYBER_DICT 1 y s] by auto
  obtain b where "ls_kyber_serialize L y = Inr b" using kyber_ser by blast
  with w a y s1 show ?thesis
    by (auto simp: test_kyber_def check_bytes_same check_def pass_def passes_def)
qed

lemma session_pass:
  "view (fst w) (TEST_SESSION_DICT, address_key missing_address) = None \<Longrightarrow> passes 1 w (test_session L P w)"
  by (cases w) (auto simp: test_session_def load_session_None_iff pass_def passes_def)

lemma identity_pass: "passes 3 w (test_identity L P G I w)"
proof -
  obtain s g t where w: "w = (s, g, t)" by (metis surj_pair)
  obtain kp g1 where kp: "kg_generate G g = (kp, g1)" by (metis surj_pair)
  obtain r s1 where sv: "save_identity L P TEST_IDENTITY_DICT peer_address (il_identity I kp) s = (r, s1)" by (metis surj_pair)
  have r: "\<exists>c. r = Inr c" using save_identity_result [of TEST_IDENTITY_DICT peer_address "il_identity I kp" s] sv by auto
  have g: "get_identity L P TEST_IDENTITY_DICT peer_address s1 = Inr (Some (il_identity I kp))"
    using get_identity_save [of TEST_IDENTITY_DICT peer_address peer_address "il_identity I kp" s] sv by simp
  then have tr: "is_trusted_identity L P TEST_IDENTITY_DICT peer_address (il_identity I kp) s1 = Inr True"
    by (auto simp: get_identity_eq is_trusted_eq res_simps split: option.splits)
  have "view s1 (TEST_SESSION_DICT, k) = view s (TEST_SESSION_DICT, k)" for k
    using save_identity_view [of TEST_IDENTITY_DICT peer_address "il_identity I kp" s] sv by (simp split: if_splits)
  with w kp sv r g tr show ?thesis
    by (auto simp: test_identity_def Let_def check_def pass_def passes_def)
qed

lemma key_pair_pass: "\<exists>n \<le> 1. passes n w (test_key_pair L P w)"
proof -
  obtain s g t where w: "w = (s, g, t)" by (metis surj_pair)
  show ?thesis
  proof (cases "get_identity_key_pair L P ACCOUNT_DICT s")
    case (Inl e)
    with w show ?thesis by (intro exI [of _ 0]) (simp add: test_key_pair_def passes_def)
  next
    case (Inr kp)
    with w show ?thesis
      by (intro exI [of _ 1]) (cases kp, simp add: test_key_pair_def passes_def pass_def identity_codec)
  qed
qed

lemma passes_trans: "passes m a b \<Longrightarrow> passes n b c \<Longrightarrow> passes (m + n) a c"
  by (simp add: passes_def)

lemma run_passes:
  assumes "view s (TEST_SESSION_DICT, address_key missing_address) = None"
  shows "\<exists>s' g' t. run_tests L P G I s g = Some (0, (s', g', t)) \<and> ta_failed t = 0 \<and> (ta_passed t = 12 \<or> ta_passed t = 13)"
proof -
  let ?w = "(s, g, \<lparr>ta_passed = 0, ta_failed = 0\<rparr>)"
  obtain w1 where w1: "test_prekeys L P G ?w = Some w1" "passes 4 ?w w1" using prekeys_pass by blast
  obtain w2 where w2: "test_signed L P G I w1 = Some w2" "passes 2 w1 w2" using signed_pass by blast
  obtain w3 where w3: "test_kyber L P G I w2 = Some w3" "passes 2 w2 w3" using kyber_pass by blast
  have p3: "passes 8 ?w w3" using passes_trans [OF passes_trans [OF w1(2) w2(2)] w3(2)] by simp
  then have "passes 1 w3 (test_session L P w3)" using assms by (intro session_pass) (simp add: passes_def)
  from passes_trans [OF passes_trans [OF p3 this] identity_pass]
  have p5: "passes 12 ?w (test_identity L P G I (test_session L P w3))" by simp
  obtain n where n: "n \<le> 1" "passes n (test_identity L P G I (test_session L P w3)) (test_key_pair L P (test_identity L P G I (test_session L P w3)))"
    using key_pair_pass by blast
  obtain s' g' t where fin: "test_key_pair L P (test_identity L P G I (test_session L P w3)) = (s', g', t)" by (metis surj_pair)
  have "passes (12 + n) ?w (s', g', t)" using passes_trans [OF p5 n(2)] fin by simp
  then have t: "ta_failed t = 0" "ta_passed t = 12 + n" by (simp_all add: passes_def)
  moreover have "run_tests L P G I s g = Some (0, (s', g', t))" using w1(1) w2(1) w3(1) fin t(1) by (simp add: run_tests_def)
  moreover have "ta_passed t = 12 \<or> ta_passed t = 13" using t(2) n(1) by (cases "n = 0") auto
  ultimately show ?thesis by blast
qed

end

definition token_identity :: "nat identity_lib" where
  "token_identity = \<lparr>il_generate = (\<lambda>g. (PrivateKey ''p'', g + 1)), il_identity = (\<lambda>k. case k of KeyPair b \<Rightarrow> IdentityKey b)\<rparr>"

interpretation mem_test: testable mem_pddb map_of token_libsignal counting_keygen
  by unfold_locales
    (auto simp: counting_keygen_def token_libsignal_def split: prekey_record.split signed_prekey_record.split kyber_prekey_record.split private_key.split)

section \<open>Properties\<close>

text \<open>The smoke test of the stores passes: on a PDDB without faults, whatever else it holds, the program reaches
  its end without a panic, no check fails, and the process exits with 0; twelve checks pass, and the
  thirteenth when the account is linked.\<close>

theorem smoke_test_passes:
  assumes "testable P view L G" and "view s (TEST_SESSION_DICT, address_key missing_address) = None"
  shows "\<exists>s' g' t. run_tests L P G I s g = Some (0, (s', g', t)) \<and> ta_failed t = 0 \<and> (ta_passed t = 12 \<or> ta_passed t = 13)"
  using assms by (rule testable.run_passes)

theorem smoke_test_passes_witness:
  "\<exists>s' g' t. run_tests token_libsignal mem_pddb counting_keygen token_identity [((''other'', ''key''), ''v'')] 3 = Some (0, (s', g', t))
     \<and> ta_failed t = 0"
proof -
  have "map_of [((''other'', ''key''), ''v'')] (TEST_SESSION_DICT, address_key missing_address) = None" by simp
  from smoke_test_passes [where view = map_of and g = 3 and I = token_identity, OF mem_test.testable_axioms this] show ?thesis by blast
qed

end
