(* ===== verification/Store_Tests.thy ===== *)
theory Store_Tests
  imports Self_Test
begin

text \<open>
  The unit tests of \<open>src/src/manager/stores.rs\<close>, which run against the PDDB of the machine and leave in it what they
  write. Each is a definition over the PDDB and the random generator; its result says whether it ends without a
  panic. The property is about the suite: its tests pass in every order, because none disturbs another.
\<close>

section \<open>Definitions\<close>

text \<open>The halves of a generated key pair.\<close>

record key_parts =
  kp_private :: "keypair \<Rightarrow> private_key"
  kp_public :: "keypair \<Rightarrow> public_key"

type_synonym ('s, 'g) unit_test = "'s \<times> 'g \<Rightarrow> bool \<times> 's \<times> 'g"

definition same_bytes :: "('r \<Rightarrow> sig_error + bytes) \<Rightarrow> 'r \<Rightarrow> 'r \<Rightarrow> bool" where
  "same_bytes ser a b = (case (ser a, ser b) of (Inr x, Inr y) \<Rightarrow> x = y | _ \<Rightarrow> False)"

text \<open>\<open>expect\<close> on what was loaded, then the comparison of the bytes.\<close>

definition loads_same :: "('r \<Rightarrow> sig_error + bytes) \<Rightarrow> 'r \<Rightarrow> sig_error + 'r \<Rightarrow> bool" where
  "loads_same ser record r = (case r of Inl _ \<Rightarrow> False | Inr loaded \<Rightarrow> same_bytes ser record loaded)"

definition prekey_round_trip :: "libsignal \<Rightarrow> 's pddb \<Rightarrow> 'g keygen \<Rightarrow> ('s, 'g) unit_test" where
  "prekey_round_trip L P G w =
     (case w of (s, g) \<Rightarrow>
      case kg_generate G g of (kp, g1) \<Rightarrow>
      let record = kg_prekey_new G 1 kp in
      case save_pre_key L P TEST_PREKEY_DICT 1 record s of (r, s1) \<Rightarrow>
        if isl r then (False, s1, g1)
        else if \<not> loads_same (ls_prekey_serialize L) record (get_pre_key L P TEST_PREKEY_DICT 1 s1) then (False, s1, g1)
        else case remove_pre_key P TEST_PREKEY_DICT 1 s1 of (r2, s2) \<Rightarrow> (\<not> isl r2, s2, g1))"

definition prekey_missing_returns_invalid_id :: "libsignal \<Rightarrow> 's pddb \<Rightarrow> ('s, 'g) unit_test" where
  "prekey_missing_returns_invalid_id L P w = (get_pre_key L P TEST_PREKEY_DICT 99999 (fst w) = Inl InvalidPreKeyId, w)"

definition signed_prekey_round_trip :: "libsignal \<Rightarrow> 's pddb \<Rightarrow> 'g keygen \<Rightarrow> key_parts \<Rightarrow> ('s, 'g) unit_test" where
  "signed_prekey_round_trip L P G K w =
     (case w of (s, g) \<Rightarrow>
      case kg_generate G g of (kp, g1) \<Rightarrow>
      case kg_sign G (kp_private K kp) (kg_public_serialize G kp) g1 of
        (Inl _, g2) \<Rightarrow> (False, s, g2)
      | (Inr signature, g2) \<Rightarrow>
          let record = kg_signed_new G 1 0 kp signature in
          case save_signed_pre_key L P TEST_SIGNED_DICT 1 record s of (r, s1) \<Rightarrow>
            (\<not> isl r \<and> loads_same (ls_signed_serialize L) record (get_signed_pre_key L P TEST_SIGNED_DICT 1 s1), s1, g2))"

definition signed_prekey_missing_returns_invalid_id :: "libsignal \<Rightarrow> 's pddb \<Rightarrow> ('s, 'g) unit_test" where
  "signed_prekey_missing_returns_invalid_id L P w =
     (get_signed_pre_key L P TEST_SIGNED_DICT 88888 (fst w) = Inl InvalidSignedPreKeyId, w)"

definition kyber_prekey_round_trip :: "libsignal \<Rightarrow> 's pddb \<Rightarrow> 'g keygen \<Rightarrow> 'g identity_lib \<Rightarrow> ('s, 'g) unit_test" where
  "kyber_prekey_round_trip L P G I w =
     (case w of (s, g) \<Rightarrow>
      case il_generate I g of (id_pair, g1) \<Rightarrow>
      case kg_kyber_generate G 1 id_pair g1 of
        (Inl _, g2) \<Rightarrow> (False, s, g2)
      | (Inr record, g2) \<Rightarrow>
          case save_kyber_pre_key L P TEST_KYBER_DICT 1 record s of (r, s1) \<Rightarrow>
            (\<not> isl r \<and> loads_same (ls_kyber_serialize L) record (get_kyber_pre_key L P TEST_KYBER_DICT 1 s1), s1, g2))"

definition kyber_prekey_missing_returns_error :: "libsignal \<Rightarrow> 's pddb \<Rightarrow> ('s, 'g) unit_test" where
  "kyber_prekey_missing_returns_error L P w = (isl (get_kyber_pre_key L P TEST_KYBER_DICT 77777 (fst w)), w)"

definition mark_used :: "libsignal \<Rightarrow> 's pddb \<Rightarrow> u32 \<Rightarrow> u32 \<Rightarrow> public_key \<Rightarrow> 's \<Rightarrow> (sig_error + unit) \<times> 's" where
  "mark_used L P i e k s = mark_kyber_pre_key_used L P TEST_KYBER_DICT i e k s"

definition kyber_prekey_mark_used_first_call_succeeds :: "libsignal \<Rightarrow> 's pddb \<Rightarrow> 'g keygen \<Rightarrow> key_parts \<Rightarrow> ('s, 'g) unit_test" where
  "kyber_prekey_mark_used_first_call_succeeds L P G K w =
     (case w of (s, g) \<Rightarrow>
      case kg_generate G g of (base_kp, g1) \<Rightarrow>
      case mark_used L P 101 11 (kp_public K base_kp) s of (r, s1) \<Rightarrow> (\<not> isl r, s1, g1))"

definition kyber_prekey_mark_used_reuse_rejected :: "libsignal \<Rightarrow> 's pddb \<Rightarrow> 'g keygen \<Rightarrow> key_parts \<Rightarrow> ('s, 'g) unit_test" where
  "kyber_prekey_mark_used_reuse_rejected L P G K w =
     (case w of (s, g) \<Rightarrow>
      case kg_generate G g of (base_kp, g1) \<Rightarrow>
      case mark_used L P 102 12 (kp_public K base_kp) s of (r, s1) \<Rightarrow>
        if isl r then (False, s1, g1)
        else case mark_used L P 102 12 (kp_public K base_kp) s1 of (r2, s2) \<Rightarrow> (r2 = Inl InvalidKyberPreKeyId, s2, g1))"

definition kyber_prekey_mark_used_different_tuples_independent ::
  "libsignal \<Rightarrow> 's pddb \<Rightarrow> 'g keygen \<Rightarrow> key_parts \<Rightarrow> ('s, 'g) unit_test" where
  "kyber_prekey_mark_used_different_tuples_independent L P G K w =
     (case w of (s, g) \<Rightarrow>
      case kg_generate G g of (base_kp_a, g1) \<Rightarrow>
      case kg_generate G g1 of (base_kp_b, g2) \<Rightarrow>
      case mark_used L P 103 20 (kp_public K base_kp_a) s of (r1, s1) \<Rightarrow>
        if isl r1 then (False, s1, g2)
        else case mark_used L P 103 21 (kp_public K base_kp_a) s1 of (r2, s2) \<Rightarrow>
        if isl r2 then (False, s2, g2)
        else case mark_used L P 103 20 (kp_public K base_kp_b) s2 of (r3, s3) \<Rightarrow>
        if isl r3 then (False, s3, g2)
        else case mark_used L P 103 20 (kp_public K base_kp_a) s3 of (r4, s4) \<Rightarrow> (r4 = Inl InvalidKyberPreKeyId, s4, g2))"

definition session_missing_returns_none :: "libsignal \<Rightarrow> 's pddb \<Rightarrow> ('s, 'g) unit_test" where
  "session_missing_returns_none L P w =
     (load_session L P TEST_SESSION_DICT \<lparr>pa_name = ''test-peer-missing'', pa_device = 1\<rparr> (fst w) = Inr None, w)"

definition identity_missing_returns_none :: "libsignal \<Rightarrow> 's pddb \<Rightarrow> ('s, 'g) unit_test" where
  "identity_missing_returns_none L P w =
     (get_identity L P TEST_IDENTITY_DICT \<lparr>pa_name = ''test-peer-identity-missing'', pa_device = 1\<rparr> (fst w) = Inr None, w)"

definition identity_tofu_first_use_trusted :: "libsignal \<Rightarrow> 's pddb \<Rightarrow> 'g keygen \<Rightarrow> 'g identity_lib \<Rightarrow> ('s, 'g) unit_test" where
  "identity_tofu_first_use_trusted L P G I w =
     (case w of (s, g) \<Rightarrow>
      case kg_generate G g of (kp, g1) \<Rightarrow>
        (is_trusted_identity L P TEST_IDENTITY_DICT \<lparr>pa_name = ''test-peer-tofu'', pa_device = 1\<rparr> (il_identity I kp) s = Inr True, s, g1))"

text \<open>The suite, and a run of some of its tests in the order of a list.\<close>

datatype store_test =
  PrekeyRoundTrip | PrekeyMissing | SignedRoundTrip | SignedMissing | KyberRoundTrip | KyberMissing
  | MarkFirst | MarkReuse | MarkIndependent | SessionMissing | IdentityMissing | IdentityTofu

fun run_test :: "libsignal \<Rightarrow> 's pddb \<Rightarrow> 'g keygen \<Rightarrow> 'g identity_lib \<Rightarrow> key_parts \<Rightarrow> store_test \<Rightarrow> ('s, 'g) unit_test" where
  "run_test L P G I K PrekeyRoundTrip = prekey_round_trip L P G"
| "run_test L P G I K PrekeyMissing = prekey_missing_returns_invalid_id L P"
| "run_test L P G I K SignedRoundTrip = signed_prekey_round_trip L P G K"
| "run_test L P G I K SignedMissing = signed_prekey_missing_returns_invalid_id L P"
| "run_test L P G I K KyberRoundTrip = kyber_prekey_round_trip L P G I"
| "run_test L P G I K KyberMissing = kyber_prekey_missing_returns_error L P"
| "run_test L P G I K MarkFirst = kyber_prekey_mark_used_first_call_succeeds L P G K"
| "run_test L P G I K MarkReuse = kyber_prekey_mark_used_reuse_rejected L P G K"
| "run_test L P G I K MarkIndependent = kyber_prekey_mark_used_different_tuples_independent L P G K"
| "run_test L P G I K SessionMissing = session_missing_returns_none L P"
| "run_test L P G I K IdentityMissing = identity_missing_returns_none L P"
| "run_test L P G I K IdentityTofu = identity_tofu_first_use_trusted L P G I"

fun run_suite :: "(store_test \<Rightarrow> ('s, 'g) unit_test) \<Rightarrow> store_test list \<Rightarrow> 's \<times> 'g \<Rightarrow> bool list \<times> 's \<times> 'g" where
  "run_suite run [] w = ([], w)"
| "run_suite run (t # ts) w =
     (case run t w of (ok, w1) \<Rightarrow> case run_suite run ts w1 of (oks, w2) \<Rightarrow> (ok # oks, w2))"

section \<open>The tests pass\<close>

text \<open>The keys a test writes or deletes, and the keys it expects to be absent.\<close>

fun touched :: "libsignal \<Rightarrow> store_test \<Rightarrow> (string \<times> string) set" where
  "touched L PrekeyRoundTrip = {(TEST_PREKEY_DICT, show_word (1 :: u32))}"
| "touched L SignedRoundTrip = {(TEST_SIGNED_DICT, show_word (1 :: u32))}"
| "touched L KyberRoundTrip = {(TEST_KYBER_DICT, show_word (1 :: u32))}"
| "touched L MarkFirst = {(TEST_KYBER_DICT, kyber_dedup_key L 101 e k) | e k. True}"
| "touched L MarkReuse = {(TEST_KYBER_DICT, kyber_dedup_key L 102 e k) | e k. True}"
| "touched L MarkIndependent = {(TEST_KYBER_DICT, kyber_dedup_key L 103 e k) | e k. True}"
| "touched L _ = {}"

fun expects_absent :: "libsignal \<Rightarrow> store_test \<Rightarrow> (string \<times> string) set" where
  "expects_absent L PrekeyMissing = {(TEST_PREKEY_DICT, show_word (99999 :: u32))}"
| "expects_absent L SignedMissing = {(TEST_SIGNED_DICT, show_word (88888 :: u32))}"
| "expects_absent L KyberMissing = {(TEST_KYBER_DICT, show_word (77777 :: u32))}"
| "expects_absent L MarkFirst = touched L MarkFirst"
| "expects_absent L MarkReuse = touched L MarkReuse"
| "expects_absent L MarkIndependent = touched L MarkIndependent"
| "expects_absent L SessionMissing = {(TEST_SESSION_DICT, address_key \<lparr>pa_name = ''test-peer-missing'', pa_device = 1\<rparr>)}"
| "expects_absent L IdentityMissing = {(TEST_IDENTITY_DICT, address_key \<lparr>pa_name = ''test-peer-identity-missing'', pa_device = 1\<rparr>)}"
| "expects_absent L IdentityTofu = {(TEST_IDENTITY_DICT, address_key \<lparr>pa_name = ''test-peer-tofu'', pa_device = 1\<rparr>)}"
| "expects_absent L _ = {}"

definition ready_for :: "libsignal \<Rightarrow> kv \<Rightarrow> store_test \<Rightarrow> bool" where
  "ready_for L v t \<longleftrightarrow> (\<forall>x \<in> expects_absent L t. v x = None)"

text \<open>No test writes what another one expects to be absent.\<close>

lemma tests_disjoint:
  assumes "inj (\<lambda>k. b64_url_encode L (ls_public_serialize L k))" "t \<noteq> t'"
  shows "touched L t \<inter> expects_absent L t' = {}"
proof -
  note inj = kyber_dedup_key_inject [OF assms(1)] and id = kyber_dedup_key_not_id
  show ?thesis using assms(2) by (cases t; cases t') (auto simp: inj id [symmetric] id)
qed

locale store_suite = testable P view L G
  for P :: "'s pddb" and view :: "'s \<Rightarrow> kv" and L :: libsignal and G :: "'g keygen" +
  fixes K :: key_parts
  assumes fresh_keys: "kg_generate G g = (a, g1) \<Longrightarrow> kg_generate G g1 = (b, g2) \<Longrightarrow> kp_public K a \<noteq> kp_public K b"
begin

definition passes_test :: "store_test \<Rightarrow> 's \<times> 'g \<Rightarrow> bool \<times> 's \<times> 'g \<Rightarrow> bool" where
  "passes_test t w r \<longleftrightarrow> fst r \<and> (\<forall>x. x \<notin> touched L t \<longrightarrow> view (fst (snd r)) x = view (fst w) x)"

lemma loads_same_refl: "ser r = Inr b \<Longrightarrow> loads_same ser r (Inr r)"
  by (simp add: loads_same_def same_bytes_def)

text \<open>A mark for the keys of one Kyber prekey: the first one succeeds and writes its marker.\<close>

lemma mark_fresh:
  assumes "view s (TEST_KYBER_DICT, kyber_dedup_key L i e k) = None"
  obtains s' where "mark_used L P i e k s = (Inr (), s')"
    "view s' = (view s)((TEST_KYBER_DICT, kyber_dedup_key L i e k) \<mapsto> [CHR 0x01])"
  using assms that by (simp add: mark_used_def mark_used_eq replace_view)

lemma mark_again:
  "view s (TEST_KYBER_DICT, kyber_dedup_key L i e k) \<noteq> None \<Longrightarrow> mark_used L P i e k s = (Inl InvalidKyberPreKeyId, s)"
  by (simp add: mark_used_def mark_used_eq)

lemma saves_view:
  "save_pre_key L P d i r s = (Inr (), s') \<Longrightarrow> \<exists>b. view s' = (view s)((d, show_word i) \<mapsto> b)"
  "save_signed_pre_key L P d i q s = (Inr (), s') \<Longrightarrow> \<exists>b. view s' = (view s)((d, show_word i) \<mapsto> b)"
  "save_kyber_pre_key L P d i y s = (Inr (), s') \<Longrightarrow> \<exists>b. view s' = (view s)((d, show_word i) \<mapsto> b)"
  by (auto simp: save_pre_key_def save_signed_pre_key_def save_kyber_pre_key_def write_eq replace_view split: sum.splits)

lemma removed_view: "remove_pre_key P d i s = (r, s') \<Longrightarrow> view s' = (view s)((d, show_word i) := None)"
  using delete_view [of d "show_word i" s] by (auto simp: remove_pre_key_def split: prod.splits sum.splits if_splits)

lemma prekey_round_trip_passes: "passes_test PrekeyRoundTrip w (prekey_round_trip L P G w)"
proof -
  obtain s g kp g1 where w: "w = (s, g)" "kg_generate G g = (kp, g1)" by (metis surj_pair)
  obtain s1 where s1: "save_pre_key L P TEST_PREKEY_DICT 1 (kg_prekey_new G 1 kp) s = (Inr (), s1)"
    "get_pre_key L P TEST_PREKEY_DICT 1 s1 = Inr (kg_prekey_new G 1 kp)" using prekey_saved by blast
  obtain s2 where s2: "remove_pre_key P TEST_PREKEY_DICT 1 s1 = (Inr (), s2)" using prekey_removed by blast
  obtain b where "ls_prekey_serialize L (kg_prekey_new G 1 kp) = Inr b" using prekey_ser by blast
  from loads_same_refl [of "ls_prekey_serialize L", OF this] w s1 s2 saves_view(1) [OF s1(1)] removed_view [OF s2] show ?thesis
    by (auto simp: prekey_round_trip_def Let_def passes_test_def)
qed

lemma signed_prekey_round_trip_passes: "passes_test SignedRoundTrip w (signed_prekey_round_trip L P G K w)"
proof -
  obtain s g kp g1 where w: "w = (s, g)" "kg_generate G g = (kp, g1)" by (metis surj_pair)
  obtain sig g2 where sg: "kg_sign G (kp_private K kp) (kg_public_serialize G kp) g1 = (Inr sig, g2)" using sign_ok by blast
  obtain s1 where s1: "save_signed_pre_key L P TEST_SIGNED_DICT 1 (kg_signed_new G 1 0 kp sig) s = (Inr (), s1)"
    "get_signed_pre_key L P TEST_SIGNED_DICT 1 s1 = Inr (kg_signed_new G 1 0 kp sig)" using signed_saved by blast
  obtain b where "ls_signed_serialize L (kg_signed_new G 1 0 kp sig) = Inr b" using signed_ser by blast
  from loads_same_refl [of "ls_signed_serialize L", OF this] w sg s1 saves_view(2) [OF s1(1)] show ?thesis
    by (auto simp: signed_prekey_round_trip_def Let_def passes_test_def)
qed

lemma kyber_prekey_round_trip_passes: "passes_test KyberRoundTrip w (kyber_prekey_round_trip L P G I w)"
proof -
  obtain s g priv g1 where w: "w = (s, g)" "il_generate I g = (priv, g1)" by (metis surj_pair)
  obtain y g2 where y: "kg_kyber_generate G 1 priv g1 = (Inr y, g2)" using kyber_ok by blast
  obtain s1 where s1: "save_kyber_pre_key L P TEST_KYBER_DICT 1 y s = (Inr (), s1)"
    "get_kyber_pre_key L P TEST_KYBER_DICT 1 s1 = Inr y" using kyber_saved by blast
  obtain b where "ls_kyber_serialize L y = Inr b" using kyber_ser by blast
  from loads_same_refl [of "ls_kyber_serialize L", OF this] w y s1 saves_view(3) [OF s1(1)] show ?thesis
    by (auto simp: kyber_prekey_round_trip_def passes_test_def)
qed

lemma mark_first_passes:
  assumes "ready_for L (view (fst w)) MarkFirst"
  shows "passes_test MarkFirst w (kyber_prekey_mark_used_first_call_succeeds L P G K w)"
proof -
  obtain s g kp g1 where w: "w = (s, g)" "kg_generate G g = (kp, g1)" by (metis surj_pair)
  have "view s (TEST_KYBER_DICT, kyber_dedup_key L 101 11 (kp_public K kp)) = None" using assms w by (auto simp: ready_for_def)
  then obtain s1 where "mark_used L P 101 11 (kp_public K kp) s = (Inr (), s1)"
    "view s1 = (view s)((TEST_KYBER_DICT, kyber_dedup_key L 101 11 (kp_public K kp)) \<mapsto> [CHR 0x01])" by (rule mark_fresh)
  with w show ?thesis by (auto simp: kyber_prekey_mark_used_first_call_succeeds_def passes_test_def)
qed

lemma mark_reuse_passes:
  assumes "ready_for L (view (fst w)) MarkReuse"
  shows "passes_test MarkReuse w (kyber_prekey_mark_used_reuse_rejected L P G K w)"
proof -
  obtain s g kp g1 where w: "w = (s, g)" "kg_generate G g = (kp, g1)" by (metis surj_pair)
  have "view s (TEST_KYBER_DICT, kyber_dedup_key L 102 12 (kp_public K kp)) = None" using assms w by (auto simp: ready_for_def)
  then obtain s1 where m: "mark_used L P 102 12 (kp_public K kp) s = (Inr (), s1)"
    "view s1 = (view s)((TEST_KYBER_DICT, kyber_dedup_key L 102 12 (kp_public K kp)) \<mapsto> [CHR 0x01])" by (rule mark_fresh)
  then have "mark_used L P 102 12 (kp_public K kp) s1 = (Inl InvalidKyberPreKeyId, s1)" by (intro mark_again) simp
  with w m show ?thesis by (auto simp: kyber_prekey_mark_used_reuse_rejected_def passes_test_def)
qed

lemma mark_independent_passes:
  assumes "ready_for L (view (fst w)) MarkIndependent"
  shows "passes_test MarkIndependent w (kyber_prekey_mark_used_different_tuples_independent L P G K w)"
proof -
  obtain s g kp g1 kq g2 where w: "w = (s, g)" "kg_generate G g = (kp, g1)" "kg_generate G g1 = (kq, g2)" by (metis surj_pair)
  let ?a = "kp_public K kp" and ?b = "kp_public K kq" and ?k = "\<lambda>e k. (TEST_KYBER_DICT, kyber_dedup_key L 103 e k)"
  note inj = kyber_dedup_key_inject [OF public_encoding]
  have ab: "?a \<noteq> ?b" using fresh_keys [OF w(2,3)] .
  have none: "view s (?k e k) = None" for e k using assms w by (auto simp: ready_for_def)
  obtain s1 where m1: "mark_used L P 103 20 ?a s = (Inr (), s1)" "view s1 = (view s)(?k 20 ?a \<mapsto> [CHR 0x01])" using none by (rule mark_fresh)
  have "view s1 (?k 21 ?a) = None" using none by (simp add: m1(2) inj)
  then obtain s2 where m2: "mark_used L P 103 21 ?a s1 = (Inr (), s2)" "view s2 = (view s1)(?k 21 ?a \<mapsto> [CHR 0x01])" by (rule mark_fresh)
  have "view s2 (?k 20 ?b) = None" using none ab by (simp add: m1(2) m2(2) inj)
  then obtain s3 where m3: "mark_used L P 103 20 ?b s2 = (Inr (), s3)" "view s3 = (view s2)(?k 20 ?b \<mapsto> [CHR 0x01])" by (rule mark_fresh)
  have "mark_used L P 103 20 ?a s3 = (Inl InvalidKyberPreKeyId, s3)" using ab by (intro mark_again) (simp add: m1(2) m2(2) m3(2) inj)
  with w m1 m2 m3 show ?thesis
    by (auto simp: kyber_prekey_mark_used_different_tuples_independent_def passes_test_def)
qed

lemma missing_passes:
  "ready_for L (view (fst w)) PrekeyMissing \<Longrightarrow> passes_test PrekeyMissing w (prekey_missing_returns_invalid_id L P w)"
  "ready_for L (view (fst w)) SignedMissing \<Longrightarrow> passes_test SignedMissing w (signed_prekey_missing_returns_invalid_id L P w)"
  "ready_for L (view (fst w)) KyberMissing \<Longrightarrow> passes_test KyberMissing w (kyber_prekey_missing_returns_error L P w)"
proof -
  have absent: "view s (d, show_word (i :: u32)) = None \<Longrightarrow> get_pre_key L P d i s = Inl InvalidPreKeyId
      \<and> get_signed_pre_key L P d i s = Inl InvalidSignedPreKeyId \<and> get_kyber_pre_key L P d i s = Inl InvalidKyberPreKeyId" for s d i
    using fetch_None [of s d "show_word i"] by (auto simp: get_pre_key_def get_signed_pre_key_def get_kyber_pre_key_def pddb_read_binary_def)
  show "ready_for L (view (fst w)) PrekeyMissing \<Longrightarrow> passes_test PrekeyMissing w (prekey_missing_returns_invalid_id L P w)"
    "ready_for L (view (fst w)) SignedMissing \<Longrightarrow> passes_test SignedMissing w (signed_prekey_missing_returns_invalid_id L P w)"
    "ready_for L (view (fst w)) KyberMissing \<Longrightarrow> passes_test KyberMissing w (kyber_prekey_missing_returns_error L P w)"
    by (simp_all add: passes_test_def ready_for_def prekey_missing_returns_invalid_id_def signed_prekey_missing_returns_invalid_id_def
        kyber_prekey_missing_returns_error_def absent)
qed

lemma address_passes:
  "ready_for L (view (fst w)) SessionMissing \<Longrightarrow> passes_test SessionMissing w (session_missing_returns_none L P w)"
  "ready_for L (view (fst w)) IdentityMissing \<Longrightarrow> passes_test IdentityMissing w (identity_missing_returns_none L P w)"
  "ready_for L (view (fst w)) IdentityTofu \<Longrightarrow> passes_test IdentityTofu w (identity_tofu_first_use_trusted L P G I w)"
  by (auto simp: passes_test_def ready_for_def session_missing_returns_none_def load_session_None_iff identity_missing_returns_none_def
      get_identity_eq identity_tofu_first_use_trusted_def is_trusted_eq split: prod.splits)

lemma test_passes: "ready_for L (view (fst w)) t \<Longrightarrow> passes_test t w (run_test L P G I K t w)"
  by (cases t) (simp_all add: prekey_round_trip_passes signed_prekey_round_trip_passes kyber_prekey_round_trip_passes
      mark_first_passes mark_reuse_passes mark_independent_passes missing_passes address_passes)

lemma suite_passes:
  assumes "distinct ts" "\<And>t. t \<in> set ts \<Longrightarrow> ready_for L (view (fst w)) t"
  shows "fst (run_suite (run_test L P G I K) ts w) = replicate (length ts) True"
  using assms
proof (induction ts arbitrary: w)
  case (Cons t ts)
  obtain ok w1 where r: "run_test L P G I K t w = (ok, w1)" by (metis surj_pair)
  have p: "passes_test t w (ok, w1)" using test_passes [of w t I] Cons.prems(2) r by simp
  have "ready_for L (view (fst w1)) t'" if t': "t' \<in> set ts" for t'
  proof -
    have "t \<noteq> t'" using t' Cons.prems(1) by auto
    with tests_disjoint [OF public_encoding] have "\<forall>x \<in> expects_absent L t'. x \<notin> touched L t" by blast
    with p Cons.prems(2) [of t'] t' show ?thesis by (auto simp: passes_test_def ready_for_def)
  qed
  with Cons.IH [of w1] Cons.prems(1) have "fst (run_suite (run_test L P G I K) ts w1) = replicate (length ts) True" by simp
  with r p show ?case by (auto simp: passes_test_def split: prod.splits)
qed simp

end

definition token_parts :: key_parts where
  "token_parts = \<lparr>kp_private = (\<lambda>k. case k of KeyPair b \<Rightarrow> PrivateKey b), kp_public = (\<lambda>k. case k of KeyPair b \<Rightarrow> PublicKey b)\<rparr>"

interpretation mem_suite: store_suite mem_pddb map_of token_libsignal counting_keygen token_parts
  by unfold_locales (auto simp: counting_keygen_def token_parts_def)

section \<open>Properties\<close>

text \<open>The unit tests of the stores pass in every order: on a PDDB without faults, where nothing is stored yet under the
  keys the tests expect to be absent, each test that is run once ends without a panic, whatever runs before it.\<close>

theorem store_tests_pass:
  assumes "store_suite P view L G K" "distinct ts" "\<And>t. t \<in> set ts \<Longrightarrow> ready_for L (view s) t"
  shows "fst (run_suite (run_test L P G I K) ts (s, g)) = replicate (length ts) True"
  using store_suite.suite_passes [OF assms(1,2), of "(s, g)" I] assms(3) by simp

theorem store_tests_pass_witness:
  "fst (run_suite (run_test token_libsignal mem_pddb counting_keygen token_identity token_parts)
      [MarkIndependent, KyberMissing, MarkFirst, KyberRoundTrip, MarkReuse, IdentityTofu] ([((''other'', ''key''), ''v'')], 3))
    = [True, True, True, True, True, True]"
proof -
  let ?ts = "[MarkIndependent, KyberMissing, MarkFirst, KyberRoundTrip, MarkReuse, IdentityTofu]"
  have "ready_for token_libsignal (map_of [((''other'', ''key''), ''v'')]) t" for t
    by (cases t) (auto simp: ready_for_def)
  from store_tests_pass [where view = map_of and ts = ?ts and I = token_identity and g = 3, OF mem_suite.store_suite_axioms _ this]
  show ?thesis by (simp add: numeral_eq_Suc)
qed

end
