(* ===== verification/Unit_Tests.thy ===== *)
theory Unit_Tests
  imports Manager
begin

text \<open>
  Unit tests of the source files as statements about the model: the inputs and expectations that the authors wrote down,
  against the definitions of this library. They cover \<open>manager/outgoing.rs\<close>, \<open>manager/main_ws.rs\<close>,
  \<open>manager/ws_server.rs\<close>, \<open>manager/peers.rs\<close>, \<open>manager/prekeys.rs\<close>, \<open>manager/prekey_replenish.rs\<close>,
  \<open>manager/account_attrs.rs\<close>, \<open>manager/libsignal.rs\<close>, \<open>manager/signal_ws.rs\<close> and the settings. Where a test only needs some
  input, as a key or a text, it is stated for every one. A test whose expectation is the
  output of a third-party library (the bytes of AES, of JSON or of base64) is left out.
\<close>

section \<open>Definitions\<close>

subsection \<open>Padding\<close>

definition signal_pad_appends_marker_and_pads_to_160 :: bool where
  "signal_pad_appends_marker_and_pads_to_160 \<longleftrightarrow>
     (let v = signal_pad (replicate 50 (CHR 0xAA))
      in length v = 160 \<and> v ! 50 = CHR 0x80 \<and> list_all (\<lambda>b. b = CHR 0x00) (drop 51 v))"

definition signal_pad_at_exact_multiple_pads_to_next :: bool where
  "signal_pad_at_exact_multiple_pads_to_next \<longleftrightarrow>
     (let v = signal_pad (replicate 160 (CHR 0xCC)) in length v = 320 \<and> v ! 160 = CHR 0x80)"

text \<open>The test module of \<open>outgoing.rs\<close> has its own copy of the receiver's function.\<close>

definition outgoing_strip_signal_padding :: "bytes \<Rightarrow> bytes" where
  "outgoing_strip_signal_padding plaintext =
     (let r = dropWhile (\<lambda>c. c = CHR 0x00) (rev plaintext)
      in rev (case r of c # cs \<Rightarrow> if c = CHR 0x80 then cs else r | [] \<Rightarrow> r))"

definition pad_then_strip_round_trips :: "bytes \<Rightarrow> bool" where
  "pad_then_strip_round_trips original \<longleftrightarrow>
     length (signal_pad original) \<noteq> length original \<and> outgoing_strip_signal_padding (signal_pad original) = original"

definition strip_returns_plaintext_unchanged_when_no_padding :: bool where
  "strip_returns_plaintext_unchanged_when_no_padding \<longleftrightarrow> strip_signal_padding ''hello'' = ''hello''"

definition strip_removes_trailing_zeros_then_marker :: bool where
  "strip_removes_trailing_zeros_then_marker \<longleftrightarrow>
     (let padded = ''hi'' @ [CHR 0x80] @ replicate 157 (CHR 0x00) in length padded = 160 \<and> strip_signal_padding padded = ''hi'')"

definition strip_handles_marker_at_end_with_no_zero_fill :: bool where
  "strip_handles_marker_at_end_with_no_zero_fill \<longleftrightarrow> strip_signal_padding (''x'' @ [CHR 0x80]) = ''x''"

definition strip_does_not_eat_payload_zeros :: bool where
  "strip_does_not_eat_payload_zeros \<longleftrightarrow>
     (let payload = [CHR ''a'', CHR 0x00, CHR ''b'']; padded = payload @ [CHR 0x80] @ replicate 156 (CHR 0x00)
      in length padded = 160 \<and> strip_signal_padding padded = payload)"

definition strip_is_idempotent_on_already_stripped_input :: bool where
  "strip_is_idempotent_on_already_stripped_input \<longleftrightarrow> strip_signal_padding (strip_signal_padding ''already clean'') = ''already clean''"

definition strip_handles_empty_input :: bool where
  "strip_handles_empty_input \<longleftrightarrow> strip_signal_padding [] = []"

definition padding_tests :: bool where
  "padding_tests \<longleftrightarrow>
     signal_pad_appends_marker_and_pads_to_160 \<and> signal_pad_at_exact_multiple_pads_to_next
     \<and> (\<forall>original. pad_then_strip_round_trips original)
     \<and> strip_returns_plaintext_unchanged_when_no_padding \<and> strip_removes_trailing_zeros_then_marker
     \<and> strip_handles_marker_at_end_with_no_zero_fill \<and> strip_does_not_eat_payload_zeros
     \<and> strip_is_idempotent_on_already_stripped_input \<and> strip_handles_empty_input"

subsection \<open>Recipients\<close>

definition peer_json :: "string \<Rightarrow> string \<Rightarrow> string" where
  "peer_json uuid dev =
     CHR ''{'' # json_string_needle ''uuid'' @ uuid @ [DQ, CHR '',''] @ json_number_needle ''device_id'' @ dev @ ''}''"

definition parse_peer_json_minimal :: "libsignal \<Rightarrow> bool" where
  "parse_peer_json_minimal L \<longleftrightarrow>
     parse_peer_json L (peer_json ''abcd-1234'' ''2'') = Inr \<lparr>pa_name = ''abcd-1234'', pa_device = 2\<rparr>"

definition parse_peer_json_rejects_bad_device_id :: "libsignal \<Rightarrow> bool" where
  "parse_peer_json_rejects_bad_device_id L \<longleftrightarrow>
     parse_peer_json L (peer_json ''x'' ''0'') = Inl (BadDeviceId 0) \<and> parse_peer_json L (peer_json ''x'' ''999'') = Inl (BadDeviceId 999)"

definition VALID_UUID :: string where "VALID_UUID = ''00000000-0000-4000-8000-000000000001''"

definition parse_demo_peer_default_device_is_1 :: "libsignal \<Rightarrow> bool" where
  "parse_demo_peer_default_device_is_1 L \<longleftrightarrow> parse_demo_peer L VALID_UUID None = Inr \<lparr>pa_name = VALID_UUID, pa_device = 1\<rparr>"

definition parse_demo_peer_explicit_device :: "libsignal \<Rightarrow> bool" where
  "parse_demo_peer_explicit_device L \<longleftrightarrow> map_sum id pa_device (parse_demo_peer L VALID_UUID (Some ''2'')) = Inr 2"

definition rejects_uuid :: "libsignal \<Rightarrow> string \<Rightarrow> bool" where
  "rejects_uuid L uuid \<longleftrightarrow> (case parse_demo_peer L uuid None of Inl (BadUuid _) \<Rightarrow> True | _ \<Rightarrow> False)"

definition parse_demo_peer_rejects_short_uuid :: "libsignal \<Rightarrow> bool" where
  "parse_demo_peer_rejects_short_uuid L \<longleftrightarrow> rejects_uuid L ''00000000''"

definition parse_demo_peer_rejects_misplaced_hyphens :: "libsignal \<Rightarrow> bool" where
  "parse_demo_peer_rejects_misplaced_hyphens L \<longleftrightarrow>
     (let bad = ''000000000-0000-4000-8000-000000000001'' in length bad = 37 \<and> rejects_uuid L (take 36 bad))"

definition parse_demo_peer_rejects_non_hex :: "libsignal \<Rightarrow> bool" where
  "parse_demo_peer_rejects_non_hex L \<longleftrightarrow> rejects_uuid L ''zz000000-0000-4000-8000-000000000001''"

definition rejects_range :: "libsignal \<Rightarrow> string \<Rightarrow> bool" where
  "rejects_range L dev \<longleftrightarrow> (case parse_demo_peer L VALID_UUID (Some dev) of Inl (DeviceRange _) \<Rightarrow> True | _ \<Rightarrow> False)"

definition parse_demo_peer_rejects_device_id_zero :: "libsignal \<Rightarrow> bool" where
  "parse_demo_peer_rejects_device_id_zero L \<longleftrightarrow> rejects_range L ''0''"

definition parse_demo_peer_rejects_device_id_too_large :: "libsignal \<Rightarrow> bool" where
  "parse_demo_peer_rejects_device_id_too_large L \<longleftrightarrow> rejects_range L ''128''"

definition parse_demo_peer_rejects_non_numeric_device_id :: "libsignal \<Rightarrow> bool" where
  "parse_demo_peer_rejects_non_numeric_device_id L \<longleftrightarrow>
     (case parse_demo_peer L VALID_UUID (Some ''abc'') of Inl (DeviceParse _) \<Rightarrow> True | _ \<Rightarrow> False)"

definition recipient_tests :: "libsignal \<Rightarrow> bool" where
  "recipient_tests L \<longleftrightarrow>
     parse_peer_json_minimal L \<and> parse_peer_json_rejects_bad_device_id L \<and> parse_demo_peer_default_device_is_1 L
     \<and> parse_demo_peer_explicit_device L \<and> parse_demo_peer_rejects_short_uuid L \<and> parse_demo_peer_rejects_misplaced_hyphens L
     \<and> parse_demo_peer_rejects_non_hex L \<and> parse_demo_peer_rejects_device_id_zero L \<and> parse_demo_peer_rejects_device_id_too_large L
     \<and> parse_demo_peer_rejects_non_numeric_device_id L"

subsection \<open>Read timeouts and the page of the provisioning socket\<close>

definition is_timeout_recognises_would_block :: bool where
  "is_timeout_recognises_would_block \<longleftrightarrow> is_timeout (TungIo (IoError WouldBlock ''x''))"

definition is_timeout_recognises_timed_out :: bool where
  "is_timeout_recognises_timed_out \<longleftrightarrow> is_timeout (TungIo (IoError TimedOut ''x''))"

text \<open>The end of the file and a reset connection are kinds that the code does not look at; an error of tungstenite that is
  none of the system is known by its text.\<close>

definition is_timeout_does_not_treat_unexpected_eof_as_timeout :: bool where
  "is_timeout_does_not_treat_unexpected_eof_as_timeout \<longleftrightarrow> \<not> is_timeout (TungIo (IoError OtherKind ''x''))"

definition is_timeout_does_not_treat_protocol_error_as_timeout :: "string \<Rightarrow> bool" where
  "is_timeout_does_not_treat_protocol_error_as_timeout text \<longleftrightarrow> \<not> is_timeout (TungOther text)"

definition is_timeout_matches_wouldblock_and_timedout :: bool where
  "is_timeout_matches_wouldblock_and_timedout \<longleftrightarrow> is_timeout (TungIo (IoError WouldBlock [])) \<and> is_timeout (TungIo (IoError TimedOut []))"

definition is_timeout_rejects_non_timeout_errors :: "string \<Rightarrow> string \<Rightarrow> bool" where
  "is_timeout_rejects_non_timeout_errors closed already \<longleftrightarrow>
     \<not> is_timeout (TungOther closed) \<and> \<not> is_timeout (TungOther already) \<and> \<not> is_timeout (TungIo (IoError OtherKind []))"

definition ws_result_buf_empty_is_sentinel :: bool where
  "ws_result_buf_empty_is_sentinel \<longleftrightarrow> rb_status empty_buf = 255 \<and> rb_len empty_buf = 0 \<and> list_all (\<lambda>x. x = CHR 0x00) (rb_bytes empty_buf)"

definition socket_tests :: bool where
  "socket_tests \<longleftrightarrow>
     is_timeout_recognises_would_block \<and> is_timeout_recognises_timed_out \<and> is_timeout_does_not_treat_unexpected_eof_as_timeout
     \<and> (\<forall>text. is_timeout_does_not_treat_protocol_error_as_timeout text) \<and> is_timeout_matches_wouldblock_and_timedout
     \<and> (\<forall>closed already. is_timeout_rejects_non_timeout_errors closed already) \<and> ws_result_buf_empty_is_sentinel"

subsection \<open>The protobuf messages of the receiver\<close>

text \<open>What \<open>prost\<close> derives for encoding the declarations of \<open>main_ws.rs\<close>, which only the tests use.\<close>

definition encode_in_sent :: "wire_codec \<Rightarrow> in_sent_message \<Rightarrow> bytes" where
  "encode_in_sent W m =
     wc_encode W (opt_len 1 (is_destination_service_id m) @ opt_u64 2 (is_timestamp m)
       @ opt_len 3 (map_option (encode_data_message W) (is_message m)))"

definition encode_in_sync :: "wire_codec \<Rightarrow> in_sync_message \<Rightarrow> bytes" where
  "encode_in_sync W m = wc_encode W (opt_len 1 (map_option (encode_in_sent W) (isy_sent m)))"

definition encode_in_content :: "wire_codec \<Rightarrow> in_content \<Rightarrow> bytes" where
  "encode_in_content W m =
     wc_encode W (opt_len 1 (map_option (encode_data_message W) (ic_data_message m))
       @ opt_len 2 (map_option (encode_in_sync W) (ic_sync_message m)))"

definition content_data_message_round_trips_body_and_timestamp :: "wire_codec \<Rightarrow> bool" where
  "content_data_message_round_trips_body_and_timestamp W \<longleftrightarrow>
     (let dm = \<lparr>dm_body = Some ''hello'', dm_timestamp = Some 1700000000000\<rparr>
      in map_option ic_data_message (decode_in_content W (encode_in_content W \<lparr>ic_data_message = Some dm, ic_sync_message = None\<rparr>)) = Some (Some dm))"

definition content_sync_sent_round_trips_destination_and_inner_message :: "wire_codec \<Rightarrow> bool" where
  "content_sync_sent_round_trips_destination_and_inner_message W \<longleftrightarrow>
     (let sent = \<lparr>is_destination_service_id = Some ''uuid-1234'', is_timestamp = Some 1700000000000,
                  is_message = Some \<lparr>dm_body = Some ''sync body'', dm_timestamp = Some 1700000000000\<rparr>\<rparr>;
          content = \<lparr>ic_data_message = None, ic_sync_message = Some \<lparr>isy_sent = Some sent\<rparr>\<rparr>
      in Option.bind (Option.bind (decode_in_content W (encode_in_content W content)) ic_sync_message) isy_sent = Some sent)"

subsection \<open>Conversation summaries\<close>

definition json_round_trip_preserves_fields :: bool where
  "json_round_trip_preserves_fields \<longleftrightarrow>
     (let s = \<lparr>ps_uuid = ''uuid-x'', ps_display_name = ''Alice'', ps_last_ts = 1700000000000, ps_last_snippet = ''hello'', ps_unread = 3\<rparr>
      in from_json ''uuid-x'' (to_json s) = Some s)"

definition json_round_trip_handles_quotes_and_backslashes :: bool where
  "json_round_trip_handles_quotes_and_backslashes \<longleftrightarrow>
     (let s = \<lparr>ps_uuid = ''u'', ps_display_name = ''Carol '' @ [DQ] @ ''C.'' @ [DQ, CHR '' '', BS] @ '' Whitfield'', ps_last_ts = 0,
               ps_last_snippet = ''line'' @ [CHR 0x0A] @ ''break'', ps_unread = 0\<rparr>
      in from_json ''u'' (to_json s) = Some s)"

definition from_json_tolerates_missing_fields :: bool where
  "from_json_tolerates_missing_fields \<longleftrightarrow>
     (case from_json ''u'' (CHR ''{'' # json_number_needle ''last_ts'' @ ''42}'') of
        None \<Rightarrow> False
      | Some back \<Rightarrow> ps_last_ts back = 42 \<and> ps_unread back = 0 \<and> ps_display_name back = [])"

definition truncate_snippet_keeps_short_strings :: bool where
  "truncate_snippet_keeps_short_strings \<longleftrightarrow> truncate_snippet ''hi'' = ''hi''"

definition ends_with :: "string \<Rightarrow> string \<Rightarrow> bool" where
  "ends_with s t \<longleftrightarrow> length t \<le> length s \<and> drop (length s - length t) s = t"

definition truncate_snippet_clips_at_byte_budget :: bool where
  "truncate_snippet_clips_at_byte_budget \<longleftrightarrow>
     (let out = truncate_snippet (replicate 200 (CHR ''a'')) in ends_with out ellipsis \<and> length out \<le> SNIPPET_MAX_BYTES + 3)"

definition truncate_snippet_does_not_split_utf8 :: bool where
  "truncate_snippet_does_not_split_utf8 \<longleftrightarrow>
     (let out = truncate_snippet (replicate (SNIPPET_MAX_BYTES - 1) (CHR ''a'') @ [CHR 0xF0, CHR 0x9F, CHR 0xA6, CHR 0x80] @ ''!'')
      in ends_with out ellipsis \<and> from_utf8 out \<noteq> None)"

definition summary_tests :: bool where
  "summary_tests \<longleftrightarrow>
     json_round_trip_preserves_fields \<and> json_round_trip_handles_quotes_and_backslashes \<and> from_json_tolerates_missing_fields
     \<and> truncate_snippet_keeps_short_strings \<and> truncate_snippet_clips_at_byte_budget \<and> truncate_snippet_does_not_split_utf8"

subsection \<open>Prekeys\<close>

definition advance_counter_basic_increment :: bool where
  "advance_counter_basic_increment \<longleftrightarrow> advance_prekey_counter 1 5 = 6 \<and> advance_prekey_counter 100 100 = 200"

definition advance_counter_wraps_at_medium_max :: bool where
  "advance_counter_wraps_at_medium_max \<longleftrightarrow> (let near_top = MEDIUM_MAX - 1 in advance_prekey_counter near_top 3 = 2)"

definition advance_counter_at_max_wraps_immediately :: bool where
  "advance_counter_at_max_wraps_immediately \<longleftrightarrow> advance_prekey_counter MEDIUM_MAX 1 = 1 \<and> advance_prekey_counter MEDIUM_MAX 2 = 2"

definition advance_counter_zero_count_is_noop :: bool where
  "advance_counter_zero_count_is_noop \<longleftrightarrow> advance_prekey_counter 42 0 = 42"

definition counter_tests :: bool where
  "counter_tests \<longleftrightarrow>
     advance_counter_basic_increment \<and> advance_counter_wraps_at_medium_max \<and> advance_counter_at_max_wraps_immediately
     \<and> advance_counter_zero_count_is_noop"

text \<open>The closures of the replenishment tests share two counters and the last body.\<close>

record replenish_probe =
  rp_gen_called :: nat
  rp_put_called :: nat
  rp_put_body :: "set_keys_request option"

definition dummy_jsons :: "u32 \<Rightarrow> one_time_pre_key_json list" where
  "dummy_jsons n = map (\<lambda>i. \<lparr>otj_key_id = 1000 + of_nat i, otj_public_key_b64url = ''pk'' @ show_nat i\<rparr>) [0..<unat n]"

definition count_status :: "u32 \<Rightarrow> u32 \<Rightarrow> 'w \<Rightarrow> ('w, io_error, pre_key_count) sres" where
  "count_status count pq w = (Inr \<lparr>pkc_count = count, pkc_pq_count = pq\<rparr>, w)"

definition count_generate :: "u32 \<Rightarrow> replenish_probe \<Rightarrow> (replenish_probe, io_error, one_time_pre_key_json list) sres" where
  "count_generate n w = (Inr (dummy_jsons n), w\<lparr>rp_gen_called := rp_gen_called w + 1\<rparr>)"

definition count_put :: "set_keys_request \<Rightarrow> replenish_probe \<Rightarrow> (replenish_probe, io_error, unit) sres" where
  "count_put body w =
     (Inr (), w\<lparr>rp_put_called := rp_put_called w + 1, rp_put_body := Some (set_keys_default\<lparr>skr_pre_keys := skr_pre_keys body\<rparr>)\<rparr>)"

definition no_calls :: replenish_probe where
  "no_calls = \<lparr>rp_gen_called = 0, rp_put_called = 0, rp_put_body = None\<rparr>"

definition skips_when_server_count_above_threshold :: bool where
  "skips_when_server_count_above_threshold \<longleftrightarrow>
     run_replenish 10 100 (count_status 11 0) count_generate count_put no_calls = (Skipped 11, no_calls)"

definition skips_at_exact_threshold :: bool where
  "skips_at_exact_threshold \<longleftrightarrow> run_replenish 10 100 (count_status 10 0) count_generate count_put no_calls = (Skipped 10, no_calls)"

definition replenishes_when_server_count_below_threshold :: bool where
  "replenishes_when_server_count_below_threshold \<longleftrightarrow>
     (case run_replenish 10 100 (count_status 3 0) count_generate count_put no_calls of (outcome, w) \<Rightarrow>
        outcome = Replenished 100
        \<and> (case rp_put_body w of
             None \<Rightarrow> False
           | Some captured \<Rightarrow>
               length (skr_pre_keys captured) = 100 \<and> ote_key_id (skr_pre_keys captured ! 0) = 1000
               \<and> ote_key_id (skr_pre_keys captured ! 99) = 1099 \<and> skr_signed_pre_key captured = None
               \<and> skr_pq_pre_keys captured = [] \<and> skr_pq_last_resort_pre_key captured = None))"

definition server_count_zero_triggers_replenish :: bool where
  "server_count_zero_triggers_replenish \<longleftrightarrow>
     fst (run_replenish 10 100 (count_status 0 1) count_generate count_put no_calls) = Replenished 100"

definition failed_with :: "string \<Rightarrow> replenish_outcome \<Rightarrow> bool" where
  "failed_with part outcome \<longleftrightarrow> (case outcome of Failed reason \<Rightarrow> find_str part reason \<noteq> None | _ \<Rightarrow> False)"

definition get_status_failure_returns_failed_without_calling_put :: bool where
  "get_status_failure_returns_failed_without_calling_put \<longleftrightarrow>
     (case run_replenish 10 100 (\<lambda>w. (Inl (IoError ConnectionAborted ''no route''), w)) count_generate count_put no_calls of
        (outcome, w) \<Rightarrow> failed_with ''get_keys_status'' outcome \<and> rp_put_called w = 0)"

definition generate_failure_returns_failed_without_calling_put :: bool where
  "generate_failure_returns_failed_without_calling_put \<longleftrightarrow>
     (case run_replenish 10 100 (count_status 0 0) (\<lambda>_ w. (Inl (IoError OtherKind ''pddb wedged''), w)) count_put no_calls of
        (outcome, w) \<Rightarrow> failed_with ''generate_one_time_prekeys'' outcome \<and> rp_put_called w = 0)"

definition put_failure_returns_failed_after_local_persistence :: bool where
  "put_failure_returns_failed_after_local_persistence \<longleftrightarrow>
     failed_with ''put_keys''
       (fst (run_replenish 10 100 (count_status 0 0) count_generate (\<lambda>_ w. (Inl (IoError OtherKind ''503 from server''), w)) no_calls))"

definition batch_size_zero_still_calls_put_with_empty_body :: bool where
  "batch_size_zero_still_calls_put_with_empty_body \<longleftrightarrow>
     (case run_replenish 10 0 (count_status 0 0) count_generate count_put no_calls of
        (outcome, w) \<Rightarrow> outcome = Replenished 0 \<and> 0 < rp_put_called w)"

definition replenish_tests :: bool where
  "replenish_tests \<longleftrightarrow>
     skips_when_server_count_above_threshold \<and> skips_at_exact_threshold \<and> replenishes_when_server_count_below_threshold
     \<and> server_count_zero_triggers_replenish \<and> get_status_failure_returns_failed_without_calling_put
     \<and> generate_failure_returns_failed_without_calling_put \<and> put_failure_returns_failed_after_local_persistence
     \<and> batch_size_zero_still_calls_put_with_empty_body"

subsection \<open>Account attributes and the device name cipher\<close>

definition registration_id_in_range :: "'g attrs_lib \<Rightarrow> 'g \<Rightarrow> bool" where
  "registration_id_in_range A g \<longleftrightarrow> (let i = fst (generate_registration_id A g) in 1 \<le> i \<and> i \<le> 16380)"

definition uak_requires_32_byte_profile_key :: "'g attrs_lib \<Rightarrow> bool" where
  "uak_requires_32_byte_profile_key A \<longleftrightarrow>
     isl (derive_unidentified_access_key A (replicate 16 (CHR 0x00))) \<and> \<not> isl (derive_unidentified_access_key A (replicate 32 (CHR 0x00)))"

definition aes256_ctr_encrypt_rejects_short_keys :: "'g crypto \<Rightarrow> bool" where
  "aes256_ctr_encrypt_rejects_short_keys Y \<longleftrightarrow> isl (aes256_ctr_encrypt Y (replicate 31 (CHR 0x00)) ''x'')"

definition aes256_ctr_encrypt_rejects_long_keys :: "'g crypto \<Rightarrow> bool" where
  "aes256_ctr_encrypt_rejects_long_keys Y \<longleftrightarrow> isl (aes256_ctr_encrypt Y (replicate 33 (CHR 0x00)) ''x'')"

definition aes256_ctr_encrypt_accepts_exact_32_byte_key :: "'g crypto \<Rightarrow> bool" where
  "aes256_ctr_encrypt_accepts_exact_32_byte_key Y \<longleftrightarrow> \<not> isl (aes256_ctr_encrypt Y (replicate 32 (CHR 0x00)) ''x'')"

definition aes256_ctr_encrypt_preserves_plaintext_length :: "'g crypto \<Rightarrow> bool" where
  "aes256_ctr_encrypt_preserves_plaintext_length Y \<longleftrightarrow>
     list_all (\<lambda>len. map_sum id length (aes256_ctr_encrypt Y (replicate 32 (CHR 0x00)) (replicate len (CHR 0xFF))) = Inr len)
       [0, 1, 15, 16, 17, 31, 32, 33, 100]"

definition aes256_ctr_encrypt_round_trip_self_decrypts :: "'g crypto \<Rightarrow> bool" where
  "aes256_ctr_encrypt_round_trip_self_decrypts Y \<longleftrightarrow>
     (let key = replicate 32 (CHR 0x33); pt = ''round-trip me, twice''
      in rbind (aes256_ctr_encrypt Y key pt) (aes256_ctr_encrypt Y key) = Inr pt)"

definition cipher_tests :: "'g crypto \<Rightarrow> bool" where
  "cipher_tests Y \<longleftrightarrow>
     aes256_ctr_encrypt_rejects_short_keys Y \<and> aes256_ctr_encrypt_rejects_long_keys Y \<and> aes256_ctr_encrypt_accepts_exact_32_byte_key Y
     \<and> aes256_ctr_encrypt_preserves_plaintext_length Y \<and> aes256_ctr_encrypt_round_trip_self_decrypts Y"

subsection \<open>The upgrade request\<close>

text \<open>A request of the test URL, whose host the URL crate gives as \<open>chat.signal.org\<close>; \<open>key\<close> is the random key of the handshake.\<close>

definition test_request :: "(string \<Rightarrow> (string \<times> string) list \<Rightarrow> string + unit) \<Rightarrow> string \<Rightarrow> string option \<Rightarrow> io_error + (string \<times> string) list" where
  "test_request finish key auth =
     build_ws_upgrade_request finish (Some ''chat.signal.org'') ''wss://chat.signal.org/v1/websocket/'' key auth"

definition header_is :: "string \<Rightarrow> string \<Rightarrow> io_error + (string \<times> string) list \<Rightarrow> bool" where
  "header_is name v r \<longleftrightarrow> (case r of Inl _ \<Rightarrow> False | Inr headers \<Rightarrow> map_of headers name = Some v)"

definition upgrade_request_does_not_request_story_envelopes :: "(string \<Rightarrow> (string \<times> string) list \<Rightarrow> string + unit) \<Rightarrow> string \<Rightarrow> bool" where
  "upgrade_request_does_not_request_story_envelopes finish key \<longleftrightarrow> header_is ''X-Signal-Receive-Stories'' ''false'' (test_request finish key None)"

definition upgrade_request_sets_websocket_upgrade_headers :: "(string \<Rightarrow> (string \<times> string) list \<Rightarrow> string + unit) \<Rightarrow> string \<Rightarrow> bool" where
  "upgrade_request_sets_websocket_upgrade_headers finish key \<longleftrightarrow>
     (let req = test_request finish key None in
      header_is ''Connection'' ''Upgrade'' req \<and> header_is ''Upgrade'' ''websocket'' req \<and> header_is ''Sec-WebSocket-Version'' ''13'' req
      \<and> header_is ''Sec-WebSocket-Key'' key req \<and> header_is ''Host'' ''chat.signal.org'' req)"

definition upgrade_request_omits_authorization_when_unauthenticated :: "(string \<Rightarrow> (string \<times> string) list \<Rightarrow> string + unit) \<Rightarrow> string \<Rightarrow> bool" where
  "upgrade_request_omits_authorization_when_unauthenticated finish key \<longleftrightarrow>
     (case test_request finish key None of Inl _ \<Rightarrow> False | Inr headers \<Rightarrow> map_of headers ''Authorization'' = None)"

definition upgrade_request_includes_basic_auth_when_credentials_provided ::
  "(string \<Rightarrow> (string \<times> string) list \<Rightarrow> string + unit) \<Rightarrow> string \<Rightarrow> bool" where
  "upgrade_request_includes_basic_auth_when_credentials_provided finish key \<longleftrightarrow>
     (let creds = ''user:pass-base64-already'' in header_is ''Authorization'' (''Basic '' @ creds) (test_request finish key (Some creds)))"

definition upgrade_tests :: "(string \<Rightarrow> (string \<times> string) list \<Rightarrow> string + unit) \<Rightarrow> string \<Rightarrow> bool" where
  "upgrade_tests finish key \<longleftrightarrow>
     upgrade_request_does_not_request_story_envelopes finish key \<and> upgrade_request_sets_websocket_upgrade_headers finish key
     \<and> upgrade_request_omits_authorization_when_unauthenticated finish key
     \<and> upgrade_request_includes_basic_auth_when_credentials_provided finish key"

subsection \<open>Settings\<close>

text \<open>Parsing a name and printing it; names that are refused.\<close>

definition round_trips :: "(string \<Rightarrow> 'a option) \<Rightarrow> ('a \<Rightarrow> string) \<Rightarrow> string list \<Rightarrow> bool" where
  "round_trips parse fmt names \<longleftrightarrow> list_all (\<lambda>s. map_option fmt (parse s) = Some s) names"

definition refuses :: "(string \<Rightarrow> 'a option) \<Rightarrow> string list \<Rightarrow> bool" where
  "refuses parse names \<longleftrightarrow> list_all (\<lambda>s. parse s = None) names"

definition service_environment_tests :: bool where
  "service_environment_tests \<longleftrightarrow>
     round_trips service_environment_from_str service_environment_to_string [''Live'', ''Staging'']
     \<and> refuses service_environment_from_str [''Production'', ''live'']"

definition group_permission_tests :: bool where
  "group_permission_tests \<longleftrightarrow>
     round_trips group_permission_from_str group_permission_to_string [''EveryMember'', ''OnlyAdmins'']
     \<and> refuses group_permission_from_str [''everymember'', ''Admins'']"

definition trust_mode_tests :: bool where
  "trust_mode_tests \<longleftrightarrow>
     map trust_mode_to_string [OnFirstUse, Always, Never] = [''OnFirstUse'', ''Always'', ''Never'']
     \<and> round_trips trust_mode_from_str trust_mode_to_string [''OnFirstUse'', ''Always'', ''Never'']
     \<and> refuses trust_mode_from_str [''Sometimes'', [], ''onfirstuse'']"

definition link_state_tests :: bool where
  "link_state_tests \<longleftrightarrow>
     round_trips link_state_from_str link_state_to_string [''Enabled'', ''EnabledWithApproval'', ''Disabled'']
     \<and> refuses link_state_from_str [''enabled'', ''Disable'', []]"

definition settings_tests :: bool where
  "settings_tests \<longleftrightarrow> service_environment_tests \<and> group_permission_tests \<and> trust_mode_tests \<and> link_state_tests"

section \<open>The tests pass\<close>

text \<open>What the tests of the recipients need of libsignal: device ids from 1 to 127 are accepted as they are.\<close>

locale device_ids =
  fixes L :: libsignal
  assumes valid_id: "1 \<le> d \<Longrightarrow> d \<le> 127 \<Longrightarrow> ls_device_id_new L d = Inr d"

lemma signal_pad_eq: "signal_pad c = c @ CHR 0x80 # replicate ((length c div 160 + 1) * 160 - length c - 1) (CHR 0x00)"
proof -
  obtain n where n: "n < 160" "signal_pad c = c @ CHR 0x80 # replicate n (CHR 0x00)" "(length c + 1 + n) mod 160 = 0"
    using signal_pad_shape [of c] by (elim exE conjE)
  define k where "k = (length c + 1 + n) div 160"
  have k: "length c + 1 + n = k * 160" using n(3) unfolding k_def by (metis div_mult_mod_eq add_0_right)
  have "k = length c div 160 + 1" using k n(1) by linarith
  then have "n = (length c div 160 + 1) * 160 - length c - 1" using k by simp
  with n(2) show ?thesis by simp
qed

lemma signal_pad_longer: "length c < length (signal_pad c)"
  using signal_pad_shape [of c] by auto

theorem padding_tests_pass: padding_tests
proof -
  have "outgoing_strip_signal_padding = strip_signal_padding" by (simp add: fun_eq_iff outgoing_strip_signal_padding_def strip_signal_padding_def)
  then have "pad_then_strip_round_trips original" for original
    using signal_pad_longer [of original] strip_pad by (simp add: pad_then_strip_round_trips_def)
  moreover have "signal_pad_appends_marker_and_pads_to_160"
    by (simp add: signal_pad_appends_marker_and_pads_to_160_def signal_pad_eq Let_def nth_append list_all_iff)
  moreover have "signal_pad_at_exact_multiple_pads_to_next"
    by (simp add: signal_pad_at_exact_multiple_pads_to_next_def signal_pad_eq Let_def nth_append)
  moreover have "strip_returns_plaintext_unchanged_when_no_padding" "strip_removes_trailing_zeros_then_marker"
    "strip_handles_marker_at_end_with_no_zero_fill" "strip_does_not_eat_payload_zeros"
    "strip_is_idempotent_on_already_stripped_input" "strip_handles_empty_input" by code_simp+
  ultimately show ?thesis unfolding padding_tests_def by blast
qed

theorem socket_tests_pass: socket_tests
  by (simp add: socket_tests_def is_timeout_recognises_would_block_def is_timeout_recognises_timed_out_def
      is_timeout_does_not_treat_unexpected_eof_as_timeout_def is_timeout_does_not_treat_protocol_error_as_timeout_def
      is_timeout_matches_wouldblock_and_timedout_def is_timeout_rejects_non_timeout_errors_def ws_result_buf_empty_is_sentinel_def is_timeout_def empty_buf_def list_all_iff)

text \<open>Texts of a conversation come back through the JSON of the summary; the snippet is cut at a character boundary.\<close>

lemma long_snippet:
  "SNIPPET_MAX_BYTES < length t \<Longrightarrow> ends_with (truncate_snippet t) ellipsis \<and> length (truncate_snippet t) \<le> SNIPPET_MAX_BYTES + 3"
  using floor_boundary [of t SNIPPET_MAX_BYTES] by (simp add: ends_with_def truncate_snippet_def ellipsis_def)

lemma sparse_fields:
  "peers_extract_number_field (CHR ''{'' # json_number_needle ''last_ts'' @ ''42}'') ''last_ts'' = Some ''42''"
  "peers_extract_number_field (CHR ''{'' # json_number_needle ''last_ts'' @ ''42}'') ''unread'' = None"
  "peers_extract_string_field (CHR ''{'' # json_number_needle ''last_ts'' @ ''42}'') ''display_name'' = None"
  by code_simp+

theorem summary_tests_pass: summary_tests
proof -
  have "json_round_trip_preserves_fields" "json_round_trip_handles_quotes_and_backslashes"
    by (simp_all add: json_round_trip_preserves_fields_def json_round_trip_handles_quotes_and_backslashes_def
        Let_def from_to_json read_back_safe json_safe_def)
  moreover have "from_json_tolerates_missing_fields"
    by (simp add: from_json_tolerates_missing_fields_def from_json_def sparse_fields parse_u64_def parse_unsigned_def strip_plus_def is_digit_def)
  moreover have "truncate_snippet_keeps_short_strings"
    by (simp add: truncate_snippet_keeps_short_strings_def truncate_snippet_def)
  moreover have "truncate_snippet_clips_at_byte_budget"
    using long_snippet [of "replicate 200 (CHR ''a'')"] by (simp add: truncate_snippet_clips_at_byte_budget_def Let_def)
  moreover have "truncate_snippet_does_not_split_utf8"
  proof -
    let ?t = "replicate (SNIPPET_MAX_BYTES - 1) (CHR ''a'') @ [CHR 0xF0, CHR 0x9F, CHR 0xA6, CHR 0x80] @ ''!''"
    have "utf8_valid ([CHR 0xF0, CHR 0x9F, CHR 0xA6, CHR 0x80] @ ''!'')" by code_simp
    moreover have "utf8_valid (replicate (SNIPPET_MAX_BYTES - 1) (CHR ''a''))" by (rule utf8_valid_ascii) simp
    ultimately have "utf8_valid ?t" using utf8_valid_append by blast
    with truncate_valid [of ?t] long_snippet [of ?t] show ?thesis
      by (simp add: truncate_snippet_does_not_split_utf8_def Let_def)
  qed
  ultimately show ?thesis unfolding summary_tests_def by blast
qed

lemma advance_is:
  assumes "1 \<le> i" "i \<le> MEDIUM_MAX" "(unat i - 1 + k) mod 16777215 + 1 = unat j"
  shows "advance_prekey_counter i k = j"
  using advance_unat [of i k] assms by (simp add: word_unat_eq_iff)

theorem counter_tests_pass: counter_tests
  by (simp add: counter_tests_def advance_counter_basic_increment_def advance_counter_wraps_at_medium_max_def
      advance_counter_at_max_wraps_immediately_def advance_counter_zero_count_is_noop_def Let_def advance_is)

theorem replenish_tests_pass: replenish_tests
  unfolding replenish_tests_def by (intro conjI) code_simp+

theorem settings_tests_pass: settings_tests
  unfolding settings_tests_def by (intro conjI) code_simp+

text \<open>The tests of the recipients need only that a valid device id is accepted.\<close>

lemma test_peer_fields:
  "extract_string_field (peer_json ''abcd-1234'' ''2'') ''uuid'' = Some ''abcd-1234''"
  "extract_number_field (peer_json ''abcd-1234'' ''2'') ''device_id'' = Some ''2''"
  "extract_string_field (peer_json ''x'' ''0'') ''uuid'' = Some ''x''" "extract_number_field (peer_json ''x'' ''0'') ''device_id'' = Some ''0''"
  "extract_string_field (peer_json ''x'' ''999'') ''uuid'' = Some ''x''" "extract_number_field (peer_json ''x'' ''999'') ''device_id'' = Some ''999''"
  by code_simp+

lemma test_device_ids:
  "parse_u32 ''0'' = Some 0" "parse_u32 ''2'' = Some 2" "parse_u32 ''128'' = Some 128" "parse_u32 ''999'' = Some 999" "parse_u32 ''abc'' = None"
  by (simp_all add: parse_u32_def parse_unsigned_def strip_plus_def is_digit_def)

lemma test_uuids:
  "hyphenated_uuid VALID_UUID" "\<not> hyphenated_uuid ''00000000''" "\<not> hyphenated_uuid (take 36 ''000000000-0000-4000-8000-000000000001'')"
  "\<not> hyphenated_uuid ''zz000000-0000-4000-8000-000000000001''"
  by code_simp+

context device_ids
begin

lemma small_ids: "ls_device_id_new L 1 = Inr 1" "ls_device_id_new L 2 = Inr 2"
  by (rule valid_id; simp)+

lemma json_recipients: "parse_peer_json_minimal L" "parse_peer_json_rejects_bad_device_id L"
  by (simp_all add: parse_peer_json_minimal_def parse_peer_json_rejects_bad_device_id_def parse_peer_json_def
      test_peer_fields test_device_ids small_ids)

lemma demo_recipients:
  "parse_demo_peer_default_device_is_1 L" "parse_demo_peer_explicit_device L" "parse_demo_peer_rejects_device_id_zero L"
  "parse_demo_peer_rejects_device_id_too_large L" "parse_demo_peer_rejects_non_numeric_device_id L"
  by (simp_all add: parse_demo_peer_default_device_is_1_def parse_demo_peer_explicit_device_def
      parse_demo_peer_rejects_device_id_zero_def parse_demo_peer_rejects_device_id_too_large_def
      parse_demo_peer_rejects_non_numeric_device_id_def rejects_range_def parse_demo_peer_def test_uuids test_device_ids small_ids)

lemma bad_uuids:
  "parse_demo_peer_rejects_short_uuid L" "parse_demo_peer_rejects_misplaced_hyphens L" "parse_demo_peer_rejects_non_hex L"
  using test_uuids by (simp_all add: parse_demo_peer_rejects_short_uuid_def parse_demo_peer_rejects_misplaced_hyphens_def
      parse_demo_peer_rejects_non_hex_def rejects_uuid_def parse_demo_peer_def Let_def)

lemma recipients_pass: "recipient_tests L"
  unfolding recipient_tests_def by (intro conjI json_recipients demo_recipients bad_uuids)

end

interpretation token_ids: device_ids token_libsignal
  by unfold_locales (auto simp: token_libsignal_def)

theorem recipient_tests_pass: "recipient_tests token_libsignal"
  by (rule token_ids.recipients_pass)

text \<open>The declarations of the receiver decode what they encode, whatever the texts and the timestamps.\<close>

lemma decode_encode_data:
  assumes "wire_format W" "utf8_valid body"
  shows "decode_in_content W (encode_in_content W \<lparr>ic_data_message = Some \<lparr>dm_body = Some body, dm_timestamp = Some ts\<rparr>, ic_sync_message = None\<rparr>)
    = Some \<lparr>ic_data_message = Some \<lparr>dm_body = Some body, dm_timestamp = Some ts\<rparr>, ic_sync_message = None\<rparr>"
  using assms by (simp add: encode_in_content_def encode_data_message_def data_message_fields_def decode_in_content_def
      decode_encoded merge_nested_def data_message_default_def)

lemma decode_encode_sync:
  assumes "wire_format W" "utf8_valid dest" "utf8_valid body"
  shows "decode_in_content W (encode_in_content W \<lparr>ic_data_message = None, ic_sync_message = Some \<lparr>isy_sent = Some
      \<lparr>is_destination_service_id = Some dest, is_timestamp = Some sts, is_message = Some \<lparr>dm_body = Some body, dm_timestamp = Some ts\<rparr>\<rparr>\<rparr>\<rparr>)
    = Some \<lparr>ic_data_message = None, ic_sync_message = Some \<lparr>isy_sent = Some
      \<lparr>is_destination_service_id = Some dest, is_timestamp = Some sts, is_message = Some \<lparr>dm_body = Some body, dm_timestamp = Some ts\<rparr>\<rparr>\<rparr>\<rparr>"
  using assms by (simp add: encode_in_content_def encode_in_sync_def encode_in_sent_def encode_data_message_def
      data_message_fields_def decode_in_content_def decode_encoded merge_nested_def data_message_default_def in_sent_default_def)

theorem content_tests_pass:
  assumes "wire_format W"
  shows "content_data_message_round_trips_body_and_timestamp W \<and> content_sync_sent_round_trips_destination_and_inner_message W"
proof -
  have "utf8_valid ''hello''" "utf8_valid ''uuid-1234''" "utf8_valid ''sync body''" by (rule utf8_valid_ascii; auto)+
  then show ?thesis
    by (simp add: content_data_message_round_trips_body_and_timestamp_def content_sync_sent_round_trips_destination_and_inner_message_def
        Let_def decode_encode_data [OF assms] decode_encode_sync [OF assms])
qed

theorem attribute_tests_pass:
  assumes "\<And>k n p. \<not> isl (at_gcm_encrypt A k n p)"
  shows "registration_id_in_range A g \<and> uak_requires_32_byte_profile_key A"
proof
  show "registration_id_in_range A g"
    using registration_id_range [of A g] by (cases "generate_registration_id A g") (simp add: registration_id_in_range_def)
  show "uak_requires_32_byte_profile_key A"
    using assms [of "replicate 32 (CHR 0x00)" "replicate 12 (CHR 0x00)" "replicate 16 (CHR 0x00)"] unfolding uak_requires_32_byte_profile_key_def derive_unidentified_access_key_def
    by (cases "at_gcm_encrypt A (replicate 32 (CHR 0x00)) (replicate 12 (CHR 0x00)) (replicate 16 (CHR 0x00))")
      (simp_all only: length_replicate, simp_all)
qed

theorem cipher_tests_pass:
  assumes block: "\<And>k c. length (cy_aes256_block Y k c) = 16"
  shows "cipher_tests Y"
proof -
  note ref = ctr_is_reference [OF block]
  have len: "map_sum id length (aes256_ctr_encrypt Y (replicate 32 b) p) = Inr (length p)" for b p
    by (simp only: ref length_replicate map_sum.simps) (simp add: ctr_reference_def)
  have "aes256_ctr_encrypt_preserves_plaintext_length Y"
    unfolding aes256_ctr_encrypt_preserves_plaintext_length_def len length_replicate by simp
  moreover have "aes256_ctr_encrypt_round_trip_self_decrypts Y"
    unfolding aes256_ctr_encrypt_round_trip_self_decrypts_def Let_def
    by (simp only: ref length_replicate rbind.simps ctr_reference_involution)
  moreover have "aes256_ctr_encrypt_accepts_exact_32_byte_key Y"
    unfolding aes256_ctr_encrypt_accepts_exact_32_byte_key_def by (simp only: ref length_replicate sum.disc not_False_eq_True)
  moreover have "aes256_ctr_encrypt_rejects_short_keys Y" "aes256_ctr_encrypt_rejects_long_keys Y"
    by (simp_all add: aes256_ctr_encrypt_rejects_short_keys_def aes256_ctr_encrypt_rejects_long_keys_def aes256_ctr_encrypt_def)
  ultimately show ?thesis unfolding cipher_tests_def by blast
qed

theorem upgrade_tests_pass:
  assumes "\<And>url headers. finish url headers = Inr ()"
  shows "upgrade_tests finish key"
  by (simp add: upgrade_tests_def upgrade_request_does_not_request_story_envelopes_def upgrade_request_sets_websocket_upgrade_headers_def
      upgrade_request_omits_authorization_when_unauthenticated_def upgrade_request_includes_basic_auth_when_credentials_provided_def
      test_request_def header_is_def build_ws_upgrade_request_def assms Let_def)

end
