(* ===== verification/Transport.thy ===== *)
theory Transport
  imports Manager Send_Bounds
begin

text \<open>
  The edges of the program towards the network and the kernel.
  \<^item> \<open>src/src/manager/signal_ws.rs\<close>: who presents credentials when a WebSocket of \<open>Signal_Ws\<close> is opened; the
    locale \<open>recorded_net\<close> is a network that remembers the upgrade requests.
  \<^item> \<open>src/src/manager/send.rs\<close>: \<open>UreqHttpClient\<close>, the HTTP client of the send path.
  \<^item> \<open>src/src/manager/wifi_observer.rs\<close>, \<open>src/src/manager/ws_server.rs\<close>, \<open>src/src/manager/main_ws.rs\<close>: the servers,
    connections and threads that the workers acquire and give back, as calls of the kernel.
\<close>

section \<open>Definitions\<close>

subsection \<open>The HTTP client of the send path\<close>

record http_request =
  rq_method :: string
  rq_url :: string
  rq_headers :: headers
  rq_body :: "bytes option"

text \<open>The \<open>ureq\<close> agent.\<close>

type_synonym 'h agent = "http_request \<Rightarrow> 'h \<Rightarrow> ureq_result \<times> 'h"

definition put_json :: "'h agent \<Rightarrow> string \<Rightarrow> string \<Rightarrow> bytes \<Rightarrow> 'h \<Rightarrow> ('h, io_error, http_response) sres" where
  "put_json agent url auth body h =
     (case agent \<lparr>rq_method = ''PUT'', rq_url = url,
                  rq_headers = [(''Authorization'', auth), (''Content-Type'', ''application/json'')], rq_body = Some body\<rparr> h of
        (resp, h1) \<Rightarrow> (ureq_response_to_http resp, h1))"

definition get_json :: "'h agent \<Rightarrow> string \<Rightarrow> string \<Rightarrow> 'h \<Rightarrow> ('h, io_error, http_response) sres" where
  "get_json agent url auth h =
     (case agent \<lparr>rq_method = ''GET'', rq_url = url,
                  rq_headers = [(''Authorization'', auth), (''Accept'', ''application/json'')], rq_body = None\<rparr> h of
        (resp, h1) \<Rightarrow> (ureq_response_to_http resp, h1))"

subsection \<open>Kernel handles\<close>

text \<open>The calls of the kernel and of the net service, with what they return; server and connection ids and threads
  are numbers. A thread handle that is dropped leaves its thread running.\<close>

record 'k kernel =
  kn_create_server :: "'k \<Rightarrow> ('k, string, nat) sres"
  kn_connect :: "nat \<Rightarrow> 'k \<Rightarrow> ('k, string, nat) sres"
  kn_subscribe :: "nat \<Rightarrow> 'k \<Rightarrow> ('k, string, unit) sres"
  kn_spawn :: "string \<Rightarrow> 'k \<Rightarrow> ('k, string, nat) sres"
  kn_unsubscribe :: "'k \<Rightarrow> 'k"
  kn_send_shutdown :: "nat \<Rightarrow> 'k \<Rightarrow> 'k"
  kn_disconnect :: "nat \<Rightarrow> 'k \<Rightarrow> 'k"
  kn_join :: "nat \<Rightarrow> 'k \<Rightarrow> 'k"
  kn_destroy_server :: "nat \<Rightarrow> 'k \<Rightarrow> 'k"

text \<open>The handles of a \<open>WifiObserver\<close>, all absent for a test-mode observer.\<close>

record observer_handles =
  oh_worker :: "nat option"
  oh_shutdown_cid :: "nat option"
  oh_worker_sid :: "nat option"
  oh_netmgr :: bool

definition prefixed_error :: "string \<Rightarrow> string \<Rightarrow> io_error" where
  "prefixed_error what e = IoError OtherKind (what @ '': '' @ e)"

text \<open>\<open>NetManager\<close> unsubscribes when it is dropped, so also on an early return.\<close>

definition observer_open :: "'k kernel \<Rightarrow> 'k \<Rightarrow> ('k, io_error, observer_handles) sres" where
  "observer_open K k =
     (case kn_create_server K k of
        (Inl e, k1) \<Rightarrow> (Inl (prefixed_error ''create_server'' e), k1)
      | (Inr sid, k1) \<Rightarrow>
          (case kn_connect K sid k1 of
             (Inl e, k2) \<Rightarrow> (Inl (prefixed_error ''connect to own sid'' e), k2)
           | (Inr cid, k2) \<Rightarrow>
               (case kn_subscribe K cid k2 of
                  (Inl e, k3) \<Rightarrow> (Inl (prefixed_error ''wifi_state_subscribe'' e), kn_unsubscribe K k3)
                | (Inr _, k3) \<Rightarrow>
                    (case kn_spawn K ''xsc-wifi-observer'' k3 of
                       (Inl e, k4) \<Rightarrow> (Inl (prefixed_error ''thread spawn'' e), kn_unsubscribe K k4)
                     | (Inr t, k4) \<Rightarrow>
                         (Inr \<lparr>oh_worker = Some t, oh_shutdown_cid = Some cid, oh_worker_sid = Some sid, oh_netmgr = True\<rparr>, k4)))))"

definition observer_for_test :: observer_handles where
  "observer_for_test = \<lparr>oh_worker = None, oh_shutdown_cid = None, oh_worker_sid = None, oh_netmgr = False\<rparr>"

definition on_some :: "('a \<Rightarrow> 'k \<Rightarrow> 'k) \<Rightarrow> 'a option \<Rightarrow> 'k \<Rightarrow> 'k" where
  "on_some f x k = (case x of None \<Rightarrow> k | Some y \<Rightarrow> f y k)"

definition observer_drop :: "'k kernel \<Rightarrow> observer_handles \<Rightarrow> 'k \<Rightarrow> 'k" where
  "observer_drop K h k =
     (let k1 = on_some (\<lambda>cid k. kn_disconnect K cid (kn_send_shutdown K cid k)) (oh_shutdown_cid h) k;
          k2 = on_some (kn_join K) (oh_worker h) k1;
          k3 = (if oh_netmgr h then kn_unsubscribe K k2 else k2)
      in on_some (kn_destroy_server K) (oh_worker_sid h) k3)"

text \<open>\<open>SignalWsServer::spawn\<close>: \<open>None\<close> is one of its two panics. The worker destroys its server itself.\<close>

definition ws_server_spawn :: "'k kernel \<Rightarrow> 'k \<Rightarrow> (('k, io_error, nat \<times> bool) sres) option" where
  "ws_server_spawn K k =
     (case kn_create_server K k of
        (Inl _, _) \<Rightarrow> None
      | (Inr sid, k1) \<Rightarrow>
          (case kn_connect K sid k1 of
             (Inl _, _) \<Rightarrow> None
           | (Inr cid, k2) \<Rightarrow>
               (case kn_spawn K ''sigchat-ws-server'' k2 of
                  (Inl e, k3) \<Rightarrow> Some (Inl (prefixed_error ''thread spawn'' e), k3)
                | (Inr _, k3) \<Rightarrow> Some (Inr (cid, False), k3))))"

definition main_ws_spawn :: "'k kernel \<Rightarrow> 'k \<Rightarrow> ('k, io_error, nat) sres" where
  "main_ws_spawn K k =
     (case kn_spawn K ''sigchat-main-ws'' k of (r, k1) \<Rightarrow> (map_err (prefixed_error ''main_ws spawn'') r, k1))"

definition main_ws_join :: "'k kernel \<Rightarrow> nat \<Rightarrow> 'k \<Rightarrow> 'k" where
  "main_ws_join K t k = kn_join K t k"

section \<open>Upgrade requests\<close>

text \<open>A network that remembers the upgrade requests it was given.\<close>

locale recorded_net =
  fixes N :: "('n, 'k, 'c) net_lib" and sent :: "'n \<Rightarrow> (string \<times> headers) list"
  assumes tcp_silent: "sent (snd (nl_tcp_connect N host port n)) = sent n"
    and tls_silent: "sent (snd (nl_tls_stream N host sock n)) = sent n"
    and key_silent: "sent (snd (nl_generate_key N n)) = sent n"
    and client_sends: "sent (snd (nl_client N url request st n)) = sent n @ [(url, request)]"
begin

text \<open>At most one request goes out, with the credentials given and no others.\<close>

lemma connect_sends:
  assumes "connect N url auth n = Some (r, n')"
  shows "sent n' = sent n \<or> (\<exists>request. sent n' = sent n @ [(nl_as_str N url, request)]
    \<and> map_of request ''Authorization'' = map_option (\<lambda>c. ''Basic '' @ c) auth)"
proof -
  obtain host where host: "nl_host_str N url = Some host" using assms by (auto simp: connect_def)
  obtain r1 n1 where tcp: "nl_tcp_connect N host 443 n = (r1, n1)" by (metis surj_pair)
  have s1: "sent n1 = sent n" using tcp_silent [of host 443 n] tcp by simp
  show ?thesis
  proof (cases r1)
    case (Inl e)
    with assms host tcp s1 show ?thesis by (auto simp: connect_def)
  next
    case r1: (Inr sock)
    obtain r2 n2 where tls: "nl_tls_stream N host sock n1 = (r2, n2)" by (metis surj_pair)
    have s2: "sent n2 = sent n" using tls_silent [of host sock n1] tls s1 by simp
    show ?thesis
    proof (cases r2)
      case (Inl e)
      with assms host tcp r1 tls s2 show ?thesis by (auto simp: connect_def)
    next
      case r2: (Inr st)
      obtain key n3 where key: "nl_generate_key N n2 = (key, n3)" by (metis surj_pair)
      have s3: "sent n3 = sent n" using key_silent [of n2] key s2 by simp
      show ?thesis
      proof (cases "build_ws_upgrade_request (nl_request_body N) (Some host) (nl_as_str N url) key auth")
        case (Inl e)
        with assms host tcp r1 tls r2 key s3 show ?thesis by (auto simp: connect_def)
      next
        case (Inr request)
        then have au: "map_of request ''Authorization'' = map_option (\<lambda>c. ''Basic '' @ c) auth"
          by (cases auth) (auto simp: build_ws_upgrade_request_def res_simps Let_def)
        obtain r4 n4 where cl: "nl_client N (nl_as_str N url) request st n3 = (r4, n4)" by (metis surj_pair)
        have "sent n4 = sent n @ [(nl_as_str N url, request)]"
          using client_sends [of "nl_as_str N url" request st n3] cl s3 by simp
        moreover have "n' = n4" using assms host tcp r1 tls r2 key Inr cl by (cases r4) (auto simp: connect_def)
        ultimately show ?thesis using au by blast
      qed
    qed
  qed
qed

lemma open_at_sends:
  assumes "open_at N path url n = Some (r, n')"
  shows "sent n' = sent n \<or> (\<exists>u request. sent n' = sent n @ [(u, request)] \<and> map_of request ''Authorization'' = None)"
proof -
  from assms obtain v where "connect N v None n = Some (r, n')" by (auto simp: open_at_def new_plain_def split: bind_splits)
  from connect_sends [OF this] show ?thesis by auto
qed

lemma new_message_sends:
  assumes "new_message N L host aci device password n = Some (r, n')"
  shows "sent n' = sent n \<or> (\<exists>u request. sent n' = sent n @ [(u, request)]
    \<and> map_of request ''Authorization'' = Some (''Basic '' @ ws_login L aci device password))"
proof (cases "nl_url_parse N (message_url host)")
  case (Inr url)
  with assms have "connect N url (Some (ws_login L aci device password)) n = Some (r, n')"
    by (simp add: new_message_def new_with_auth_def)
  from connect_sends [OF this] show ?thesis by auto
qed (use assms in \<open>auto simp: new_message_def\<close>)

end

text \<open>A network of requests only: every host answers.\<close>

definition log_net :: "((string \<times> headers) list, unit, unit) net_lib" where
  "log_net =
     \<lparr>nl_url_parse = (\<lambda>s. Inr (Url s)), nl_set_scheme = (\<lambda>_ u. Some u), nl_extend_path = (\<lambda>_ u. Some u),
      nl_host_str = (\<lambda>_. Some ''chat.signal.org''), nl_as_str = (\<lambda>u. case u of Url s \<Rightarrow> s),
      nl_tcp_connect = (\<lambda>_ _ n. (Inr (), n)), nl_tls_stream = (\<lambda>_ _ n. (Inr (), n)),
      nl_generate_key = (\<lambda>n. (''key'', n)), nl_request_body = (\<lambda>_ _. Inr ()),
      nl_client = (\<lambda>u h _ n. (Inr (), n @ [(u, h)]))\<rparr>"

interpretation logged: recorded_net log_net id
  by unfold_locales (simp_all add: log_net_def)

section \<open>The HTTP client under the send path\<close>

text \<open>The network of \<open>Send\<close> with the production client, a sleep and a clock.\<close>

definition ureq_net :: "'h agent \<Rightarrow> (nat \<Rightarrow> 'h \<Rightarrow> 'h) \<Rightarrow> ('h \<Rightarrow> nat) \<Rightarrow> 'h net" where
  "ureq_net agent sleep now = \<lparr>nt_put = put_json agent, nt_get = get_json agent, nt_sleep = sleep, nt_now = now\<rparr>"

text \<open>An agent that counts PUT requests; the bounds of \<open>Send_Bounds\<close> hold over it.\<close>

locale counted_agent =
  fixes agent :: "'h agent" and sleep :: "nat \<Rightarrow> 'h \<Rightarrow> 'h" and now :: "'h \<Rightarrow> nat" and puts slept :: "'h \<Rightarrow> nat"
  assumes agent_counts: "agent rq h = (r, h1) \<Longrightarrow> puts h1 = puts h + (if rq_method rq = ''PUT'' then 1 else 0) \<and> slept h1 = slept h"
    and agent_sleep: "puts (sleep n h) = puts h \<and> slept (sleep n h) = slept h + n"

sublocale counted_agent < http: counted_net "ureq_net agent sleep now" puts slept
  by unfold_locales
    (auto simp: ureq_net_def put_json_def get_json_def agent_sleep dest!: agent_counts split: prod.splits)

interpretation unavailable: counted_agent
    "\<lambda>rq (h :: nat \<times> nat). (UreqStatus 503 (Inr []), (fst h + (if rq_method rq = ''PUT'' then 1 else 0), snd h))"
    "\<lambda>n h. (fst h, snd h + n)" snd fst snd
  by unfold_locales auto

section \<open>Handles\<close>

text \<open>What is live in the kernel, and what the calls do to it.\<close>

record handle_table =
  ht_servers :: "nat set"
  ht_conns :: "nat set"
  ht_threads :: "nat set"
  ht_subscribed :: bool

locale kernel_table =
  fixes K :: "'k kernel" and tab :: "'k \<Rightarrow> handle_table"
  assumes create_ok: "kn_create_server K k = (Inr sid, k') \<Longrightarrow>
      sid \<notin> ht_servers (tab k) \<and> tab k' = (tab k)\<lparr>ht_servers := insert sid (ht_servers (tab k))\<rparr>"
    and create_err: "kn_create_server K k = (Inl e, k') \<Longrightarrow> tab k' = tab k"
    and connect_ok: "kn_connect K sid k = (Inr cid, k') \<Longrightarrow>
      cid \<notin> ht_conns (tab k) \<and> tab k' = (tab k)\<lparr>ht_conns := insert cid (ht_conns (tab k))\<rparr>"
    and connect_err: "kn_connect K sid k = (Inl e, k') \<Longrightarrow> tab k' = tab k"
    and subscribe_ok: "kn_subscribe K cid k = (Inr u, k') \<Longrightarrow> tab k' = (tab k)\<lparr>ht_subscribed := True\<rparr>"
    and subscribe_err: "kn_subscribe K cid k = (Inl e, k') \<Longrightarrow> tab k' = tab k"
    and spawn_ok: "kn_spawn K name k = (Inr t, k') \<Longrightarrow>
      t \<notin> ht_threads (tab k) \<and> tab k' = (tab k)\<lparr>ht_threads := insert t (ht_threads (tab k))\<rparr>"
    and spawn_err: "kn_spawn K name k = (Inl e, k') \<Longrightarrow> tab k' = tab k"
    and unsubscribe_tab: "tab (kn_unsubscribe K k) = (tab k)\<lparr>ht_subscribed := False\<rparr>"
    and shutdown_tab: "tab (kn_send_shutdown K cid k) = tab k"
    and disconnect_tab: "tab (kn_disconnect K cid k) = (tab k)\<lparr>ht_conns := ht_conns (tab k) - {cid}\<rparr>"
    and join_tab: "tab (kn_join K t k) = (tab k)\<lparr>ht_threads := ht_threads (tab k) - {t}\<rparr>"
    and destroy_tab: "tab (kn_destroy_server K sid k) = (tab k)\<lparr>ht_servers := ht_servers (tab k) - {sid}\<rparr>"
begin

lemmas release_tab = unsubscribe_tab shutdown_tab disconnect_tab join_tab destroy_tab

lemma drop_tab:
  "tab (observer_drop K h k) =
     \<lparr>ht_servers = ht_servers (tab k) - set_option (oh_worker_sid h), ht_conns = ht_conns (tab k) - set_option (oh_shutdown_cid h),
      ht_threads = ht_threads (tab k) - set_option (oh_worker h), ht_subscribed = (ht_subscribed (tab k) \<and> \<not> oh_netmgr h)\<rparr>"
  by (simp add: observer_drop_def on_some_def Let_def release_tab split: option.split)

lemma open_ok:
  assumes "observer_open K k = (Inr h, k')"
  shows "\<exists>sid cid t. h = \<lparr>oh_worker = Some t, oh_shutdown_cid = Some cid, oh_worker_sid = Some sid, oh_netmgr = True\<rparr>
    \<and> sid \<notin> ht_servers (tab k) \<and> cid \<notin> ht_conns (tab k) \<and> t \<notin> ht_threads (tab k)
    \<and> tab k' = \<lparr>ht_servers = insert sid (ht_servers (tab k)), ht_conns = insert cid (ht_conns (tab k)),
         ht_threads = insert t (ht_threads (tab k)), ht_subscribed = True\<rparr>"
proof -
  from assms obtain sid k1 cid k2 k3 t where st: "kn_create_server K k = (Inr sid, k1)" "kn_connect K sid k1 = (Inr cid, k2)"
    "kn_subscribe K cid k2 = (Inr (), k3)" "kn_spawn K ''xsc-wifi-observer'' k3 = (Inr t, k')"
    and h: "h = \<lparr>oh_worker = Some t, oh_shutdown_cid = Some cid, oh_worker_sid = Some sid, oh_netmgr = True\<rparr>"
    by (auto simp: observer_open_def split: prod.splits sum.splits)
  from create_ok [OF st(1)] connect_ok [OF st(2)] subscribe_ok [OF st(3)] spawn_ok [OF st(4)] h show ?thesis
    by (intro exI [of _ sid] exI [of _ cid] exI [of _ t]) simp
qed

lemma open_err:
  assumes "observer_open K k = (Inl e, k')" "\<not> ht_subscribed (tab k)"
  shows "ht_threads (tab k') = ht_threads (tab k) \<and> \<not> ht_subscribed (tab k')
    \<and> (case fst (kn_create_server K k) of
         Inl _ \<Rightarrow> ht_servers (tab k') = ht_servers (tab k)
       | Inr sid \<Rightarrow> sid \<notin> ht_servers (tab k) \<and> ht_servers (tab k') = insert sid (ht_servers (tab k)))"
proof -
  obtain r1 k1 where c1: "kn_create_server K k = (r1, k1)" by (metis surj_pair)
  show ?thesis
  proof (cases r1)
    case (Inl x)
    with assms c1 create_err [of k x k1] show ?thesis by (auto simp: observer_open_def)
  next
    case (Inr sid)
    note t1 = create_ok [OF c1 [unfolded Inr]]
    have "ht_threads (tab k') = ht_threads (tab k1) \<and> \<not> ht_subscribed (tab k') \<and> ht_servers (tab k') = ht_servers (tab k1)"
      using assms c1 Inr t1
      by (auto simp: observer_open_def unsubscribe_tab split: prod.splits sum.splits
          dest!: connect_err connect_ok subscribe_err subscribe_ok spawn_err)
    with t1 c1 Inr show ?thesis by auto
  qed
qed

end

text \<open>A kernel that keeps lists of what is live and gives out unused numbers; it may refuse threads.\<close>

record list_kernel =
  lk_servers :: "nat list"
  lk_conns :: "nat list"
  lk_threads :: "nat list"
  lk_subscribed :: bool
  lk_refuse :: bool

definition list_table :: "list_kernel \<Rightarrow> handle_table" where
  "list_table k = \<lparr>ht_servers = set (lk_servers k), ht_conns = set (lk_conns k), ht_threads = set (lk_threads k), ht_subscribed = lk_subscribed k\<rparr>"

definition unused :: "nat list \<Rightarrow> nat" where
  "unused xs = Suc (sum_list xs)"

lemma unused_notin [simp]: "unused xs \<notin> set xs"
  using member_le_sum_list [of "unused xs" xs] by (auto simp: unused_def)

definition list_kernel_lib :: "list_kernel kernel" where
  "list_kernel_lib =
     \<lparr>kn_create_server = (\<lambda>k. (Inr (unused (lk_servers k)), k\<lparr>lk_servers := unused (lk_servers k) # lk_servers k\<rparr>)),
      kn_connect = (\<lambda>_ k. (Inr (unused (lk_conns k)), k\<lparr>lk_conns := unused (lk_conns k) # lk_conns k\<rparr>)),
      kn_subscribe = (\<lambda>_ k. (Inr (), k\<lparr>lk_subscribed := True\<rparr>)),
      kn_spawn = (\<lambda>_ k. if lk_refuse k then (Inl ''OutOfMemory'', k)
        else (Inr (unused (lk_threads k)), k\<lparr>lk_threads := unused (lk_threads k) # lk_threads k\<rparr>)),
      kn_unsubscribe = (\<lambda>k. k\<lparr>lk_subscribed := False\<rparr>), kn_send_shutdown = (\<lambda>_ k. k),
      kn_disconnect = (\<lambda>c k. k\<lparr>lk_conns := filter (\<lambda>x. x \<noteq> c) (lk_conns k)\<rparr>),
      kn_join = (\<lambda>t k. k\<lparr>lk_threads := filter (\<lambda>x. x \<noteq> t) (lk_threads k)\<rparr>),
      kn_destroy_server = (\<lambda>s k. k\<lparr>lk_servers := filter (\<lambda>x. x \<noteq> s) (lk_servers k)\<rparr>)\<rparr>"

interpretation listed: kernel_table list_kernel_lib list_table
  by unfold_locales (auto simp: list_kernel_lib_def list_table_def split: if_splits)

section \<open>Properties\<close>

text \<open>C24. Credentials go where they belong: opening the message socket sends at most one upgrade request, and that
  carries the account's login; opening a provisioning or registration socket sends none with an \<open>Authorization\<close>
  header.\<close>

theorem upgrade_credentials:
  assumes "recorded_net N sent"
  shows "(new_message N L host aci device password n = Some (r, n') \<longrightarrow>
      sent n' = sent n \<or> (\<exists>u request. sent n' = sent n @ [(u, request)]
        \<and> map_of request ''Authorization'' = Some (''Basic '' @ ws_login L aci device password)))
    \<and> (open_provision N url n = Some (r, n') \<or> new_register N url n = Some (r, n') \<longrightarrow>
      sent n' = sent n \<or> (\<exists>u request. sent n' = sent n @ [(u, request)] \<and> map_of request ''Authorization'' = None))"
  using recorded_net.new_message_sends [OF assms, of L host aci device password n r n']
    recorded_net.open_at_sends [OF assms, of PROVISIONING_PATH url n r n']
    recorded_net.open_at_sends [OF assms, of REGISTRATION_PATH url n r n']
  by (auto simp: open_provision_def new_register_def)

theorem upgrade_credentials_witness:
  "\<exists>u request. snd (the (new_message log_net token_libsignal ''h'' ''aci'' 2 ''pw'' [])) = [(u, request)]
     \<and> map_of request ''Authorization'' = Some (''Basic '' @ ws_login token_libsignal ''aci'' 2 ''pw'')"
proof -
  obtain r n' where st: "new_message log_net token_libsignal ''h'' ''aci'' 2 ''pw'' [] = Some (r, n')" "n' \<noteq> []"
    by (simp add: new_message_def new_with_auth_def connect_def log_net_def message_url_def build_ws_upgrade_request_def Let_def)
  with upgrade_credentials [OF logged.recorded_net_axioms, of token_libsignal "''h''" "''aci''" 2 "''pw''" "[]" r n'] show ?thesis by auto
qed

text \<open>C25. The WiFi observer gives back what it took: after a successful \<open>new\<close>, \<open>drop\<close> leaves the kernel's servers,
  connections and threads and the subscription as they were before. A failed \<open>new\<close> does not: once the server was
  created, every error path leaves it behind.\<close>

theorem observer_handles_balanced:
  assumes "kernel_table K tab" and "\<not> ht_subscribed (tab k)"
  shows "(observer_open K k = (Inr h, k') \<longrightarrow> tab (observer_drop K h k') = tab k)
    \<and> (observer_open K k = (Inl e, k') \<longrightarrow>
        (case fst (kn_create_server K k) of
           Inl _ \<Rightarrow> ht_servers (tab k') = ht_servers (tab k)
         | Inr sid \<Rightarrow> sid \<notin> ht_servers (tab k) \<and> ht_servers (tab k') = insert sid (ht_servers (tab k))))"
proof -
  have "tab (observer_drop K h k') = tab k" if "observer_open K k = (Inr h, k')"
    using kernel_table.open_ok [OF assms(1) that] assms(2) kernel_table.drop_tab [OF assms(1), of h k'] by auto
  with kernel_table.open_err [OF assms(1) _ assms(2)] show ?thesis by blast
qed

theorem observer_handles_balanced_witness:
  "\<exists>h k'. observer_open list_kernel_lib \<lparr>lk_servers = [7], lk_conns = [], lk_threads = [], lk_subscribed = False, lk_refuse = False\<rparr> = (Inr h, k')
     \<and> ht_servers (list_table (observer_drop list_kernel_lib h k')) = {7}
   \<and> (\<exists>e k''. observer_open list_kernel_lib \<lparr>lk_servers = [7], lk_conns = [], lk_threads = [], lk_subscribed = False, lk_refuse = True\<rparr> = (Inl e, k'')
     \<and> ht_servers (list_table k'') \<noteq> {7})"
proof -
  let ?k = "\<lambda>b. \<lparr>lk_servers = [7], lk_conns = [], lk_threads = [], lk_subscribed = False, lk_refuse = b\<rparr>"
  have sub: "\<not> ht_subscribed (list_table (?k b))" for b by (simp add: list_table_def)
  note bal = observer_handles_balanced [OF listed.kernel_table_axioms sub]
  obtain h k' where ok: "observer_open list_kernel_lib (?k False) = (Inr h, k')"
    by (simp add: observer_open_def list_kernel_lib_def)
  obtain e k'' where err: "observer_open list_kernel_lib (?k True) = (Inl e, k'')"
    by (simp add: observer_open_def list_kernel_lib_def)
  have "list_table (observer_drop list_kernel_lib h k') = list_table (?k False)" using bal [of False h k'] ok by blast
  moreover have "fst (kn_create_server list_kernel_lib (?k True)) = Inr 8" by (simp add: list_kernel_lib_def unused_def)
  then have "ht_servers (list_table k'') = insert 8 {7}" using bal [of True h k'' e] err by (simp add: list_table_def)
  ultimately show ?thesis using ok err by (intro exI [of _ h] exI [of _ k']) (simp add: list_table_def)
qed

end
