(* ===== verification/Flap_Recovery.thy ===== *)
theory Flap_Recovery
  imports Wifi
begin

text \<open>
  \<open>src/tests/wifi_flap_recovery.rs\<close> with the test-mode observer of \<open>src/src/manager/wifi_observer.rs\<close>: an operation that
  polls its cancellation handle between steps, on one thread, while another thread injects link states. A
  schedule is the list of the turns of the two threads; the theorems hold for every schedule, where a run
  of the test sees one.
\<close>

section \<open>Definitions\<close>

definition inject_for_test :: "'l \<Rightarrow> 'l \<Rightarrow> nat \<Rightarrow> 'l observer \<times> signals \<Rightarrow> 'l observer \<times> signals" where
  "inject_for_test connected link_state now w = update_state connected \<lparr>wf_link_state = link_state, wf_last_change = now\<rparr> w"

text \<open>The loop of \<open>mock_long_op\<close>, and of the operation in the last test, which counts its steps: the index of the
  range, the counter, and how the loop ended (the index at which it saw the cancellation, or all steps).\<close>

record long_op =
  op_index :: nat
  op_counter :: nat
  op_result :: "(nat + unit) option"

definition op_start :: long_op where
  "op_start = \<lparr>op_index = 0, op_counter = 0, op_result = None\<rparr>"

definition op_turn :: "nat \<Rightarrow> bool \<Rightarrow> long_op \<Rightarrow> long_op" where
  "op_turn work_steps cancelled op =
     (if op_result op \<noteq> None then op
      else if op_index op < work_steps then
        (if cancelled then op\<lparr>op_result := Some (Inl (op_index op))\<rparr>
         else op\<lparr>op_counter := op_counter op + 1, op_index := op_index op + 1\<rparr>)
      else op\<lparr>op_result := Some (Inr ())\<rparr>)"

text \<open>What \<open>mock_long_op\<close> returns; \<open>None\<close> while it runs.\<close>

definition mock_long_op :: "u32 \<Rightarrow> long_op \<Rightarrow> (string + u32) option" where
  "mock_long_op value op = map_option (\<lambda>r. case r of Inl _ \<Rightarrow> Inl ''cancelled'' | Inr _ \<Rightarrow> Inr value) (op_result op)"

datatype 'l sched = OpTurn | Inject 'l nat

fun race_turn :: "'l \<Rightarrow> nat \<Rightarrow> nat \<Rightarrow> 'l sched \<Rightarrow> ('l observer \<times> signals) \<times> long_op \<Rightarrow> ('l observer \<times> signals) \<times> long_op" where
  "race_turn connected token work_steps OpTurn (w, op) = (w, op_turn work_steps (is_cancelled token (snd w)) op)"
| "race_turn connected token work_steps (Inject l now) (w, op) = (inject_for_test connected l now w, op)"

text \<open>\<open>one_attempt\<close>: a fresh token, a watcher on it, and the operation, over a schedule. The watcher of the tests
  only cancels the token; \<open>server\<close> is a worker that is not running.\<close>

definition one_attempt ::
  "'l \<Rightarrow> nat \<Rightarrow> nat \<Rightarrow> nat \<Rightarrow> 'l sched list \<Rightarrow> 'l observer \<times> signals \<Rightarrow> ('l observer \<times> signals) \<times> long_op" where
  "one_attempt connected token server work_steps ts w =
     fold (race_turn connected token work_steps) ts
       ((flap_watcher_new token server (fst w), token_new token (snd w)), op_start)"

section \<open>Schedules\<close>

fun injects :: "'l sched list \<Rightarrow> ('l \<times> nat) list" where
  "injects [] = []"
| "injects (OpTurn # ts) = injects ts"
| "injects (Inject l t # ts) = (l, t) # injects ts"

fun polls :: "'l sched list \<Rightarrow> nat" where
  "polls [] = 0"
| "polls (OpTurn # ts) = Suc (polls ts)"
| "polls (Inject l t # ts) = polls ts"

lemma injects_append [simp]: "injects (xs @ ys) = injects xs @ injects ys"
  by (induction xs rule: injects.induct) simp_all

lemma polls_append [simp]: "polls (xs @ ys) = polls xs + polls ys"
  by (induction xs rule: polls.induct) simp_all

lemma apply_updates_append: "apply_updates c (xs @ ys) w = apply_updates c ys (apply_updates c xs w)"
  by (induction c xs w rule: apply_updates.induct) simp_all

lemma race_world: "fst (fold (race_turn c k n) ts (w, op)) = apply_updates c (injects ts) w"
  by (induction ts arbitrary: w op rule: injects.induct) (simp_all add: inject_for_test_def)

lemma flaps_append: "flaps c p xs \<le> flaps c p (xs @ ys)"
  by (induction c p xs rule: flaps.induct) simp_all

text \<open>The polls that see a flap: a poll before the last step, with a flap injected before it.\<close>

definition seen :: "'l \<Rightarrow> 'l \<Rightarrow> nat \<Rightarrow> 'l sched list \<Rightarrow> bool" where
  "seen c p n ts \<longleftrightarrow> (\<exists>pre post. ts = pre @ OpTurn # post \<and> polls pre < n \<and> 0 < flaps c p (map fst (injects pre)))"

lemma seen_append: "seen c p n ts \<Longrightarrow> seen c p n (ts @ us)"
  unfolding seen_def by (metis append.assoc append_Cons)

lemma seen_snoc_inject [simp]: "seen c p n (ts @ [Inject l t]) \<longleftrightarrow> seen c p n ts"
proof
  assume "seen c p n (ts @ [Inject l t])"
  then obtain pre post where *: "ts @ [Inject l t] = pre @ OpTurn # post" "polls pre < n" "0 < flaps c p (map fst (injects pre))"
    by (auto simp: seen_def)
  then have "post \<noteq> []" by auto
  then obtain post' where "post = post' @ [Inject l t]" using *(1) by (cases post rule: rev_cases) auto
  with * show "seen c p n ts" by (auto simp: seen_def)
qed (rule seen_append)

lemma seen_snoc_op: "seen c p n (ts @ [OpTurn]) \<longleftrightarrow> seen c p n ts \<or> (polls ts < n \<and> 0 < flaps c p (map fst (injects ts)))"
proof
  assume "seen c p n (ts @ [OpTurn])"
  then obtain pre post where *: "ts @ [OpTurn] = pre @ OpTurn # post" "polls pre < n" "0 < flaps c p (map fst (injects pre))"
    by (auto simp: seen_def)
  show "seen c p n ts \<or> (polls ts < n \<and> 0 < flaps c p (map fst (injects ts)))"
  proof (cases post rule: rev_cases)
    case (snoc post' x)
    with * show ?thesis by (auto simp: seen_def)
  qed (use * in auto)
next
  assume "seen c p n ts \<or> (polls ts < n \<and> 0 < flaps c p (map fst (injects ts)))"
  then show "seen c p n (ts @ [OpTurn])"
    using seen_append [of c p n ts "[OpTurn]"] by (auto simp: seen_def)
qed

text \<open>Where the operation stands after \<open>k\<close> polls, \<open>s\<close> saying whether one of them saw a flap; one more turn.\<close>

definition op_at :: "nat \<Rightarrow> bool \<Rightarrow> nat \<Rightarrow> long_op \<Rightarrow> bool" where
  "op_at n s k op \<longleftrightarrow> op_counter op = op_index op
     \<and> (if s then op_result op = Some (Inl (op_index op)) \<and> op_index op < n
        else op_result op = (if n < k then Some (Inr ()) else None) \<and> op_index op = min k n)"

lemma op_at_turn: "op_at n s k op \<Longrightarrow> op_at n (s \<or> (k < n \<and> f)) (Suc k) (op_turn n f op)"
  by (cases s; cases "k < n"; cases f; cases "n < k") (simp_all add: op_at_def op_turn_def)

text \<open>After any schedule.\<close>

lemma race_op:
  assumes "elsewhere t v ls" "sorted (wf_last_change (ob_state ob) # map snd (injects ts))"
    and "ob_listeners ob = ls @ [\<lparr>fl_last = p, fl_token = t, fl_server = v\<rparr>]" "\<not> sg_cancelled sg t"
  shows "op_at n (seen c p n ts) (polls ts) (snd (fold (race_turn c t n) ts ((ob, sg), op_start)))"
  using assms(2)
proof (induction ts rule: rev_induct)
  case Nil
  then show ?case by (simp add: op_start_def seen_def op_at_def)
next
  case (snoc x ts)
  obtain ob' sg' where w: "apply_updates c (injects ts) (ob, sg) = (ob', sg')" by (metis surj_pair)
  have srt: "sorted (wf_last_change (ob_state ob) # map snd (injects ts))"
    using snoc.prems by (auto simp: sorted_append)
  have canc: "is_cancelled t sg' \<longleftrightarrow> 0 < flaps c p (map fst (injects ts))"
    using updates_flaps [OF assms(1) srt assms(3) w] assms(4) by (simp add: is_cancelled_def)
  obtain op where st: "fold (race_turn c t n) ts ((ob, sg), op_start) = ((ob', sg'), op)"
    using race_world [of c t n ts "(ob, sg)" op_start] w by (metis prod.collapse)
  then have ih: "op_at n (seen c p n ts) (polls ts) op" using snoc.IH [OF srt] by simp
  show ?case
  proof (cases x)
    case OpTurn
    then have "fold (race_turn c t n) (ts @ [x]) ((ob, sg), op_start) = ((ob', sg'), op_turn n (is_cancelled t sg') op)"
      by (simp add: st)
    with op_at_turn [OF ih, of "is_cancelled t sg'"] OpTurn show ?thesis by (simp add: seen_snoc_op canc)
  next
    case (Inject l k)
    then have "snd (fold (race_turn c t n) (ts @ [x]) ((ob, sg), op_start)) = op"
      by (simp add: st)
    with ih Inject show ?thesis by simp
  qed
qed

lemma attempt_op:
  assumes "elsewhere t v (ob_listeners ob)" "sorted (wf_last_change (ob_state ob) # map snd (injects ts))"
  shows "op_at n (seen c (wf_link_state (ob_state ob)) n ts) (polls ts) (snd (one_attempt c t v n ts (ob, sg)))"
proof -
  have "ob_listeners (flap_watcher_new t v ob) = ob_listeners ob @ [\<lparr>fl_last = wf_link_state (ob_state ob), fl_token = t, fl_server = v\<rparr>]"
    "ob_state (flap_watcher_new t v ob) = ob_state ob" by (simp_all add: flap_watcher_new_def)
  from race_op [OF assms(1) _ this(1), of ts "token_new t sg" n c] this(2) assms(2) show ?thesis
    by (simp add: one_attempt_def token_new_def)
qed

section \<open>Properties\<close>

text \<open>C26. A flap cancels a polling operation, and nothing else does: for every schedule of the operation and the link
  updates, the operation returns \<open>cancelled\<close> exactly when one of its polls comes after the link has left
  \<open>Connected\<close>, it returns its value exactly when it had the turns for all its steps and no poll saw a flap, and
  the steps it has counted are the steps it has completed (no step is torn by the cancellation).\<close>

theorem polling_op_cancelled_iff:
  assumes "elsewhere t v (ob_listeners ob)" and "sorted (wf_last_change (ob_state ob) # map snd (injects ts))"
    and "one_attempt c t v n ts (ob, sg) = (w', op)"
  shows "(mock_long_op x op = Some (Inl ''cancelled'') \<longleftrightarrow>
        (\<exists>pre post. ts = pre @ OpTurn # post \<and> polls pre < n \<and> 0 < flaps c (wf_link_state (ob_state ob)) (map fst (injects pre))))
    \<and> (mock_long_op x op = Some (Inr x) \<longleftrightarrow>
        n < polls ts \<and> \<not> (\<exists>pre post. ts = pre @ OpTurn # post \<and> polls pre < n \<and> 0 < flaps c (wf_link_state (ob_state ob)) (map fst (injects pre))))
    \<and> op_counter op = op_index op
    \<and> (\<forall>i. op_result op = Some (Inl i) \<longrightarrow> op_counter op = i \<and> i < n)"
proof -
  have op: "op = snd (one_attempt c t v n ts (ob, sg))" using assms(3) by simp
  from attempt_op [OF assms(1,2), of n c sg, folded op] show ?thesis
    unfolding seen_def [symmetric] by (auto simp: op_at_def mock_long_op_def split: if_splits)
qed

theorem polling_op_cancelled_iff_witness:
  "mock_long_op 42 (snd (one_attempt True 0 5 100 [OpTurn, OpTurn, Inject False 2, OpTurn]
       (observer_new True 1, \<lparr>sg_cancelled = (\<lambda>_. False), sg_flap_signaled = (\<lambda>_. False), sg_sent = []\<rparr>))) = Some (Inl ''cancelled'')"
proof -
  let ?ts = "[OpTurn, OpTurn, Inject False 2, OpTurn]" and ?ob = "observer_new True 1 :: bool observer"
  have els: "elsewhere 0 5 (ob_listeners ?ob)" and srt: "sorted (wf_last_change (ob_state ?ob) # map snd (injects ?ts))"
    by (simp_all add: elsewhere_def observer_new_def)
  have "?ts = [OpTurn, OpTurn, Inject False 2] @ OpTurn # [] \<and> polls [OpTurn, OpTurn, Inject False 2] < 100
    \<and> 0 < flaps True (wf_link_state (ob_state ?ob)) (map fst (injects [OpTurn, OpTurn, Inject False 2]))"
    by (simp add: observer_new_def)
  with polling_op_cancelled_iff [OF els srt surjective_pairing] show ?thesis by blast
qed

text \<open>The retry of the third test: after a flap and a reconnect, a second attempt with a fresh token on the same
  observer completes on every schedule without a further flap.\<close>

theorem retry_completes:
  assumes "ob_listeners ob = []" "0 < flaps c (wf_link_state (ob_state ob)) (map fst (injects ts1))"
    and "polls ts1 < n1" "t1 \<noteq> t2" "v1 \<noteq> v2"
    and "sorted (wf_last_change (ob_state ob) # map snd (injects ts1))"
    and "one_attempt c t1 v1 n1 (ts1 @ [OpTurn]) (ob, sg) = (w1, op1)"
    and "inject_for_test c c now w1 = (ob2, sg2)"
    and "injects ts2 = []" "n2 < polls ts2"
    and "one_attempt c t2 v2 n2 ts2 (ob2, sg2) = (w2, op2)"
  shows "mock_long_op x1 op1 = Some (Inl ''cancelled'') \<and> mock_long_op x2 op2 = Some (Inr x2)"
proof
  have els1: "elsewhere t1 v1 (ob_listeners ob)" by (simp add: elsewhere_def assms(1))
  have "seen c (wf_link_state (ob_state ob)) n1 (ts1 @ [OpTurn])" using assms(2,3) by (auto simp: seen_def)
  moreover have op1: "op1 = snd (one_attempt c t1 v1 n1 (ts1 @ [OpTurn]) (ob, sg))" using assms(7) by simp
  ultimately show "mock_long_op x1 op1 = Some (Inl ''cancelled'')"
    using attempt_op [OF els1, of "ts1 @ [OpTurn]" n1 c sg, folded op1] assms(6) by (simp add: mock_long_op_def op_at_def)
  have w1: "w1 = apply_updates c (injects ts1) (flap_watcher_new t1 v1 ob, token_new t1 sg)"
    using race_world [of c t1 n1 "ts1 @ [OpTurn]" "(flap_watcher_new t1 v1 ob, token_new t1 sg)" op_start] assms(7)
    by (simp add: one_attempt_def)
  have mine: "elsewhere t2 v2 (ob_listeners (flap_watcher_new t1 v1 ob))"
    using assms(1,4,5) by (simp add: elsewhere_def flap_watcher_new_def)
  have keep: "elsewhere t2 v2 (ob_listeners (fst w)) \<Longrightarrow> elsewhere t2 v2 (ob_listeners (fst (update_state c new w)))" for w new
    by (cases w) (auto simp: update_state_def dest: notify_elsewhere split: prod.splits)
  have "elsewhere t2 v2 (ob_listeners (fst w)) \<Longrightarrow> elsewhere t2 v2 (ob_listeners (fst (apply_updates c us w)))" for us w
  proof (induction us arbitrary: w)
    case (Cons u us)
    obtain l k where "u = (l, k)" by (cases u)
    with Cons.IH keep Cons.prems show ?case by simp
  qed simp
  from this [of "(flap_watcher_new t1 v1 ob, token_new t1 sg)" "injects ts1"] mine w1 have "elsewhere t2 v2 (ob_listeners (fst w1))" by simp
  then have els2: "elsewhere t2 v2 (ob_listeners ob2)"
    using keep [of w1 "\<lparr>wf_link_state = c, wf_last_change = now\<rparr>"] assms(8) by (simp add: inject_for_test_def)
  have op2: "op2 = snd (one_attempt c t2 v2 n2 ts2 (ob2, sg2))" using assms(11) by simp
  have "\<not> seen c p n2 ts2" for p
  proof
    assume "seen c p n2 ts2"
    then obtain pre where "injects pre = []" "0 < flaps c p (map fst (injects pre))" using assms(9) by (auto simp: seen_def)
    then show False by simp
  qed
  with attempt_op [OF els2, of ts2 n2 c sg2, folded op2] assms(9,10) show "mock_long_op x2 op2 = Some (Inr x2)"
    by (simp add: mock_long_op_def op_at_def)
qed

end
