(* ===== verification/Observer.thy ===== *)
theory Observer
  imports Flap_Recovery
begin

text \<open>
  \<open>src/src/manager/wifi_observer.rs\<close> and \<open>src/src/manager/cancellation.rs\<close> with listeners as the code has them: closures in a vector,
  each \<open>FlapWatcher\<close> closure with a mutex cell of its own for the last link state. \<open>Wifi\<close> keeps the listeners of the program as
  records instead; the refinement theorem shows that nothing is lost by that. The unit tests of the two files
  and the test of repeated flaps in \<open>src/tests/wifi_flap_recovery.rs\<close>, which register other closures, are stated here.
\<close>

section \<open>Definitions\<close>

text \<open>What closures share: the mutex cells, the flags, and the counters of the tests.\<close>

record 'l shared =
  sh_cells :: "nat \<Rightarrow> 'l"
  sh_next :: nat
  sh_signals :: signals
  sh_counts :: "nat \<Rightarrow> nat"

type_synonym 'l closure = "'l wifi_state \<Rightarrow> 'l shared \<Rightarrow> 'l shared"

record 'l hub =
  hb_state :: "'l wifi_state"
  hb_listeners :: "'l closure list"
  hb_wakeups :: nat

definition hub_for_test :: "'l \<Rightarrow> nat \<Rightarrow> 'l hub" where
  "hub_for_test unknown now = \<lparr>hb_state = \<lparr>wf_link_state = unknown, wf_last_change = now\<rparr>, hb_listeners = [], hb_wakeups = 0\<rparr>"

definition current :: "'l hub \<Rightarrow> 'l wifi_state" where
  "current ob = hb_state ob"

definition hub_connected :: "'l \<Rightarrow> 'l hub \<Rightarrow> bool" where
  "hub_connected connected ob \<longleftrightarrow> wf_link_state (hb_state ob) = connected"

definition subscribe :: "'l closure \<Rightarrow> 'l hub \<Rightarrow> 'l hub" where
  "subscribe f ob = ob\<lparr>hb_listeners := hb_listeners ob @ [f]\<rparr>"

definition hub_update :: "'l wifi_state \<Rightarrow> 'l hub \<times> 'l shared \<Rightarrow> 'l hub \<times> 'l shared" where
  "hub_update new_state w =
     (case w of (ob, sh) \<Rightarrow>
        if wf_last_change new_state < wf_last_change (hb_state ob) then w
        else (ob\<lparr>hb_state := new_state, hb_wakeups := hb_wakeups ob + 1\<rparr>, fold (\<lambda>f. f new_state) (hb_listeners ob) sh))"

definition hub_inject :: "'l \<Rightarrow> nat \<Rightarrow> 'l hub \<times> 'l shared \<Rightarrow> 'l hub \<times> 'l shared" where
  "hub_inject link_state now w = hub_update \<lparr>wf_link_state = link_state, wf_last_change = now\<rparr> w"

definition watch_closure :: "'l \<Rightarrow> nat \<Rightarrow> ('l shared \<Rightarrow> 'l shared) \<Rightarrow> 'l closure" where
  "watch_closure connected cell callback new sh =
     (let was = sh_cells sh cell;
          sh1 = sh\<lparr>sh_cells := (sh_cells sh)(cell := wf_link_state new)\<rparr>
      in if was = connected \<and> wf_link_state new \<noteq> connected then callback sh1 else sh1)"

definition watcher_new :: "'l \<Rightarrow> ('l shared \<Rightarrow> 'l shared) \<Rightarrow> 'l hub \<times> 'l shared \<Rightarrow> 'l hub \<times> 'l shared" where
  "watcher_new connected callback w =
     (case w of (ob, sh) \<Rightarrow>
        let cell = sh_next sh in
        (subscribe (watch_closure connected cell callback) ob,
         sh\<lparr>sh_cells := (sh_cells sh)(cell := wf_link_state (current ob)), sh_next := cell + 1\<rparr>))"

definition on_signals :: "(signals \<Rightarrow> signals) \<Rightarrow> 'l shared \<Rightarrow> 'l shared" where
  "on_signals f sh = sh\<lparr>sh_signals := f (sh_signals sh)\<rparr>"

definition watcher_for_handle :: "'l \<Rightarrow> nat \<Rightarrow> 'l hub \<times> 'l shared \<Rightarrow> 'l hub \<times> 'l shared" where
  "watcher_for_handle connected token w = watcher_new connected (on_signals (token_cancel token)) w"

text \<open>The callback of the manager: cancel the token, then signal the worker.\<close>

definition manager_callback :: "nat \<Rightarrow> nat \<Rightarrow> 'l shared \<Rightarrow> 'l shared" where
  "manager_callback token server = on_signals (\<lambda>sg. send_flap server (token_cancel token sg))"

definition shared_new :: "'l \<Rightarrow> 'l shared" where
  "shared_new link =
     \<lparr>sh_cells = (\<lambda>_. link), sh_next = 0, sh_signals = \<lparr>sg_cancelled = (\<lambda>_. False), sg_flap_signaled = (\<lambda>_. False), sg_sent = []\<rparr>,
      sh_counts = (\<lambda>_. 0)\<rparr>"

subsection \<open>Tests\<close>

text \<open>The tests inject a state per clock tick. \<open>watched\<close> is their common start: a connected observer with a watcher on
  token 0.\<close>

fun inject_all :: "'l list \<Rightarrow> nat \<Rightarrow> 'l hub \<times> 'l shared \<Rightarrow> 'l hub \<times> 'l shared" where
  "inject_all [] now w = w"
| "inject_all (l # ls) now w = inject_all ls (now + 1) (hub_inject l now w)"

definition watched :: "'l \<Rightarrow> 'l list \<Rightarrow> 'l \<Rightarrow> 'l hub \<times> 'l shared" where
  "watched unknown before connected = watcher_for_handle connected 0 (inject_all before 1 (hub_for_test unknown 0, shared_new unknown))"

definition cancelled_after :: "'l list \<Rightarrow> nat \<Rightarrow> 'l hub \<times> 'l shared \<Rightarrow> bool" where
  "cancelled_after ls t w = is_cancelled t (sh_signals (snd (inject_all ls 10 w)))"

definition flap_watcher_cancels_on :: "'l \<Rightarrow> 'l \<Rightarrow> 'l \<Rightarrow> bool" where
  "flap_watcher_cancels_on unknown connected terminal \<longleftrightarrow>
     \<not> cancelled_after [] 0 (watched unknown [connected] connected) \<and> cancelled_after [terminal] 0 (watched unknown [connected] connected)"

definition flap_watcher_does_not_cancel_on_repeated_connected :: "'l \<Rightarrow> 'l \<Rightarrow> bool" where
  "flap_watcher_does_not_cancel_on_repeated_connected unknown connected \<longleftrightarrow>
     \<not> cancelled_after [connected, connected] 0 (watched unknown [connected] connected)"

definition flap_watcher_does_not_cancel_when_starting_disconnected :: "'l \<Rightarrow> 'l \<Rightarrow> 'l \<Rightarrow> bool" where
  "flap_watcher_does_not_cancel_when_starting_disconnected unknown connecting connected \<longleftrightarrow>
     \<not> cancelled_after [connecting, connected] 0 (watched unknown [] connected)"

definition count_up :: "nat \<Rightarrow> 'l shared \<Rightarrow> 'l shared" where
  "count_up k sh = sh\<lparr>sh_counts := (sh_counts sh)(k := sh_counts sh k + 1)\<rparr>"

definition flap_watcher_callback_form :: "'l \<Rightarrow> 'l \<Rightarrow> 'l \<Rightarrow> 'l \<Rightarrow> bool" where
  "flap_watcher_callback_form unknown connecting connected disconnected \<longleftrightarrow>
     (let w = watcher_new connected (count_up 0) (hub_inject connected 1 (hub_for_test unknown 0, shared_new unknown));
          w1 = hub_inject disconnected 2 w;
          w2 = inject_all [connecting, disconnected] 3 w1
      in sh_counts (snd w1) 0 = 1 \<and> sh_counts (snd w2) 0 = 1)"

definition flap_watcher_re_arms_after_reconnect :: "'l \<Rightarrow> 'l \<Rightarrow> 'l \<Rightarrow> bool" where
  "flap_watcher_re_arms_after_reconnect unknown connected disconnected \<longleftrightarrow>
     (let w = hub_inject disconnected 10 (watched unknown [connected] connected);
          w1 = watcher_for_handle connected 1 (hub_inject connected 11 w);
          w2 = hub_inject disconnected 12 w1
      in is_cancelled 0 (sh_signals (snd w)) \<and> is_cancelled 1 (sh_signals (snd w2)))"

definition multiple_flaps_only_cancel_once_per_token :: "'l \<Rightarrow> 'l \<Rightarrow> 'l \<Rightarrow> bool" where
  "multiple_flaps_only_cancel_once_per_token unknown connected disconnected \<longleftrightarrow>
     (let w = watcher_new connected (on_signals (token_cancel 0) \<circ> count_up 0) (hub_inject connected 1 (hub_for_test unknown 0, shared_new unknown));
          w1 = hub_inject disconnected 2 w;
          w2 = inject_all [connected, disconnected] 3 w1
      in is_cancelled 0 (sh_signals (snd w1)) \<and> sh_counts (snd w1) 0 = 1
       \<and> is_cancelled 0 (sh_signals (snd w2)) \<and> sh_counts (snd w2) 0 = 2)"

definition current_returns_most_recent_state :: "'l \<Rightarrow> 'l list \<Rightarrow> bool" where
  "current_returns_most_recent_state unknown ls \<longleftrightarrow>
     wf_link_state (current (hub_for_test unknown 0)) = unknown
     \<and> (\<forall>n \<in> set [0..<length ls].
        wf_link_state (current (fst (inject_all (take (Suc n) ls) 1 (hub_for_test unknown 0, shared_new unknown)))) = ls ! n)"

definition is_connected_matches_link_state_predicate :: "'l \<Rightarrow> 'l list \<Rightarrow> 'l \<Rightarrow> bool" where
  "is_connected_matches_link_state_predicate unknown others connected \<longleftrightarrow>
     (\<forall>n \<in> set [0..<length others].
        \<not> hub_connected connected (fst (inject_all (take (Suc n) others) 1 (hub_for_test unknown 0, shared_new unknown))))
     \<and> hub_connected connected (fst (inject_all (others @ [connected]) 1 (hub_for_test unknown 0, shared_new unknown)))"

definition subscribe_listener_fires_on_each_update :: "'l \<Rightarrow> 'l list \<Rightarrow> bool" where
  "subscribe_listener_fires_on_each_update unknown ls \<longleftrightarrow>
     sh_counts (snd (inject_all ls 1 (subscribe (\<lambda>_. count_up 0) (hub_for_test unknown 0), shared_new unknown))) 0 = length ls"

section \<open>Refinement\<close>

text \<open>What a run does: watchers of the manager are registered, broadcasts come in.\<close>

datatype 'l watch_event = Watch nat nat | Broadcast 'l nat

fun hub_event :: "'l \<Rightarrow> 'l watch_event \<Rightarrow> 'l hub \<times> 'l shared \<Rightarrow> 'l hub \<times> 'l shared" where
  "hub_event connected (Watch token server) w = watcher_new connected (manager_callback token server) w"
| "hub_event connected (Broadcast link now) w = hub_update \<lparr>wf_link_state = link, wf_last_change = now\<rparr> w"

fun observer_event :: "'l \<Rightarrow> 'l watch_event \<Rightarrow> 'l observer \<times> signals \<Rightarrow> 'l observer \<times> signals" where
  "observer_event connected (Watch token server) w = (flap_watcher_new token server (fst w), snd w)"
| "observer_event connected (Broadcast link now) w = update_state connected \<lparr>wf_link_state = link, wf_last_change = now\<rparr> w"

text \<open>The closure of the watcher with cell \<open>i\<close> that the record \<open>l\<close> stands for; the simulation relation.\<close>

definition closure_of :: "'l \<Rightarrow> nat \<times> 'l flap_listener \<Rightarrow> 'l closure" where
  "closure_of connected p = watch_closure connected (fst p) (manager_callback (fl_token (snd p)) (fl_server (snd p)))"

definition stands_for :: "'l \<Rightarrow> 'l hub \<times> 'l shared \<Rightarrow> 'l observer \<times> signals \<Rightarrow> bool" where
  "stands_for connected h m \<longleftrightarrow>
     hb_state (fst h) = ob_state (fst m) \<and> hb_wakeups (fst h) = ob_wakeups (fst m) \<and> sh_signals (snd h) = snd m
     \<and> sh_next (snd h) = length (ob_listeners (fst m))
     \<and> hb_listeners (fst h) = map (closure_of connected) (enumerate 0 (ob_listeners (fst m)))
     \<and> (\<forall>i < length (ob_listeners (fst m)). sh_cells (snd h) i = fl_last (ob_listeners (fst m) ! i))"

text \<open>Notifying closures and notifying records, from position \<open>n\<close> on.\<close>

lemma notify_refines:
  assumes "\<And>i. i < length ls \<Longrightarrow> sh_cells sh (n + i) = fl_last (ls ! i)" "sh_signals sh = sg"
    and "notify connected new ls sg = (ls', sg')" "fold (\<lambda>f. f new) (map (closure_of connected) (enumerate n ls)) sh = sh'"
  shows "sh_signals sh' = sg' \<and> sh_next sh' = sh_next sh \<and> length ls' = length ls
    \<and> map (closure_of connected) (enumerate n ls') = map (closure_of connected) (enumerate n ls)
    \<and> (\<forall>i < length ls'. sh_cells sh' (n + i) = fl_last (ls' ! i)) \<and> (\<forall>j < n. sh_cells sh' j = sh_cells sh j)"
  using assms
proof (induction ls arbitrary: n sh sg ls' sg')
  case (Cons l ls)
  obtain l1 sg1 where l1: "call_listener connected new l sg = (l1, sg1)" by fastforce
  obtain ls1 where rest: "notify connected new ls sg1 = (ls1, sg')" and ls': "ls' = l1 # ls1"
    using Cons.prems(3) l1 by (auto split: prod.splits)
  define sh1 where "sh1 = closure_of connected (n, l) new sh"
  have cell: "sh_cells sh n = fl_last l" using Cons.prems(1) [of 0] by simp
  have sh1: "sh_signals sh1 = sg1" "sh_next sh1 = sh_next sh" "sh_cells sh1 = (sh_cells sh)(n := wf_link_state new)"
    and l1': "fl_last l1 = wf_link_state new" "fl_token l1 = fl_token l" "fl_server l1 = fl_server l"
    using l1 Cons.prems(2) cell
    by (auto simp: sh1_def closure_of_def watch_closure_def call_listener_def manager_callback_def on_signals_def on_flap_def Let_def)
  have cells: "sh_cells sh1 (Suc n + i) = fl_last (ls ! i)" if "i < length ls" for i
    using Cons.prems(1) [of "Suc i"] that sh1(3) by simp
  have "fold (\<lambda>f. f new) (map (closure_of connected) (enumerate (Suc n) ls)) sh1 = sh'"
    using Cons.prems(4) by (simp add: sh1_def)
  note ih = Cons.IH [OF cells sh1(1) rest this]
  have "sh_cells sh' (n + i) = fl_last (ls' ! i)" if "i < length ls'" for i
    using ih that sh1(3) l1'(1) ls' by (cases i) auto
  moreover have "closure_of connected (n, l1) = closure_of connected (n, l)" by (simp add: closure_of_def l1')
  ultimately show ?case using ih sh1 ls' by simp
qed simp

lemma watch_refines:
  assumes "stands_for connected h m"
  shows "stands_for connected (hub_event connected (Watch t v) h) (observer_event connected (Watch t v) m)"
proof -
  obtain ob sh mo sg where hm: "h = (ob, sh)" "m = (mo, sg)" by (metis surj_pair)
  with assms show ?thesis
    by (auto simp: stands_for_def watcher_new_def flap_watcher_new_def subscribe_def current_def closure_of_def Let_def nth_append
        enumerate_append_eq less_Suc_eq)
qed

lemma broadcast_refines:
  assumes "stands_for connected h m"
  shows "stands_for connected (hub_event connected (Broadcast l k) h) (observer_event connected (Broadcast l k) m)"
proof -
  obtain ob sh mo sg where hm: "h = (ob, sh)" "m = (mo, sg)" by (metis surj_pair)
  let ?new = "\<lparr>wf_link_state = l, wf_last_change = k\<rparr>"
  obtain ls' sg' where n: "notify connected ?new (ob_listeners mo) sg = (ls', sg')" by fastforce
  obtain sh' where f: "fold (\<lambda>f. f ?new) (map (closure_of connected) (enumerate 0 (ob_listeners mo))) sh = sh'" by blast
  have "sh_signals sh' = sg' \<and> sh_next sh' = sh_next sh \<and> length ls' = length (ob_listeners mo)
    \<and> map (closure_of connected) (enumerate 0 ls') = map (closure_of connected) (enumerate 0 (ob_listeners mo))
    \<and> (\<forall>i < length ls'. sh_cells sh' (0 + i) = fl_last (ls' ! i)) \<and> (\<forall>j < 0. sh_cells sh' j = sh_cells sh j)"
    by (rule notify_refines [OF _ _ n f]) (use assms hm in \<open>auto simp: stands_for_def\<close>)
  with assms hm n f show ?thesis by (auto simp: stands_for_def hub_update_def update_state_def)
qed

text \<open>C23. The records of \<open>Wifi\<close> implement the closures of the code: after any sequence of registrations by the manager
  and broadcasts, the observer with closures and mutex cells has the same snapshot, the same number of
  wake-ups, the same cancelled tokens and the same flap-cancels sent as the model with listener records.\<close>

theorem observer_refines_closures:
  "let h = fold (hub_event connected) es (hub_for_test l now, shared_new l);
       m = fold (observer_event connected) es (observer_new l now, sh_signals (shared_new l))
   in current (fst h) = ob_state (fst m) \<and> hb_wakeups (fst h) = ob_wakeups (fst m) \<and> sh_signals (snd h) = snd m
      \<and> hub_connected connected (fst h) = is_connected connected (fst m)"
proof -
  have start: "stands_for connected (hub_for_test l now, shared_new l) (observer_new l now, sh_signals (shared_new l))"
    by (simp add: stands_for_def hub_for_test_def observer_new_def shared_new_def)
  have "stands_for connected h m \<Longrightarrow> stands_for connected (fold (hub_event connected) es h) (fold (observer_event connected) es m)" for h m
  proof (induction es arbitrary: h m)
    case (Cons e es)
    have "stands_for connected (hub_event connected e h) (observer_event connected e m)"
      using watch_refines [OF Cons.prems] broadcast_refines [OF Cons.prems] by (cases e) blast+
    with Cons.IH show ?case by simp
  qed simp
  from this [OF start] show ?thesis
    by (simp add: stands_for_def current_def hub_connected_def is_connected_def Let_def)
qed

section \<open>The tests pass\<close>

lemma inject_all_append: "inject_all (xs @ ys) now w = inject_all ys (now + length xs) (inject_all xs now w)"
  by (induction xs now w rule: inject_all.induct) simp_all

text \<open>The snapshot after injections in time order is the last one, and a counting listener counts them.\<close>

lemma inject_all_state:
  assumes "wf_last_change (hb_state (fst w)) \<le> now" "ls \<noteq> []"
  shows "hb_state (fst (inject_all ls now w)) = \<lparr>wf_link_state = last ls, wf_last_change = now + length ls - 1\<rparr>"
  using assms
proof (induction ls arbitrary: now w)
  case (Cons l ls)
  have st: "hb_state (fst (hub_inject l now w)) = \<lparr>wf_link_state = l, wf_last_change = now\<rparr>"
    using Cons.prems(1) by (cases w) (simp add: hub_inject_def hub_update_def)
  show ?case
  proof (cases "ls = []")
    case False
    with Cons.IH [of "hub_inject l now w" "now + 1"] st show ?thesis by simp
  qed (simp add: st)
qed simp

lemma inject_all_counts:
  assumes "wf_last_change (hb_state ob) \<le> now" "hb_listeners ob = [\<lambda>_. count_up 0]"
  shows "sh_counts (snd (inject_all ls now (ob, sh))) 0 = sh_counts sh 0 + length ls"
  using assms
  by (induction ls arbitrary: now ob sh) (simp_all add: hub_inject_def hub_update_def count_up_def)

lemmas watcher_defs = watched_def cancelled_after_def watcher_for_handle_def watcher_new_def subscribe_def current_def hub_inject_def hub_update_def
  watch_closure_def on_signals_def token_cancel_def is_cancelled_def hub_for_test_def shared_new_def

theorem watcher_tests_pass:
  assumes "terminal \<noteq> connected" "unknown \<noteq> connected" "connecting \<noteq> connected" "disconnected \<noteq> connected"
  shows "flap_watcher_cancels_on unknown connected terminal \<and> flap_watcher_does_not_cancel_on_repeated_connected unknown connected
    \<and> flap_watcher_does_not_cancel_when_starting_disconnected unknown connecting connected
    \<and> flap_watcher_callback_form unknown connecting connected disconnected
    \<and> flap_watcher_re_arms_after_reconnect unknown connected disconnected
    \<and> multiple_flaps_only_cancel_once_per_token unknown connected disconnected"
proof -
  have "flap_watcher_cancels_on unknown connected terminal" "flap_watcher_does_not_cancel_on_repeated_connected unknown connected"
    "flap_watcher_does_not_cancel_when_starting_disconnected unknown connecting connected"
    using assms by (simp_all add: flap_watcher_cancels_on_def flap_watcher_does_not_cancel_on_repeated_connected_def
        flap_watcher_does_not_cancel_when_starting_disconnected_def watcher_defs)
  moreover have "flap_watcher_callback_form unknown connecting connected disconnected"
    using assms by (simp add: flap_watcher_callback_form_def watcher_defs count_up_def)
  moreover have "flap_watcher_re_arms_after_reconnect unknown connected disconnected"
    using assms by (simp add: flap_watcher_re_arms_after_reconnect_def watcher_defs)
  moreover have "multiple_flaps_only_cancel_once_per_token unknown connected disconnected"
    using assms by (simp add: multiple_flaps_only_cancel_once_per_token_def watcher_defs count_up_def)
  ultimately show ?thesis by blast
qed

theorem snapshot_tests_pass:
  assumes "connected \<notin> set others"
  shows "current_returns_most_recent_state unknown ls \<and> is_connected_matches_link_state_predicate unknown others connected
    \<and> subscribe_listener_fires_on_each_update unknown ls"
proof -
  let ?w = "(hub_for_test unknown 0, shared_new unknown)"
  have st: "wf_link_state (hb_state (fst (inject_all (take (Suc n) xs) (Suc 0) ?w))) = xs ! n" if "n < length xs" for n and xs :: "'a list"
  proof -
    have "take (Suc n) xs \<noteq> []" "last (take (Suc n) xs) = xs ! n"
      using that by (auto simp: take_Suc_conv_app_nth)
    with inject_all_state [of ?w 1 "take (Suc n) xs"] show ?thesis by (simp add: hub_for_test_def)
  qed
  have "current_returns_most_recent_state unknown ls" 
    by (simp add: current_returns_most_recent_state_def current_def st) (simp add: hub_for_test_def)
  moreover have "is_connected_matches_link_state_predicate unknown others connected"
  proof -
    have "hb_state (fst (inject_all (others @ [connected]) 1 ?w)) = \<lparr>wf_link_state = connected, wf_last_change = 1 + length (others @ [connected]) - 1\<rparr>"
      using inject_all_state [of ?w 1 "others @ [connected]"] by (simp add: hub_for_test_def)
    moreover have "others ! n \<noteq> connected" if "n < length others" for n using that assms by (metis nth_mem)
    ultimately show ?thesis by (simp add: is_connected_matches_link_state_predicate_def hub_connected_def st)
  qed
  moreover have "subscribe_listener_fires_on_each_update unknown ls"
    unfolding subscribe_listener_fires_on_each_update_def
    by (subst inject_all_counts) (simp_all add: subscribe_def hub_for_test_def shared_new_def)
  ultimately show ?thesis by blast
qed

end
