(* ===== verification/Trng.thy ===== *)
theory Trng
  imports Prelude
begin

text \<open>
  \<open>src/src/getrandom_xous.rs\<close>: the random bytes libsignal gets on Xous. The TRNG server is a parameter
  over a state; a failed call or an unexpected answer panics, which is \<open>None\<close>. Words are laid out
  little-endian, as on the RISC-V target.
\<close>

section \<open>Definitions\<close>

datatype trng_response = Scalar2 u32 u32 | OtherResponse | IpcFailed

text \<open>The server, and the connection cached in \<open>TRNG_CONN\<close> (0 when there is none yet).\<close>

record 't trng_lib =
  tg_connect :: "'t \<Rightarrow> (u32 \<times> 't) option"
  tg_get :: "u32 \<Rightarrow> nat \<Rightarrow> 't \<Rightarrow> trng_response \<times> 't"

record 't trng =
  tr_conn :: u32
  tr_server :: 't

definition ensure_trng_conn :: "'t trng_lib \<Rightarrow> 't trng \<Rightarrow> 't trng option" where
  "ensure_trng_conn T r =
     (if tr_conn r = 0 then map_option (\<lambda>(c, t). \<lparr>tr_conn = c, tr_server = t\<rparr>) (tg_connect T (tr_server r)) else Some r)"

definition next_u32 :: "'t trng_lib \<Rightarrow> 't trng \<Rightarrow> (u32 \<times> 't trng) option" where
  "next_u32 T r =
     (case tg_get T (tr_conn r) 1 (tr_server r) of
        (Scalar2 x _, t) \<Rightarrow> Some (x, r\<lparr>tr_server := t\<rparr>)
      | _ \<Rightarrow> None)"

definition next_u64 :: "'t trng_lib \<Rightarrow> 't trng \<Rightarrow> (u64 \<times> 't trng) option" where
  "next_u64 T r =
     (case tg_get T (tr_conn r) 2 (tr_server r) of
        (Scalar2 lo hi, t) \<Rightarrow> Some (or (ucast lo) (push_bit 32 (ucast hi)), r\<lparr>tr_server := t\<rparr>)
      | _ \<Rightarrow> None)"

definition to_ne_bytes :: "nat \<Rightarrow> ('a :: len) word \<Rightarrow> bytes" where
  "to_ne_bytes n w = map (\<lambda>i. char_of (unat (drop_bit (8 * i) w) mod 256)) [0..<n]"

function fill_from_trng :: "'t trng_lib \<Rightarrow> nat \<Rightarrow> 't trng \<Rightarrow> (bytes \<times> 't trng) option" where
  "fill_from_trng T n r =
     (if 8 \<le> n then
        Option.bind (next_u64 T r) (\<lambda>(w, r1).
        map_option (\<lambda>(bs, r2). (to_ne_bytes 8 w @ bs, r2)) (fill_from_trng T (n - 8) r1))
      else if 4 < n then map_option (\<lambda>(w, r1). (take n (to_ne_bytes 8 w), r1)) (next_u64 T r)
      else if 0 < n then map_option (\<lambda>(w, r1). (take n (to_ne_bytes 4 w), r1)) (next_u32 T r)
      else Some ([], r))"
  by pat_completeness auto
termination
  by (relation "measure (\<lambda>(_, n, _). n)") auto

declare fill_from_trng.simps [simp del]

definition getrandom_v03_custom :: "'t trng_lib \<Rightarrow> nat \<Rightarrow> 't trng \<Rightarrow> (bytes \<times> 't trng) option" where
  "getrandom_v03_custom T len r =
     (if len = 0 then Some ([], r) else Option.bind (ensure_trng_conn T r) (fill_from_trng T len))"

section \<open>Every byte is random\<close>

text \<open>A server that answers every call and counts them.\<close>

locale answering_trng =
  fixes T :: "'t trng_lib" and calls :: "'t \<Rightarrow> nat"
  assumes answers: "\<exists>x y t'. tg_get T c k t = (Scalar2 x y, t') \<and> calls t' = calls t + 1"
    and connects: "\<exists>c t'. tg_connect T t = Some (c, t') \<and> calls t' = calls t"
begin

lemma next_ok:
  "\<exists>w r'. next_u64 T r = Some (w, r') \<and> calls (tr_server r') = calls (tr_server r) + 1"
  "\<exists>w r'. next_u32 T r = Some (w, r') \<and> calls (tr_server r') = calls (tr_server r) + 1"
  using answers [of "tr_conn r" 2 "tr_server r"] answers [of "tr_conn r" 1 "tr_server r"]
  by (auto simp: next_u64_def next_u32_def)

text \<open>Exactly \<open>n\<close> bytes, with one call for every eight begun.\<close>

lemma fill_exact:
  "\<exists>bs r'. fill_from_trng T n r = Some (bs, r') \<and> length bs = n \<and> calls (tr_server r') = calls (tr_server r) + (n + 7) div 8"
proof (induction n arbitrary: r rule: less_induct)
  case (less n)
  obtain w r1 where w: "next_u64 T r = Some (w, r1)" "calls (tr_server r1) = calls (tr_server r) + 1" using next_ok(1) by blast
  obtain v r2 where v: "next_u32 T r = Some (v, r2)" "calls (tr_server r2) = calls (tr_server r) + 1" using next_ok(2) by blast
  show ?case
  proof (cases "8 \<le> n")
    case True
    then obtain bs r' where "fill_from_trng T (n - 8) r1 = Some (bs, r')" "length bs = n - 8"
      "calls (tr_server r') = calls (tr_server r1) + (n - 8 + 7) div 8" using less.IH [of "n - 8" r1] by auto
    moreover have "(n + 7) div 8 = (n - 8 + 7) div 8 + 1" using True by (simp add: le_div_geq)
    ultimately show ?thesis using True w by (subst fill_from_trng.simps) (simp add: to_ne_bytes_def)
  next
    case False
    then have "n = 0 \<or> (n + 7) div 8 = 1" by auto
    with False w v show ?thesis by (subst fill_from_trng.simps) (auto simp: to_ne_bytes_def)
  qed
qed

lemma custom_exact:
  "\<exists>bs r'. getrandom_v03_custom T n r = Some (bs, r') \<and> length bs = n \<and> calls (tr_server r') = calls (tr_server r) + (n + 7) div 8"
proof (cases "n = 0")
  case False
  obtain c t' where "tg_connect T (tr_server r) = Some (c, t')" "calls t' = calls (tr_server r)" using connects by blast
  then have "\<exists>r1. ensure_trng_conn T r = Some r1 \<and> calls (tr_server r1) = calls (tr_server r)" by (simp add: ensure_trng_conn_def)
  then obtain r1 where "ensure_trng_conn T r = Some r1" "calls (tr_server r1) = calls (tr_server r)" by blast
  with fill_exact [of n r1] False show ?thesis by (simp add: getrandom_v03_custom_def)
qed (simp add: getrandom_v03_custom_def)

end

text \<open>A counter as the server.\<close>

definition counter_trng :: "nat trng_lib" where
  "counter_trng = \<lparr>tg_connect = (\<lambda>t. Some (1, t)), tg_get = (\<lambda>c k t. (Scalar2 (of_nat t) 0, t + 1))\<rparr>"

interpretation counter: answering_trng counter_trng id
  by unfold_locales (simp_all add: counter_trng_def)

text \<open>A buffer is filled completely, every byte from the TRNG: with a server that answers, a request
  for \<open>n\<close> bytes returns exactly \<open>n\<close> bytes after \<open>n / 8\<close> calls, rounded up, and none for an empty buffer.\<close>

theorem trng_fills_buffer:
  assumes "answering_trng T calls"
  shows "\<exists>bs r'. getrandom_v03_custom T n r = Some (bs, r') \<and> length bs = n \<and> calls (tr_server r') = calls (tr_server r) + (n + 7) div 8"
  using assms by (rule answering_trng.custom_exact)

theorem trng_fills_buffer_witness:
  "\<exists>bs r'. getrandom_v03_custom counter_trng 13 \<lparr>tr_conn = 0, tr_server = 5\<rparr> = Some (bs, r') \<and> length bs = 13 \<and> tr_server r' = 7"
  using trng_fills_buffer [OF counter.answering_trng_axioms, of 13 "\<lparr>tr_conn = 0, tr_server = 5\<rparr>"] by simp

end
