(* ===== verification/Getrandom.thy ===== *)
theory Getrandom
  imports Trng
begin

text \<open>
  \<open>src/imports/getrandom-02\<close>: the copy of getrandom 0.2 that the repository carries for its Xous
  backend. The parts that run are here: \<open>error.rs\<close>, \<open>util.rs\<close>, \<open>lib.rs\<close> and \<open>xous.rs\<close> (on the device). A
  cell of a buffer is \<open>MaybeUninit<u8>\<close>: \<open>None\<close> before it is written. The contract that \<open>lib.rs\<close> states for a
  backend, on which its \<open>unsafe\<close> cast rests, is the locale \<open>backend\<close>.
\<close>

section \<open>Definitions\<close>

subsection \<open>Error codes\<close>

text \<open>\<open>Error\<close> is a \<open>NonZeroU32\<close>.\<close>

datatype gr_error = Error (code: u32)

definition INTERNAL_START :: u32 where "INTERNAL_START = push_bit 31 1"

definition CUSTOM_START :: u32 where "CUSTOM_START = push_bit 31 1 + push_bit 30 1"

definition internal_error :: "u16 \<Rightarrow> gr_error" where
  "internal_error n = Error (INTERNAL_START + ucast n)"

text \<open>The named codes, in the order of \<open>internal_desc\<close>.\<close>

definition internal_descs :: "(u16 \<times> string) list" where
  "internal_descs =
     [(0, ''getrandom: this target is not supported''),
      (1, ''errno: did not return a positive value''),
      (2, ''unexpected situation''),
      (3, ''SecRandomCopyBytes: iOS Security framework failure''),
      (4, ''RtlGenRandom: Windows system function failure''),
      (5, ''RDRAND: failed multiple times: CPU issue likely''),
      (6, ''RDRAND: instruction not supported''),
      (7, ''Web Crypto API is unavailable''),
      (8, ''Calling Web API crypto.getRandomValues failed''),
      (11, ''randSecure: VxWorks RNG module is not initialized''),
      (12, ''Node.js crypto CommonJS module is unavailable''),
      (13, ''Calling Node.js API crypto.randomFillSync failed''),
      (14, ''Node.js ES modules are not directly supported, see https://docs.rs/getrandom#nodejs-es-module-support'')]"

definition internal_desc :: "gr_error \<Rightarrow> string option" where
  "internal_desc e = map_option snd (List.find (\<lambda>(n, d). internal_error n = e) internal_descs)"

abbreviation ERRNO_NOT_POSITIVE :: gr_error where "ERRNO_NOT_POSITIVE \<equiv> internal_error 1"
abbreviation UNEXPECTED :: gr_error where "UNEXPECTED \<equiv> internal_error 2"
abbreviation FAILED_RDRAND :: gr_error where "FAILED_RDRAND \<equiv> internal_error 5"
abbreviation NO_RDRAND :: gr_error where "NO_RDRAND \<equiv> internal_error 6"

definition raw_os_error :: "gr_error \<Rightarrow> int option" where
  "raw_os_error e = (if code e < INTERNAL_START then Some (sint (code e)) else None)"

text \<open>\<open>strerror_r\<close> of the C library: a return code and the buffer it filled. On a target that is not
  Unix there is no description (\<open>None\<close>).\<close>

type_synonym strerror = "(int \<Rightarrow> bytes \<Rightarrow> int \<times> bytes) option"

definition os_err :: "strerror \<Rightarrow> int \<Rightarrow> bytes \<Rightarrow> string option" where
  "os_err strerror_r errno buf =
     Option.bind strerror_r (\<lambda>f. case f errno buf of (rc, buf1) \<Rightarrow>
       (if rc \<noteq> 0 then None
        else from_utf8 (take (unwrap_or (length buf1) (find_char (\<lambda>c. c = CHR 0x00) buf1)) buf1)))"

definition show_int :: "int \<Rightarrow> string" where
  "show_int i = (if i < 0 then ''-'' @ show_nat (nat (- i)) else show_nat (nat i))"

definition display_error :: "strerror \<Rightarrow> gr_error \<Rightarrow> string" where
  "display_error se e =
     (case raw_os_error e of
        Some errno \<Rightarrow>
          (case os_err se errno (replicate 128 (CHR 0x00)) of
             Some err \<Rightarrow> err
           | None \<Rightarrow> ''OS Error: '' @ show_int errno)
      | None \<Rightarrow>
          (case internal_desc e of
             Some desc \<Rightarrow> desc
           | None \<Rightarrow> ''Unknown Error: '' @ show_word (code e)))"

text \<open>\<open>Debug\<close>: the fields of the struct that is printed.\<close>

datatype debug_value = DebugInt int | DebugWord u32 | DebugStr string

definition debug_error :: "strerror \<Rightarrow> gr_error \<Rightarrow> (string \<times> debug_value) list" where
  "debug_error se e =
     (case raw_os_error e of
        Some errno \<Rightarrow>
          (''os_error'', DebugInt errno) #
          (case os_err se errno (replicate 128 (CHR 0x00)) of
             Some err \<Rightarrow> [(''description'', DebugStr err)]
           | None \<Rightarrow> [])
      | None \<Rightarrow>
          (case internal_desc e of
             Some desc \<Rightarrow> [(''internal_code'', DebugWord (code e)), (''description'', DebugStr desc)]
           | None \<Rightarrow> [(''unknown_code'', DebugWord (code e))]))"

subsection \<open>Buffers\<close>

type_synonym uninit = "char option list"

definition slice_as_uninit :: "bytes \<Rightarrow> uninit" where
  "slice_as_uninit bs = map Some bs"

text \<open>The cast to initialised bytes; on a buffer with an unwritten cell it is undefined behaviour
  (\<open>None\<close>).\<close>

definition slice_assume_init_mut :: "uninit \<Rightarrow> bytes option" where
  "slice_assume_init_mut d = (if None \<in> set d then None else Some (map the d))"

definition uninit_slice_fill_zero :: "uninit \<Rightarrow> bytes" where
  "uninit_slice_fill_zero d = replicate (length d) (CHR 0x00)"

subsection \<open>The entry points\<close>

text \<open>A backend's \<open>getrandom_inner\<close>: the result, the buffer and the state of the system afterwards; \<open>None\<close>
  when it panics or does not return.\<close>

type_synonym 'w inner = "uninit \<Rightarrow> 'w \<Rightarrow> ((gr_error + unit) \<times> uninit \<times> 'w) option"

definition getrandom_uninit ::
  "'w inner \<Rightarrow> uninit \<Rightarrow> 'w \<Rightarrow> ((gr_error + bytes option) \<times> uninit \<times> 'w) option" where
  "getrandom_uninit inner dest w =
     (if dest = [] then Some (Inr (slice_assume_init_mut dest), dest, w)
      else map_option (\<lambda>(r, d, w1).
             (case r of Inl e \<Rightarrow> Inl e | Inr _ \<Rightarrow> Inr (slice_assume_init_mut d), d, w1)) (inner dest w))"

text \<open>\<open>getrandom\<close> is handed initialised bytes and hands back the same slice; the outer option is as
  above, the inner one is the read of an unwritten cell.\<close>

definition getrandom ::
  "'w inner \<Rightarrow> bytes \<Rightarrow> 'w \<Rightarrow> ((gr_error + unit) \<times> bytes option \<times> 'w) option" where
  "getrandom inner dest w =
     map_option (\<lambda>(r, d, w1). (case r of Inl e \<Rightarrow> Inl e | Inr _ \<Rightarrow> Inr (), slice_assume_init_mut d, w1))
       (getrandom_uninit inner (slice_as_uninit dest) w)"

subsection \<open>The Xous backend\<close>

text \<open>\<open>TrngBuf\<close>, the page that is lent to the server; \<open>data\<close> has 1020 words.\<close>

record trng_buf =
  tb_data :: "u32 list"
  tb_len :: u16

definition TRNG_WORDS :: nat where "TRNG_WORDS = 1020"

text \<open>The server: the scalar calls of \<open>Trng\<close> and \<open>FillTrng\<close> by a lent page (\<open>None\<close> when the call fails).\<close>

record 't trng_page_lib =
  tp_scalar :: "'t trng_lib"
  tp_fill :: "u32 \<Rightarrow> trng_buf \<Rightarrow> 't \<Rightarrow> (trng_buf \<times> 't) option"

definition xous_ensure_trng_conn :: "'t trng_page_lib \<Rightarrow> 't trng \<Rightarrow> 't trng option" where
  "xous_ensure_trng_conn T r =
     (if tr_conn r = 0
      then map_option (\<lambda>(c, t). \<lparr>tr_conn = c, tr_server = t\<rparr>) (tg_connect (tp_scalar T) (tr_server r))
      else Some r)"

definition xous_next_u32 :: "'t trng_page_lib \<Rightarrow> 't trng \<Rightarrow> (u32 \<times> 't trng) option" where
  "xous_next_u32 T r =
     (case tg_get (tp_scalar T) (tr_conn r) 1 (tr_server r) of
        (Scalar2 trng _, t) \<Rightarrow> Some (trng, r\<lparr>tr_server := t\<rparr>)
      | _ \<Rightarrow> None)"

definition xous_next_u64 :: "'t trng_page_lib \<Rightarrow> 't trng \<Rightarrow> (u64 \<times> 't trng) option" where
  "xous_next_u64 T r =
     (case tg_get (tp_scalar T) (tr_conn r) 2 (tr_server r) of
        (Scalar2 lo hi, t) \<Rightarrow> Some (or (ucast lo) (push_bit 32 (ucast hi)), r\<lparr>tr_server := t\<rparr>)
      | _ \<Rightarrow> None)"

text \<open>\<open>left.copy_from_slice(chunk)\<close> for the rest of the buffer; the lengths agree.\<close>

function fill_bytes_via_next :: "'t trng_page_lib \<Rightarrow> uninit \<Rightarrow> 't trng \<Rightarrow> (uninit \<times> 't trng) option" where
  "fill_bytes_via_next T left r =
     (let n = length left in
      if 8 \<le> n then
        Option.bind (xous_next_u64 T r) (\<lambda>(w, r1).
        map_option (\<lambda>(d, r2). (slice_as_uninit (to_ne_bytes 8 w) @ d, r2))
          (fill_bytes_via_next T (drop 8 left) r1))
      else if 4 < n then map_option (\<lambda>(w, r1). (slice_as_uninit (take n (to_ne_bytes 8 w)), r1)) (xous_next_u64 T r)
      else if 0 < n then map_option (\<lambda>(w, r1). (slice_as_uninit (take n (to_ne_bytes 4 w)), r1)) (xous_next_u32 T r)
      else Some (left, r))"
  by pat_completeness auto
termination
  by (relation "measure (\<lambda>(_, left, _). length left)") auto

declare fill_bytes_via_next.simps [simp del]

text \<open>\<open>fill_buf\<close> for \<open>n\<close> words: the first assertion, the lent page, the second assertion and the copy.\<close>

definition xous_fill_buf :: "'t trng_page_lib \<Rightarrow> nat \<Rightarrow> 't trng \<Rightarrow> (u32 list \<times> 't trng) option" where
  "xous_fill_buf T n r =
     (if \<not> n \<le> TRNG_WORDS then None
      else
        Option.bind (tp_fill T (tr_conn r) \<lparr>tb_data = replicate TRNG_WORDS 0, tb_len = of_nat n\<rparr> (tr_server r))
          (\<lambda>(buf, t).
            (if unat (tb_len buf) \<noteq> n then None
             else Some (take (unat (tb_len buf)) (tb_data buf), r\<lparr>tr_server := t\<rparr>))))"

definition words_to_bytes :: "u32 list \<Rightarrow> bytes" where
  "words_to_bytes ws = concat (map (to_ne_bytes 4) ws)"

text \<open>The loop over \<open>chunks_exact_mut(4096)\<close>, each chunk seen as \<open>4096 / 4\<close> words in place.\<close>

fun fill_chunks :: "'t trng_page_lib \<Rightarrow> nat \<Rightarrow> 't trng \<Rightarrow> (uninit \<times> 't trng) option" where
  "fill_chunks T 0 r = Some ([], r)"
| "fill_chunks T (Suc k) r =
     Option.bind (xous_fill_buf T (4096 div 4) r) (\<lambda>(ws, r1).
     map_option (\<lambda>(d, r2). (slice_as_uninit (words_to_bytes ws) @ d, r2)) (fill_chunks T k r1))"

definition fill_remainder :: "'t trng_page_lib \<Rightarrow> nat \<Rightarrow> 't trng \<Rightarrow> (uninit \<times> 't trng) option" where
  "fill_remainder T n r =
     (if n = 0 then Some ([], r)
      else
        let len = (if n mod 4 = 0 then of_nat (n div 4) else 1 + of_nat (n div 4)) in
        Option.bind (tp_fill T (tr_conn r) \<lparr>tb_data = replicate TRNG_WORDS 0, tb_len = len\<rparr> (tr_server r))
          (\<lambda>(buf, t).
            let ret_u8 = words_to_bytes (tb_data buf) in
            if length ret_u8 < n then None
            else Some (slice_as_uninit (take n ret_u8), r\<lparr>tr_server := t\<rparr>)))"

definition fill_bytes :: "'t trng_page_lib \<Rightarrow> uninit \<Rightarrow> 't trng \<Rightarrow> (uninit \<times> 't trng) option" where
  "fill_bytes T dest r =
     (if length dest < 64 then fill_bytes_via_next T dest r
      else
        Option.bind (fill_chunks T (length dest div 4096) r) (\<lambda>(d1, r1).
        map_option (\<lambda>(d2, r2). (d1 @ d2, r2)) (fill_remainder T (length dest mod 4096) r1)))"

definition xous_getrandom_inner :: "'t trng_page_lib \<Rightarrow> 't trng inner" where
  "xous_getrandom_inner T dest r =
     (if dest = [] then Some (Inr (), dest, r)
      else
        Option.bind (xous_ensure_trng_conn T r) (\<lambda>r1.
        map_option (\<lambda>(d, r2). (Inr (), d, r2)) (fill_bytes T dest r1)))"

section \<open>Buffers\<close>

named_theorems buffer_simps \<open>what the buffer casts do to length and initialisation\<close>

lemma as_uninit_init [simp, buffer_simps]: "None \<notin> set (slice_as_uninit bs)"
  by (simp add: slice_as_uninit_def image_iff)

lemma length_as_uninit [simp, buffer_simps]: "length (slice_as_uninit bs) = length bs"
  by (simp add: slice_as_uninit_def)

lemma as_uninit_append: "slice_as_uninit (a @ b) = slice_as_uninit a @ slice_as_uninit b"
  by (simp add: slice_as_uninit_def)

lemma as_uninit_Nil_iff [simp, buffer_simps]: "slice_as_uninit bs = [] \<longleftrightarrow> bs = []" "[] = slice_as_uninit bs \<longleftrightarrow> bs = []"
  by (auto simp: slice_as_uninit_def)

lemma assume_init_as_uninit [simp, buffer_simps]: "slice_assume_init_mut (slice_as_uninit bs) = Some bs"
proof -
  have "map the (slice_as_uninit bs) = bs" by (simp add: slice_as_uninit_def comp_def)
  then show ?thesis by (simp add: slice_assume_init_mut_def)
qed

lemma assume_init_length: "slice_assume_init_mut d = Some bs \<Longrightarrow> length bs = length d"
  by (auto simp: slice_assume_init_mut_def split: if_splits)

lemma assume_init_ok: "None \<notin> set d \<Longrightarrow> \<exists>bs. slice_assume_init_mut d = Some bs"
  by (simp add: slice_assume_init_mut_def)

lemma length_to_ne_bytes [simp]: "length (to_ne_bytes n w) = n"
  by (simp add: to_ne_bytes_def)

lemma length_words_to_bytes [simp]: "length (words_to_bytes ws) = 4 * length ws"
  by (induction ws) (simp_all add: words_to_bytes_def)

section \<open>The contract of a backend\<close>

text \<open>The comment in \<open>lib.rs\<close>: the buffer is fully initialised when \<open>Ok(())\<close> is returned, and no initialised
  cell is ever de-initialised.\<close>

definition keeps_init :: "uninit \<Rightarrow> uninit \<Rightarrow> bool" where
  "keeps_init d d' \<longleftrightarrow> length d' = length d \<and> (\<forall>i < length d. d ! i \<noteq> None \<longrightarrow> d' ! i \<noteq> None)"

lemma keeps_init_full: "length d' = length d \<Longrightarrow> None \<notin> set d' \<Longrightarrow> keeps_init d d'"
  unfolding keeps_init_def by (metis nth_mem)

lemma keeps_init_refl [simp]: "keeps_init d d"
  by (simp add: keeps_init_def)

lemma keeps_init_trans: "keeps_init a b \<Longrightarrow> keeps_init b c \<Longrightarrow> keeps_init a c"
  by (simp add: keeps_init_def)

lemma keeps_init_all: "keeps_init d d' \<Longrightarrow> None \<notin> set d \<Longrightarrow> None \<notin> set d'"
  unfolding keeps_init_def by (metis in_set_conv_nth)

lemma keeps_init_append: "keeps_init a a' \<Longrightarrow> keeps_init b b' \<Longrightarrow> keeps_init (a @ b) (a' @ b')"
  by (auto simp: keeps_init_def nth_append)

locale backend =
  fixes inner :: "'w inner"
  assumes inner_keeps: "inner d w = Some (r, d', w') \<Longrightarrow> keeps_init d d'"
    and inner_fills: "inner d w = Some (Inr (), d', w') \<Longrightarrow> None \<notin> set d'"
begin

lemma uninit_sound:
  assumes "getrandom_uninit inner d w = Some (r, d', w')"
  shows "keeps_init d d' \<and> (case r of Inl _ \<Rightarrow> True | Inr b \<Rightarrow> \<exists>bs. b = Some bs \<and> length bs = length d \<and> d' = slice_as_uninit bs)"
proof (cases "d = []")
  case True
  with assms show ?thesis by (auto simp: getrandom_uninit_def slice_assume_init_mut_def)
next
  case False
  with assms obtain r0 where r0: "inner d w = Some (r0, d', w')"
    "r = (case r0 of Inl e \<Rightarrow> Inl e | Inr _ \<Rightarrow> Inr (slice_assume_init_mut d'))"
    by (auto simp: getrandom_uninit_def)
  have k: "keeps_init d d'" using inner_keeps r0(1) .
  show ?thesis
  proof (cases r0)
    case (Inr u)
    with r0(1) have full: "None \<notin> set d'" using inner_fills by simp
    then have "d' = slice_as_uninit (map the d')" by (auto simp: slice_as_uninit_def comp_def intro!: nth_equalityI) (metis nth_mem option.collapse)
    moreover have "length d' = length d" using k by (simp add: keeps_init_def)
    ultimately show ?thesis using r0(2) Inr k full by (auto simp: slice_assume_init_mut_def)
  qed (use r0 k in simp)
qed

lemma getrandom_defined:
  assumes "getrandom inner d w = Some (r, b, w')"
  shows "\<exists>bs. b = Some bs \<and> length bs = length d"
proof -
  from assms obtain r0 d' where st: "getrandom_uninit inner (slice_as_uninit d) w = Some (r0, d', w')" "b = slice_assume_init_mut d'"
    by (auto simp: getrandom_def)
  have k: "keeps_init (slice_as_uninit d) d'" using uninit_sound [OF st(1)] by blast
  then have "None \<notin> set d'" using keeps_init_all as_uninit_init by blast
  with assume_init_ok obtain bs where "slice_assume_init_mut d' = Some bs" by blast
  with st(2) assume_init_length k show ?thesis by (auto simp: keeps_init_def)
qed

end

section \<open>The Xous backend\<close>

text \<open>The scalar path is that of \<open>getrandom_xous.rs\<close>.\<close>

lemma xous_scalar_eq:
  "xous_next_u32 T = next_u32 (tp_scalar T)" "xous_next_u64 T = next_u64 (tp_scalar T)"
  "xous_ensure_trng_conn T = ensure_trng_conn (tp_scalar T)"
  by (simp_all add: fun_eq_iff xous_next_u32_def next_u32_def xous_next_u64_def next_u64_def
      xous_ensure_trng_conn_def ensure_trng_conn_def)

lemma via_next_eq:
  "fill_bytes_via_next T d r = map_option (\<lambda>(bs, r'). (slice_as_uninit bs, r')) (fill_from_trng (tp_scalar T) (length d) r)"
proof (induction "length d" arbitrary: d r rule: less_induct)
  case less
  show ?case
  proof (cases "8 \<le> length d")
    case True
    have "fill_bytes_via_next T (drop 8 d) r1 =
      map_option (\<lambda>(bs, r'). (slice_as_uninit bs, r')) (fill_from_trng (tp_scalar T) (length d - 8) r1)" for r1
      using less [of "drop 8 d" r1] True by simp
    with True show ?thesis
      by (subst fill_bytes_via_next.simps, subst fill_from_trng.simps)
        (auto simp: xous_scalar_eq as_uninit_append option.map_comp comp_def split_def split: bind_splits)
  next
    case False
    then show ?thesis
      by (subst fill_bytes_via_next.simps, subst fill_from_trng.simps)
        (auto simp: xous_scalar_eq option.map_comp comp_def split_def slice_as_uninit_def)
  qed
qed

lemma fill_from_trng_length: "fill_from_trng T n r = Some (bs, r') \<Longrightarrow> length bs = n"
proof (induction n arbitrary: r bs r' rule: less_induct)
  case (less n)
  show ?case
  proof (cases "8 \<le> n")
    case True
    have "fill_from_trng T n r =
        Option.bind (next_u64 T r) (\<lambda>(w, r1). map_option (\<lambda>(bs, r2). (to_ne_bytes 8 w @ bs, r2)) (fill_from_trng T (n - 8) r1))"
      using True by (subst fill_from_trng.simps) simp
    with less.prems obtain w r1 where st: "next_u64 T r = Some (w, r1)"
      "map_option (\<lambda>(bs, r2). (to_ne_bytes 8 w @ bs, r2)) (fill_from_trng T (n - 8) r1) = Some (bs, r')"
      by (cases "next_u64 T r") auto
    then obtain b1 where "fill_from_trng T (n - 8) r1 = Some (b1, r')" "bs = to_ne_bytes 8 w @ b1" by auto
    with less.IH [of "n - 8"] True show ?thesis by simp
  next
    case False
    with less.prems show ?thesis by (subst (asm) fill_from_trng.simps) (auto split: if_splits)
  qed
qed

text \<open>A whole chunk is 1024 words, more than the page has: the first assertion of \<open>fill_buf\<close> fails.\<close>

lemma fill_chunks_None: "fill_chunks T (Suc k) r = None"
  by (simp add: xous_fill_buf_def TRNG_WORDS_def)

lemma fill_bytes_page:
  assumes "64 \<le> length d"
  shows "fill_bytes T d r = (if 4096 \<le> length d then None else fill_remainder T (length d) r)"
proof (cases "4096 \<le> length d")
  case True
  then obtain k where "length d div 4096 = Suc k" by (metis div_greater_zero_iff gr0_implies_Suc zero_less_numeral)
  with fill_chunks_None [of T k r] have "fill_chunks T (length d div 4096) r = None" by (simp only:)
  with assms True show ?thesis by (simp add: fill_bytes_def)
next
  case False
  with assms show ?thesis by (simp add: fill_bytes_def option.map_ident split_def)
qed

lemma fill_remainder_full: "fill_remainder T n r = Some (d, r') \<Longrightarrow> length d = n \<and> None \<notin> set d"
  by (auto simp: fill_remainder_def Let_def split: bind_splits if_splits)

lemma fill_bytes_full:
  assumes "fill_bytes T d r = Some (d', r')"
  shows "length d' = length d \<and> None \<notin> set d'"
proof (cases "length d < 64")
  case True
  with assms show ?thesis by (auto simp: fill_bytes_def via_next_eq dest: fill_from_trng_length)
next
  case False
  with assms fill_bytes_page [of d T r] have "fill_remainder T (length d) r = Some (d', r')" by (simp split: if_splits)
  then show ?thesis by (rule fill_remainder_full)
qed

interpretation xous: backend "xous_getrandom_inner T" for T :: "'t trng_page_lib"
proof
  fix d d' :: uninit and w w' :: "'t trng" and r
  assume st: "xous_getrandom_inner T d w = Some (r, d', w')"
  show "keeps_init d d'"
  proof (cases "d = []")
    case False
    with st obtain w1 where "fill_bytes T d w1 = Some (d', w')" by (auto simp: xous_getrandom_inner_def split: bind_splits)
    with fill_bytes_full keeps_init_full show ?thesis by blast
  qed (use st in \<open>simp add: xous_getrandom_inner_def\<close>)
next
  fix d d' :: uninit and w w' :: "'t trng"
  assume "xous_getrandom_inner T d w = Some (Inr (), d', w')"
  then show "None \<notin> set d'" using fill_bytes_full
    by (fastforce simp: xous_getrandom_inner_def split: bind_splits if_splits)
qed

text \<open>A TRNG server that answers: the scalar calls as in \<open>answering_trng\<close>, and a lent page comes back with the
  same number of words and the length asked for, when that fits the page.\<close>

locale answering_pages = answering_trng "tp_scalar T" calls
  for T :: "'t trng_page_lib" and calls :: "'t \<Rightarrow> nat" +
  assumes page_words: "tp_fill T c b t = Some (b', t') \<Longrightarrow> length (tb_data b') = length (tb_data b)"
    and page_answers: "unat (tb_len b) \<le> length (tb_data b) \<Longrightarrow> \<exists>b' t'. tp_fill T c b t = Some (b', t') \<and> tb_len b' = tb_len b"
begin

lemma remainder_iff:
  assumes "0 < n" "n < 4096"
  shows "fill_remainder T n r \<noteq> None \<longleftrightarrow> n \<le> 4080"
proof -
  define len :: u16 where "len = (if n mod 4 = 0 then of_nat (n div 4) else 1 + of_nat (n div 4))"
  define b where "b = \<lparr>tb_data = replicate TRNG_WORDS (0 :: u32), tb_len = len\<rparr>"
  have len: "unat len = (n + 3) div 4"
  proof -
    have "len = of_nat ((n + 3) div 4)"
    proof (cases "n mod 4 = 0")
      case True
      then have "(n + 3) div 4 = n div 4" by presburger
      with True show ?thesis by (simp add: len_def)
    next
      case False
      then have "(n + 3) div 4 = Suc (n div 4)" by presburger
      with False show ?thesis by (simp add: len_def)
    qed
    moreover have "(n + 3) div 4 < 2 ^ 16" using assms(2) by auto
    ultimately show ?thesis by (simp add: take_bit_nat_eq_self unsigned_of_nat)
  qed
  have eq: "fill_remainder T n r = Option.bind (tp_fill T (tr_conn r) b (tr_server r)) (\<lambda>(buf, t).
      if length (words_to_bytes (tb_data buf)) < n then None
      else Some (slice_as_uninit (take n (words_to_bytes (tb_data buf))), r\<lparr>tr_server := t\<rparr>))"
    using assms(1) by (simp add: fill_remainder_def b_def len_def Let_def)
  show ?thesis
  proof (cases "n \<le> 4080")
    case True
    then have "unat (tb_len b) \<le> length (tb_data b)" using len by (simp add: b_def TRNG_WORDS_def)
    then obtain b' t' where st: "tp_fill T (tr_conn r) b (tr_server r) = Some (b', t')" using page_answers by blast
    then have "length (tb_data b') = 1020" using page_words [OF st] by (simp add: b_def TRNG_WORDS_def)
    with st True show ?thesis by (simp add: eq)
  next
    case False
    have "length (words_to_bytes (tb_data b')) < n" if "tp_fill T (tr_conn r) b (tr_server r) = Some (b', t')" for b' t'
      using page_words [OF that] False by (simp add: b_def TRNG_WORDS_def)
    with False show ?thesis by (auto simp: eq split: bind_splits)
  qed
qed

lemma inner_returns_iff: "xous_getrandom_inner T d r \<noteq> None \<longleftrightarrow> length d \<le> 4080"
proof (cases "d = []")
  case False
  obtain c t' where "tg_connect (tp_scalar T) (tr_server r) = Some (c, t')" using connects by blast
  then have "xous_ensure_trng_conn T r \<noteq> None" by (simp add: xous_ensure_trng_conn_def)
  then obtain r1 where r1: "xous_ensure_trng_conn T r = Some r1" by blast
  have "fill_bytes T d r1 \<noteq> None \<longleftrightarrow> length d \<le> 4080"
  proof (cases "length d < 64")
    case True
    with fill_exact [of "length d" r1] show ?thesis by (auto simp: fill_bytes_def via_next_eq)
  next
    case big: False
    then have "0 < length d" by linarith
    with big show ?thesis using remainder_iff [of "length d" r1] fill_bytes_page [of d T r1]
      by (cases "4096 \<le> length d") (simp_all add: not_less)
  qed
  with False r1 show ?thesis by (simp add: xous_getrandom_inner_def)
qed (simp add: xous_getrandom_inner_def)

end

text \<open>A server that fills pages with zeros.\<close>

definition counter_pages :: "nat trng_page_lib" where
  "counter_pages = \<lparr>tp_scalar = counter_trng, tp_fill = (\<lambda>c b t. Some (b, t + 1))\<rparr>"

interpretation pages: answering_pages counter_pages id
  by unfold_locales (simp_all add: counter_pages_def counter_trng_def)

section \<open>Properties\<close>

text \<open>C19. A large request panics: with a TRNG server that answers every call, \<open>getrandom\<close> 0.2 on Xous
  returns exactly when it is asked for at most 4080 bytes. A chunk of 4096 bytes is 1024 words, and
  the page lent to the server has 1020.\<close>

theorem xous_large_request_panics:
  assumes "answering_pages T calls"
  shows "xous_getrandom_inner T dest r \<noteq> None \<longleftrightarrow> length dest \<le> 4080"
  using assms by (rule answering_pages.inner_returns_iff)

theorem xous_large_request_panics_witness:
  "xous_getrandom_inner counter_pages (replicate 4096 None) \<lparr>tr_conn = 0, tr_server = 5\<rparr> = None
   \<and> xous_getrandom_inner counter_pages (replicate 4080 None) \<lparr>tr_conn = 0, tr_server = 5\<rparr> \<noteq> None"
  using xous_large_request_panics [OF pages.answering_pages_axioms, of "replicate 4096 None" "\<lparr>tr_conn = 0, tr_server = 5\<rparr>"]
    xous_large_request_panics [OF pages.answering_pages_axioms, of "replicate 4080 None" "\<lparr>tr_conn = 0, tr_server = 5\<rparr>"]
  unfolding length_replicate by (simp del: not_None_eq)

text \<open>C20. The two Xous backends agree below 64 bytes: getrandom 0.2 (\<open>xous.rs\<close>) and the custom backend for 0.3
  (\<open>getrandom_xous.rs\<close>) ask the server for the same words, write the same bytes and panic together.\<close>

theorem xous_backends_agree:
  assumes "length dest < 64"
  shows "xous_getrandom_inner T dest r =
    map_option (\<lambda>(bs, r'). (Inr (), slice_as_uninit bs, r')) (getrandom_v03_custom (tp_scalar T) (length dest) r)"
  using assms
  by (auto simp: xous_getrandom_inner_def getrandom_v03_custom_def fill_bytes_def via_next_eq xous_scalar_eq(3)
      slice_as_uninit_def option.map_comp comp_def split_def split: bind_splits)

theorem xous_backends_agree_witness:
  "\<exists>bs r'. xous_getrandom_inner counter_pages (replicate 13 None) \<lparr>tr_conn = 0, tr_server = 5\<rparr> = Some (Inr (), slice_as_uninit bs, r')
     \<and> length bs = 13 \<and> tr_server r' = 7"
proof -
  obtain bs r' where "getrandom_v03_custom counter_trng 13 \<lparr>tr_conn = 0, tr_server = 5\<rparr> = Some (bs, r')" "length bs = 13" "tr_server r' = 7"
    using counter.custom_exact [of 13 "\<lparr>tr_conn = 0, tr_server = 5\<rparr>"] by auto
  with xous_backends_agree [of "replicate 13 None" counter_pages "\<lparr>tr_conn = 0, tr_server = 5\<rparr>"] show ?thesis
    by (auto simp: counter_pages_def)
qed

end
