(* ===== verification/Getrandom_Host.thy ===== *)
theory Getrandom_Host
  imports Getrandom
begin

text \<open>
  \<open>src/imports/getrandom-02\<close>, the backends for other systems: \<open>util_libc.rs\<close>, \<open>lazy.rs\<close>, \<open>use_file.rs\<close> and
  \<open>linux_android_with_fallback.rs\<close>, which hosted builds on Linux use, \<open>rdrand.rs\<close> and \<open>custom.rs\<close>. The C
  library is the record \<open>libc\<close>. A loop that the system can keep going for ever is a partial function,
  whose \<open>None\<close> is not returning. One thread is modelled, so the mutex of \<open>use_file.rs\<close> is always free;
  \<open>debug_assert!\<close> is that of a release build.
\<close>

section \<open>Definitions\<close>

subsection \<open>The C library\<close>

record 'o libc =
  lc_errno :: "'o \<Rightarrow> int"
  lc_open :: "string \<Rightarrow> 'o \<Rightarrow> int \<times> 'o"
  lc_read :: "int \<Rightarrow> uninit \<Rightarrow> 'o \<Rightarrow> int \<times> uninit \<times> 'o"
  lc_getrandom :: "uninit \<Rightarrow> 'o \<Rightarrow> int \<times> uninit \<times> 'o"
  lc_poll :: "int \<Rightarrow> 'o \<Rightarrow> int \<times> 'o"
  lc_close :: "int \<Rightarrow> 'o \<Rightarrow> 'o"

text \<open>The numbers of Linux.\<close>

abbreviation (input) EPERM :: int where "EPERM \<equiv> 1"
abbreviation (input) EINTR :: int where "EINTR \<equiv> 4"
abbreviation (input) EAGAIN :: int where "EAGAIN \<equiv> 11"
abbreviation (input) ENOSYS :: int where "ENOSYS \<equiv> 38"

definition last_os_error :: "'o libc \<Rightarrow> 'o \<Rightarrow> gr_error" where
  "last_os_error C w = (if 0 < lc_errno C w then Error (of_int (lc_errno C w)) else ERRNO_NOT_POSITIVE)"

text \<open>\<open>sys_fill\<close> is handed the rest of the buffer; what is in it after the call comes back with the result.\<close>

partial_function (option) sys_fill_exact ::
  "'o libc \<Rightarrow> (uninit \<Rightarrow> 'o \<Rightarrow> int \<times> uninit \<times> 'o) \<Rightarrow> uninit \<Rightarrow> 'o \<Rightarrow> ((gr_error + unit) \<times> uninit \<times> 'o) option" where
  "sys_fill_exact C sys_fill buf w =
     (if buf = [] then Some (Inr (), [], w)
      else case sys_fill buf w of (res, buf1, w1) \<Rightarrow>
        if 0 < res then
          (if nat res \<le> length buf1
           then Option.bind (sys_fill_exact C sys_fill (drop (nat res) buf1) w1) (\<lambda>(r, rest, w2).
                  Some (r, take (nat res) buf1 @ rest, w2))
           else Some (Inl UNEXPECTED, buf1, w1))
        else if res = - 1 then
          (if raw_os_error (last_os_error C w1) \<noteq> Some EINTR then Some (Inl (last_os_error C w1), buf1, w1)
           else sys_fill_exact C sys_fill buf1 w1)
        else Some (Inl UNEXPECTED, buf1, w1))"

partial_function (option) open_readonly :: "'o libc \<Rightarrow> string \<Rightarrow> 'o \<Rightarrow> ((gr_error + int) \<times> 'o) option" where
  "open_readonly C path w =
     (case lc_open C path w of (fd, w1) \<Rightarrow>
        if 0 \<le> fd then Some (Inr fd, w1)
        else if raw_os_error (last_os_error C w1) \<noteq> Some EINTR then Some (Inl (last_os_error C w1), w1)
        else open_readonly C path w1)"

subsection \<open>Lazily initialised statics\<close>

text \<open>\<open>LazyUsize\<close>: the value, the new content of the cell and the state after \<open>init\<close>, if that ran.\<close>

definition UNINIT :: u64 where "UNINIT = - 1"

definition unsync_init :: "u64 \<Rightarrow> ('w \<Rightarrow> u64 \<times> 'w) \<Rightarrow> 'w \<Rightarrow> u64 \<times> u64 \<times> 'w" where
  "unsync_init cell init w =
     (if cell = UNINIT then (case init w of (val, w1) \<Rightarrow> (val, val, w1)) else (cell, cell, w))"

definition lazy_bool_init :: "u64 \<Rightarrow> ('w \<Rightarrow> bool \<times> 'w) \<Rightarrow> 'w \<Rightarrow> bool \<times> u64 \<times> 'w" where
  "lazy_bool_init cell init w =
     (case unsync_init cell (\<lambda>v. case init v of (b, v1) \<Rightarrow> (of_bool b, v1)) w of (x, c, w1) \<Rightarrow> (x \<noteq> 0, c, w1))"

subsection \<open>The device file\<close>

text \<open>The statics \<open>HAS_GETRANDOM\<close> and \<open>FD\<close> with the state of the system.\<close>

record 'o host_state =
  hs_has_getrandom :: u64
  hs_fd :: u64
  hs_os :: 'o

definition FD_UNINIT :: u64 where "FD_UNINIT = - 1"

partial_function (option) poll_ready :: "'o libc \<Rightarrow> int \<Rightarrow> 'o \<Rightarrow> ((gr_error + unit) \<times> 'o) option" where
  "poll_ready C fd w =
     (case lc_poll C fd w of (res, w1) \<Rightarrow>
        if 0 \<le> res then Some (Inr (), w1)
        else if raw_os_error (last_os_error C w1) = Some EINTR \<or> raw_os_error (last_os_error C w1) = Some EAGAIN
        then poll_ready C fd w1
        else Some (Inl (last_os_error C w1), w1))"

text \<open>The guard closes the descriptor on both ways out.\<close>

definition wait_until_rng_ready :: "'o libc \<Rightarrow> 'o \<Rightarrow> ((gr_error + unit) \<times> 'o) option" where
  "wait_until_rng_ready C w =
     Option.bind (open_readonly C (''/dev/random'' @ [CHR 0x00]) w) (\<lambda>(r, w1).
       case r of
         Inl e \<Rightarrow> Some (Inl e, w1)
       | Inr fd \<Rightarrow> map_option (\<lambda>(r1, w2). (r1, lc_close C fd w2)) (poll_ready C fd w1))"

definition get_fd :: "'o host_state \<Rightarrow> int option" where
  "get_fd h = (if hs_fd h = FD_UNINIT then None else Some (sint (ucast (hs_fd h) :: u32)))"

definition get_rng_fd :: "'o libc \<Rightarrow> 'o host_state \<Rightarrow> ((gr_error + int) \<times> 'o host_state) option" where
  "get_rng_fd C h =
     (case get_fd h of
        Some fd \<Rightarrow> Some (Inr fd, h)
      | None \<Rightarrow>
          Option.bind (wait_until_rng_ready C (hs_os h)) (\<lambda>(r, w1).
            case r of
              Inl e \<Rightarrow> Some (Inl e, h\<lparr>hs_os := w1\<rparr>)
            | Inr _ \<Rightarrow>
                map_option (\<lambda>(r1, w2).
                  case r1 of
                    Inl e \<Rightarrow> (Inl e, h\<lparr>hs_os := w2\<rparr>)
                  | Inr fd \<Rightarrow> (Inr fd, h\<lparr>hs_fd := of_int fd, hs_os := w2\<rparr>))
                (open_readonly C (''/dev/urandom'' @ [CHR 0x00]) w1)))"

definition with_os :: "'o host_state \<Rightarrow> ((gr_error + unit) \<times> uninit \<times> 'o) option \<Rightarrow> ((gr_error + unit) \<times> uninit \<times> 'o host_state) option" where
  "with_os h = map_option (\<lambda>(r, d, w). (r, d, h\<lparr>hs_os := w\<rparr>))"

definition use_file_getrandom_inner :: "'o libc \<Rightarrow> 'o host_state inner" where
  "use_file_getrandom_inner C dest h =
     Option.bind (get_rng_fd C h) (\<lambda>(r, h1).
       case r of
         Inl e \<Rightarrow> Some (Inl e, dest, h1)
       | Inr fd \<Rightarrow> with_os h1 (sys_fill_exact C (lc_read C fd) dest (hs_os h1)))"

subsection \<open>Linux\<close>

definition is_getrandom_available :: "'o libc \<Rightarrow> 'o \<Rightarrow> bool \<times> 'o" where
  "is_getrandom_available C w =
     (case lc_getrandom C [] w of (res, _, w1) \<Rightarrow>
        if res < 0 then
          (case raw_os_error (last_os_error C w1) of
             Some errno \<Rightarrow> (errno \<noteq> ENOSYS \<and> errno \<noteq> EPERM, w1)
           | None \<Rightarrow> (True, w1))
        else (True, w1))"

definition linux_getrandom_inner :: "'o libc \<Rightarrow> 'o host_state inner" where
  "linux_getrandom_inner C dest h =
     (case lazy_bool_init (hs_has_getrandom h) (is_getrandom_available C) (hs_os h) of (has, cell, w1) \<Rightarrow>
        let h1 = h\<lparr>hs_has_getrandom := cell, hs_os := w1\<rparr> in
        if has then with_os h1 (sys_fill_exact C (lc_getrandom C) dest (hs_os h1))
        else use_file_getrandom_inner C dest h1)"

subsection \<open>RDRAND\<close>

text \<open>The processor: one step of the instruction (\<open>None\<close> when the carry flag is clear) and the leaves of
  \<open>CPUID\<close> that are read, here on \<open>x86_64\<close>.\<close>

record 'c cpu =
  cp_rdrand_step :: "'c \<Rightarrow> u64 option \<times> 'c"
  cp_max_leaf :: u32
  cp_vendor :: "u32 \<times> u32 \<times> u32"
  cp_leaf1_eax :: u32
  cp_leaf1_ecx :: u32

abbreviation RETRY_LIMIT :: nat where "RETRY_LIMIT \<equiv> 10"

fun rdrand_tries :: "nat \<Rightarrow> 'c cpu \<Rightarrow> 'c \<Rightarrow> u64 option \<times> 'c" where
  "rdrand_tries 0 C c = (None, c)"
| "rdrand_tries (Suc n) C c =
     (case cp_rdrand_step C c of
        (Some val, c1) \<Rightarrow> (Some val, c1)
      | (None, c1) \<Rightarrow> rdrand_tries n C c1)"

definition rdrand :: "'c cpu \<Rightarrow> 'c \<Rightarrow> u64 option \<times> 'c" where
  "rdrand C c = rdrand_tries RETRY_LIMIT C c"

text \<open>The rounds of the self-test; \<open>None\<close> is \<open>return false\<close>.\<close>

fun self_test_rounds :: "nat \<Rightarrow> 'c cpu \<Rightarrow> u64 \<Rightarrow> nat \<Rightarrow> 'c \<Rightarrow> nat option \<times> 'c" where
  "self_test_rounds 0 C prev fails c = (Some fails, c)"
| "self_test_rounds (Suc n) C prev fails c =
     (case rdrand C c of
        (Some val, c1) \<Rightarrow>
          (if val = prev then self_test_rounds n C prev (fails + 1) c1 else self_test_rounds n C val fails c1)
      | (None, c1) \<Rightarrow> (None, c1))"

definition self_test :: "'c cpu \<Rightarrow> 'c \<Rightarrow> bool \<times> 'c" where
  "self_test C c =
     (case self_test_rounds 8 C (- 1) 0 c of
        (Some fails, c1) \<Rightarrow> (fails \<le> 2, c1)
      | (None, c1) \<Rightarrow> (False, c1))"

definition is_rdrand_good :: "'c cpu \<Rightarrow> 'c \<Rightarrow> bool \<times> 'c" where
  "is_rdrand_good C c =
     (if cp_max_leaf C < 1 then (False, c)
      else
        let eax = cp_leaf1_eax C;
            amd = (case cp_vendor C of (ebx, edx, ecx) \<Rightarrow>
              to_ne_bytes 4 ebx @ to_ne_bytes 4 edx @ to_ne_bytes 4 ecx = ''AuthenticAMD'');
            base = and (drop_bit 8 eax) 0xF;
            family = (if base = 0xF then base + and (drop_bit 20 eax) 0xFF else base) in
        if amd \<and> family < 0x17 then (False, c)
        else if and (cp_leaf1_ecx C) (push_bit 30 1) = 0 then (False, c)
        else self_test C c)"

text \<open>The whole words of the buffer, then the tail. What was written stays when a later step fails.\<close>

function rdrand_exact :: "'c cpu \<Rightarrow> uninit \<Rightarrow> 'c \<Rightarrow> unit option \<times> uninit \<times> 'c" where
  "rdrand_exact C dest c =
     (if dest = [] then (Some (), [], c)
      else case rdrand C c of
             (None, c1) \<Rightarrow> (None, dest, c1)
           | (Some val, c1) \<Rightarrow>
               (if 8 \<le> length dest then
                  (case rdrand_exact C (drop 8 dest) c1 of (r, d, c2) \<Rightarrow>
                     (r, slice_as_uninit (to_ne_bytes 8 val) @ d, c2))
                else (Some (), slice_as_uninit (take (length dest) (to_ne_bytes 8 val)), c1)))"
  by pat_completeness auto
termination
  by (relation "measure (\<lambda>(_, dest, _). length dest)") auto

declare rdrand_exact.simps [simp del]

text \<open>The state is the static \<open>RDRAND_GOOD\<close> and the processor.\<close>

definition rdrand_getrandom_inner :: "'c cpu \<Rightarrow> (u64 \<times> 'c) inner" where
  "rdrand_getrandom_inner C dest w =
     (case w of (cell, c) \<Rightarrow>
      case lazy_bool_init cell (is_rdrand_good C) c of (good, cell1, c1) \<Rightarrow>
        if \<not> good then Some (Inl NO_RDRAND, dest, (cell1, c1))
        else case rdrand_exact C dest c1 of (r, d, c2) \<Rightarrow> Some (ok_or FAILED_RDRAND r, d, (cell1, c2)))"

subsection \<open>A registered function\<close>

text \<open>\<open>register_custom_getrandom!\<close> wraps the function \<open>f\<close> the program registers: its error code, or 0.\<close>

definition getrandom_custom :: "(bytes \<Rightarrow> 'w \<Rightarrow> (gr_error + unit) \<times> bytes \<times> 'w) \<Rightarrow> bytes \<Rightarrow> 'w \<Rightarrow> u32 \<times> bytes \<times> 'w" where
  "getrandom_custom f buf w =
     (case f buf w of
        (Inr _, d, w1) \<Rightarrow> (0, d, w1)
      | (Inl e, d, w1) \<Rightarrow> (code e, d, w1))"

definition custom_getrandom_inner :: "(bytes \<Rightarrow> 'w \<Rightarrow> (gr_error + unit) \<times> bytes \<times> 'w) \<Rightarrow> 'w inner" where
  "custom_getrandom_inner f dest w =
     (case getrandom_custom f (uninit_slice_fill_zero dest) w of (ret, d, w1) \<Rightarrow>
        Some (if ret = 0 then Inr () else Inl (Error ret), slice_as_uninit d, w1))"

section \<open>Filling by system calls\<close>

text \<open>What the code relies on of a system call that fills a buffer: it keeps the length, writes no unwritten
  cell and, with a positive result, that many bytes.\<close>

definition writes_bytes :: "(uninit \<Rightarrow> 'o \<Rightarrow> int \<times> uninit \<times> 'o) \<Rightarrow> bool" where
  "writes_bytes f \<longleftrightarrow>
     (\<forall>d w res d' w'. f d w = (res, d', w') \<longrightarrow> keeps_init d d' \<and> None \<notin> set (take (nat res) d'))"

lemma writes_bytesD:
  "writes_bytes f \<Longrightarrow> f d w = (res, d', w') \<Longrightarrow> keeps_init d d' \<and> None \<notin> set (take (nat res) d')"
  unfolding writes_bytes_def by blast

definition filled :: "uninit \<Rightarrow> (gr_error + unit) \<times> uninit \<times> 'o \<Rightarrow> bool" where
  "filled d x \<longleftrightarrow> keeps_init d (fst (snd x)) \<and> (fst x = Inr () \<longrightarrow> None \<notin> set (fst (snd x)))"

lemma filled_shift:
  assumes "keeps_init d d1" "None \<notin> set (take n d1)" "filled (drop n d1) (r, rest, w)"
  shows "filled d (r, take n d1 @ rest, w)"
proof -
  have "keeps_init (take n d1 @ drop n d1) (take n d1 @ rest)"
    using assms(3) by (intro keeps_init_append) (simp_all add: filled_def)
  then have "keeps_init d (take n d1 @ rest)" using keeps_init_trans [OF assms(1)] by simp
  with assms(2,3) show ?thesis by (auto simp: filled_def)
qed

lemma filled_trans: "keeps_init d d1 \<Longrightarrow> filled d1 x \<Longrightarrow> filled d x"
  using keeps_init_trans by (auto simp: filled_def)

lemma sys_fill_exact_filled:
  assumes "sys_fill_exact C f d w = Some x"
  shows "writes_bytes f \<longrightarrow> filled d x"
  using assms
proof (rule sys_fill_exact.raw_induct [where P = "\<lambda>_ f d _ x. writes_bytes f \<longrightarrow> filled d x", rotated])
  fix rec C f d w x
  assume IH: "\<And>C f d w x. rec C f d w = Some x \<Longrightarrow> writes_bytes f \<longrightarrow> filled d x"
    and prems: "(if d = [] then Some (Inr (), [], w)
      else case f d w of (res, buf1, w1) \<Rightarrow>
        if 0 < res then
          (if nat res \<le> length buf1
           then Option.bind (rec C f (drop (nat res) buf1) w1) (\<lambda>(r, rest, w2). Some (r, take (nat res) buf1 @ rest, w2))
           else Some (Inl UNEXPECTED, buf1, w1))
        else if res = - 1 then
          (if raw_os_error (last_os_error C w1) \<noteq> Some EINTR then Some (Inl (last_os_error C w1), buf1, w1)
           else rec C f buf1 w1)
        else Some (Inl UNEXPECTED, buf1, w1)) = Some x"
  show "writes_bytes f \<longrightarrow> filled d x"
  proof (cases "d = []")
    case True
    with prems show ?thesis by (auto simp: filled_def)
  next
    case False
    obtain res d1 w1 where st: "f d w = (res, d1, w1)" by (metis prod.collapse)
    show ?thesis
    proof
      assume wb: "writes_bytes f"
      then have k: "keeps_init d d1" "None \<notin> set (take (nat res) d1)" using writes_bytesD [OF wb st] by blast+
      consider (progress) "0 < res" "nat res \<le> length d1"
        | (again) "res = - 1" "raw_os_error (last_os_error C w1) = Some EINTR"
        | (stop) e where "x = (Inl e, d1, w1)"
        using prems False st by (auto split: if_splits)
      then show "filled d x"
      proof cases
        case progress
        with prems False st obtain r rest w2 where
          rest: "rec C f (drop (nat res) d1) w1 = Some (r, rest, w2)" "x = (r, take (nat res) d1 @ rest, w2)"
          by (auto split: bind_splits)
        from IH [OF rest(1)] wb have "filled (drop (nat res) d1) (r, rest, w2)" by blast
        from filled_shift [OF k this] rest(2) show ?thesis by simp
      next
        case again
        with prems False st have "rec C f d1 w1 = Some x" by simp
        with IH wb filled_trans k(1) show ?thesis by blast
      next
        case stop
        with k(1) show ?thesis by (simp add: filled_def)
      qed
    qed
  qed
qed

text \<open>The loop returns when the system interrupts it only finitely often: \<open>pend\<close> bounds the interruptions
  that are still to come.\<close>

lemma sys_fill_exact_returns:
  assumes "writes_bytes f"
    and "\<And>d w res d' w'. f d w = (res, d', w') \<Longrightarrow> pend w' \<le> pend w"
    and "\<And>d w d' w'. f d w = (- 1, d', w') \<Longrightarrow> raw_os_error (last_os_error C w') = Some EINTR \<Longrightarrow> pend w' < (pend w :: nat)"
  shows "\<exists>x. sys_fill_exact C f d w = Some x"
proof (induction "length d + pend w" arbitrary: d w rule: less_induct)
  case less
  obtain res d1 w1 where st: "f d w = (res, d1, w1)" by (metis prod.collapse)
  then have len: "length d1 = length d" using writes_bytesD [OF assms(1) st] by (simp add: keeps_init_def)
  consider (finished) "d = []"
    | (progress) "d \<noteq> []" "0 < res" "nat res \<le> length d1"
    | (again) "d \<noteq> []" "res = - 1" "raw_os_error (last_os_error C w1) = Some EINTR"
    | (stop) "d \<noteq> []" "\<not> (0 < res \<and> nat res \<le> length d1)" "\<not> (res = - 1 \<and> raw_os_error (last_os_error C w1) = Some EINTR)"
    by blast
  then show ?case
  proof cases
    case progress
    have "length (drop (nat res) d1) + pend w1 < length d + pend w" using progress len assms(2) [OF st] by auto
    from less [OF this] progress st show ?thesis
      by (subst sys_fill_exact.simps) auto
  next
    case again
    have "length d1 + pend w1 < length d + pend w" using again len assms(3) st by fastforce
    from less [OF this] again st show ?thesis by (subst sys_fill_exact.simps) auto
  next
    case stop
    with st show ?thesis by (subst sys_fill_exact.simps) auto
  qed (subst sys_fill_exact.simps, simp)
qed

section \<open>The backends meet the contract\<close>

text \<open>A C library whose \<open>read\<close> and \<open>getrandom\<close> write bytes.\<close>

locale writing_libc =
  fixes C :: "'o libc"
  assumes read_writes: "writes_bytes (lc_read C fd)" and getrandom_writes: "writes_bytes (lc_getrandom C)"
begin

lemma with_os_filled:
  "writes_bytes f \<Longrightarrow> with_os h (sys_fill_exact C f d w) = Some (r, d', h') \<Longrightarrow> keeps_init d d' \<and> (r = Inr () \<longrightarrow> None \<notin> set d')"
  using sys_fill_exact_filled by (fastforce simp: with_os_def filled_def)

lemma use_file_filled:
  assumes "use_file_getrandom_inner C d h = Some (r, d', h')"
  shows "keeps_init d d' \<and> (r = Inr () \<longrightarrow> None \<notin> set d')"
proof -
  from assms obtain x h1 where g: "get_rng_fd C h = Some (x, h1)"
    "(case x of Inl e \<Rightarrow> Some (Inl e, d, h1) | Inr fd \<Rightarrow> with_os h1 (sys_fill_exact C (lc_read C fd) d (hs_os h1))) = Some (r, d', h')"
    by (auto simp: use_file_getrandom_inner_def split: bind_splits)
  then show ?thesis using with_os_filled [OF read_writes] by (cases x) auto
qed

lemma linux_filled:
  assumes "linux_getrandom_inner C d h = Some (r, d', h')"
  shows "keeps_init d d' \<and> (r = Inr () \<longrightarrow> None \<notin> set d')"
proof -
  obtain has cell w1 where l: "lazy_bool_init (hs_has_getrandom h) (is_getrandom_available C) (hs_os h) = (has, cell, w1)"
    by (metis prod.collapse)
  show ?thesis
  proof (cases has)
    case True
    with assms l have "with_os (h\<lparr>hs_has_getrandom := cell, hs_os := w1\<rparr>) (sys_fill_exact C (lc_getrandom C) d w1) = Some (r, d', h')"
      by (simp add: linux_getrandom_inner_def Let_def)
    with with_os_filled [OF getrandom_writes] show ?thesis by blast
  next
    case False
    with assms l have "use_file_getrandom_inner C d (h\<lparr>hs_has_getrandom := cell, hs_os := w1\<rparr>) = Some (r, d', h')"
      by (simp add: linux_getrandom_inner_def Let_def)
    then show ?thesis by (rule use_file_filled)
  qed
qed

end

sublocale writing_libc < device_file: backend "use_file_getrandom_inner C"
  by unfold_locales (use use_file_filled in blast)+

sublocale writing_libc < linux_call: backend "linux_getrandom_inner C"
  by unfold_locales (use linux_filled in blast)+

context writing_libc
begin

lemma linux_backend: "backend (linux_getrandom_inner C)"
  by unfold_locales

end

lemma rdrand_exact_word:
  "8 \<le> length d \<Longrightarrow> rdrand C c = (Some x, c1) \<Longrightarrow>
     rdrand_exact C d c = (case rdrand_exact C (drop 8 d) c1 of (r, d1, c2) \<Rightarrow> (r, slice_as_uninit (to_ne_bytes 8 x) @ d1, c2))"
  by (subst rdrand_exact.simps) auto

lemma rdrand_exact_filled:
  "rdrand_exact C d c = (r, d', c') \<Longrightarrow> keeps_init d d' \<and> (r = Some () \<longrightarrow> None \<notin> set d')"
proof (induction "length d" arbitrary: d c r d' c' rule: less_induct)
  case less
  obtain v c1 where st: "rdrand C c = (v, c1)" by (cases "rdrand C c")
  consider (finished) "d = []" | (failed) "d \<noteq> []" "v = None"
    | (word) x where "8 \<le> length d" "v = Some x" | (tail) x where "d \<noteq> []" "length d < 8" "v = Some x"
    by (metis list.size(3) not_le not_None_eq)
  then show ?case
  proof cases
    case word
    then obtain r1 d1 where rec: "rdrand_exact C (drop 8 d) c1 = (r1, d1, c')" "r = r1" "d' = slice_as_uninit (to_ne_bytes 8 x) @ d1"
      using less.prems st rdrand_exact_word [of d C c x c1] by (cases "rdrand_exact C (drop 8 d) c1") auto
    have ih: "keeps_init (drop 8 d) d1 \<and> (r1 = Some () \<longrightarrow> None \<notin> set d1)"
      using less.hyps [OF _ rec(1)] word(1) by simp
    have "keeps_init (take 8 d) (slice_as_uninit (to_ne_bytes 8 x))"
      using word(1) by (intro keeps_init_full) simp_all
    from keeps_init_append [OF this conjunct1 [OF ih]] ih rec(2,3) show ?thesis by auto
  next
    case tail
    then have "d' = slice_as_uninit (take (length d) (to_ne_bytes 8 x))"
      using less.prems st by (subst (asm) rdrand_exact.simps) simp
    with tail(2) show ?thesis by (auto intro: keeps_init_full)
  next
    case failed
    with less.prems st show ?thesis by (subst (asm) rdrand_exact.simps) auto
  qed (use less.prems in \<open>subst (asm) rdrand_exact.simps, auto\<close>)
qed

lemma rdrand_filled:
  assumes "rdrand_getrandom_inner C d w = Some (r, d', w')"
  shows "keeps_init d d' \<and> (r = Inr () \<longrightarrow> None \<notin> set d')"
proof -
  obtain cell c where w: "w = (cell, c)" by (cases w)
  obtain good cell1 c1 where l: "lazy_bool_init cell (is_rdrand_good C) c = (good, cell1, c1)" by (metis prod.collapse)
  show ?thesis
  proof (cases good)
    case True
    obtain x d1 c2 where e: "rdrand_exact C d c1 = (x, d1, c2)" by (metis prod.collapse)
    with assms w l True have "r = ok_or FAILED_RDRAND x" "d' = d1" by (auto simp: rdrand_getrandom_inner_def)
    with rdrand_exact_filled [OF e] show ?thesis by (cases x) auto
  qed (use assms w l in \<open>auto simp: rdrand_getrandom_inner_def\<close>)
qed

interpretation rdrand: backend "rdrand_getrandom_inner C" for C :: "'c cpu"
  by unfold_locales (use rdrand_filled in blast)+

text \<open>A registered function gets the slice by reference, so it cannot change its length.\<close>

locale registered =
  fixes f :: "bytes \<Rightarrow> 'w \<Rightarrow> (gr_error + unit) \<times> bytes \<times> 'w"
  assumes same_slice: "f d w = (r, d', w') \<Longrightarrow> length d' = length d"

sublocale registered < custom: backend "custom_getrandom_inner f"
proof
  fix d d' :: uninit and w w' r
  assume st: "custom_getrandom_inner f d w = Some (r, d', w')"
  obtain x b w1 where x: "f (uninit_slice_fill_zero d) w = (x, b, w1)" by (metis prod.collapse)
  with st have "d' = slice_as_uninit b" by (cases x) (auto simp: custom_getrandom_inner_def getrandom_custom_def)
  with same_slice [OF x] show "keeps_init d d'" by (auto simp: uninit_slice_fill_zero_def intro: keeps_init_full)
next
  fix d d' :: uninit and w w'
  assume st: "custom_getrandom_inner f d w = Some (Inr (), d', w')"
  obtain x b w1 where x: "f (uninit_slice_fill_zero d) w = (x, b, w1)" by (metis prod.collapse)
  with st have "d' = slice_as_uninit b" by (cases x) (auto simp: custom_getrandom_inner_def getrandom_custom_def)
  then show "None \<notin> set d'" by simp
qed

text \<open>A system whose calls are interrupted as often as its state says, then write half of the rest.\<close>

definition slow_fill :: "uninit \<Rightarrow> nat \<Rightarrow> int \<times> uninit \<times> nat" where
  "slow_fill d w =
     (if w = 0 then (let n = (length d + 1) div 2 in (int n, replicate n (Some CHR ''r'') @ drop n d, 0)) else (- 1, d, w - 1))"

definition slow_libc :: "nat libc" where
  "slow_libc =
     \<lparr>lc_errno = (\<lambda>_. EINTR), lc_open = (\<lambda>_ w. if w = 0 then (3, 0) else (- 1, w - 1)), lc_read = (\<lambda>_. slow_fill),
      lc_getrandom = slow_fill, lc_poll = (\<lambda>_ w. if w = 0 then (1, 0) else (- 1, w - 1)), lc_close = (\<lambda>_ w. w)\<rparr>"

lemma slow_fill_writes: "writes_bytes slow_fill"
proof -
  have le: "(length d + 1) div 2 \<le> length d" for d :: uninit by simp
  have "keeps_init d (replicate ((length d + 1) div 2) (Some CHR ''r'') @ drop ((length d + 1) div 2) d)" for d :: uninit
    using le [of d] by (auto simp: keeps_init_def nth_append)
  then show ?thesis by (auto simp: writes_bytes_def slow_fill_def Let_def split: if_splits)
qed

interpretation slow: writing_libc slow_libc
  by unfold_locales (simp_all add: slow_libc_def slow_fill_writes)

interpretation refused: registered "\<lambda>d (w :: nat). (Inl (Error (CUSTOM_START + 42)), d, w)"
  by unfold_locales simp

section \<open>The self-test of RDRAND\<close>

text \<open>The values of successive rounds, and how often a value repeats its predecessor.\<close>

fun draws :: "nat \<Rightarrow> 'c cpu \<Rightarrow> 'c \<Rightarrow> u64 list option" where
  "draws 0 C c = Some []"
| "draws (Suc n) C c =
     (case rdrand C c of (Some v, c1) \<Rightarrow> map_option (Cons v) (draws n C c1) | (None, _) \<Rightarrow> None)"

fun repeats :: "u64 \<Rightarrow> u64 list \<Rightarrow> nat" where
  "repeats p [] = 0"
| "repeats p (v # vs) = (if v = p then 1 else 0) + repeats v vs"

lemma self_test_rounds_eq:
  "fst (self_test_rounds n C prev fails c) = map_option (\<lambda>vs. fails + repeats prev vs) (draws n C c)"
proof (induction n arbitrary: prev fails c)
  case (Suc n)
  obtain x c1 where "rdrand C c = (x, c1)" by (cases "rdrand C c")
  with Suc.IH show ?case by (cases x) (simp_all add: option.map_comp comp_def)
qed simp

section \<open>Properties\<close>

text \<open>No unwritten byte is handed out: the \<open>unsafe\<close> cast of \<open>getrandom_uninit\<close> is defined whenever the backend
  succeeds, on Linux with a C library that writes the bytes it reports and on Xous with any TRNG server,
  and the slice has the length asked for. \<open>getrandom\<close> leaves a defined slice behind also on errors.\<close>

theorem getrandom_never_uninit:
  assumes "writing_libc C"
  shows "(getrandom_uninit (linux_getrandom_inner C) d h = Some (Inr b, d', h') \<longrightarrow> (\<exists>bs. b = Some bs \<and> length bs = length d))
    \<and> (getrandom_uninit (xous_getrandom_inner T) d q = Some (Inr b, d', q') \<longrightarrow> (\<exists>bs. b = Some bs \<and> length bs = length d))
    \<and> (getrandom (linux_getrandom_inner C) buf h = Some (r, b, h') \<longrightarrow> (\<exists>bs. b = Some bs \<and> length bs = length buf))"
proof -
  note lin = writing_libc.linux_backend [OF assms]
  show ?thesis
    using backend.uninit_sound [OF lin, of d h "Inr b" d' h'] xous.uninit_sound [of T d q "Inr b" d' q']
      backend.getrandom_defined [OF lin, of buf h r b h'] by auto
qed

lemma slow_run:
  "\<exists>b h'. getrandom_uninit (linux_getrandom_inner slow_libc) [None, None, None] \<lparr>hs_has_getrandom = UNINIT, hs_fd = FD_UNINIT, hs_os = 1\<rparr>
     = Some (Inr b, map Some ''rrr'', h')"
proof -
  have avail: "is_getrandom_available slow_libc 1 = (True, 0)"
    by (simp add: is_getrandom_available_def slow_libc_def slow_fill_def last_os_error_def raw_os_error_def INTERNAL_START_def)
  have "sys_fill_exact slow_libc (lc_getrandom slow_libc) [None] 0 = Some (Inr (), [Some CHR ''r''], 0)"
    by (subst sys_fill_exact.simps, subst sys_fill_exact.simps) (simp add: slow_libc_def slow_fill_def)
  moreover have "lc_getrandom slow_libc [None, None, None] 0 = (2, [Some CHR ''r'', Some CHR ''r'', None], 0)"
    by code_simp
  ultimately have "sys_fill_exact slow_libc (lc_getrandom slow_libc) [None, None, None] 0 = Some (Inr (), map Some ''rrr'', 0)"
    by (subst sys_fill_exact.simps) (simp add: numeral_2_eq_2)
  with avail show ?thesis
    by (simp add: getrandom_uninit_def linux_getrandom_inner_def lazy_bool_init_def unsync_init_def UNINIT_def with_os_def)
qed

theorem getrandom_never_uninit_witness:
  "\<exists>bs h'. getrandom_uninit (linux_getrandom_inner slow_libc) [None, None, None] \<lparr>hs_has_getrandom = UNINIT, hs_fd = FD_UNINIT, hs_os = 1\<rparr>
     = Some (Inr (Some bs), map Some ''rrr'', h') \<and> length bs = 3"
proof -
  obtain b h' where run: "getrandom_uninit (linux_getrandom_inner slow_libc) [None, None, None]
      \<lparr>hs_has_getrandom = UNINIT, hs_fd = FD_UNINIT, hs_os = 1\<rparr> = Some (Inr b, map Some ''rrr'', h')"
    using slow_run by blast
  with getrandom_never_uninit [OF slow.writing_libc_axioms, THEN conjunct1, THEN mp, OF run] show ?thesis by auto
qed

text \<open>Filling by system calls ends: when the system interrupts the call only finitely often, the loop returns;
  a success has written every byte.\<close>

theorem fill_returns:
  assumes "writing_libc C"
    and "\<And>d w res d' w'. lc_getrandom C d w = (res, d', w') \<Longrightarrow> pend w' \<le> pend w"
    and "\<And>d w d' w'. lc_getrandom C d w = (- 1, d', w') \<Longrightarrow> raw_os_error (last_os_error C w') = Some EINTR
      \<Longrightarrow> pend w' < (pend w :: nat)"
  shows "\<exists>r d' w'. sys_fill_exact C (lc_getrandom C) d w = Some (r, d', w') \<and> length d' = length d
    \<and> (r = Inr () \<longrightarrow> None \<notin> set d')"
proof -
  have wb: "writes_bytes (lc_getrandom C)" using assms(1) by (rule writing_libc.getrandom_writes)
  have "\<exists>x. sys_fill_exact C (lc_getrandom C) d w = Some x"
    by (rule sys_fill_exact_returns [OF wb]) (erule assms(2), erule (1) assms(3))
  then obtain r d' w' where st: "sys_fill_exact C (lc_getrandom C) d w = Some (r, d', w')" by auto
  with sys_fill_exact_filled [OF st] wb show ?thesis by (auto simp: filled_def keeps_init_def)
qed

lemma slow_pend:
  "lc_getrandom slow_libc d w = (res, d', w') \<Longrightarrow> w' \<le> w"
  "lc_getrandom slow_libc d w = (- 1, d', w') \<Longrightarrow> w' < w"
  by (auto simp: slow_libc_def slow_fill_def Let_def split: if_splits)

theorem fill_returns_witness:
  "\<exists>r d' w'. sys_fill_exact slow_libc (lc_getrandom slow_libc) [None, None, None] 2 = Some (r, d', w') \<and> length d' = 3"
proof -
  have "\<exists>r d' w'. sys_fill_exact slow_libc (lc_getrandom slow_libc) [None, None, None] 2 = Some (r, d', w')
      \<and> length d' = length [None, None, None :: char option] \<and> (r = Inr () \<longrightarrow> None \<notin> set d')"
    by (rule fill_returns [OF slow.writing_libc_axioms, where pend = id])
      (unfold id_apply, erule slow_pend(1), erule slow_pend(2))
  then show ?thesis by auto
qed

text \<open>A generator that repeats itself is refused: the self-test accepts exactly when eight draws succeed and at most
  two of them equal the value before, the first one being compared with all ones.\<close>

theorem self_test_spec: "fst (self_test C c) \<longleftrightarrow> (\<exists>vs. draws 8 C c = Some vs \<and> repeats (- 1) vs \<le> 2)"
proof -
  obtain x c1 where "self_test_rounds 8 C (- 1) 0 c = (x, c1)" by (cases "self_test_rounds 8 C (- 1) 0 c")
  with self_test_rounds_eq [of 8 C "- 1" 0 c] show ?thesis
    by (cases x; cases "draws 8 C c") (auto simp: self_test_def)
qed

end
