(* ===== verification/Getrandom_Systems.thy ===== *)
theory Getrandom_Systems
  imports Getrandom_Host
begin

text \<open>
  \<open>src/imports/getrandom-02\<close>, the backends of the systems that are left: \<open>getentropy.rs\<close>, \<open>getrandom.rs\<close>,
  \<open>linux_android.rs\<close>, \<open>solaris.rs\<close>, \<open>netbsd.rs\<close>, \<open>fuchsia.rs\<close>, \<open>apple-other.rs\<close>, \<open>wasi.rs\<close>, \<open>hermit.rs\<close>, \<open>vxworks.rs\<close>,
  \<open>solid.rs\<close>, \<open>espidf.rs\<close>, \<open>windows.rs\<close> and \<open>js.rs\<close>, and the choice among all backends in \<open>lib.rs\<close>. The calls of the
  systems are the record \<open>os_calls\<close>, the JavaScript environment is the record \<open>js\<close>. Lengths that a system takes as a
  word are words: that the casts lose nothing is part of the proofs.
\<close>

section \<open>Definitions\<close>

abbreviation IOS_SEC_RANDOM :: gr_error where "IOS_SEC_RANDOM \<equiv> internal_error 3"
abbreviation WEB_CRYPTO :: gr_error where "WEB_CRYPTO \<equiv> internal_error 7"
abbreviation WEB_GET_RANDOM_VALUES :: gr_error where "WEB_GET_RANDOM_VALUES \<equiv> internal_error 8"
abbreviation VXWORKS_RAND_SECURE :: gr_error where "VXWORKS_RAND_SECURE \<equiv> internal_error 11"
abbreviation NODE_CRYPTO :: gr_error where "NODE_CRYPTO \<equiv> internal_error 12"
abbreviation NODE_RANDOM_FILL_SYNC :: gr_error where "NODE_RANDOM_FILL_SYNC \<equiv> internal_error 13"
abbreviation NODE_ES_MODULE :: gr_error where "NODE_ES_MODULE \<equiv> internal_error 14"

text \<open>The calls, each with the buffer it is handed; a function that \<open>dlsym\<close> found is called by its address.\<close>

record 'o os_calls =
  oc_libc :: "'o libc"
  oc_getentropy :: "uninit \<Rightarrow> 'o \<Rightarrow> int \<times> uninit \<times> 'o"
  oc_getrandom_flags :: "u32 \<Rightarrow> uninit \<Rightarrow> 'o \<Rightarrow> int \<times> uninit \<times> 'o"
  oc_dlsym :: "string \<Rightarrow> 'o \<Rightarrow> u64 \<times> 'o"
  oc_call :: "u64 \<Rightarrow> uninit \<Rightarrow> 'o \<Rightarrow> int \<times> uninit \<times> 'o"
  oc_sysctl_arnd :: "uninit \<Rightarrow> u64 \<Rightarrow> 'o \<Rightarrow> int \<times> uninit \<times> u64 \<times> 'o"
  oc_zx_cprng_draw :: "uninit \<Rightarrow> 'o \<Rightarrow> uninit \<times> 'o"
  oc_esp_fill_random :: "uninit \<Rightarrow> 'o \<Rightarrow> uninit \<times> 'o"
  oc_CCRandomGenerateBytes :: "uninit \<Rightarrow> 'o \<Rightarrow> int \<times> uninit \<times> 'o"
  oc_random_get :: "uninit \<Rightarrow> 'o \<Rightarrow> (u16 + unit) \<times> uninit \<times> 'o"
  oc_sys_read_entropy :: "uninit \<Rightarrow> 'o \<Rightarrow> int \<times> uninit \<times> 'o"
  oc_randSecure :: "'o \<Rightarrow> int \<times> 'o"
  oc_usleep :: "nat \<Rightarrow> 'o \<Rightarrow> 'o"
  oc_randABytes :: "uninit \<Rightarrow> u32 \<Rightarrow> 'o \<Rightarrow> int \<times> uninit \<times> 'o"
  oc_SOLID_RNG_SampleRandomBytes :: "uninit \<Rightarrow> 'o \<Rightarrow> u32 \<times> uninit \<times> 'o"
  oc_BCryptGenRandom :: "uninit \<Rightarrow> u32 \<Rightarrow> u32 \<Rightarrow> 'o \<Rightarrow> u32 \<times> uninit \<times> 'o"
  oc_RtlGenRandom :: "uninit \<Rightarrow> u32 \<Rightarrow> 'o \<Rightarrow> u8 \<times> uninit \<times> 'o"
  oc_registered :: "bytes \<Rightarrow> 'o \<Rightarrow> (gr_error + unit) \<times> bytes \<times> 'o"

subsection \<open>Chunks\<close>

text \<open>\<open>for chunk in dest.chunks_mut(n)\<close> with a body that may return early; \<open>chunks_mut(0)\<close> panics.\<close>

function for_chunks :: "nat \<Rightarrow> 'w inner \<Rightarrow> 'w inner" where
  "for_chunks n body dest w =
     (if n = 0 then None
      else if dest = [] then Some (Inr (), [], w)
      else
        Option.bind (body (take n dest) w) (\<lambda>(r, chunk, w1).
          case r of
            Inl e \<Rightarrow> Some (Inl e, chunk @ drop n dest, w1)
          | Inr _ \<Rightarrow> map_option (\<lambda>(r1, rest, w2). (r1, chunk @ rest, w2)) (for_chunks n body (drop n dest) w1)))"
  by pat_completeness auto
termination
  by (relation "measure (\<lambda>(_, _, dest, _). length dest)") auto

declare for_chunks.simps [simp del]

subsection \<open>Unix\<close>

definition getentropy_getrandom_inner :: "'o os_calls \<Rightarrow> 'o inner" where
  "getentropy_getrandom_inner S =
     for_chunks 256 (\<lambda>chunk w.
       case oc_getentropy S chunk w of (ret, c, w1) \<Rightarrow>
         Some (if ret \<noteq> 0 then Inl (last_os_error (oc_libc S) w1) else Inr (), c, w1))"

definition getrandom_getrandom_inner :: "'o os_calls \<Rightarrow> 'o inner" where
  "getrandom_getrandom_inner S dest w = sys_fill_exact (oc_libc S) (oc_getrandom_flags S 0) dest w"

definition linux_android_getrandom_inner :: "'o os_calls \<Rightarrow> 'o inner" where
  "linux_android_getrandom_inner S dest w = sys_fill_exact (oc_libc S) (lc_getrandom (oc_libc S)) dest w"

definition MAX_BYTES :: nat where "MAX_BYTES = 1024"

abbreviation (input) GRND_RANDOM :: u32 where "GRND_RANDOM \<equiv> 2"

definition solaris_getrandom_inner :: "'o os_calls \<Rightarrow> 'o inner" where
  "solaris_getrandom_inner S =
     for_chunks MAX_BYTES (\<lambda>chunk w.
       case oc_getrandom_flags S GRND_RANDOM chunk w of (ret, c, w1) \<Rightarrow>
         Some (if ret \<le> 0 then Inl (last_os_error (oc_libc S) w1)
               else if nat ret \<noteq> length chunk then Inl UNEXPECTED
               else Inr (), c, w1))"

text \<open>\<open>Weak\<close>: a cell with the address of the function, 0 when there is none, \<open>UNINIT\<close> before the first use.\<close>

definition WEAK_UNINIT :: u64 where "WEAK_UNINIT = 1"

definition nonnull :: "u64 \<Rightarrow> u64 option" where
  "nonnull addr = (if addr = 0 then None else Some addr)"

definition weak_ptr :: "'o os_calls \<Rightarrow> string \<Rightarrow> u64 \<times> 'o \<Rightarrow> u64 option \<times> u64 \<times> 'o" where
  "weak_ptr S name cw =
     (case cw of (cell, w) \<Rightarrow>
        if cell = WEAK_UNINIT then (case oc_dlsym S name w of (addr, w1) \<Rightarrow> (nonnull addr, addr, w1))
        else (nonnull cell, cell, w))"

definition kern_arnd :: "'o os_calls \<Rightarrow> uninit \<Rightarrow> 'o \<Rightarrow> int \<times> uninit \<times> 'o" where
  "kern_arnd S buf w =
     (case oc_sysctl_arnd S buf (of_nat (length buf)) w of (ret, b, len, w1) \<Rightarrow>
        (if ret = - 1 then - 1 else sint len, b, w1))"

definition netbsd_getrandom_inner :: "'o os_calls \<Rightarrow> (u64 \<times> 'o) inner" where
  "netbsd_getrandom_inner S dest cw =
     (case weak_ptr S (''getrandom'' @ [CHR 0x00]) cw of (fptr, cell, w1) \<Rightarrow>
        map_option (\<lambda>(r, d, w2). (r, d, (cell, w2)))
          (case fptr of
             Some func \<Rightarrow> sys_fill_exact (oc_libc S) (oc_call S func) dest w1
           | None \<Rightarrow> for_chunks 256 (\<lambda>chunk. sys_fill_exact (oc_libc S) (kern_arnd S) chunk) dest w1))"

subsection \<open>One call for the whole buffer\<close>

definition fuchsia_getrandom_inner :: "'o os_calls \<Rightarrow> 'o inner" where
  "fuchsia_getrandom_inner S dest w = (case oc_zx_cprng_draw S dest w of (d, w1) \<Rightarrow> Some (Inr (), d, w1))"

definition espidf_getrandom_inner :: "'o os_calls \<Rightarrow> 'o inner" where
  "espidf_getrandom_inner S dest w = (case oc_esp_fill_random S dest w of (d, w1) \<Rightarrow> Some (Inr (), d, w1))"

definition apple_getrandom_inner :: "'o os_calls \<Rightarrow> 'o inner" where
  "apple_getrandom_inner S dest w =
     (case oc_CCRandomGenerateBytes S dest w of (ret, d, w1) \<Rightarrow> Some (if ret \<noteq> 0 then Inl IOS_SEC_RANDOM else Inr (), d, w1))"

definition wasi_getrandom_inner :: "'o os_calls \<Rightarrow> 'o inner" where
  "wasi_getrandom_inner S dest w =
     (case oc_random_get S dest w of (res, d, w1) \<Rightarrow>
        Some (map_err (\<lambda>e. if e = 0 then ERRNO_NOT_POSITIVE else Error (ucast e)) res, d, w1))"

text \<open>An \<open>i32\<close> is the word of its bits. The negation is the one of a release build, which wraps.\<close>

definition solid_getrandom_inner :: "'o os_calls \<Rightarrow> 'o inner" where
  "solid_getrandom_inner S dest w =
     (case oc_SOLID_RNG_SampleRandomBytes S dest w of (ret, d, w1) \<Rightarrow>
        if 0 \<le> sint ret then Some (Inr (), d, w1)
        else if - ret = 0 then None
        else Some (Inl (Error (- ret)), d, w1))"

definition solid_raw_os_error :: "gr_error \<Rightarrow> int option" where
  "solid_raw_os_error e = (if code e < INTERNAL_START then Some (- sint (code e)) else None)"

subsection \<open>Hermit\<close>

definition MIN_RET_CODE :: int where "MIN_RET_CODE = - (2 ^ 31 - 1)"

partial_function (option) hermit_getrandom_inner :: "'o os_calls \<Rightarrow> 'o inner" where
  "hermit_getrandom_inner S dest w =
     (if dest = [] then Some (Inr (), [], w)
      else case oc_sys_read_entropy S dest w of (res, d, w1) \<Rightarrow>
        if 0 < res \<and> nat res \<le> length dest then
          Option.bind (hermit_getrandom_inner S (drop (nat res) d) w1) (\<lambda>(r, rest, w2). Some (r, take (nat res) d @ rest, w2))
        else Some (Inl (if MIN_RET_CODE \<le> res \<and> res \<le> - 1 then Error (of_int (- res)) else UNEXPECTED), d, w1))"

subsection \<open>VxWorks\<close>

text \<open>The loop over \<open>RNG_INIT\<close>; \<open>None\<close> when the generator is never ready.\<close>

partial_function (option) rng_init :: "'o os_calls \<Rightarrow> bool \<times> 'o \<Rightarrow> ((gr_error + unit) \<times> bool \<times> 'o) option" where
  "rng_init S s =
     (case s of (ready, w) \<Rightarrow>
        if ready then Some (Inr (), s)
        else case oc_randSecure S w of (ret, w1) \<Rightarrow>
          if ret < 0 then Some (Inl VXWORKS_RAND_SECURE, (ready, w1))
          else if 0 < ret then Some (Inr (), (True, w1))
          else rng_init S (ready, oc_usleep S 10 w1))"

definition I32_MAX :: nat where "I32_MAX = 2 ^ 31 - 1"

definition vxworks_getrandom_inner :: "'o os_calls \<Rightarrow> (bool \<times> 'o) inner" where
  "vxworks_getrandom_inner S dest s =
     Option.bind (rng_init S s) (\<lambda>(r, s1).
       case r of
         Inl e \<Rightarrow> Some (Inl e, dest, s1)
       | Inr _ \<Rightarrow>
           for_chunks I32_MAX (\<lambda>chunk (ready, w).
             case oc_randABytes S chunk (of_nat (length chunk)) w of (ret, c, w1) \<Rightarrow>
               Some (if ret \<noteq> 0 then Inl (last_os_error (oc_libc S) w1) else Inr (), c, (ready, w1))) dest s1)"

subsection \<open>Windows\<close>

definition BCRYPT_USE_SYSTEM_PREFERRED_RNG :: u32 where "BCRYPT_USE_SYSTEM_PREFERRED_RNG = 2"

definition U32_MAX :: nat where "U32_MAX = 2 ^ 32 - 1"

text \<open>One chunk: a \<open>continue\<close> is \<open>Inr ()\<close>. On the UWP targets there is no fallback.\<close>

definition windows_chunk :: "'o os_calls \<Rightarrow> bool \<Rightarrow> 'o inner" where
  "windows_chunk S uwp chunk w =
     (case oc_BCryptGenRandom S chunk (of_nat (length chunk)) BCRYPT_USE_SYSTEM_PREFERRED_RNG w of (ret, c, w1) \<Rightarrow>
        if drop_bit 30 ret = 3 then
          (if uwp then Some (Inl (Error (xor ret (push_bit 31 1))), c, w1)
           else case oc_RtlGenRandom S c (of_nat (length chunk)) w1 of (ret1, c1, w2) \<Rightarrow>
             Some (if ret1 \<noteq> 0 then Inr () else Inl (Error (xor ret (push_bit 31 1))), c1, w2))
        else Some (Inr (), c, w1))"

definition windows_getrandom_inner :: "'o os_calls \<Rightarrow> bool \<Rightarrow> 'o inner" where
  "windows_getrandom_inner S uwp = for_chunks U32_MAX (windows_chunk S uwp)"

subsection \<open>JavaScript\<close>

text \<open>The properties and functions of the environment that are used; values are of type \<open>'v\<close>, a failed \<open>Result\<close>
  carries nothing that is looked at. Bytes of JavaScript are always initialised.\<close>

record ('o, 'v) js =
  js_crypto :: "'o \<Rightarrow> 'v"
  js_ms_crypto :: "'o \<Rightarrow> 'v"
  js_process :: "'o \<Rightarrow> 'v"
  js_versions :: "'v \<Rightarrow> 'o \<Rightarrow> 'v"
  js_node :: "'v \<Rightarrow> 'o \<Rightarrow> 'v"
  js_is_object :: "'v \<Rightarrow> bool"
  js_is_string :: "'v \<Rightarrow> bool"
  js_is_function :: "'v \<Rightarrow> bool"
  js_require_fn :: "'o \<Rightarrow> 'v option"
  js_call1 :: "'v \<Rightarrow> string \<Rightarrow> 'o \<Rightarrow> 'v option \<times> 'o"
  js_random_fill_sync :: "'v \<Rightarrow> uninit \<Rightarrow> 'o \<Rightarrow> bool \<times> uninit \<times> 'o"
  js_get_random_values :: "'v \<Rightarrow> bytes \<Rightarrow> 'o \<Rightarrow> bool \<times> bytes \<times> 'o"

datatype 'v rng_source = Node 'v | Web 'v bytes

definition WEB_CRYPTO_BUFFER_SIZE :: nat where "WEB_CRYPTO_BUFFER_SIZE = 256"

definition NODE_MAX_BUFFER_SIZE :: nat where "NODE_MAX_BUFFER_SIZE = 2 ^ 31 - 1"

definition is_node :: "('o, 'v) js \<Rightarrow> 'o \<Rightarrow> bool" where
  "is_node J w =
     (let process = js_process J w; versions = js_versions J process w in
      js_is_object J process \<and> js_is_object J versions \<and> js_is_string J (js_node J versions w))"

definition getrandom_init :: "('o, 'v) js \<Rightarrow> 'o \<Rightarrow> (gr_error + 'v rng_source) \<times> 'o" where
  "getrandom_init J w =
     (let web = (\<lambda>crypto. (Inr (Web crypto (replicate WEB_CRYPTO_BUFFER_SIZE (CHR 0x00))), w)) in
      if js_is_object J (js_crypto J w) then web (js_crypto J w)
      else if is_node J w then
        (case js_require_fn J w of
           None \<Rightarrow> (Inl NODE_ES_MODULE, w)
         | Some require_fn \<Rightarrow>
             if \<not> js_is_function J require_fn then (Inl NODE_ES_MODULE, w)
             else (case js_call1 J require_fn ''crypto'' w of
                     (Some n, w1) \<Rightarrow> (Inr (Node n), w1)
                   | (None, w1) \<Rightarrow> (Inl NODE_CRYPTO, w1)))
      else if js_is_object J (js_ms_crypto J w) then web (js_ms_crypto J w)
      else (Inl WEB_CRYPTO, w))"

definition node_chunk :: "('o, 'v) js \<Rightarrow> 'v \<Rightarrow> 'o inner" where
  "node_chunk J n chunk w =
     (case js_random_fill_sync J n chunk w of (ok, c, w1) \<Rightarrow> Some (if ok then Inr () else Inl NODE_RANDOM_FILL_SYNC, c, w1))"

text \<open>\<open>subarray\<close> is a view: what is written to it is written to the buffer of the source.\<close>

definition web_chunk :: "('o, 'v) js \<Rightarrow> 'v \<Rightarrow> (bytes \<times> 'o) inner" where
  "web_chunk J crypto chunk bw =
     (case bw of (buf, w) \<Rightarrow>
      case js_get_random_values J crypto (take (length chunk) buf) w of (ok, sub_buf, w1) \<Rightarrow>
        let buf1 = sub_buf @ drop (length chunk) buf in
        if ok then Some (Inr (), slice_as_uninit sub_buf, (buf1, w1)) else Some (Inl WEB_GET_RANDOM_VALUES, chunk, (buf1, w1)))"

text \<open>The state is the thread-local \<open>RNG_SOURCE\<close>, \<open>None\<close> before the first use, with the environment.\<close>

definition source_of :: "('o, 'v) js \<Rightarrow> (gr_error + 'v rng_source) option \<times> 'o \<Rightarrow> (gr_error + 'v rng_source) \<times> 'o" where
  "source_of J s = (case s of (Some src, w) \<Rightarrow> (src, w) | (None, w) \<Rightarrow> getrandom_init J w)"

definition js_getrandom_inner :: "('o, 'v) js \<Rightarrow> ((gr_error + 'v rng_source) option \<times> 'o) inner" where
  "js_getrandom_inner J dest s =
     (case source_of J s of
        (Inl e, w) \<Rightarrow> Some (Inl e, dest, (Some (Inl e), w))
      | (Inr (Node n), w) \<Rightarrow>
          map_option (\<lambda>(r, d, w1). (r, d, (Some (Inr (Node n)), w1))) (for_chunks NODE_MAX_BUFFER_SIZE (node_chunk J n) dest w)
      | (Inr (Web crypto buf), w) \<Rightarrow>
          map_option (\<lambda>(r, d, (buf1, w1)). (r, d, (Some (Inr (Web crypto buf1)), w1)))
            (for_chunks WEB_CRYPTO_BUFFER_SIZE (web_chunk J crypto) dest (buf, w)))"

subsection \<open>The choice of the backend\<close>

text \<open>The \<open>cfg\<close> of a build that \<open>lib.rs\<close> looks at, and the module it makes \<open>imp\<close>; \<open>None\<close> is a compile error.\<close>

record target =
  target_os :: string
  target_arch :: string
  target_env :: string
  target_windows :: bool
  feat_linux_disable_fallback :: bool
  feat_rdrand :: bool
  feat_js :: bool
  feat_custom :: bool

datatype imp_mod =
  ImpXous | ImpUseFile | ImpGetentropy | ImpGetrandom | ImpLinuxFallback | ImpLinux | ImpSolaris | ImpNetbsd | ImpFuchsia
  | ImpApple | ImpWasi | ImpHermit | ImpVxworks | ImpSolid | ImpEspidf | ImpWindows | ImpRdrand | ImpJs | ImpCustom

definition needs_fallback :: "target \<Rightarrow> bool" where
  "needs_fallback t \<longleftrightarrow>
     target_os t = ''android'' \<and> target_arch t \<in> set [''aarch64'', ''arm'', ''x86'', ''x86_64'']
     \<or> target_os t = ''linux'' \<and> (target_arch t \<in> set [''aarch64'', ''arm'', ''powerpc'', ''powerpc64'', ''s390x'', ''x86'', ''x86_64'']
         \<or> target_env t = ''musl'')"

definition imp :: "target \<Rightarrow> imp_mod option" where
  "imp t =
     (let os = target_os t; arch = target_arch t in
      if os = ''xous'' then Some ImpXous
      else if os \<in> set [''haiku'', ''redox'', ''nto'', ''aix''] then Some ImpUseFile
      else if os \<in> set [''macos'', ''openbsd'', ''vita'', ''emscripten''] then Some ImpGetentropy
      else if os \<in> set [''dragonfly'', ''freebsd'', ''hurd'', ''illumos''] \<or> os = ''horizon'' \<and> arch = ''arm'' \<or> os = ''cygwin''
      then Some ImpGetrandom
      else if \<not> feat_linux_disable_fallback t \<and> needs_fallback t then Some ImpLinuxFallback
      else if os \<in> set [''android'', ''linux''] then Some ImpLinux
      else if os = ''solaris'' then Some ImpSolaris
      else if os = ''netbsd'' then Some ImpNetbsd
      else if os = ''fuchsia'' then Some ImpFuchsia
      else if os \<in> set [''ios'', ''visionos'', ''watchos'', ''tvos''] then Some ImpApple
      else if arch = ''wasm32'' \<and> os = ''wasi'' then Some ImpWasi
      else if os = ''hermit'' then Some ImpHermit
      else if os = ''vxworks'' then Some ImpVxworks
      else if os = ''solid_asp3'' then Some ImpSolid
      else if os = ''espidf'' then Some ImpEspidf
      else if target_windows t then Some ImpWindows
      else if arch = ''x86_64'' \<and> target_env t = ''sgx'' then Some ImpRdrand
      else if feat_rdrand t \<and> arch \<in> set [''x86_64'', ''x86''] then Some ImpRdrand
      else if feat_js t \<and> arch \<in> set [''wasm32'', ''wasm64''] \<and> os = ''unknown'' then Some ImpJs
      else if feat_custom t then Some ImpCustom
      else None)"

text \<open>The statics of all backends with the states of what they call, and \<open>imp::getrandom_inner\<close> on its part of them.\<close>

record ('o, 'c, 't, 'v) statics =
  sc_host :: "'o host_state"
  sc_weak :: u64
  sc_rng_init :: bool
  sc_rng_source :: "(gr_error + 'v rng_source) option"
  sc_rdrand :: "u64 \<times> 'c"
  sc_trng :: "'t trng"

record ('o, 'c, 't, 'v) machine =
  mc_os :: "'o os_calls"
  mc_uwp :: bool
  mc_js :: "('o, 'v) js"
  mc_cpu :: "'c cpu"
  mc_trng :: "'t trng_page_lib"

definition on_part :: "('s \<Rightarrow> 'w) \<Rightarrow> ('w \<Rightarrow> 's \<Rightarrow> 's) \<Rightarrow> 'w inner \<Rightarrow> 's inner" where
  "on_part part put inner dest s = map_option (\<lambda>(r, d, w). (r, d, put w s)) (inner dest (part s))"

definition os_of :: "('o, 'c, 't, 'v) statics \<Rightarrow> 'o" where
  "os_of s = hs_os (sc_host s)"

definition set_os :: "'o \<Rightarrow> ('o, 'c, 't, 'v) statics \<Rightarrow> ('o, 'c, 't, 'v) statics" where
  "set_os w s = s\<lparr>sc_host := (sc_host s)\<lparr>hs_os := w\<rparr>\<rparr>"

fun imp_getrandom_inner :: "('o, 'c, 't, 'v) machine \<Rightarrow> imp_mod \<Rightarrow> ('o, 'c, 't, 'v) statics inner" where
  "imp_getrandom_inner M ImpXous = on_part sc_trng (\<lambda>w. sc_trng_update (\<lambda>_. w)) (xous_getrandom_inner (mc_trng M))"
| "imp_getrandom_inner M ImpUseFile = on_part sc_host (\<lambda>w. sc_host_update (\<lambda>_. w)) (use_file_getrandom_inner (oc_libc (mc_os M)))"
| "imp_getrandom_inner M ImpGetentropy = on_part os_of set_os (getentropy_getrandom_inner (mc_os M))"
| "imp_getrandom_inner M ImpGetrandom = on_part os_of set_os (getrandom_getrandom_inner (mc_os M))"
| "imp_getrandom_inner M ImpLinuxFallback = on_part sc_host (\<lambda>w. sc_host_update (\<lambda>_. w)) (linux_getrandom_inner (oc_libc (mc_os M)))"
| "imp_getrandom_inner M ImpLinux = on_part os_of set_os (linux_android_getrandom_inner (mc_os M))"
| "imp_getrandom_inner M ImpSolaris = on_part os_of set_os (solaris_getrandom_inner (mc_os M))"
| "imp_getrandom_inner M ImpNetbsd =
     on_part (\<lambda>s. (sc_weak s, os_of s)) (\<lambda>(c, w) s. (set_os w s)\<lparr>sc_weak := c\<rparr>) (netbsd_getrandom_inner (mc_os M))"
| "imp_getrandom_inner M ImpFuchsia = on_part os_of set_os (fuchsia_getrandom_inner (mc_os M))"
| "imp_getrandom_inner M ImpApple = on_part os_of set_os (apple_getrandom_inner (mc_os M))"
| "imp_getrandom_inner M ImpWasi = on_part os_of set_os (wasi_getrandom_inner (mc_os M))"
| "imp_getrandom_inner M ImpHermit = on_part os_of set_os (hermit_getrandom_inner (mc_os M))"
| "imp_getrandom_inner M ImpVxworks =
     on_part (\<lambda>s. (sc_rng_init s, os_of s)) (\<lambda>(c, w) s. (set_os w s)\<lparr>sc_rng_init := c\<rparr>) (vxworks_getrandom_inner (mc_os M))"
| "imp_getrandom_inner M ImpSolid = on_part os_of set_os (solid_getrandom_inner (mc_os M))"
| "imp_getrandom_inner M ImpEspidf = on_part os_of set_os (espidf_getrandom_inner (mc_os M))"
| "imp_getrandom_inner M ImpWindows = on_part os_of set_os (windows_getrandom_inner (mc_os M) (mc_uwp M))"
| "imp_getrandom_inner M ImpRdrand = on_part sc_rdrand (\<lambda>w. sc_rdrand_update (\<lambda>_. w)) (rdrand_getrandom_inner (mc_cpu M))"
| "imp_getrandom_inner M ImpJs =
     on_part (\<lambda>s. (sc_rng_source s, os_of s)) (\<lambda>(c, w) s. (set_os w s)\<lparr>sc_rng_source := c\<rparr>) (js_getrandom_inner (mc_js M))"
| "imp_getrandom_inner M ImpCustom = on_part os_of set_os (custom_getrandom_inner (oc_registered (mc_os M)))"

text \<open>\<open>From<Error> for io::Error\<close>.\<close>

datatype gr_io_error = FromRawOs int | OtherError gr_error

definition io_error_from :: "gr_error \<Rightarrow> gr_io_error" where
  "io_error_from err = (case raw_os_error err of Some errno \<Rightarrow> FromRawOs errno | None \<Rightarrow> OtherError err)"

section \<open>Chunks\<close>

lemma for_chunks_step:
  "0 < n \<Longrightarrow> d \<noteq> [] \<Longrightarrow> for_chunks n body d w =
     Option.bind (body (take n d) w) (\<lambda>(r, chunk, w1).
       case r of
         Inl e \<Rightarrow> Some (Inl e, chunk @ drop n d, w1)
       | Inr _ \<Rightarrow> map_option (\<lambda>(r1, rest, w2). (r1, chunk @ rest, w2)) (for_chunks n body (drop n d) w1))"
  by (subst for_chunks.simps) simp

lemma for_chunks_Nil: "0 < n \<Longrightarrow> for_chunks n body [] w = Some (Inr (), [], w)"
  by (subst for_chunks.simps) simp

text \<open>A loop over chunks whose body fills a chunk of at most \<open>n\<close> cells in a state with \<open>I\<close>, and keeps \<open>I\<close>.\<close>

locale chunked =
  fixes n :: nat and I :: "'w \<Rightarrow> bool" and body :: "'w inner"
  assumes n_pos: "0 < n"
    and body_fills: "I w \<Longrightarrow> length d \<le> n \<Longrightarrow> body d w = Some (r, d', w') \<Longrightarrow> filled d (r, d', w') \<and> I w'"
begin

lemma chunks_filled: "I w \<Longrightarrow> for_chunks n body d w = Some (r, d', w') \<Longrightarrow> filled d (r, d', w') \<and> I w'"
proof (induction "length d" arbitrary: d w r d' w' rule: less_induct)
  case less
  show ?case
  proof (cases "d = []")
    case True
    with less.prems n_pos show ?thesis by (auto simp: filled_def for_chunks_Nil)
  next
    case False
    then obtain q c w1 where b: "body (take n d) w = Some (q, c, w1)"
      using less.prems(2) n_pos by (auto simp: for_chunks_step split: bind_splits)
    have f: "filled (take n d) (q, c, w1)" and i: "I w1" using body_fills [OF less.prems(1) _ b] by auto
    show ?thesis
    proof (cases q)
      case (Inl e)
      with b less.prems n_pos False have "r = Inl e" "d' = c @ drop n d" "w' = w1"
        by (simp_all add: for_chunks_step)
      moreover have "keeps_init (take n d @ drop n d) (c @ drop n d)"
        using f by (intro keeps_init_append) (simp_all add: filled_def)
      ultimately show ?thesis using i by (simp add: filled_def)
    next
      case (Inr u)
      with b less.prems(2) n_pos False obtain rest where rest: "for_chunks n body (drop n d) w1 = Some (r, rest, w')" "d' = c @ rest"
        by (auto simp: for_chunks_step)
      have "length (drop n d) < length d" using n_pos False by simp
      from less.hyps [OF this i rest(1)] have g: "filled (drop n d) (r, rest, w')" "I w'" by simp_all
      have "keeps_init (take n d @ drop n d) (c @ rest)"
        using f g(1) by (intro keeps_init_append) (simp_all add: filled_def)
      with f g Inr rest(2) show ?thesis by (auto simp: filled_def)
    qed
  qed
qed

end

text \<open>A body that never fails on a chunk: then the loop serves a request of every size.\<close>

locale serving = chunked +
  assumes body_ok: "I w \<Longrightarrow> length d \<le> n \<Longrightarrow> \<exists>d' w'. body d w = Some (Inr (), d', w')"
begin

lemma chunks_served: "I w \<Longrightarrow> \<exists>d' w'. for_chunks n body d w = Some (Inr (), d', w') \<and> length d' = length d \<and> None \<notin> set d'"
proof -
  have "I w \<Longrightarrow> \<exists>d' w'. for_chunks n body d w = Some (Inr (), d', w')"
  proof (induction "length d" arbitrary: d w rule: less_induct)
    case less
    show ?case
    proof (cases "d = []")
      case False
      obtain c w1 where b: "body (take n d) w = Some (Inr (), c, w1)" using body_ok [OF less.prems, of "take n d"] by auto
      have "I w1" using body_fills [OF less.prems _ b] by simp
      with less.hyps [of "drop n d" w1] n_pos False obtain rest w2 where "for_chunks n body (drop n d) w1 = Some (Inr (), rest, w2)"
        by auto
      with b False n_pos show ?thesis by (simp add: for_chunks_step)
    qed (use n_pos in \<open>simp add: for_chunks_Nil\<close>)
  qed
  moreover assume i: "I w"
  ultimately obtain d' w' where "for_chunks n body d w = Some (Inr (), d', w')" by blast
  with chunks_filled [OF i this] show ?thesis by (auto simp: filled_def keeps_init_def)
qed

end

section \<open>The contract of the systems\<close>

text \<open>A call that fills the whole buffer it is handed when its result says so.\<close>

definition fills_when :: "('r \<Rightarrow> bool) \<Rightarrow> (uninit \<Rightarrow> 'o \<Rightarrow> 'r \<times> uninit \<times> 'o) \<Rightarrow> bool" where
  "fills_when ok f \<longleftrightarrow> (\<forall>d w r d' w'. f d w = (r, d', w') \<longrightarrow> keeps_init d d' \<and> (ok r \<longrightarrow> None \<notin> set d'))"

lemma fills_whenD: "fills_when ok f \<Longrightarrow> f d w = (r, d', w') \<Longrightarrow> keeps_init d d' \<and> (ok r \<longrightarrow> None \<notin> set d')"
  unfolding fills_when_def by blast

text \<open>The same for a call that is told the length as a word.\<close>

definition fills_sized :: "('r \<Rightarrow> bool) \<Rightarrow> (uninit \<Rightarrow> u32 \<Rightarrow> 'o \<Rightarrow> 'r \<times> uninit \<times> 'o) \<Rightarrow> bool" where
  "fills_sized ok f \<longleftrightarrow>
     (\<forall>d n w r d' w'. f d n w = (r, d', w') \<longrightarrow> unat n \<le> length d \<longrightarrow> keeps_init d d' \<and> (ok r \<longrightarrow> None \<notin> set (take (unat n) d')))"

text \<open>With the length that is cast, as long as the cast loses nothing.\<close>

lemma fills_sizedD:
  assumes "fills_sized ok f" "f d (of_nat (length d)) w = (r, d', w')" "length d < 2 ^ 32"
  shows "keeps_init d d' \<and> (ok r \<longrightarrow> None \<notin> set d')"
proof -
  have n: "unat (of_nat (length d) :: u32) = length d" using assms(3) by (simp add: unat_of_nat)
  then have k: "keeps_init d d' \<and> (ok r \<longrightarrow> None \<notin> set (take (length d) d'))"
    using assms(1,2) unfolding fills_sized_def by (metis order_refl)
  then have "length d' = length d" by (simp add: keeps_init_def)
  with k show ?thesis by simp
qed

locale writing_os = writing_libc "oc_libc S" for S :: "'o os_calls" +
  assumes getentropy: "fills_when (\<lambda>r. r = 0) (oc_getentropy S)"
    and getrandom_flags: "writes_bytes (oc_getrandom_flags S k)"
    and called: "writes_bytes (oc_call S a)"
    and sysctl: "oc_sysctl_arnd S d len w = (ret, d', len', w') \<Longrightarrow> keeps_init d d' \<and> (ret \<noteq> - 1 \<longrightarrow> None \<notin> set (take (unat len') d'))"
    and zx: "oc_zx_cprng_draw S d w = (d', w') \<Longrightarrow> length d' = length d \<and> None \<notin> set d'"
    and esp: "oc_esp_fill_random S d w = (d', w') \<Longrightarrow> length d' = length d \<and> None \<notin> set d'"
    and CCRandom: "fills_when (\<lambda>r. r = 0) (oc_CCRandomGenerateBytes S)"
    and random_get: "fills_when (\<lambda>r. r = Inr ()) (oc_random_get S)"
    and read_entropy: "writes_bytes (oc_sys_read_entropy S)"
    and randABytes: "fills_sized (\<lambda>r. r = 0) (oc_randABytes S)"
    and SOLID: "fills_when (\<lambda>r. 0 \<le> sint r) (oc_SOLID_RNG_SampleRandomBytes S)"
    and BCrypt: "fills_sized (\<lambda>r. drop_bit 30 r \<noteq> 3) (\<lambda>d n. oc_BCryptGenRandom S d n BCRYPT_USE_SYSTEM_PREFERRED_RNG)"
    and Rtl: "fills_sized (\<lambda>r. r \<noteq> 0) (oc_RtlGenRandom S)"
    and registered_fn: "registered (oc_registered S)"

context registered
begin

lemma custom_backend: "backend (custom_getrandom_inner f)"
  by unfold_locales

end

lemma backend_filledI: "(\<And>d w r d' w'. inner d w = Some (r, d', w') \<Longrightarrow> filled d (r, d', w')) \<Longrightarrow> backend inner"
  by unfold_locales (fastforce simp: filled_def)+

sublocale writing_os < getentropy_chunks: chunked 256 "\<lambda>_. True" "\<lambda>chunk w. case oc_getentropy S chunk w of (ret, c, w1) \<Rightarrow>
    Some (if ret \<noteq> 0 then Inl (last_os_error (oc_libc S) w1) else Inr (), c, w1)"
  by unfold_locales (use fills_whenD [OF getentropy] in \<open>auto simp: filled_def split: prod.splits if_splits\<close>)

sublocale writing_os < solaris_chunks: chunked MAX_BYTES "\<lambda>_. True" "\<lambda>chunk w. case oc_getrandom_flags S GRND_RANDOM chunk w of (ret, c, w1) \<Rightarrow>
    Some (if ret \<le> 0 then Inl (last_os_error (oc_libc S) w1) else if nat ret \<noteq> length chunk then Inl UNEXPECTED else Inr (), c, w1)"
proof
  fix d d' :: uninit and w w' r
  assume st: "(case oc_getrandom_flags S GRND_RANDOM d w of (ret, c, w1) \<Rightarrow>
    Some (if ret \<le> 0 then Inl (last_os_error (oc_libc S) w1) else if nat ret \<noteq> length d then Inl UNEXPECTED else Inr (), c, w1)) = Some (r, d', w')"
  obtain ret c w1 where x: "oc_getrandom_flags S GRND_RANDOM d w = (ret, c, w1)" by (metis prod.collapse)
  note k = writes_bytesD [OF getrandom_flags x]
  with st x show "filled d (r, d', w') \<and> True" by (auto simp: filled_def keeps_init_def split: if_splits)
qed (simp add: MAX_BYTES_def)

sublocale writing_os < vxworks_chunks: chunked I32_MAX "\<lambda>_. True" "\<lambda>chunk (ready, w). case oc_randABytes S chunk (of_nat (length chunk)) w of (ret, c, w1) \<Rightarrow>
    Some (if ret \<noteq> 0 then Inl (last_os_error (oc_libc S) w1) else Inr (), c, (ready, w1))"
proof
  fix d d' :: uninit and w w' r
  assume len: "length d \<le> I32_MAX" and st: "(case w of (ready, w) \<Rightarrow> case oc_randABytes S d (of_nat (length d)) w of (ret, c, w1) \<Rightarrow>
    Some (if ret \<noteq> 0 then Inl (last_os_error (oc_libc S) w1) else Inr (), c, (ready, w1))) = Some (r, d', w')"
  obtain ret c w1 where x: "oc_randABytes S d (of_nat (length d)) (snd w) = (ret, c, w1)" by (metis prod.collapse)
  have "length d < 2 ^ 32" using len by (simp add: I32_MAX_def)
  from fills_sizedD [OF randABytes x this] st x show "filled d (r, d', w') \<and> True"
    by (auto simp: filled_def split: prod.splits if_splits)
qed (simp add: I32_MAX_def)

sublocale writing_os < windows_chunks: chunked U32_MAX "\<lambda>_. True" "windows_chunk S uwp" for uwp
proof
  fix d d' :: uninit and w w' r
  assume len: "length d \<le> U32_MAX" and st: "windows_chunk S uwp d w = Some (r, d', w')"
  obtain ret c w1 where x: "oc_BCryptGenRandom S d (of_nat (length d)) BCRYPT_USE_SYSTEM_PREFERRED_RNG w = (ret, c, w1)"
    by (metis prod.collapse)
  obtain ret1 c1 w2 where y: "oc_RtlGenRandom S c (of_nat (length d)) w1 = (ret1, c1, w2)" by (metis prod.collapse)
  have l: "length d < 2 ^ 32" using len by (simp add: U32_MAX_def)
  note b = fills_sizedD [OF BCrypt x l]
  then have lc: "length c = length d" by (simp add: keeps_init_def)
  with y l have "keeps_init c c1 \<and> (ret1 \<noteq> 0 \<longrightarrow> None \<notin> set c1)" using fills_sizedD [OF Rtl, of c w1 ret1 c1 w2] by simp
  with st x y b show "filled d (r, d', w') \<and> True"
    by (auto simp: windows_chunk_def filled_def intro: keeps_init_trans split: if_splits)
qed (simp add: U32_MAX_def)

lemma writes_bytes_kern_arnd:
  assumes "\<And>d len w ret d' len' w'. oc_sysctl_arnd S d len w = (ret, d', len', w') \<Longrightarrow>
      keeps_init d d' \<and> (ret \<noteq> - 1 \<longrightarrow> None \<notin> set (take (unat len') d'))"
  shows "writes_bytes (kern_arnd S)"
proof -
  have "keeps_init d d' \<and> None \<notin> set (take (nat res) d')" if st: "kern_arnd S d w = (res, d', w')" for d w res d' w'
  proof -
    obtain ret b len w1 where x: "oc_sysctl_arnd S d (of_nat (length d)) w = (ret, b, len, w1)" by (metis prod.collapse)
    have "nat (sint len) \<le> unat len"
    proof -
      have "- (2 ^ 63) \<le> uint len" by (rule order_trans [OF _ uint_ge_0]) simp
      then have "sint len \<le> uint len" by (simp add: sint_uint signed_take_bit_int_less_eq_self_iff)
      then have "nat (sint len) \<le> nat (uint len)" by (rule nat_mono)
      then show ?thesis by (simp only: unat_eq_nat_uint)
    qed
    then have "set (take (nat (sint len)) b) \<subseteq> set (take (unat len) b)" by (rule set_take_subset_set_take)
    with assms [OF x] st x show ?thesis by (auto simp: kern_arnd_def split: if_splits)
  qed
  then show ?thesis unfolding writes_bytes_def by blast
qed

lemma sys_fill_exact_fills: "writes_bytes f \<Longrightarrow> sys_fill_exact C f d w = Some x \<Longrightarrow> filled d x"
  by (drule sys_fill_exact_filled) simp

sublocale writing_os < netbsd_chunks: chunked 256 "\<lambda>_. True" "\<lambda>chunk. sys_fill_exact (oc_libc S) (kern_arnd S) chunk"
  by unfold_locales (use sys_fill_exact_fills [OF writes_bytes_kern_arnd [OF sysctl]] in auto)

text \<open>What is relied on of JavaScript: \<open>randomFillSync\<close> fills the view it is given, and the arrays keep their lengths.\<close>

locale web_js =
  fixes J :: "('o, 'v) js"
  assumes fill_sync: "fills_when (\<lambda>ok. ok) (js_random_fill_sync J v)"
    and values_length: "js_get_random_values J v b w = (ok, b', w') \<Longrightarrow> length b' = length b"

sublocale web_js < node_chunks: chunked NODE_MAX_BUFFER_SIZE "\<lambda>_. True" "node_chunk J v" for v
  by unfold_locales
    (use fills_whenD [OF fill_sync] in \<open>auto simp: NODE_MAX_BUFFER_SIZE_def node_chunk_def filled_def split: prod.splits if_splits\<close>)

text \<open>The buffer of a web source keeps its 256 bytes.\<close>

sublocale web_js < web_chunks: chunked WEB_CRYPTO_BUFFER_SIZE "\<lambda>bw. length (fst bw) = WEB_CRYPTO_BUFFER_SIZE" "web_chunk J v" for v
proof
  fix d d' :: uninit and bw bw' r
  assume buf: "length (fst bw) = WEB_CRYPTO_BUFFER_SIZE" and len: "length d \<le> WEB_CRYPTO_BUFFER_SIZE"
    and st: "web_chunk J v d bw = Some (r, d', bw')"
  obtain ok sub w1 where x: "js_get_random_values J v (take (length d) (fst bw)) (snd bw) = (ok, sub, w1)" by (metis prod.collapse)
  then have "length sub = length d" using values_length [OF x] buf len by simp
  with st x buf len show "filled d (r, d', bw') \<and> length (fst bw') = WEB_CRYPTO_BUFFER_SIZE"
    by (auto simp: web_chunk_def filled_def Let_def intro: keeps_init_full split: prod.splits if_splits)
qed (simp add: WEB_CRYPTO_BUFFER_SIZE_def)

definition source_ready :: "(gr_error + 'v rng_source) option \<Rightarrow> bool" where
  "source_ready src = (case src of Some (Inr (Web _ buf)) \<Rightarrow> length buf = WEB_CRYPTO_BUFFER_SIZE | _ \<Rightarrow> True)"

lemma source_of_ready: "source_ready (fst s) \<Longrightarrow> source_of J s = (src, w) \<Longrightarrow> source_ready (Some src)"
  by (auto simp: source_of_def source_ready_def getrandom_init_def Let_def split: prod.splits option.splits if_splits sum.splits rng_source.splits)

context web_js
begin

lemma js_filled:
  assumes "source_ready (fst s)" "js_getrandom_inner J d s = Some (r, d', s')"
  shows "filled d (r, d', s') \<and> source_ready (fst s')"
proof -
  obtain src w where x: "source_of J s = (src, w)" by (metis prod.collapse)
  note ready = source_of_ready [OF assms(1) x]
  consider (err) e where "src = Inl e" | (node) v where "src = Inr (Node v)" | (web) v buf where "src = Inr (Web v buf)"
    by (metis sum.exhaust rng_source.exhaust)
  then show ?thesis
  proof cases
    case err
    with assms(2) x show ?thesis by (auto simp: js_getrandom_inner_def filled_def source_ready_def)
  next
    case node
    with assms(2) x obtain w1 where "for_chunks NODE_MAX_BUFFER_SIZE (node_chunk J v) d w = Some (r, d', w1)" "s' = (Some (Inr (Node v)), w1)"
      by (auto simp: js_getrandom_inner_def)
    with node_chunks.chunks_filled [OF TrueI] show ?thesis by (fastforce simp: filled_def source_ready_def)
  next
    case web
    with assms(2) x obtain buf1 w1 where f: "for_chunks WEB_CRYPTO_BUFFER_SIZE (web_chunk J v) d (buf, w) = Some (r, d', (buf1, w1))"
      and s': "s' = (Some (Inr (Web v buf1)), w1)" by (auto simp: js_getrandom_inner_def)
    have "length (fst (buf, w)) = WEB_CRYPTO_BUFFER_SIZE" using ready web by (simp add: source_ready_def)
    from web_chunks.chunks_filled [OF this f] s' show ?thesis by (simp add: filled_def source_ready_def)
  qed
qed

end

section \<open>Every backend\<close>

lemma on_part_filled:
  assumes "\<And>r d' w'. inner d (part s) = Some (r, d', w') \<Longrightarrow> filled d (r, d', w')" "on_part part put inner d s = Some (r, d', s')"
  shows "filled d (r, d', s')"
  using assms(2) assms(1) by (auto simp: on_part_def filled_def)

context writing_os
begin

lemma hermit_filled: "hermit_getrandom_inner S d w = Some (r, d', w') \<Longrightarrow> filled d (r, d', w')"
proof (induction "length d" arbitrary: d w r d' w' rule: less_induct)
  case less
  obtain res c w1 where x: "oc_sys_read_entropy S d w = (res, c, w1)" by (metis prod.collapse)
  note k = writes_bytesD [OF read_entropy x]
  consider (empty) "d = []" | (progress) "d \<noteq> []" "0 < res" "nat res \<le> length d" | (stop) "d \<noteq> []" "\<not> (0 < res \<and> nat res \<le> length d)"
    by blast
  then show ?case
  proof cases
    case progress
    with less.prems x obtain rest where rest: "hermit_getrandom_inner S (drop (nat res) c) w1 = Some (r, rest, w')" "d' = take (nat res) c @ rest"
      by (subst (asm) hermit_getrandom_inner.simps) (auto split: bind_splits)
    have "length (drop (nat res) c) < length d" using progress k by (auto simp: keeps_init_def)
    from less.hyps [OF this rest(1)] have "filled (drop (nat res) c) (r, rest, w')" .
    from filled_shift [OF conjunct1 [OF k] conjunct2 [OF k] this] rest(2) show ?thesis by simp
  next
    case stop
    then have "d' = c \<and> (\<exists>e. r = Inl e)"
      using less.prems x by (subst (asm) hermit_getrandom_inner.simps) auto
    with k show ?thesis by (auto simp: filled_def)
  qed (use less.prems in \<open>subst (asm) hermit_getrandom_inner.simps, simp add: filled_def\<close>)
qed

lemma netbsd_filled:
  assumes "netbsd_getrandom_inner S d cw = Some (r, d', cw')"
  shows "filled d (r, d', cw')"
proof -
  obtain fptr cell w1 where x: "weak_ptr S (''getrandom'' @ [CHR 0x00]) cw = (fptr, cell, w1)" by (metis prod.collapse)
  show ?thesis
  proof (cases fptr)
    case None
    with assms x obtain w2 where "for_chunks 256 (\<lambda>chunk. sys_fill_exact (oc_libc S) (kern_arnd S) chunk) d w1 = Some (r, d', w2)"
      by (auto simp: netbsd_getrandom_inner_def)
    with netbsd_chunks.chunks_filled [OF TrueI this] show ?thesis by (simp add: filled_def)
  next
    case (Some func)
    with assms x obtain w2 where "sys_fill_exact (oc_libc S) (oc_call S func) d w1 = Some (r, d', w2)"
      by (auto simp: netbsd_getrandom_inner_def)
    with sys_fill_exact_fills [OF called this] show ?thesis by (simp add: filled_def)
  qed
qed

lemma vxworks_filled:
  assumes "vxworks_getrandom_inner S d s = Some (r, d', s')"
  shows "filled d (r, d', s')"
proof -
  from assms obtain q s1 where "rng_init S s = Some (q, s1)" by (auto simp: vxworks_getrandom_inner_def split: bind_splits)
  with assms show ?thesis
    using vxworks_chunks.chunks_filled [OF TrueI, of d s1 r d' s'] by (cases q) (auto simp: vxworks_getrandom_inner_def filled_def)
qed

lemma whole_buffer_filled:
  "fuchsia_getrandom_inner S d w = Some (r, d', w') \<Longrightarrow> filled d (r, d', w')"
  "espidf_getrandom_inner S d w = Some (r, d', w') \<Longrightarrow> filled d (r, d', w')"
  "apple_getrandom_inner S d w = Some (r, d', w') \<Longrightarrow> filled d (r, d', w')"
  "wasi_getrandom_inner S d w = Some (r, d', w') \<Longrightarrow> filled d (r, d', w')"
  "solid_getrandom_inner S d w = Some (r, d', w') \<Longrightarrow> filled d (r, d', w')"
proof -
  show "fuchsia_getrandom_inner S d w = Some (r, d', w') \<Longrightarrow> filled d (r, d', w')"
    using zx [of d w] by (auto simp: fuchsia_getrandom_inner_def filled_def intro: keeps_init_full split: prod.splits)
  show "espidf_getrandom_inner S d w = Some (r, d', w') \<Longrightarrow> filled d (r, d', w')"
    using esp [of d w] by (auto simp: espidf_getrandom_inner_def filled_def intro: keeps_init_full split: prod.splits)
  show "apple_getrandom_inner S d w = Some (r, d', w') \<Longrightarrow> filled d (r, d', w')"
    using fills_whenD [OF CCRandom, of d w] by (auto simp: apple_getrandom_inner_def filled_def split: prod.splits if_splits)
  show "wasi_getrandom_inner S d w = Some (r, d', w') \<Longrightarrow> filled d (r, d', w')"
    using fills_whenD [OF random_get, of d w] by (auto simp: wasi_getrandom_inner_def filled_def map_err_Inr_iff split: prod.splits)
  show "solid_getrandom_inner S d w = Some (r, d', w') \<Longrightarrow> filled d (r, d', w')"
    using fills_whenD [OF SOLID, of d w] by (auto simp: solid_getrandom_inner_def filled_def split: prod.splits if_splits)
qed

end

text \<open>The whole machine.\<close>

locale sound_machine = calls: writing_os "mc_os M" + web: web_js "mc_js M" for M :: "('o, 'c, 't, 'v) machine"
begin

lemma backend_filled: "backend inner \<Longrightarrow> inner d w = Some (r, d', w') \<Longrightarrow> filled d (r, d', w')"
  using backend.inner_keeps backend.inner_fills by (fastforce simp: filled_def)

lemma chunk_backends_filled:
  "getentropy_getrandom_inner (mc_os M) d w = Some (r, d', w') \<Longrightarrow> filled d (r, d', w')"
  "solaris_getrandom_inner (mc_os M) d w = Some (r, d', w') \<Longrightarrow> filled d (r, d', w')"
  "windows_getrandom_inner (mc_os M) uwp d w = Some (r, d', w') \<Longrightarrow> filled d (r, d', w')"
  unfolding getentropy_getrandom_inner_def solaris_getrandom_inner_def windows_getrandom_inner_def
  using calls.getentropy_chunks.chunks_filled [OF TrueI] calls.solaris_chunks.chunks_filled [OF TrueI]
    calls.windows_chunks.chunks_filled [OF TrueI] by blast+

lemma call_backends_filled:
  "getrandom_getrandom_inner (mc_os M) d w = Some (r, d', w') \<Longrightarrow> filled d (r, d', w')"
  "linux_android_getrandom_inner (mc_os M) d w = Some (r, d', w') \<Longrightarrow> filled d (r, d', w')"
  unfolding getrandom_getrandom_inner_def linux_android_getrandom_inner_def
  by (erule sys_fill_exact_fills [OF calls.getrandom_flags], erule sys_fill_exact_fills [OF calls.getrandom_writes])

lemma js_part_filled:
  assumes "source_ready (sc_rng_source s)" "imp_getrandom_inner M ImpJs d s = Some (r, d', s')"
  shows "filled d (r, d', s') \<and> source_ready (sc_rng_source s')"
proof -
  from assms(2) obtain c w where st: "js_getrandom_inner (mc_js M) d (sc_rng_source s, os_of s) = Some (r, d', (c, w))"
    "s' = (set_os w s)\<lparr>sc_rng_source := c\<rparr>" by (auto simp: on_part_def)
  with web.js_filled [OF _ st(1)] assms(1) show ?thesis by (simp add: filled_def)
qed

lemma os_part_filled:
  assumes "b \<noteq> ImpJs" "imp_getrandom_inner M b d s = Some (r, d', s')"
  shows "filled d (r, d', s')"
proof (cases b)
  case ImpXous
  show ?thesis by (rule on_part_filled [OF _ assms(2) [unfolded ImpXous imp_getrandom_inner.simps]]) (erule backend_filled [OF xous.backend_axioms])
next
  case ImpUseFile
  show ?thesis by (rule on_part_filled [OF _ assms(2) [unfolded ImpUseFile imp_getrandom_inner.simps]]) (erule backend_filled [OF calls.device_file.backend_axioms])
next
  case ImpGetentropy
  show ?thesis by (rule on_part_filled [OF _ assms(2) [unfolded ImpGetentropy imp_getrandom_inner.simps]]) (erule chunk_backends_filled(1))
next
  case ImpGetrandom
  show ?thesis by (rule on_part_filled [OF _ assms(2) [unfolded ImpGetrandom imp_getrandom_inner.simps]]) (erule call_backends_filled(1))
next
  case ImpLinuxFallback
  show ?thesis by (rule on_part_filled [OF _ assms(2) [unfolded ImpLinuxFallback imp_getrandom_inner.simps]]) (erule backend_filled [OF calls.linux_backend])
next
  case ImpLinux
  show ?thesis by (rule on_part_filled [OF _ assms(2) [unfolded ImpLinux imp_getrandom_inner.simps]]) (erule call_backends_filled(2))
next
  case ImpSolaris
  show ?thesis by (rule on_part_filled [OF _ assms(2) [unfolded ImpSolaris imp_getrandom_inner.simps]]) (erule chunk_backends_filled(2))
next
  case ImpNetbsd
  show ?thesis by (rule on_part_filled [OF _ assms(2) [unfolded ImpNetbsd imp_getrandom_inner.simps]]) (erule calls.netbsd_filled)
next
  case ImpFuchsia
  show ?thesis by (rule on_part_filled [OF _ assms(2) [unfolded ImpFuchsia imp_getrandom_inner.simps]]) (erule calls.whole_buffer_filled(1))
next
  case ImpApple
  show ?thesis by (rule on_part_filled [OF _ assms(2) [unfolded ImpApple imp_getrandom_inner.simps]]) (erule calls.whole_buffer_filled(3))
next
  case ImpWasi
  show ?thesis by (rule on_part_filled [OF _ assms(2) [unfolded ImpWasi imp_getrandom_inner.simps]]) (erule calls.whole_buffer_filled(4))
next
  case ImpHermit
  show ?thesis by (rule on_part_filled [OF _ assms(2) [unfolded ImpHermit imp_getrandom_inner.simps]]) (erule calls.hermit_filled)
next
  case ImpVxworks
  show ?thesis by (rule on_part_filled [OF _ assms(2) [unfolded ImpVxworks imp_getrandom_inner.simps]]) (erule calls.vxworks_filled)
next
  case ImpSolid
  show ?thesis by (rule on_part_filled [OF _ assms(2) [unfolded ImpSolid imp_getrandom_inner.simps]]) (erule calls.whole_buffer_filled(5))
next
  case ImpEspidf
  show ?thesis by (rule on_part_filled [OF _ assms(2) [unfolded ImpEspidf imp_getrandom_inner.simps]]) (erule calls.whole_buffer_filled(2))
next
  case ImpWindows
  show ?thesis by (rule on_part_filled [OF _ assms(2) [unfolded ImpWindows imp_getrandom_inner.simps]]) (erule chunk_backends_filled(3))
next
  case ImpRdrand
  show ?thesis by (rule on_part_filled [OF _ assms(2) [unfolded ImpRdrand imp_getrandom_inner.simps]]) (erule backend_filled [OF rdrand.backend_axioms])
next
  case ImpCustom
  show ?thesis by (rule on_part_filled [OF _ assms(2) [unfolded ImpCustom imp_getrandom_inner.simps]]) (erule backend_filled [OF registered.custom_backend [OF calls.registered_fn]])
qed (use assms(1) in simp)

text \<open>Only the JavaScript backend has the source, so the rest leaves it alone.\<close>

lemma source_kept: "b \<noteq> ImpJs \<Longrightarrow> imp_getrandom_inner M b d s = Some (r, d', s') \<Longrightarrow> sc_rng_source s' = sc_rng_source s"
  by (cases b) (auto simp: on_part_def set_os_def)

lemma imp_filled:
  assumes "source_ready (sc_rng_source s)" "imp_getrandom_inner M b d s = Some (r, d', s')"
  shows "filled d (r, d', s') \<and> source_ready (sc_rng_source s')"
proof (cases "b = ImpJs")
  case False
  with assms os_part_filled source_kept show ?thesis by metis
qed (use assms js_part_filled in blast)

lemma inner_defined:
  assumes "source_ready (sc_rng_source s)" "getrandom_uninit (imp_getrandom_inner M b) d s = Some (r, d', s')"
  shows "keeps_init d d' \<and> source_ready (sc_rng_source s')
    \<and> (\<forall>x. r = Inr x \<longrightarrow> (\<exists>bs. x = Some bs \<and> length bs = length d \<and> d' = slice_as_uninit bs))"
proof -
  define inner where "inner d s = (if source_ready (sc_rng_source s) then imp_getrandom_inner M b d s else None)"
    for d and s :: "('o, 'c, 't, 'v) statics"
  have "backend inner"
    by (rule backend_filledI) (use imp_filled in \<open>auto simp: inner_def split: if_splits\<close>)
  moreover have "getrandom_uninit inner d s = getrandom_uninit (imp_getrandom_inner M b) d s"
    using assms(1) by (simp add: getrandom_uninit_def inner_def)
  with assms(2) have "getrandom_uninit inner d s = Some (r, d', s')" by simp
  ultimately have sound: "keeps_init d d' \<and> (case r of Inl _ \<Rightarrow> True | Inr b \<Rightarrow> \<exists>bs. b = Some bs \<and> length bs = length d \<and> d' = slice_as_uninit bs)"
    by (rule backend.uninit_sound)
  have "source_ready (sc_rng_source s')"
    using assms imp_filled [OF assms(1)] by (auto simp: getrandom_uninit_def split: if_splits)
  with sound show ?thesis by (cases r) simp_all
qed

end

section \<open>A machine\<close>

text \<open>Calls that write as many bytes as they are asked for, with a C library that is interrupted now and then.\<close>

definition fill_all :: "uninit \<Rightarrow> uninit" where
  "fill_all d = map (\<lambda>_. Some CHR ''r'') d"

definition ready_calls :: "nat os_calls" where
  "ready_calls =
     \<lparr>oc_libc = slow_libc, oc_getentropy = (\<lambda>d w. (if length d \<le> 256 then (0, fill_all d, w) else (- 1, d, w))),
      oc_getrandom_flags = (\<lambda>_ d w. (int (length d), fill_all d, w)), oc_dlsym = (\<lambda>_ w. (0, w)),
      oc_call = (\<lambda>_ d w. (int (length d), fill_all d, w)), oc_sysctl_arnd = (\<lambda>d len w. (0, fill_all d, len, w)),
      oc_zx_cprng_draw = (\<lambda>d w. (fill_all d, w)), oc_esp_fill_random = (\<lambda>d w. (fill_all d, w)),
      oc_CCRandomGenerateBytes = (\<lambda>d w. (0, fill_all d, w)), oc_random_get = (\<lambda>d w. (Inr (), fill_all d, w)),
      oc_sys_read_entropy = (\<lambda>d w. (int (length d), fill_all d, w)), oc_randSecure = (\<lambda>w. (1, w)), oc_usleep = (\<lambda>_ w. w),
      oc_randABytes = (\<lambda>d _ w. (0, fill_all d, w)), oc_SOLID_RNG_SampleRandomBytes = (\<lambda>d w. (0, fill_all d, w)),
      oc_BCryptGenRandom = (\<lambda>d _ _ w. (0xC000000D, d, w)), oc_RtlGenRandom = (\<lambda>d n w. (1, fill_all d, w)),
      oc_registered = (\<lambda>d w. (Inr (), d, w))\<rparr>"

definition node_js :: "(nat, bool) js" where
  "node_js =
     \<lparr>js_crypto = (\<lambda>_. False), js_ms_crypto = (\<lambda>_. False), js_process = (\<lambda>_. True), js_versions = (\<lambda>_ _. True), js_node = (\<lambda>_ _. True),
      js_is_object = id, js_is_string = id, js_is_function = id, js_require_fn = (\<lambda>_. Some True), js_call1 = (\<lambda>_ _ w. (Some True, w)),
      js_random_fill_sync = (\<lambda>_ d w. (True, fill_all d, w)), js_get_random_values = (\<lambda>_ b w. (True, b, w))\<rparr>"

definition ready_machine :: "(nat, unit, nat, bool) machine" where
  "ready_machine =
     \<lparr>mc_os = ready_calls, mc_uwp = False, mc_js = node_js,
      mc_cpu = \<lparr>cp_rdrand_step = (\<lambda>c. (None, c)), cp_max_leaf = 0, cp_vendor = (0, 0, 0), cp_leaf1_eax = 0, cp_leaf1_ecx = 0\<rparr>,
      mc_trng = counter_pages\<rparr>"

definition fresh_statics :: "(nat, unit, nat, bool) statics" where
  "fresh_statics =
     \<lparr>sc_host = \<lparr>hs_has_getrandom = UNINIT, hs_fd = FD_UNINIT, hs_os = 1\<rparr>, sc_weak = WEAK_UNINIT, sc_rng_init = False, sc_rng_source = None,
      sc_rdrand = (UNINIT, ()), sc_trng = \<lparr>tr_conn = 0, tr_server = 0\<rparr>\<rparr>"

lemma fill_all_simps [simp]: "length (fill_all d) = length d" "None \<notin> set (fill_all d)" "None \<notin> set (take n (fill_all d))" "keeps_init d (fill_all d)"
proof -
  show "length (fill_all d) = length d" "None \<notin> set (fill_all d)" by (auto simp: fill_all_def)
  then show "None \<notin> set (take n (fill_all d))" "keeps_init d (fill_all d)" by (auto dest: in_set_takeD intro: keeps_init_full)
qed

interpretation ready: sound_machine ready_machine
proof
  show "writes_bytes (lc_read (oc_libc (mc_os ready_machine)) fd)" "writes_bytes (lc_getrandom (oc_libc (mc_os ready_machine)))" for fd
    using slow.read_writes slow.getrandom_writes by (simp_all add: ready_machine_def ready_calls_def)
qed (auto simp: ready_machine_def ready_calls_def node_js_def fills_when_def fills_sized_def writes_bytes_def split: if_splits)

section \<open>Properties\<close>

text \<open>C21. No backend hands out an unwritten byte: whichever module is built in, if the calls of the system write the
  bytes they report, a successful \<open>getrandom_uninit\<close> returns exactly the bytes of the whole buffer, so the \<open>unsafe\<close> cast is
  defined; a failed one leaves every initialised byte initialised. The buffer kept for the Web Crypto API stays at its
  size, so this holds for every later call too.\<close>

theorem every_backend_initialises:
  assumes "sound_machine M" "source_ready (sc_rng_source s)"
    and "getrandom_uninit (imp_getrandom_inner M b) d s = Some (r, d', s')"
  shows "keeps_init d d' \<and> source_ready (sc_rng_source s')
    \<and> (\<forall>x. r = Inr x \<longrightarrow> (\<exists>bs. x = Some bs \<and> length bs = length d \<and> d' = slice_as_uninit bs))"
  using sound_machine.inner_defined [OF assms] .

lemma windows_run:
  "getrandom_uninit (imp_getrandom_inner ready_machine ImpWindows) [None, None] fresh_statics
     = Some (Inr (slice_assume_init_mut (fill_all [None, None])), fill_all [None, None], fresh_statics)"
proof -
  have "windows_chunk ready_calls False [None, None] 1 = Some (Inr (), fill_all [None, None], 1)"
    by (simp add: windows_chunk_def ready_calls_def drop_bit_eq_div)
  moreover have "take U32_MAX [None, None] = [None, None :: char option]" "drop U32_MAX [None, None] = ([] :: uninit)" "0 < U32_MAX"
    by (simp_all add: U32_MAX_def)
  ultimately have "windows_getrandom_inner ready_calls False [None, None] 1 = Some (Inr (), fill_all [None, None], 1)"
    by (simp add: windows_getrandom_inner_def for_chunks_step for_chunks_Nil)
  then show ?thesis
    by (simp add: getrandom_uninit_def on_part_def ready_machine_def fresh_statics_def os_of_def set_os_def)
qed

theorem every_backend_initialises_witness:
  "\<exists>bs. getrandom_uninit (imp_getrandom_inner ready_machine ImpWindows) [None, None] fresh_statics
     = Some (Inr (Some bs), slice_as_uninit bs, fresh_statics) \<and> length bs = 2"
proof -
  have "source_ready (sc_rng_source fresh_statics)" by (simp add: source_ready_def fresh_statics_def)
  from every_backend_initialises [OF ready.sound_machine_axioms this windows_run, THEN conjunct2, THEN conjunct2, rule_format, OF refl]
  obtain bs where "slice_assume_init_mut (fill_all [None, None]) = Some bs" "length bs = length [None, None :: char option]"
    "fill_all [None, None] = slice_as_uninit bs" by (elim exE conjE) (rule that)
  with windows_run show ?thesis by (intro exI [of _ bs]) simp
qed

text \<open>\<open>getentropy\<close> refuses more than 256 bytes. The loop never asks for more, so a request of every size is served by a
  system that serves small ones.\<close>

locale entropy_256 = writing_os +
  assumes small_ok: "length d \<le> 256 \<Longrightarrow> fst (oc_getentropy S d w) = 0"

sublocale entropy_256 < served: serving 256 "\<lambda>_. True" "\<lambda>chunk w. case oc_getentropy S chunk w of (ret, c, w1) \<Rightarrow>
    Some (if ret \<noteq> 0 then Inl (last_os_error (oc_libc S) w1) else Inr (), c, w1)"
proof
  fix d :: uninit and w
  assume "length d \<le> 256"
  from small_ok [OF this, of w] show "\<exists>d' w'. (case oc_getentropy S d w of (ret, c, w1) \<Rightarrow>
    Some (if ret \<noteq> 0 then Inl (last_os_error (oc_libc S) w1) else Inr (), c, w1)) = Some (Inr (), d', w')"
    by (auto split: prod.splits)
qed

context entropy_256
begin

lemma serves:
  "\<exists>d' w'. for_chunks 256 (\<lambda>chunk w. case oc_getentropy S chunk w of (ret, c, w1) \<Rightarrow>
      Some (if ret \<noteq> 0 then Inl (last_os_error (oc_libc S) w1) else Inr (), c, w1)) d w = Some (Inr (), d', w')
    \<and> length d' = length d \<and> None \<notin> set d'"
  by (rule served.chunks_served) (rule TrueI)

end

lemma ready_writing: "writing_os ready_calls"
  using ready.calls.writing_os_axioms by (simp add: ready_machine_def)

interpretation small: entropy_256 ready_calls
  by (intro entropy_256.intro entropy_256_axioms.intro ready_writing) (simp add: ready_calls_def)

theorem getentropy_serves_all:
  assumes "entropy_256 S"
  shows "\<exists>d' w'. getentropy_getrandom_inner S d w = Some (Inr (), d', w') \<and> length d' = length d \<and> None \<notin> set d'"
  unfolding getentropy_getrandom_inner_def by (rule entropy_256.serves [OF assms])

text \<open>The optional features choose a backend only where the operating system has none.\<close>

lemma if_pass: "(if c then Some a else X) = Some b \<Longrightarrow> (X = Some b \<Longrightarrow> Y = Some b) \<Longrightarrow> (if c then Some a else Y) = Some b"
  by (cases c) simp_all

theorem features_never_override:
  assumes "imp t = Some b" "b \<notin> {ImpRdrand, ImpJs, ImpCustom}"
  shows "imp (t\<lparr>feat_rdrand := x, feat_js := y, feat_custom := z\<rparr>) = Some b"
proof -
  let ?t = "t\<lparr>feat_rdrand := x, feat_js := y, feat_custom := z\<rparr>"
  have eq: "needs_fallback ?t = needs_fallback t" "target_os ?t = target_os t" "target_arch ?t = target_arch t" "target_env ?t = target_env t"
    "target_windows ?t = target_windows t" "feat_linux_disable_fallback ?t = feat_linux_disable_fallback t"
    by (simp_all add: needs_fallback_def)
  have rest: "(if c1 then Some ImpRdrand else if c2 then Some ImpJs else if c3 then Some ImpCustom else None) \<noteq> Some b" for c1 c2 c3
    using assms(2) by auto
  show ?thesis
    using assms(1) unfolding imp_def Let_def eq by (elim if_pass) (use rest in blast)
qed

text \<open>An NTSTATUS code has its two top bits set; with the topmost cleared it is in the range of codes of the operating system
  and never zero.\<close>

lemma bit_push_one: "k < 32 \<Longrightarrow> bit (push_bit k 1 :: u32) n \<longleftrightarrow> n = k"
  by (auto simp: bit_simps)

lemma ntstatus_code:
  fixes ret :: u32
  assumes "drop_bit 30 ret = 3"
  shows "xor ret (push_bit 31 1) = or (push_bit 30 1) (take_bit 30 ret)"
proof (rule bit_word_eqI)
  fix n
  assume n: "n < LENGTH(32)"
  have bits: "bit ret 30" "bit ret 31" using arg_cong [OF assms, of "\<lambda>x. bit x 0"] arg_cong [OF assms, of "\<lambda>x. bit x 1"]
    by (simp_all add: bit_simps)
  have "bit (push_bit 31 1 :: u32) n \<longleftrightarrow> n = 31" "bit (push_bit 30 1 :: u32) n \<longleftrightarrow> n = 30" by (rule bit_push_one, simp)+
  moreover have "n < 30 \<or> n = 30 \<or> n = 31" using n by auto
  ultimately show "bit (xor ret (push_bit 31 1)) n = bit (or (push_bit 30 1) (take_bit 30 ret)) n"
    using bits by (auto simp only: bit_xor_iff bit_or_iff bit_take_bit_iff)
qed

theorem windows_error_code:
  assumes "windows_chunk S uwp d w = Some (Inl e, d', w')"
  shows "code e \<noteq> 0 \<and> (\<exists>n. raw_os_error e = Some n)"
proof -
  obtain ret :: u32 where ret: "drop_bit 30 ret = 3" "e = Error (xor ret (push_bit 31 1))"
    using assms by (auto simp: windows_chunk_def split: prod.splits if_splits)
  let ?c = "or (push_bit 30 1) (take_bit 30 ret)"
  have p: "bit (push_bit 30 1 :: u32) n \<longleftrightarrow> n = 30" for n by (rule bit_push_one) simp
  have "bit ?c 30" by (simp only: bit_or_iff p) simp
  then have "?c \<noteq> 0" by auto
  moreover have "?c = take_bit 31 ?c"
    by (rule bit_word_eqI) (auto simp only: bit_or_iff bit_take_bit_iff p)
  then have "unat ?c < 2 ^ 31" by (metis unsigned_take_bit_eq take_bit_nat_less_exp)
  then have "?c < INTERNAL_START" by (simp add: word_less_nat_alt INTERNAL_START_def)
  ultimately show ?thesis using ret ntstatus_code [OF ret(1)] by (simp add: raw_os_error_def)
qed

text \<open>SOLID: the lowest \<open>i32\<close> is its own negation, which is the code of an unsupported target.\<close>

theorem solid_lowest_code:
  assumes "oc_SOLID_RNG_SampleRandomBytes S d w = (push_bit 31 1, d', w')"
  shows "solid_getrandom_inner S d w = Some (Inl (internal_error 0), d', w')"
  using assms by (simp add: solid_getrandom_inner_def internal_error_def INTERNAL_START_def)

end
