(* ===== verification/Fan_Out.thy ===== *)
theory Fan_Out
  imports Send_Bounds
begin

text \<open>
  The fan-out of a message to all devices of a recipient, against the server of the unit tests of
  \<open>src/src/manager/send.rs\<close>: \<open>StatefulMockHttp\<close> knows the registered devices of every account, answers a PUT
  that addresses other devices with 409 and the difference, and hands out prekey bundles. The locale
  \<open>fan_out\<close> is what the retry loop needs of its environment to reach all registered devices; its lemmas follow
  the loop through the correcting round. It is interpreted on the production environment \<open>pddb_env\<close> with that
  server as the network; \<open>Send_Tests\<close> interprets it on the stores of the unit tests.
\<close>

section \<open>The server\<close>

record registered_device =
  rd_device_id :: u32
  rd_prekey_response_body :: bytes

record stateful_mock =
  sm_registered :: "string \<rightharpoonup> registered_device list"
  sm_last_put_body :: "bytes option"
  sm_put_count :: nat
  sm_get_count :: nat

definition stateful_new :: stateful_mock where
  "stateful_new = \<lparr>sm_registered = Map.empty, sm_last_put_body = None, sm_put_count = 0, sm_get_count = 0\<rparr>"

definition register_device :: "string \<Rightarrow> registered_device \<Rightarrow> stateful_mock \<Rightarrow> stateful_mock" where
  "register_device uuid dev h =
     h\<lparr>sm_registered := (sm_registered h)(uuid \<mapsto> (case sm_registered h uuid of None \<Rightarrow> [] | Some v \<Rightarrow> v) @ [dev])\<rparr>"

definition registered_devices :: "string \<Rightarrow> stateful_mock \<Rightarrow> registered_device list" where
  "registered_devices uuid h = (case sm_registered h uuid of None \<Rightarrow> [] | Some v \<Rightarrow> v)"

definition registered_device_ids :: "string \<Rightarrow> stateful_mock \<Rightarrow> u32 set" where
  "registered_device_ids uuid h = rd_device_id ` set (registered_devices uuid h)"

text \<open>The uses of \<open>serde_json\<close>: the destination devices of a request, the body of a 409, and of a stored prekey
  response the identity key and the texts of its device entries.\<close>

record mock_json =
  mj_devices :: "bytes \<Rightarrow> string + u32 list"
  mj_mismatch :: "u32 list \<Rightarrow> u32 list \<Rightarrow> bytes"
  mj_identity :: "bytes \<Rightarrow> string option"
  mj_entries :: "bytes \<Rightarrow> string list"
  mj_response :: "string \<Rightarrow> string list \<Rightarrow> bytes"

text \<open>The second part of \<open>str::split\<close>, and what the mock takes as the account of a message URL.\<close>

definition split_second :: "string \<Rightarrow> string \<Rightarrow> string option" where
  "split_second sep s =
     map_option (\<lambda>i. let t = drop (i + length sep) s in case find_str sep t of None \<Rightarrow> t | Some j \<Rightarrow> take j t) (find_str sep s)"

definition message_uuid :: "string \<Rightarrow> string" where
  "message_uuid url =
     (case split_second ''/v1/messages/'' url of
        None \<Rightarrow> []
      | Some s \<Rightarrow> rev (dropWhile (\<lambda>c. c = CHR ''/'') (rev (takeWhile (\<lambda>c. c \<noteq> CHR ''?'') s))))"

definition stateful_put :: "mock_json \<Rightarrow> string \<Rightarrow> string \<Rightarrow> bytes \<Rightarrow> stateful_mock \<Rightarrow> (stateful_mock, io_error, http_response) sres" where
  "stateful_put J url auth body h =
     (let h1 = h\<lparr>sm_put_count := sm_put_count h + 1, sm_last_put_body := Some body\<rparr> in
      case mj_devices J body of
        Inl e \<Rightarrow> (Inl (IoError OtherKind (''body parse: '' @ e)), h1)
      | Inr sent \<Rightarrow>
          (let registered = map rd_device_id (registered_devices (message_uuid url) h1);
               missing = sort (remdups (filter (\<lambda>d. d \<notin> set sent) registered));
               extra = sort (remdups (filter (\<lambda>d. d \<notin> set registered) sent))
           in if missing = [] \<and> extra = [] then (Inr \<lparr>hr_status = 200, hr_body = ''{}''\<rparr>, h1)
              else (Inr \<lparr>hr_status = 409, hr_body = mj_mismatch J missing extra\<rparr>, h1)))"

text \<open>\<open>str::split\<close> at a character.\<close>

fun split_char :: "char \<Rightarrow> string \<Rightarrow> string list" where
  "split_char c [] = [[]]"
| "split_char c (x # xs) =
     (if x = c then [] # split_char c xs
      else case split_char c xs of [] \<Rightarrow> [[x]] | p # ps \<Rightarrow> (x # p) # ps)"

definition wildcard_response :: "mock_json \<Rightarrow> registered_device list \<Rightarrow> bytes" where
  "wildcard_response J ds =
     mj_response J (case List.map_filter (mj_identity J \<circ> rd_prekey_response_body) ds of [] \<Rightarrow> [] | i # _ \<Rightarrow> i)
       (concat (map (mj_entries J \<circ> rd_prekey_response_body) ds))"

definition stateful_get :: "mock_json \<Rightarrow> string \<Rightarrow> string \<Rightarrow> stateful_mock \<Rightarrow> (stateful_mock, io_error, http_response) sres" where
  "stateful_get J url auth h =
     (let h1 = h\<lparr>sm_get_count := sm_get_count h + 1\<rparr> in
      case split_second ''/v2/keys/'' url of
        None \<Rightarrow> (Inl (IoError OtherKind (''bad url: '' @ url)), h1)
      | Some tail \<Rightarrow>
          (case split_char (CHR ''/'') tail of
             uuid # selector # _ \<Rightarrow>
               (if selector = ''*'' then
                  (case registered_devices uuid h1 of
                     [] \<Rightarrow> (Inr \<lparr>hr_status = 404, hr_body = []\<rparr>, h1)
                   | ds \<Rightarrow> (Inr \<lparr>hr_status = 200, hr_body = wildcard_response J ds\<rparr>, h1))
                else
                  (case parse_u32 selector of
                     None \<Rightarrow> (Inl (IoError OtherKind (''bad selector '' @ selector)), h1)
                   | Some dev \<Rightarrow>
                       (case List.find (\<lambda>d. rd_device_id d = dev) (registered_devices uuid h1) of
                          None \<Rightarrow> (Inl (IoError OtherKind (''no registered device '' @ uuid @ ''/'' @ show_word dev)), h1)
                        | Some d \<Rightarrow> (Inr \<lparr>hr_status = 200, hr_body = rd_prekey_response_body d\<rparr>, h1))))
           | _ \<Rightarrow> (Inl (IoError OtherKind ''missing device selector''), h1)))"

text \<open>As the network of the send path; the clock is the test's, and sleeping does nothing.\<close>

definition stateful_net :: "mock_json \<Rightarrow> (stateful_mock \<Rightarrow> nat) \<Rightarrow> stateful_mock net" where
  "stateful_net J clock = \<lparr>nt_put = stateful_put J, nt_get = stateful_get J, nt_sleep = (\<lambda>_ h. h), nt_now = clock\<rparr>"

section \<open>Reaching every device\<close>

definition device_valid :: "libsignal \<Rightarrow> u32 \<Rightarrow> bool" where
  "device_valid L d \<longleftrightarrow> d < 256 \<and> ls_device_id_new L (ucast d) = Inr (ucast d)"

lemma device_valid_checked: "device_valid L d \<Longrightarrow> checked_device L what d = Inr (ucast d)"
  by (simp add: device_valid_def checked_device_def u8_try_from_def)

lemma device_valid_address: "device_valid L d \<Longrightarrow> device_protocol_address L u d = Some \<lparr>pa_name = u, pa_device = ucast d\<rparr>"
  by (simp add: device_valid_def device_protocol_address_def u8_try_from_def)

text \<open>Dropping the sessions of the unregistered devices forgets them.\<close>

definition forgets :: "('w \<Rightarrow> bool) \<Rightarrow> ('w \<Rightarrow> u32 set) \<Rightarrow> ('w \<Rightarrow> 'x) \<Rightarrow> (u32 list \<Rightarrow> 'w \<Rightarrow> 'w) \<Rightarrow> u32 set \<Rightarrow> 'w \<Rightarrow> bool" where
  "forgets ok known sent drp reg w \<longleftrightarrow> (\<forall>w1 ds. ok w1 \<longrightarrow> known w1 = known w \<longrightarrow> set ds = known w - reg \<longrightarrow>
     ok (drp ds w1) \<and> known (drp ds w1) = known w1 - set ds \<and> sent (drp ds w1) = sent w1)"

text \<open>\<open>known\<close> are the devices of the account \<open>u\<close> with a session, \<open>reg\<close> those registered at the server, \<open>sent\<close> the number
  of PUTs so far with the devices the last one addressed.\<close>

locale fan_out = device_id_law L for L :: libsignal +
  fixes U :: send_lib and E :: "'w send_env" and acct :: account_info and base :: url and u :: string
    and req_json :: "submit_messages_request \<Rightarrow> bytes" and inv :: "'w \<Rightarrow> bool" and known :: "'w \<Rightarrow> u32 set"
    and reg :: "u32 set" and sent :: "'w \<Rightarrow> nat \<times> u32 list"
  assumes base: "chat_base_url U acct = Inr base"
    and json: "sl_request_to_json U r = Inr (req_json r)"
    and reg_valid: "d \<in> reg \<Longrightarrow> device_valid L d"
    and known_valid: "inv w \<Longrightarrow> d \<in> known w \<Longrightarrow> device_valid L d"
    and ids: "inv w \<Longrightarrow> set (sv_device_ids_for E u w) = known w"
    and encrypts: "inv w \<Longrightarrow> d \<in> known w \<Longrightarrow>
      \<exists>s i c w1. se_load_session E \<lparr>pa_name = u, pa_device = ucast d\<rparr> w = Inr (Some s) \<and> ls_remote_registration_id L s = Inr i
        \<and> se_message_encrypt E m \<lparr>pa_name = u, pa_device = ucast d\<rparr> l w = (Inr c, w1) \<and> (\<forall>t. c \<noteq> OtherCiphertext t)
        \<and> inv w1 \<and> known w1 = known w \<and> sent w1 = sent w"
    and answers: "inv w \<Longrightarrow> (\<And>e. e \<in> set es \<Longrightarrow> device_valid L (ome_destination_device_id e)) \<Longrightarrow>
      \<exists>resp w1. sv_put_json E (sl_url_as_str U (sl_url_set_path U (''/v1/messages/'' @ u) base)) auth
          (req_json \<lparr>smr_messages = es, smr_online = False, smr_urgent = True, smr_timestamp = ts\<rparr>) w = (Inr resp, w1)
        \<and> inv w1 \<and> known w1 = known w \<and> sent w1 = (fst (sent w) + 1, map ome_destination_device_id es)
        \<and> (if ome_destination_device_id ` set es = reg then hr_status resp = 200
           else hr_status resp = 409 \<and>
             (\<exists>mm. sl_mismatch_from_json U (from_utf8_lossy (hr_body resp)) = Inr mm \<and> distinct (missing_devices mm)
                \<and> set (missing_devices mm) = reg - ome_destination_device_id ` set es
                \<and> set (extra_devices mm) = ome_destination_device_id ` set es - reg))"
    and bundles: "inv w \<Longrightarrow> d \<in> reg \<Longrightarrow> d \<notin> known w \<Longrightarrow>
      \<exists>resp w1 pre entry i b w2. sv_get_json E (sl_url_as_str U (sl_url_set_path U (''/v2/keys/'' @ u @ ''/'' @ show_word d) base)) auth w
            = (Inr resp, w1)
        \<and> hr_status resp = 200 \<and> sl_prekeys_from_json U (hr_body resp) = Inr pre
        \<and> List.find (\<lambda>x. de_device_id x = d) (pkr_devices pre) = Some entry
        \<and> decode_identity_key L (pkr_identity_key pre) = Inr i \<and> build_prekey_bundle L U entry i = Inr b
        \<and> sv_process_prekey_bundle E \<lparr>pa_name = u, pa_device = ucast d\<rparr> b w1 = (Inr (), w2)
        \<and> inv w2 \<and> known w2 = insert d (known w) \<and> sent w2 = sent w"
begin

lemma encrypt_one:
  assumes "inv w" "d \<in> known w"
  shows "\<exists>e w1. encrypt_padded_for_recipient L E m ts \<lparr>pa_name = u, pa_device = ucast d\<rparr> l w = (Inr e, w1)
    \<and> inv w1 \<and> known w1 = known w \<and> sent w1 = sent w"
proof -
  obtain s i c w1 where enc: "se_load_session E \<lparr>pa_name = u, pa_device = ucast d\<rparr> w = Inr (Some s)" "ls_remote_registration_id L s = Inr i"
    "se_message_encrypt E m \<lparr>pa_name = u, pa_device = ucast d\<rparr> l w = (Inr c, w1)" "\<forall>t. c \<noteq> OtherCiphertext t"
    "inv w1" "known w1 = known w" "sent w1 = sent w"
    using encrypts [OF assms, of m l] by blast
  then show ?thesis by (cases c) (simp_all add: encrypt_padded_for_recipient_def)
qed

lemma encrypt_all:
  assumes "inv w" "set ds \<subseteq> known w"
  shows "\<exists>es w1. encrypt_each L E m ts u l ds w = (Inr es, w1) \<and> map ome_destination_device_id es = ds
    \<and> inv w1 \<and> known w1 = known w \<and> sent w1 = sent w"
  using assms
proof (induction ds arbitrary: w)
  case (Cons d ds)
  then have dev: "checked_device L ''device id '' d = Inr (ucast d)" by (intro device_valid_checked known_valid) auto
  obtain e w1 where e: "encrypt_padded_for_recipient L E m ts \<lparr>pa_name = u, pa_device = ucast d\<rparr> l w = (Inr e, w1)"
    "inv w1" "known w1 = known w" "sent w1 = sent w"
    using encrypt_one [of w d m ts l] Cons.prems by auto
  then obtain es w2 where es: "encrypt_each L E m ts u l ds w1 = (Inr es, w2)" "inv w2" "known w2 = known w" "sent w2 = sent w"
    using Cons.IH [of w1] Cons.prems by auto
  then have run: "encrypt_each L E m ts u l (d # ds) w = (Inr (enc_to_entity L e # es), w2)" using e(1) dev by simp
  show ?case
    by (rule exI [of _ "enc_to_entity L e # es"], rule exI [of _ w2]) (use run encrypt_each_devices [OF run] es in simp)
qed simp

lemma submit_answer:
  assumes "inv w" "\<And>e. e \<in> set es \<Longrightarrow> device_valid L (ome_destination_device_id e)"
  shows "\<exists>r w1. submit_messages L U E u es ts acct w = (r, w1) \<and> inv w1 \<and> known w1 = known w
    \<and> sent w1 = (fst (sent w) + 1, map ome_destination_device_id es)
    \<and> (if ome_destination_device_id ` set es = reg then classify_attempt r = Done
       else \<exists>body mm. classify_attempt r = Mismatch409 body \<and> parse_mismatch U body = Inr mm \<and> distinct (missing_devices mm)
         \<and> set (missing_devices mm) = reg - ome_destination_device_id ` set es
         \<and> set (extra_devices mm) = ome_destination_device_id ` set es - reg)"
proof -
  obtain resp w1 where put: "sv_put_json E (sl_url_as_str U (sl_url_set_path U (''/v1/messages/'' @ u) base)) (basic_auth L acct)
          (req_json \<lparr>smr_messages = es, smr_online = False, smr_urgent = True, smr_timestamp = ts\<rparr>) w = (Inr resp, w1)"
    and w1: "inv w1" "known w1 = known w" "sent w1 = (fst (sent w) + 1, map ome_destination_device_id es)"
    and st: "if ome_destination_device_id ` set es = reg then hr_status resp = 200
           else hr_status resp = 409 \<and>
             (\<exists>mm. sl_mismatch_from_json U (from_utf8_lossy (hr_body resp)) = Inr mm \<and> distinct (missing_devices mm)
                \<and> set (missing_devices mm) = reg - ome_destination_device_id ` set es
                \<and> set (extra_devices mm) = ome_destination_device_id ` set es - reg)"
    using answers [where auth = "basic_auth L acct" and ts = ts and es = es, OF assms] by blast
  have sub: "submit_messages L U E u es ts acct w = (interpret_send_status resp, w1)"
    using put by (simp add: submit_messages_def base json Let_def)
  have "if ome_destination_device_id ` set es = reg then classify_attempt (interpret_send_status resp) = Done
     else \<exists>body mm. classify_attempt (interpret_send_status resp) = Mismatch409 body \<and> parse_mismatch U body = Inr mm \<and> distinct (missing_devices mm)
         \<and> set (missing_devices mm) = reg - ome_destination_device_id ` set es
         \<and> set (extra_devices mm) = ome_destination_device_id ` set es - reg"
  proof (cases "ome_destination_device_id ` set es = reg")
    case True
    with st show ?thesis by (simp add: interpret_send_status_def)
  next
    case False
    with st have "classify_attempt (interpret_send_status resp) = Mismatch409 (from_utf8_lossy (hr_body resp))"
      by (simp add: interpret_send_status_def)
    with False st show ?thesis by (auto simp: parse_mismatch_def)
  qed
  with sub w1 show ?thesis by blast
qed

lemma fetch_all:
  assumes "inv w" "set ds \<subseteq> reg" "distinct ds" "set ds \<inter> known w = {}"
  shows "\<exists>w1. fetch_missing L U E u acct ds w = (Inr (), w1) \<and> inv w1 \<and> known w1 = known w \<union> set ds \<and> sent w1 = sent w"
  using assms
proof (induction ds arbitrary: w)
  case (Cons d ds)
  then have d: "d \<in> reg" "d \<notin> known w" by auto
  obtain resp w1 pre entry i b w2 where got:
    "sv_get_json E (sl_url_as_str U (sl_url_set_path U (''/v2/keys/'' @ u @ ''/'' @ show_word d) base)) (basic_auth L acct) w = (Inr resp, w1)"
    "hr_status resp = 200" "sl_prekeys_from_json U (hr_body resp) = Inr pre"
    "List.find (\<lambda>x. de_device_id x = d) (pkr_devices pre) = Some entry"
    "decode_identity_key L (pkr_identity_key pre) = Inr i" "build_prekey_bundle L U entry i = Inr b"
    "sv_process_prekey_bundle E \<lparr>pa_name = u, pa_device = ucast d\<rparr> b w1 = (Inr (), w2)"
    "inv w2" "known w2 = insert d (known w)" "sent w2 = sent w"
    using bundles [OF Cons.prems(1) d, of "basic_auth L acct"] by blast
  have "process_one_prekey_bundle L U E u d pre w1 = (Inr (), w2)"
    by (simp add: process_one_prekey_bundle_def got(4-7) device_valid_address [OF reg_valid [OF d(1)]])
  then have "fetch_missing L U E u acct (d # ds) w = fetch_missing L U E u acct ds w2"
    using got(1-3) by (simp add: base Let_def)
  with Cons.IH [of w2] Cons.prems got(8-10) show ?case by auto
qed simp

text \<open>One round.\<close>

lemma round_step:
  assumes "inv w" "known w \<noteq> {}" "forgets inv known sent (drop_sessions L E u) reg w" "device_valid L fb" "excl \<notin> Some ` known w"
  shows "\<exists>w1. attempt_step L U E m ts u fb excl l acct n w = ((if known w = reg then Return (Inr True) else Again), w1)
    \<and> inv w1 \<and> known w1 = reg \<and> sent w1 = (fst (sent w) + 1, sv_device_ids_for E u w)"
proof -
  let ?ds = "sv_device_ids_for E u w"
  have ds: "set ?ds = known w" by (rule ids [OF assms(1)])
  have "filter (\<lambda>d. d \<noteq> x) ?ds = ?ds" if "excl = Some x" for x using assms(5) ds that by (intro filter_True) auto
  then have fan: "fan_out_devices E u fb excl w = Some ?ds"
    using assms(2) ds by (cases excl) (auto simp: fan_out_devices_def Let_def)
  obtain es w1 where es: "encrypt_each L E m ts u l ?ds w = (Inr es, w1)" "map ome_destination_device_id es = ?ds"
    "inv w1" "known w1 = known w" "sent w1 = sent w"
    using encrypt_all [OF assms(1), of ?ds m ts l] ds by auto
  have img: "ome_destination_device_id ` set es = known w" using es(2) ds by (metis list.set_map)
  then have val: "device_valid L (ome_destination_device_id e)" if "e \<in> set es" for e
    using known_valid [OF assms(1)] that by blast
  obtain r w2 where r: "submit_messages L U E u es ts acct w1 = (r, w2)" "inv w2" "known w2 = known w" "sent w2 = (fst (sent w) + 1, ?ds)"
    and cl: "if known w = reg then classify_attempt r = Done
       else \<exists>body mm. classify_attempt r = Mismatch409 body \<and> parse_mismatch U body = Inr mm \<and> distinct (missing_devices mm)
         \<and> set (missing_devices mm) = reg - known w \<and> set (extra_devices mm) = known w - reg"
    using submit_answer [where ts = ts and es = es, OF es(3) val] es(2,4,5) unfolding img by auto
  note eqs = fan device_valid_checked [OF assms(4), of "''fallback device id ''"] es(1) r(1)
  show ?thesis
  proof (cases "known w = reg")
    case True
    with cl r ds show ?thesis by (auto simp: attempt_step_def eqs Let_def)
  next
    case False
    with cl obtain body mm where mm: "classify_attempt r = Mismatch409 body" "parse_mismatch U body = Inr mm"
      "set (missing_devices mm) = reg - known w" "set (extra_devices mm) = known w - reg" "distinct (missing_devices mm)" by auto
    let ?w3 = "drop_sessions L E u (extra_devices mm) w2"
    have w3: "inv ?w3" "known ?w3 = known w - (known w - reg)" "sent ?w3 = (fst (sent w) + 1, ?ds)"
      using assms(3) [unfolded forgets_def, rule_format, OF r(2,3) mm(4)] r(3,4) mm(4) by simp_all
    obtain w4 where w4: "fetch_missing L U E u acct (missing_devices mm) ?w3 = (Inr (), w4)" "inv w4"
      "known w4 = known ?w3 \<union> (reg - known w)" "sent w4 = sent ?w3"
      using fetch_all [OF w3(1), of "missing_devices mm"] mm(3,5) w3(2) by auto
    have "known w4 = reg" using w4(3) w3(2) by auto
    with w4 w3 ds False show ?thesis
      by (auto simp: attempt_step_def eqs Let_def mm handle_mismatched_devices_def)
  qed
qed

lemma forgets_registered:
  assumes "known w \<subseteq> reg"
  shows "forgets inv known sent (drop_sessions L E u) reg w"
  unfolding forgets_def
proof (intro allI impI)
  fix w1 :: 'w and ds :: "u32 list"
  assume "inv w1" "set ds = known w - reg"
  moreover from this assms have "ds = []" by (cases ds) auto
  ultimately show "inv (drop_sessions L E u ds w1) \<and> known (drop_sessions L E u ds w1) = known w1 - set ds
      \<and> sent (drop_sessions L E u ds w1) = sent w1"
    by (simp add: drop_sessions_def)
qed

text \<open>The loop from its start: one PUT when the sessions are those of the registered devices, two otherwise,
  unless the time budget was used up by the correction.\<close>

lemma converges:
  assumes "inv w" "known w \<noteq> {}" "reg \<noteq> {}" "forgets inv known sent (drop_sessions L E u) reg w" "device_valid L fb"
    "excl \<notin> Some ` (known w \<union> reg)"
    and "submit_padded_with_retry_generic L U E m ts u fb excl l acct w = (r, w')"
  shows "inv w' \<and> known w' = reg
    \<and> ((r = Inr True \<and> set (snd (sent w')) = reg \<and> fst (sent w') = fst (sent w) + (if known w = reg then 1 else 2)
        \<and> (known w = reg \<longrightarrow> snd (sent w') = sv_device_ids_for E u w))
      \<or> (r = Inl RetryExhausted \<and> known w \<noteq> reg \<and> RETRY_BUDGET_MS < sv_now_ms E w' - sv_now_ms E w))"
proof -
  obtain w1 where one: "attempt_step L U E m ts u fb excl l acct 1 w = ((if known w = reg then Return (Inr True) else Again), w1)"
    "inv w1" "known w1 = reg" "sent w1 = (fst (sent w) + 1, sv_device_ids_for E u w)"
    using round_step [OF assms(1,2,4,5), of excl m ts l 1] assms(6) by blast
  have loop: "retry_loop L U E m ts u fb excl l acct (sv_now_ms E w) 0 w =
      (if known w = reg then (Inr True, w1) else retry_loop L U E m ts u fb excl l acct (sv_now_ms E w) 1 w1)"
    by (subst retry_loop.simps) (use one(1) in simp)
  show ?thesis
  proof (cases "known w = reg")
    case True
    with loop assms(7) one ids [OF assms(1)] show ?thesis by (auto simp: submit_padded_with_retry_generic_def)
  next
    case False
    have "known w1 \<noteq> {}" "forgets inv known sent (drop_sessions L E u) reg w1" using assms(3) one(3) forgets_registered [of w1] by auto
    then obtain w2 where two: "attempt_step L U E m ts u fb excl l acct 2 w1 = (Return (Inr True), w2)"
      "inv w2" "known w2 = reg" "sent w2 = (fst (sent w1) + 1, sv_device_ids_for E u w1)"
      using round_step [OF one(2) _ _ assms(5), of excl m ts l 2] assms(6) one(3) by auto
    have "retry_loop L U E m ts u fb excl l acct (sv_now_ms E w) 1 w1 =
        (if sv_now_ms E w1 - sv_now_ms E w > RETRY_BUDGET_MS then (Inl RetryExhausted, w1) else (Inr True, w2))"
      by (subst retry_loop.simps) (use two(1) in \<open>simp add: numeral_2_eq_2\<close>)
    with False loop assms(7) one two ids [OF one(2)] show ?thesis
      by (auto simp: submit_padded_with_retry_generic_def split: if_splits)
  qed
qed

end

section \<open>The production stores against the server\<close>

lemma split_char_no: "c \<notin> set xs \<Longrightarrow> split_char c xs = [xs]"
  by (induction xs) auto

lemma split_char_at: "c \<notin> set xs \<Longrightarrow> split_char c (xs @ c # ys) = xs # split_char c ys"
  by (induction xs) auto

lemma slash_notin_show_word [simp]: "CHR ''/'' \<notin> set (show_word w)"
  using show_nat_digits [of "CHR ''/''" "unat w"] by (auto simp: show_word_def is_digit_def)

definition last_put :: "mock_json \<Rightarrow> stateful_mock \<Rightarrow> nat \<times> u32 list" where
  "last_put J h = (sm_put_count h,
     case sm_last_put_body h of None \<Rightarrow> [] | Some b \<Rightarrow> (case mj_devices J b of Inl _ \<Rightarrow> [] | Inr ds \<Rightarrow> ds))"

text \<open>The answer of the server to a request for the devices \<open>ds\<close>.\<close>

lemma stateful_put_eq:
  assumes "mj_devices J body = Inr ds" "message_uuid url = u" "stateful_put J url auth body h = (r, h1)"
  shows "registered_devices u h1 = registered_devices u h \<and> last_put J h1 = (fst (last_put J h) + 1, ds)
    \<and> (if set ds = registered_device_ids u h then r = Inr \<lparr>hr_status = 200, hr_body = ''{}''\<rparr>
       else \<exists>ms xs. r = Inr \<lparr>hr_status = 409, hr_body = mj_mismatch J ms xs\<rparr> \<and> distinct ms
         \<and> set ms = registered_device_ids u h - set ds \<and> set xs = set ds - registered_device_ids u h)"
proof -
  define ms where "ms = sort (remdups (filter (\<lambda>d. d \<notin> set ds) (map rd_device_id (registered_devices u h))))"
  define xs where "xs = sort (remdups (filter (\<lambda>d. d \<notin> set (map rd_device_id (registered_devices u h))) ds))"
  have sets: "set ms = registered_device_ids u h - set ds" "set xs = set ds - registered_device_ids u h"
    by (auto simp: ms_def xs_def registered_device_ids_def)
  have dist: "distinct ms" by (simp add: ms_def)
  have "ms = [] \<and> xs = [] \<longleftrightarrow> set ms = {} \<and> set xs = {}" by simp
  then have nil: "ms = [] \<and> xs = [] \<longleftrightarrow> set ds = registered_device_ids u h" unfolding sets by blast
  have h1: "h1 = h\<lparr>sm_put_count := sm_put_count h + 1, sm_last_put_body := Some body\<rparr>"
    and r: "r = (if ms = [] \<and> xs = [] then Inr \<lparr>hr_status = 200, hr_body = ''{}''\<rparr> else Inr \<lparr>hr_status = 409, hr_body = mj_mismatch J ms xs\<rparr>)"
    using assms unfolding ms_def xs_def by (auto simp: stateful_put_def Let_def registered_devices_def split: if_splits)
  have "registered_devices u h1 = registered_devices u h" "last_put J h1 = (fst (last_put J h) + 1, ds)"
    by (simp_all add: h1 last_put_def assms(1) registered_devices_def)
  with sets dist show ?thesis unfolding r nil by auto
qed

lemma stateful_get_device:
  assumes "split_second ''/v2/keys/'' url = Some (u @ ''/'' @ show_word d)" "CHR ''/'' \<notin> set u"
    and "d \<in> registered_device_ids u h"
  shows "\<exists>x \<in> set (registered_devices u h). rd_device_id x = d
    \<and> stateful_get J url auth h = (Inr \<lparr>hr_status = 200, hr_body = rd_prekey_response_body x\<rparr>, h\<lparr>sm_get_count := sm_get_count h + 1\<rparr>)"
proof -
  have "List.find (\<lambda>x. rd_device_id x = d) (registered_devices u h) \<noteq> None"
    using assms(3) by (auto simp: find_None_iff registered_device_ids_def)
  then obtain x where x: "List.find (\<lambda>x. rd_device_id x = d) (registered_devices u h) = Some x" by blast
  then have "x \<in> set (registered_devices u h)" "rd_device_id x = d" by (auto simp: find_Some_iff)
  moreover have "show_word d \<noteq> ''*''" using show_nat_digits [of "CHR ''*''" "unat d"] by (auto simp: show_word_def is_digit_def)
  ultimately show ?thesis
    using assms(1,2) x
    by (intro bexI [of _ x]) (simp_all add: stateful_get_def split_char_at split_char_no registered_devices_def)
qed

text \<open>What the send path and the server share about the account \<open>u\<close>: URLs, JSON, the registered devices and the bundles
  in their prekey responses.\<close>

locale served_account = device_id_law L for L :: libsignal +
  fixes U :: send_lib and J :: mock_json and acct :: account_info and base :: url and u :: string
    and req_json :: "submit_messages_request \<Rightarrow> bytes" and devs :: "registered_device list" and offer :: "registered_device \<Rightarrow> pre_key_bundle"
  assumes base_url: "chat_base_url U acct = Inr base"
    and to_json: "sl_request_to_json U r = Inr (req_json r)"
    and put_url: "message_uuid (sl_url_as_str U (sl_url_set_path U (''/v1/messages/'' @ u) base)) = u"
    and get_url: "split_second ''/v2/keys/'' (sl_url_as_str U (sl_url_set_path U (''/v2/keys/'' @ u @ ''/'' @ show_word (d :: u32)) base))
      = Some (u @ ''/'' @ show_word d)"
    and plain_uuid: "CHR ''/'' \<notin> set u"
    and request_devices: "(\<And>e. e \<in> set (smr_messages r) \<Longrightarrow> device_valid L (ome_destination_device_id e)) \<Longrightarrow>
      mj_devices J (req_json r) = Inr (map ome_destination_device_id (smr_messages r))"
    and mismatch_devices: "(\<And>d. d \<in> set ms \<union> set xs \<Longrightarrow> device_valid L d) \<Longrightarrow>
      \<exists>mm. sl_mismatch_from_json U (from_utf8_lossy (mj_mismatch J ms xs)) = Inr mm \<and> missing_devices mm = ms \<and> extra_devices mm = xs"
    and devs_valid: "x \<in> set devs \<Longrightarrow> device_valid L (rd_device_id x)"
    and devs_bundle: "x \<in> set devs \<Longrightarrow>
      \<exists>pre entry i. sl_prekeys_from_json U (rd_prekey_response_body x) = Inr pre
        \<and> List.find (\<lambda>y. de_device_id y = rd_device_id x) (pkr_devices pre) = Some entry
        \<and> decode_identity_key L (pkr_identity_key pre) = Inr i \<and> build_prekey_bundle L U entry i = Inr (offer x)"
begin

lemma device_narrow: "device_valid L d \<Longrightarrow> ucast (ucast d :: u8) = d"
  using ucast_small by (simp add: device_valid_def)

lemma server_answers:
  fixes es :: "outgoing_message_entity list"
  assumes h: "registered_devices u h = devs" and val: "\<And>e. e \<in> set es \<Longrightarrow> device_valid L (ome_destination_device_id e)"
  defines "ds \<equiv> ome_destination_device_id ` set es" and "reg \<equiv> rd_device_id ` set devs"
  shows "\<exists>resp h1. stateful_put J (sl_url_as_str U (sl_url_set_path U (''/v1/messages/'' @ u) base)) auth
        (req_json \<lparr>smr_messages = es, smr_online = False, smr_urgent = True, smr_timestamp = ts\<rparr>) h = (Inr resp, h1)
      \<and> registered_devices u h1 = devs
      \<and> last_put J h1 = (fst (last_put J h) + 1, map ome_destination_device_id es)
      \<and> (if ds = reg then hr_status resp = 200 else hr_status resp = 409 \<and>
        (\<exists>mm. sl_mismatch_from_json U (from_utf8_lossy (hr_body resp)) = Inr mm \<and> distinct (missing_devices mm) \<and> set (missing_devices mm) = reg - ds \<and> set (extra_devices mm) = ds - reg))"
proof -
  let ?ds = "ome_destination_device_id ` set es" and ?reg = "rd_device_id ` set devs"
  let ?url = "sl_url_as_str U (sl_url_set_path U (''/v1/messages/'' @ u) base)"
  let ?body = "req_json \<lparr>smr_messages = es, smr_online = False, smr_urgent = True, smr_timestamp = ts\<rparr>"
  have reg: "registered_device_ids u h = ?reg" using h by (simp add: registered_device_ids_def)
  obtain r h1 where put: "stateful_put J ?url auth ?body h = (r, h1)" by fastforce
  have "mj_devices J ?body = Inr (map ome_destination_device_id es)"
    using request_devices [of "\<lparr>smr_messages = es, smr_online = False, smr_urgent = True, smr_timestamp = ts\<rparr>"] val by simp
  note ans = stateful_put_eq [OF this put_url put, simplified, unfolded reg h]
  have mm: "\<exists>mm. sl_mismatch_from_json U (from_utf8_lossy (mj_mismatch J ms xs)) = Inr mm \<and> distinct (missing_devices mm) \<and> set (missing_devices mm) = ?reg - ?ds \<and> set (extra_devices mm) = ?ds - ?reg"
    if "distinct ms" "set ms = ?reg - ?ds" "set xs = ?ds - ?reg" for ms xs
  proof -
    have "device_valid L d" if "d \<in> set ms \<union> set xs" for d
      using that \<open>set ms = _\<close> \<open>set xs = _\<close> val devs_valid by auto
    with that show ?thesis using mismatch_devices [of ms xs] by auto
  qed
  obtain resp where resp: "r = Inr resp" and st: "if ?ds = ?reg then hr_status resp = 200 else hr_status resp = 409 \<and>
      (\<exists>mm. sl_mismatch_from_json U (from_utf8_lossy (hr_body resp)) = Inr mm \<and> distinct (missing_devices mm) \<and> set (missing_devices mm) = ?reg - ?ds \<and> set (extra_devices mm) = ?ds - ?reg)"
    using ans mm by (cases "?ds = ?reg") auto
  show ?thesis unfolding ds_def reg_def
    using put resp st ans by (intro exI [of _ resp] exI [of _ h1]) simp
qed

lemma server_bundle:
  fixes d :: u32
  assumes h: "registered_devices u h = devs" and d: "d \<in> rd_device_id ` set devs"
  shows "\<exists>x resp h1 pre entry i. x \<in> set devs \<and> rd_device_id x = d \<and>
      stateful_get J (sl_url_as_str U (sl_url_set_path U (''/v2/keys/'' @ u @ ''/'' @ show_word d) base)) auth h = (Inr resp, h1)
    \<and> hr_status resp = 200 \<and> sl_prekeys_from_json U (hr_body resp) = Inr pre
    \<and> List.find (\<lambda>x. de_device_id x = d) (pkr_devices pre) = Some entry
    \<and> decode_identity_key L (pkr_identity_key pre) = Inr i \<and> build_prekey_bundle L U entry i = Inr (offer x)
    \<and> registered_devices u h1 = devs \<and> last_put J h1 = last_put J h"
proof -
  let ?h = "h\<lparr>sm_get_count := sm_get_count h + 1\<rparr>"
  have "d \<in> registered_device_ids u h" using h d by (simp add: registered_device_ids_def)
  from stateful_get_device [OF get_url plain_uuid this, of J auth] obtain x where x: "x \<in> set devs" "rd_device_id x = d"
    "stateful_get J (sl_url_as_str U (sl_url_set_path U (''/v2/keys/'' @ u @ ''/'' @ show_word d) base)) auth h
       = (Inr \<lparr>hr_status = 200, hr_body = rd_prekey_response_body x\<rparr>, ?h)" using h by auto
  have "registered_devices u ?h = devs" "last_put J ?h = last_put J h" using h by (simp_all add: registered_devices_def last_put_def)
  with devs_bundle [OF x(1)] x show ?thesis by (fastforce simp del: append_Cons)
qed

end

text \<open>The sessions stored for \<open>u\<close> are those of devices, and load.\<close>

definition sessions_sound :: "libsignal \<Rightarrow> 's pddb \<Rightarrow> string \<Rightarrow> 's \<Rightarrow> bool" where
  "sessions_sound L P u s \<longleftrightarrow> (\<forall>v. load_session L P SESSION_DICT \<lparr>pa_name = u, pa_device = v\<rparr> s \<noteq> Inr None \<longrightarrow>
     device_valid L (ucast v) \<and> (\<exists>r. load_session L P SESSION_DICT \<lparr>pa_name = u, pa_device = v\<rparr> s = Inr (Some r)))"

definition ready ::
  "libsignal \<Rightarrow> 's pddb \<Rightarrow> ('s \<Rightarrow> kv) \<Rightarrow> ('s \<Rightarrow> bool) \<Rightarrow> string \<Rightarrow> registered_device list \<Rightarrow> 's \<times> stateful_mock \<Rightarrow> bool" where
  "ready L P view trusted u devs w \<longleftrightarrow> canonical_sessions (view (fst w)) \<and> trusted (fst w) \<and> sessions_sound L P u (fst w)
     \<and> registered_devices u (snd w) = devs"

text \<open>\<open>session_added\<close>: what libsignal leaves of the session store after it advanced or made the session of \<open>a\<close>.\<close>

definition session_added :: "libsignal \<Rightarrow> 's pddb \<Rightarrow> ('s \<Rightarrow> kv) \<Rightarrow> protocol_address \<Rightarrow> 's \<Rightarrow> 's \<Rightarrow> bool" where
  "session_added L P view a s s1 \<longleftrightarrow>
     (\<exists>r. \<forall>b. load_session L P SESSION_DICT b s1 = (if b = a then Inr (Some r) else load_session L P SESSION_DICT b s))
     \<and> (canonical_sessions (view s) \<longrightarrow> canonical_sessions (view s1))"

locale delivering = signal_stores P view L + served_account L U J acct base u req_json devs offer
  for P :: "'s pddb" and view :: "'s \<Rightarrow> kv" and L :: libsignal and U J acct base u req_json devs offer +
  fixes R :: "'s protocol" and trusted :: "'s \<Rightarrow> bool" and clock :: "stateful_mock \<Rightarrow> nat"
  assumes process_session: "x \<in> set devs \<Longrightarrow> trusted s \<Longrightarrow>
      \<exists>s1. pr_process_prekey_bundle R \<lparr>pa_name = u, pa_device = ucast (rd_device_id x)\<rparr> (offer x) s = (Inr (), s1)
        \<and> trusted s1 \<and> session_added L P view \<lparr>pa_name = u, pa_device = ucast (rd_device_id x)\<rparr> s s1"
    and encrypt_session: "trusted s \<Longrightarrow> load_session L P SESSION_DICT a s = Inr (Some q) \<Longrightarrow>
      \<exists>i c s1. ls_remote_registration_id L q = Inr i \<and> pr_message_encrypt R m a l s = (Inr c, s1)
        \<and> (\<forall>t. c \<noteq> OtherCiphertext t) \<and> trusted s1 \<and> session_added L P view a s s1"
    and delete_trusted: "trusted s \<Longrightarrow> trusted (delete_session P SESSION_DICT a s)"
begin

lemma known_iff:
  assumes "canonical_sessions (view s)"
  shows "d \<in> set (device_ids_for P SESSION_DICT u s) \<longleftrightarrow>
    (\<exists>v. d = ucast v \<and> load_session L P SESSION_DICT \<lparr>pa_name = u, pa_device = v\<rparr> s \<noteq> Inr None)"
  by (rule session.ids_iff [OF assms])

lemma added_ready:
  assumes "session_added L P view \<lparr>pa_name = u, pa_device = v\<rparr> s s1" "ready L P view trusted u devs (s, h)" "trusted s1"
    "device_valid L (ucast v)" "registered_devices u h1 = devs"
  shows "ready L P view trusted u devs (s1, h1)
    \<and> set (device_ids_for P SESSION_DICT u s1) = insert (ucast v) (set (device_ids_for P SESSION_DICT u s))"
proof -
  obtain r where r: "\<And>b. load_session L P SESSION_DICT b s1 =
      (if b = \<lparr>pa_name = u, pa_device = v\<rparr> then Inr (Some r) else load_session L P SESSION_DICT b s)"
    and can: "canonical_sessions (view s)" "canonical_sessions (view s1)"
    using assms(1,2) by (auto simp: session_added_def ready_def)
  have "ready L P view trusted u devs (s1, h1)"
    using assms can(2) by (auto simp: ready_def sessions_sound_def r)
  moreover have "d \<in> set (device_ids_for P SESSION_DICT u s1) \<longleftrightarrow> d = ucast v \<or> d \<in> set (device_ids_for P SESSION_DICT u s)" for d
    unfolding known_iff [OF can(1)] known_iff [OF can(2)] r by auto
  ultimately show ?thesis by auto
qed

lemma known_session:
  assumes "ready L P view trusted u devs w" "d \<in> set (device_ids_for P SESSION_DICT u (fst w))"
  shows "device_valid L d \<and> (\<exists>q. load_session L P SESSION_DICT \<lparr>pa_name = u, pa_device = ucast d\<rparr> (fst w) = Inr (Some q))"
proof -
  obtain v where "d = ucast v" "load_session L P SESSION_DICT \<lparr>pa_name = u, pa_device = v\<rparr> (fst w) \<noteq> Inr None"
    using assms known_iff by (auto simp: ready_def)
  with assms(1) show ?thesis by (auto simp: ready_def sessions_sound_def)
qed

lemma session_encrypts:
  fixes d :: u32
  assumes w: "ready L P view trusted u devs w" "d \<in> set (device_ids_for P SESSION_DICT u (fst w))"
  defines "a \<equiv> \<lparr>pa_name = u, pa_device = ucast d\<rparr>"
  shows "\<exists>s i c w1. load_session L P SESSION_DICT a (fst w) = Inr (Some s) \<and> ls_remote_registration_id L s = Inr i
      \<and> on_fst (pr_message_encrypt R m a l) w = (Inr c, w1) \<and> (\<forall>t. c \<noteq> OtherCiphertext t) \<and> ready L P view trusted u devs w1
      \<and> set (device_ids_for P SESSION_DICT u (fst w1)) = set (device_ids_for P SESSION_DICT u (fst w)) \<and> last_put J (snd w1) = last_put J (snd w)"
proof -
  obtain q where val: "device_valid L d" and q: "load_session L P SESSION_DICT a (fst w) = Inr (Some q)" using known_session [OF w] by (auto simp: a_def)
  have d: "ucast (ucast d :: u8) = d" using val ucast_small by (simp add: device_valid_def)
  obtain i c s1 where enc: "ls_remote_registration_id L q = Inr i" "pr_message_encrypt R m a l (fst w) = (Inr c, s1)"
    "\<forall>t. c \<noteq> OtherCiphertext t" "trusted s1" "session_added L P view a (fst w) s1"
    using encrypt_session [of "fst w" a q m l] q w(1) by (auto simp: ready_def)
  have "ready L P view trusted u devs (s1, snd w) \<and> set (device_ids_for P SESSION_DICT u s1) = set (device_ids_for P SESSION_DICT u (fst w))"
    using added_ready [OF enc(5) [unfolded a_def], of "snd w" "snd w"] w enc(4) val d by (auto simp: ready_def)
  with q enc show ?thesis by (simp add: on_fst_def)
qed

lemma server_establishes:
  fixes d :: u32
  assumes w: "ready L P view trusted u devs w" and d: "d \<in> rd_device_id ` set devs"
  shows "\<exists>resp h1 pre entry i b s1.
      stateful_get J (sl_url_as_str U (sl_url_set_path U (''/v2/keys/'' @ u @ ''/'' @ show_word d) base)) auth (snd w) = (Inr resp, h1)
    \<and> hr_status resp = 200 \<and> sl_prekeys_from_json U (hr_body resp) = Inr pre
    \<and> List.find (\<lambda>x. de_device_id x = d) (pkr_devices pre) = Some entry
    \<and> decode_identity_key L (pkr_identity_key pre) = Inr i \<and> build_prekey_bundle L U entry i = Inr b
    \<and> pr_process_prekey_bundle R \<lparr>pa_name = u, pa_device = ucast d\<rparr> b (fst w) = (Inr (), s1)
    \<and> ready L P view trusted u devs (s1, h1) \<and> set (device_ids_for P SESSION_DICT u s1) = insert d (set (device_ids_for P SESSION_DICT u (fst w)))
    \<and> last_put J h1 = last_put J (snd w)"
proof -
  have "registered_devices u (snd w) = devs" using w by (simp add: ready_def)
  from server_bundle [OF this d, of auth] obtain x resp h1 pre entry i where x: "x \<in> set devs" "rd_device_id x = d"
    "stateful_get J (sl_url_as_str U (sl_url_set_path U (''/v2/keys/'' @ u @ ''/'' @ show_word d) base)) auth (snd w) = (Inr resp, h1)"
    "hr_status resp = 200" "sl_prekeys_from_json U (hr_body resp) = Inr pre" "List.find (\<lambda>x. de_device_id x = d) (pkr_devices pre) = Some entry"
    "decode_identity_key L (pkr_identity_key pre) = Inr i" "build_prekey_bundle L U entry i = Inr (offer x)"
    "registered_devices u h1 = devs" "last_put J h1 = last_put J (snd w)" by blast
  obtain s1 where s1: "pr_process_prekey_bundle R \<lparr>pa_name = u, pa_device = ucast d\<rparr> (offer x) (fst w) = (Inr (), s1)" "trusted s1"
    "session_added L P view \<lparr>pa_name = u, pa_device = ucast d\<rparr> (fst w) s1"
    using process_session [OF x(1), of "fst w"] x(2) w by (auto simp: ready_def)
  have val: "device_valid L d" using devs_valid x by auto
  have "ready L P view trusted u devs (s1, h1)
    \<and> set (device_ids_for P SESSION_DICT u s1) = insert d (set (device_ids_for P SESSION_DICT u (fst w)))"
    using added_ready [OF s1(3), of "snd w" h1] w s1(2) val device_narrow [OF val] x(9) by simp
  with x s1 show ?thesis by (intro exI conjI) (assumption | simp)+
qed

text \<open>The sessions that a 409 names as extra are dropped.\<close>

lemma extras_forgotten:
  "forgets (ready L P view trusted u devs) (\<lambda>w. set (device_ids_for P SESSION_DICT u (fst w))) (\<lambda>w. last_put J (snd w))
     (drop_sessions L (pddb_env L P R N) u) (rd_device_id ` set devs) w"
  unfolding forgets_def
proof (intro allI impI)
  fix w1 and ds :: "u32 list"
  let ?known = "\<lambda>w. set (device_ids_for P SESSION_DICT u (fst w))"
  assume w1: "ready L P view trusted u devs w1" and "?known w1 = ?known w" and ds: "set ds = ?known w - rd_device_id ` set devs"
  then have val: "\<And>d. d \<in> set ds \<Longrightarrow> device_valid L d" using known_session [OF w1] by blast
  define as where "as = List.map_filter (device_protocol_address L u) ds"
  have as: "as = map (\<lambda>d. \<lparr>pa_name = u, pa_device = ucast d\<rparr>) ds"
    unfolding as_def using val by (induction ds) (simp_all add: map_filter_simps device_valid_address)
  have dd: "ucast (ucast d :: u8) = d" if "d \<in> set ds" for d using val [OF that] ucast_small by (simp add: device_valid_def)
  let ?s = "fold (delete_session P SESSION_DICT) as (fst w1)"
  have drop: "drop_sessions L (pddb_env L P R N) u ds w1 = (?s, snd w1)" by (simp add: drop_sessions_pddb as_def)
  have can: "canonical_sessions (view (fst w1))" using w1 by (simp add: ready_def)
  have "trusted ?s"
    using w1 by (induction as arbitrary: w1 rule: rev_induct) (auto simp: ready_def delete_trusted)
  moreover have "sessions_sound L P u ?s"
    using w1 by (auto simp: sessions_sound_def session.load_fold_del ready_def)
  ultimately have "ready L P view trusted u devs (?s, snd w1)"
    using w1 session.inv_fold_del [OF can] by (simp add: ready_def)
  moreover have "set (device_ids_for P SESSION_DICT u ?s) = ?known w1 - set ds"
    unfolding session.ids_fold_del [OF can] as using dd by auto
  ultimately show "ready L P view trusted u devs (drop_sessions L (pddb_env L P R N) u ds w1)
      \<and> ?known (drop_sessions L (pddb_env L P R N) u ds w1) = ?known w1 - set ds
      \<and> last_put J (snd (drop_sessions L (pddb_env L P R N) u ds w1)) = last_put J (snd w1)"
    by (simp add: drop)
qed

end

sublocale delivering < fan_out L U "pddb_env L P R (stateful_net J clock)" acct base u req_json
  "ready L P view trusted u devs" "\<lambda>w. set (device_ids_for P SESSION_DICT u (fst w))" "rd_device_id ` set devs"
  "\<lambda>w. last_put J (snd w)"
proof
  show "chat_base_url U acct = Inr base" by (rule base_url)
  show "sl_request_to_json U r = Inr (req_json r)" for r by (rule to_json)
  show "d \<in> rd_device_id ` set devs \<Longrightarrow> device_valid L d" for d using devs_valid by auto
  show "ready L P view trusted u devs w \<Longrightarrow> d \<in> set (device_ids_for P SESSION_DICT u (fst w)) \<Longrightarrow> device_valid L d" for w d
    using known_session by blast
  show "set (sv_device_ids_for (pddb_env L P R (stateful_net J clock)) u w) = set (device_ids_for P SESSION_DICT u (fst w))" for w
    by simp
next
  fix w m l and d :: u32
  assume "ready L P view trusted u devs w" "d \<in> set (device_ids_for P SESSION_DICT u (fst w))"
  from session_encrypts [OF this, of m l]
  show "\<exists>s i c w1. se_load_session (pddb_env L P R (stateful_net J clock)) \<lparr>pa_name = u, pa_device = ucast d\<rparr> w = Inr (Some s)
      \<and> ls_remote_registration_id L s = Inr i
      \<and> se_message_encrypt (pddb_env L P R (stateful_net J clock)) m \<lparr>pa_name = u, pa_device = ucast d\<rparr> l w = (Inr c, w1)
      \<and> (\<forall>t. c \<noteq> OtherCiphertext t) \<and> ready L P view trusted u devs w1
      \<and> set (device_ids_for P SESSION_DICT u (fst w1)) = set (device_ids_for P SESSION_DICT u (fst w)) \<and> last_put J (snd w1) = last_put J (snd w)"
    by simp
next
  fix w auth ts and es :: "outgoing_message_entity list"
  assume w: "ready L P view trusted u devs w" and val: "\<And>e. e \<in> set es \<Longrightarrow> device_valid L (ome_destination_device_id e)"
  have "registered_devices u (snd w) = devs" using w by (simp add: ready_def)
  from server_answers [where auth = auth and ts = ts, OF this val] obtain resp h1 where ans:
    "stateful_put J (sl_url_as_str U (sl_url_set_path U (''/v1/messages/'' @ u) base)) auth
        (req_json \<lparr>smr_messages = es, smr_online = False, smr_urgent = True, smr_timestamp = ts\<rparr>) (snd w) = (Inr resp, h1)"
    "registered_devices u h1 = devs" "last_put J h1 = (fst (last_put J (snd w)) + 1, map ome_destination_device_id es)"
    "if ome_destination_device_id ` set es = rd_device_id ` set devs then hr_status resp = 200 else hr_status resp = 409 \<and>
        (\<exists>mm. sl_mismatch_from_json U (from_utf8_lossy (hr_body resp)) = Inr mm \<and> distinct (missing_devices mm)
          \<and> set (missing_devices mm) = rd_device_id ` set devs - ome_destination_device_id ` set es
          \<and> set (extra_devices mm) = ome_destination_device_id ` set es - rd_device_id ` set devs)" by blast
  moreover have "ready L P view trusted u devs (fst w, h1)" using w ans(2) by (simp add: ready_def)
  ultimately show "\<exists>resp w1. sv_put_json (pddb_env L P R (stateful_net J clock)) (sl_url_as_str U (sl_url_set_path U (''/v1/messages/'' @ u) base)) auth
        (req_json \<lparr>smr_messages = es, smr_online = False, smr_urgent = True, smr_timestamp = ts\<rparr>) w = (Inr resp, w1)
      \<and> ready L P view trusted u devs w1
      \<and> set (device_ids_for P SESSION_DICT u (fst w1)) = set (device_ids_for P SESSION_DICT u (fst w))
      \<and> last_put J (snd w1) = (fst (last_put J (snd w)) + 1, map ome_destination_device_id es)
      \<and> (if ome_destination_device_id ` set es = rd_device_id ` set devs then hr_status resp = 200 else hr_status resp = 409 \<and>
        (\<exists>mm. sl_mismatch_from_json U (from_utf8_lossy (hr_body resp)) = Inr mm \<and> distinct (missing_devices mm)
          \<and> set (missing_devices mm) = rd_device_id ` set devs - ome_destination_device_id ` set es
          \<and> set (extra_devices mm) = ome_destination_device_id ` set es - rd_device_id ` set devs))"
    by (intro exI [of _ resp] exI [of _ "(fst w, h1)"]) (simp add: on_snd_def stateful_net_def)
next
  fix w auth and d :: u32
  assume "ready L P view trusted u devs w" "d \<in> rd_device_id ` set devs"
  from server_establishes [OF this, of auth]
  show "\<exists>resp w1 pre entry i b w2. sv_get_json (pddb_env L P R (stateful_net J clock))
          (sl_url_as_str U (sl_url_set_path U (''/v2/keys/'' @ u @ ''/'' @ show_word d) base)) auth w = (Inr resp, w1)
        \<and> hr_status resp = 200 \<and> sl_prekeys_from_json U (hr_body resp) = Inr pre
        \<and> List.find (\<lambda>x. de_device_id x = d) (pkr_devices pre) = Some entry
        \<and> decode_identity_key L (pkr_identity_key pre) = Inr i \<and> build_prekey_bundle L U entry i = Inr b
        \<and> sv_process_prekey_bundle (pddb_env L P R (stateful_net J clock)) \<lparr>pa_name = u, pa_device = ucast d\<rparr> b w1 = (Inr (), w2)
        \<and> ready L P view trusted u devs w2
        \<and> set (device_ids_for P SESSION_DICT u (fst w2)) = insert d (set (device_ids_for P SESSION_DICT u (fst w)))
        \<and> last_put J (snd w2) = last_put J (snd w)"
    by (fastforce simp: pddb_env_def on_fst_def on_snd_def stateful_net_def)
qed

context delivering
begin

lemma reaches:
  assumes "ready L P view trusted u devs (s, h)" "device_ids_for P SESSION_DICT u s \<noteq> []" "devs \<noteq> []" "device_valid L fb"
    and "submit_padded_with_retry_generic L U (pddb_env L P R (stateful_net J clock)) m ts u fb None l acct (s, h) = (r, (s', h'))"
  shows "set (device_ids_for P SESSION_DICT u s') = rd_device_id ` set devs
    \<and> (r = Inr True \<and> set (snd (last_put J h')) = rd_device_id ` set devs
        \<and> sm_put_count h' = sm_put_count h + (if set (device_ids_for P SESSION_DICT u s) = rd_device_id ` set devs then 1 else 2)
      \<or> r = Inl RetryExhausted \<and> RETRY_BUDGET_MS < clock h' - clock h)"
proof -
  have "set (device_ids_for P SESSION_DICT u (fst (s, h))) \<noteq> {}" "rd_device_id ` set devs \<noteq> {}" using assms(2,3) by auto
  from converges [OF assms(1) this extras_forgotten assms(4) _ assms(5)] show ?thesis
    by (auto simp: last_put_def stateful_net_def)
qed

end

text \<open>An instance: device ids written as characters, libsignal's sessions kept in the in-memory PDDB, an account with the
  devices 1 and 2.\<close>

definition device_char :: "u32 \<Rightarrow> char" where "device_char d = char_of (unat d)"

definition char_device :: "char \<Rightarrow> u32" where "char_device c = of_nat (of_char c)"

definition letter_json :: mock_json where
  "letter_json =
     \<lparr>mj_devices = (\<lambda>b. Inr (map char_device b)),
      mj_mismatch = (\<lambda>ms xs. map device_char ms @ CHR 0x00 # map device_char xs),
      mj_identity = (\<lambda>b. Some ''identity''), mj_entries = (\<lambda>b. [b]), mj_response = (\<lambda>i es. concat es)\<rparr>"

definition letter_entry :: "char \<Rightarrow> device_entry" where
  "letter_entry c =
     \<lparr>de_device_id = char_device c, de_registration_id = 1,
      de_signed_pre_key = \<lparr>spe_key_id = 1, spe_public_key = ''p'', spe_signature = ''q''\<rparr>, de_pre_key = None,
      de_pq_pre_key = \<lparr>kpe_key_id = 1, kpe_public_key = ''k'', kpe_signature = ''q''\<rparr>\<rparr>"

definition letter_lib :: send_lib where
  "letter_lib = token_send_lib
     \<lparr>sl_request_to_json := (\<lambda>r. Inr (map (device_char \<circ> ome_destination_device_id) (smr_messages r))),
      sl_mismatch_from_json := (\<lambda>b. Inr \<lparr>missing_devices = map char_device (takeWhile (\<lambda>c. c \<noteq> CHR 0x00) b),
         extra_devices = map char_device (tl (dropWhile (\<lambda>c. c \<noteq> CHR 0x00) b)), stale_devices = []\<rparr>),
      sl_prekeys_from_json := (\<lambda>b. Inr \<lparr>pkr_identity_key = ''identity'', pkr_devices = map letter_entry b\<rparr>)\<rparr>"

definition keeping_protocol :: "mem_state protocol" where
  "keeping_protocol = token_protocol
     \<lparr>pr_process_prekey_bundle := (\<lambda>a b. store_session token_libsignal mem_pddb SESSION_DICT a (SessionRecord ''S''))\<rparr>"

definition two_devices :: "registered_device list" where
  "two_devices = [\<lparr>rd_device_id = 1, rd_prekey_response_body = [device_char 1]\<rparr>, \<lparr>rd_device_id = 2, rd_prekey_response_body = [device_char 2]\<rparr>]"

lemma device_char_inverse [simp]: "d < 256 \<Longrightarrow> char_device (device_char d) = d"
  by (simp add: char_device_def device_char_def word_less_nat_alt of_char_of)

lemma valid_small:
  assumes "device_valid token_libsignal d"
  shows "d < 256" "device_char d \<noteq> CHR 0x00" "(of_char (device_char d) :: nat) < 0x80"
proof -
  have d: "d < 256" and u: "1 \<le> (ucast d :: u8)" "(ucast d :: u8) \<le> 127"
    using assms by (auto simp: device_valid_def token_libsignal_def split: if_splits)
  show "d < 256" by (rule d)
  have "unat (ucast d :: u8) = unat d" using d by (simp add: unsigned_ucast_eq take_bit_eq_mod word_less_nat_alt)
  with u have b: "1 \<le> unat d" "unat d \<le> 127" by (simp_all add: word_le_nat_alt)
  then show "(of_char (device_char d) :: nat) < 0x80" by (simp add: device_char_def of_char_of)
  have "(of_char (device_char d) :: nat) \<noteq> of_char (CHR 0x00)" using b by (simp add: device_char_def of_char_of)
  then show "device_char d \<noteq> CHR 0x00" by metis
qed

lemma find_str_missing: "c \<in> set n \<Longrightarrow> c \<notin> set s \<Longrightarrow> find_str n s = None"
proof (induction s)
  case (Cons x xs)
  have "\<not> starts_with n (x # xs)" using Cons.prems by (metis set_take_subset starts_with_def subsetD)
  with Cons show ?case by simp
qed auto

lemma letter_urls:
  "chat_base_url letter_lib demo_account = Inr (Url ''https://chat.h'')"
  "message_uuid (sl_url_as_str letter_lib (sl_url_set_path letter_lib (''/v1/messages/'' @ ''bob'') (Url ''https://chat.h''))) = ''bob''"
  "split_second ''/v2/keys/'' (sl_url_as_str letter_lib (sl_url_set_path letter_lib (''/v2/keys/'' @ ''bob'' @ ''/'' @ show_word (d :: u32)) (Url ''https://chat.h'')))
     = Some (''bob'' @ ''/'' @ show_word d)"
proof -
  show "chat_base_url letter_lib demo_account = Inr (Url ''https://chat.h'')"
    by (simp add: chat_base_url_def letter_lib_def token_send_lib_def demo_account_def)
  show "message_uuid (sl_url_as_str letter_lib (sl_url_set_path letter_lib (''/v1/messages/'' @ ''bob'') (Url ''https://chat.h''))) = ''bob''"
    by code_simp
  have "CHR ''v'' \<notin> set (show_word d)" using show_word_digits [of "CHR ''v''" d] by (auto simp: is_digit_def)
  then have "find_str ''/v2/keys/'' (''bob'' @ ''/'' @ show_word d) = None" by (intro find_str_missing [of "CHR ''v''"]) auto
  moreover have "find_str ''/v2/keys/'' (''https://chat.h'' @ ''/v2/keys/'' @ t) = Some 14" for t
    by (subst find_str_skip) (auto simp: less_Suc_eq starts_with_def)
  ultimately show "split_second ''/v2/keys/'' (sl_url_as_str letter_lib (sl_url_set_path letter_lib (''/v2/keys/'' @ ''bob'' @ ''/'' @ show_word d) (Url ''https://chat.h'')))
     = Some (''bob'' @ ''/'' @ show_word d)"
    by (simp add: letter_lib_def token_send_lib_def split_second_def)
qed

lemma letter_bundle:
  "\<exists>pre entry i. sl_prekeys_from_json letter_lib [c] = Inr pre \<and> List.find (\<lambda>y. de_device_id y = char_device c) (pkr_devices pre) = Some entry
     \<and> decode_identity_key token_libsignal (pkr_identity_key pre) = Inr i \<and> build_prekey_bundle token_libsignal letter_lib entry i = Inr (PreKeyBundle ''bundle'')"
  if "device_valid token_libsignal (char_device c)" for c
  using device_valid_checked [OF that]
  by (simp add: letter_lib_def token_send_lib_def letter_entry_def decode_identity_key_def build_prekey_bundle_def
      decode_ec_public_def decode_kyber_public_def) (simp add: token_libsignal_def)

lemma letter_mismatch:
  assumes "\<And>d. d \<in> set ms \<union> set xs \<Longrightarrow> device_valid token_libsignal d"
  shows "\<exists>mm. sl_mismatch_from_json letter_lib (from_utf8_lossy (mj_mismatch letter_json ms xs)) = Inr mm
      \<and> missing_devices mm = ms \<and> extra_devices mm = xs"
proof -
  from assms have small: "d < 256" "device_char d \<noteq> CHR 0x00" "(of_char (device_char d) :: nat) < 0x80" if "d \<in> set ms \<union> set xs" for d
    using valid_small that by blast+
  let ?b = "map device_char ms @ CHR 0x00 # map device_char xs"
  have "utf8_valid ?b" by (rule utf8_valid_ascii) (use small(3) in auto)
  then have lossy: "from_utf8_lossy ?b = ?b" by (rule from_utf8_lossy_valid)
  have tw: "takeWhile (\<lambda>c. c \<noteq> CHR 0x00) ?b = map device_char ms" "dropWhile (\<lambda>c. c \<noteq> CHR 0x00) ?b = CHR 0x00 # map device_char xs"
    using small(2) by (auto simp: takeWhile_append dropWhile_append)
  have "map char_device (map device_char ms) = ms" "map char_device (map device_char xs) = xs"
    using small(1) by (auto intro!: map_idI)
  with lossy tw show ?thesis by (simp add: letter_lib_def letter_json_def)
qed

lemma two_devices_valid: "x \<in> set two_devices \<Longrightarrow> device_valid token_libsignal (rd_device_id x)
    \<and> rd_prekey_response_body x = [device_char (rd_device_id x)]"
  by (auto simp: two_devices_def device_valid_def token_libsignal_def)

lemma keeping_stores:
  "\<exists>s1. pr_process_prekey_bundle keeping_protocol a b s = (Inr (), s1) \<and> session_added token_libsignal mem_pddb map_of a s s1"
proof -
  obtain r s1 where st: "store_session token_libsignal mem_pddb SESSION_DICT a (SessionRecord ''S'') s = (r, s1)" by fastforce
  have ser: "ls_session_serialize token_libsignal (SessionRecord ''S'') = Inr ''S''" by (simp add: token_libsignal_def)
  have r: "r = Inr ()" using st by (simp add: store_session_def ser mem.write_eq)
  have "session_added token_libsignal mem_pddb map_of a s s1"
    using mem.store_session_load [OF st [unfolded r]] mem.store_session_canonical [OF st] unfolding session_added_def by blast
  with st r show ?thesis by (simp add: keeping_protocol_def)
qed

interpretation letters: delivering mem_pddb map_of token_libsignal letter_lib letter_json demo_account
  "Url ''https://chat.h''" "''bob''" "\<lambda>r. map (device_char \<circ> ome_destination_device_id) (smr_messages r)" two_devices
  "\<lambda>_. PreKeyBundle ''bundle''" keeping_protocol "\<lambda>_. True" "\<lambda>_. 0"
proof (unfold_locales, goal_cases)
  case (6 r)
  then show ?case using valid_small(1) by (auto simp: letter_json_def)
next
  case (7 ms xs)
  then show ?case by (intro letter_mismatch) blast
next
  case (9 x)
  then have x: "device_valid token_libsignal (rd_device_id x)" "rd_prekey_response_body x = [device_char (rd_device_id x)]"
    using two_devices_valid by blast+
  then have "char_device (device_char (rd_device_id x)) = rd_device_id x" by (simp add: valid_small)
  with letter_bundle [of "device_char (rd_device_id x)"] x show ?case by (simp only:)
next
  case (10 x s)
  then show ?case using keeping_stores by blast
next
  case (11 s a q m l)
  have "session_added token_libsignal mem_pddb map_of a s s" using 11 unfolding session_added_def by auto
  then show ?case by (auto simp: keeping_protocol_def token_protocol_def token_libsignal_def)
qed (use letter_urls two_devices_valid in \<open>auto simp: letter_lib_def\<close>)

section \<open>Properties\<close>

text \<open>C5. A message reaches every device: against a server with the registered devices \<open>devs\<close>, from any nonempty set of
  sessions (some may be missing, some may belong to devices that are gone), one submission on the production
  environment ends with the sessions of exactly the registered devices and succeeds, after one PUT when the
  sessions were right and two otherwise, the last PUT addressing exactly the registered devices. It
  fails only when the correction took more than thirty seconds.\<close>

theorem send_reaches_all_devices:
  assumes "delivering P view L U J acct base u req_json devs offer R trusted" and "ready L P view trusted u devs (s, h)"
    and "device_ids_for P SESSION_DICT u s \<noteq> []" and "devs \<noteq> []" and "device_valid L fb"
    and "submit_padded_with_retry_generic L U (pddb_env L P R (stateful_net J clock)) m ts u fb None l acct (s, h) = (r, (s', h'))"
  shows "set (device_ids_for P SESSION_DICT u s') = rd_device_id ` set devs
    \<and> (r = Inr True \<and> set (snd (last_put J h')) = rd_device_id ` set devs
        \<and> sm_put_count h' = sm_put_count h + (if set (device_ids_for P SESSION_DICT u s) = rd_device_id ` set devs then 1 else 2)
      \<or> r = Inl RetryExhausted \<and> RETRY_BUDGET_MS < clock h' - clock h)"
  using assms(2-6) by (rule delivering.reaches [OF assms(1)])

text \<open>Sessions for the devices 2 and 5, of which 5 is gone, while 1 is new.\<close>

definition outdated_sessions :: mem_state where
  "outdated_sessions = [((SESSION_DICT, address_key \<lparr>pa_name = ''bob'', pa_device = 2\<rparr>), ''S''),
     ((SESSION_DICT, address_key \<lparr>pa_name = ''bob'', pa_device = 5\<rparr>), ''S'')]"

definition two_device_server :: stateful_mock where
  "two_device_server = stateful_new\<lparr>sm_registered := [''bob'' \<mapsto> two_devices]\<rparr>"

lemma outdated_ready: "ready token_libsignal mem_pddb map_of (\<lambda>_. True) ''bob'' two_devices (outdated_sessions, two_device_server)"
proof -
  have "canonical_sessions (map_of outdated_sessions)"
    by (auto simp: canonical_sessions_def outdated_sessions_def split: if_splits)
  moreover have des: "ls_session_deserialize token_libsignal b = Inr (SessionRecord b)" for b by (simp add: token_libsignal_def)
  have "sessions_sound token_libsignal mem_pddb ''bob'' outdated_sessions"
    by (auto simp: sessions_sound_def mem.load_session_eq outdated_sessions_def des device_valid_def split: if_splits)
      (simp_all add: token_libsignal_def)
  ultimately show ?thesis by (simp add: ready_def two_device_server_def registered_devices_def)
qed

theorem send_reaches_all_devices_witness:
  "\<exists>s' h'. submit_padded_with_retry_generic token_libsignal letter_lib (pddb_env token_libsignal mem_pddb keeping_protocol (stateful_net letter_json (\<lambda>_. 0)))
       ''m'' 7 ''bob'' 2 None demo_me demo_account (outdated_sessions, two_device_server) = (Inr True, (s', h'))
     \<and> set (device_ids_for mem_pddb SESSION_DICT ''bob'' s') = {1, 2} \<and> set (snd (last_put letter_json h')) = {1, 2}"
proof -
  obtain r s' h' where run: "submit_padded_with_retry_generic token_libsignal letter_lib (pddb_env token_libsignal mem_pddb keeping_protocol (stateful_net letter_json (\<lambda>_. 0)))
       ''m'' 7 ''bob'' 2 None demo_me demo_account (outdated_sessions, two_device_server) = (r, (s', h'))"
    by (metis surj_pair)
  have "load_session token_libsignal mem_pddb SESSION_DICT \<lparr>pa_name = ''bob'', pa_device = 2\<rparr> outdated_sessions \<noteq> Inr None"
    by (simp add: mem.load_session_None_iff outdated_sessions_def)
  moreover have "canonical_sessions (map_of outdated_sessions)" using outdated_ready by (simp add: ready_def)
  ultimately have "device_ids_for mem_pddb SESSION_DICT ''bob'' outdated_sessions \<noteq> []"
    using letters.known_iff by fastforce
  moreover have "two_devices \<noteq> []" "rd_device_id ` set two_devices = {1, 2}" by (auto simp: two_devices_def)
  moreover have "device_valid token_libsignal 2" by (simp add: device_valid_def token_libsignal_def)
  ultimately show ?thesis
    using send_reaches_all_devices [OF letters.delivering_axioms outdated_ready _ _ _ run] run by auto
qed

end
