(* ===== verification/Send_Tests.thy ===== *)
theory Send_Tests
  imports Fan_Out
begin

text \<open>
  The unit tests of \<open>src/src/manager/send.rs\<close> with their test doubles: the programmed HTTP client \<open>MockHttp\<close>, the session store
  that tracks addresses, the deleter that only counts, and the stateful server of \<open>Fan_Out\<close>. Each test is a
  boolean: what it asserts. libsignal's in-memory store and calls are the record \<open>inmem_lib\<close>, over an arbitrary state; a test passes
  for every such library that keeps the laws of the locale \<open>test_stores\<close>: a path of plain segments comes out of a URL as it was
  set, an address with a session can be encrypted for, and a prekey bundle is processed when its identity is trusted. A panic of a double is a flag of its state, and a test
  that raises it fails.
\<close>

section \<open>Test doubles\<close>

datatype expect = ExpectPut string u16 bytes | ExpectGet string u16 bytes | TransportErr

record mock_http =
  mh_program :: "expect list"
  mh_calls :: nat
  mh_panicked :: bool

definition mock_new :: "expect list \<Rightarrow> mock_http" where
  "mock_new program = \<lparr>mh_program = program, mh_calls = 0, mh_panicked = False\<rparr>"

definition str_contains :: "string \<Rightarrow> string \<Rightarrow> bool" where
  "str_contains s n \<longleftrightarrow> find_str n s \<noteq> None"

definition mock_panic :: "mock_http \<Rightarrow> (mock_http, io_error, 'a) sres" where
  "mock_panic h = (Inl (IoError OtherKind ''panic''), h\<lparr>mh_panicked := True\<rparr>)"

definition mock_next :: "mock_http \<Rightarrow> (expect \<Rightarrow> mock_http \<Rightarrow> (mock_http, io_error, 'a) sres) \<Rightarrow> (mock_http, io_error, 'a) sres" where
  "mock_next h f =
     (case mh_program h of
        [] \<Rightarrow> mock_panic (h\<lparr>mh_calls := mh_calls h + 1\<rparr>)
      | e # es \<Rightarrow> f e (h\<lparr>mh_calls := mh_calls h + 1, mh_program := es\<rparr>))"

definition mock_put :: "string \<Rightarrow> string \<Rightarrow> bytes \<Rightarrow> mock_http \<Rightarrow> (mock_http, io_error, http_response) sres" where
  "mock_put url auth body h = mock_next h (\<lambda>e h1. case e of
       ExpectPut expected status b \<Rightarrow>
         (if str_contains url expected then (Inr \<lparr>hr_status = status, hr_body = b\<rparr>, h1) else mock_panic h1)
     | ExpectGet _ _ _ \<Rightarrow> mock_panic h1
     | TransportErr \<Rightarrow> (Inl (IoError OtherKind ''simulated transport error''), h1))"

definition mock_get :: "string \<Rightarrow> string \<Rightarrow> mock_http \<Rightarrow> (mock_http, io_error, http_response) sres" where
  "mock_get url auth h = mock_next h (\<lambda>e h1. case e of
       ExpectGet expected status b \<Rightarrow>
         (if str_contains url expected then (Inr \<lparr>hr_status = status, hr_body = b\<rparr>, h1) else mock_panic h1)
     | ExpectPut _ _ _ \<Rightarrow> mock_panic h1
     | TransportErr \<Rightarrow> (Inl (IoError OtherKind ''simulated transport error''), h1))"

text \<open>\<open>no_sleep\<close> does nothing; the tests run within a clock tick.\<close>

definition mock_net :: "mock_http net" where
  "mock_net = \<lparr>nt_put = mock_put, nt_get = mock_get, nt_sleep = (\<lambda>_ h. h), nt_now = (\<lambda>_. 0)\<rparr>"

text \<open>libsignal over its in-memory stores: loading and storing a session, and what \<open>message_encrypt\<close> and
  \<open>process_prekey_bundle\<close> do before they store the session, which is to check and save the identity of the
  address and to compute the record.\<close>

record 'i inmem_lib =
  il_load_session :: "protocol_address \<Rightarrow> 'i \<Rightarrow> sig_error + session_record option"
  il_store_session :: "protocol_address \<Rightarrow> session_record \<Rightarrow> 'i \<Rightarrow> ('i, sig_error, unit) sres"
  il_message_encrypt :: "bytes \<Rightarrow> protocol_address \<Rightarrow> protocol_address \<Rightarrow> 'i \<Rightarrow> ('i, sig_error, ciphertext_message \<times> session_record) sres"
  il_process_bundle :: "protocol_address \<Rightarrow> pre_key_bundle \<Rightarrow> 'i \<Rightarrow> ('i, sig_error, session_record) sres"

text \<open>The stores and the HTTP client a test hands to the send path: the inner store and the addresses seen of
  \<open>TrackingSessionStore\<close>, the deletions of \<open>CountingDeleter\<close>.\<close>

record ('i, 'h) test_world =
  tw_inner :: 'i
  tw_seen :: "(string \<times> u32) list"
  tw_deletes :: "protocol_address list"
  tw_http :: 'h

definition tracking_new :: "'i \<Rightarrow> (string \<times> u32) list \<Rightarrow> 'h \<Rightarrow> ('i, 'h) test_world" where
  "tracking_new inner seed http = \<lparr>tw_inner = inner, tw_seen = remdups seed, tw_deletes = [], tw_http = http\<rparr>"

definition tracking_store ::
  "'i inmem_lib \<Rightarrow> protocol_address \<Rightarrow> session_record \<Rightarrow> ('i, 'h) test_world \<Rightarrow> (('i, 'h) test_world, sig_error, unit) sres" where
  "tracking_store T address record w =
     (case il_store_session T address record (tw_inner w) of
        (r, i) \<Rightarrow> (r, w\<lparr>tw_seen := List.insert (pa_name address, ucast (pa_device address)) (tw_seen w), tw_inner := i\<rparr>))"

definition on_inner :: "('i \<Rightarrow> ('i, 'e, 'a) sres) \<Rightarrow> ('i, 'h) test_world \<Rightarrow> (('i, 'h) test_world, 'e, 'a) sres" where
  "on_inner f w = (case f (tw_inner w) of (r, i) \<Rightarrow> (r, w\<lparr>tw_inner := i\<rparr>))"

definition tracking_ids :: "string \<Rightarrow> ('i, 'h) test_world \<Rightarrow> u32 list" where
  "tracking_ids recipient_uuid w = sort (map snd (filter (\<lambda>(u, _). u = recipient_uuid) (tw_seen w)))"

definition counting_delete :: "protocol_address \<Rightarrow> ('i, 'h) test_world \<Rightarrow> ('i, 'h) test_world" where
  "counting_delete address w = w\<lparr>tw_deletes := tw_deletes w @ [address]\<rparr>"

definition on_http :: "('h \<Rightarrow> ('h, 'e, 'a) sres) \<Rightarrow> ('i, 'h) test_world \<Rightarrow> (('i, 'h) test_world, 'e, 'a) sres" where
  "on_http f w = (case f (tw_http w) of (r, h) \<Rightarrow> (r, w\<lparr>tw_http := h\<rparr>))"

definition test_env :: "'i inmem_lib \<Rightarrow> 'h net \<Rightarrow> ('i, 'h) test_world send_env" where
  "test_env T N =
     \<lparr>se_load_session = (\<lambda>a w. il_load_session T a (tw_inner w)),
      se_message_encrypt = (\<lambda>m a l w. sbind (on_inner (il_message_encrypt T m a l) w) (\<lambda>(c, r) w1.
         sbind (tracking_store T a r w1) (\<lambda>_ w2. (Inr c, w2)))),
      sv_device_ids_for = tracking_ids,
      sv_process_prekey_bundle = (\<lambda>a b w. sbind (on_inner (il_process_bundle T a b) w) (\<lambda>r w1. tracking_store T a r w1)),
      sv_delete = counting_delete,
      sv_put_json = (\<lambda>u a b. on_http (nt_put N u a b)),
      sv_get_json = (\<lambda>u a. on_http (nt_get N u a)),
      sv_sleep = (\<lambda>n w. w\<lparr>tw_http := nt_sleep N n (tw_http w)\<rparr>),
      sv_now_ms = (\<lambda>w. nt_now N (tw_http w))\<rparr>"

section \<open>Tests\<close>

definition fake_enc :: encrypted_message where
  "fake_enc = \<lparr>em_ciphertext_bytes = replicate 16 (CHR 0xAA), em_ciphertext_type = 1, em_destination_device_id = 2,
     em_destination_registration_id = 100, em_timestamp_ms = 1700000000000\<rparr>"

definition fake_account :: account_info where
  "fake_account = \<lparr>ai_aci_service_id = ''00000000-0000-0000-0000-000000000001'', ai_device_id = 1, ai_password = ''pw'', ai_host = ''signal.org''\<rparr>"

definition FAKE_PEER :: string where "FAKE_PEER = ''00000000-0000-0000-0000-000000000002''"

text \<open>A JSON object with one list of numbers.\<close>

definition json_ids :: "string \<Rightarrow> string \<Rightarrow> bytes" where
  "json_ids field ids = ''{'' @ DQ # field @ DQ # '':['' @ ids @ '']}''"

subsection \<open>Status mapping\<close>

definition submit_one :: "libsignal \<Rightarrow> send_lib \<Rightarrow> 'i inmem_lib \<Rightarrow> 'i \<Rightarrow> expect \<Rightarrow> (('i, mock_http) test_world, send_error, unit) sres" where
  "submit_one L U T i e =
     submit_encrypted_message L U (test_env T mock_net) fake_enc FAKE_PEER fake_account (tracking_new i [] (mock_new [e]))"

definition status_test :: "libsignal \<Rightarrow> send_lib \<Rightarrow> 'i inmem_lib \<Rightarrow> 'i \<Rightarrow> u16 \<Rightarrow> bytes \<Rightarrow> send_error + unit \<Rightarrow> bool" where
  "status_test L U T i status body expected \<longleftrightarrow>
     (case submit_one L U T i (ExpectPut ''/v1/messages/'' status body) of
        (r, w) \<Rightarrow> r = expected \<and> \<not> mh_panicked (tw_http w))"

definition submit_409_carries_mismatch_marker :: "libsignal \<Rightarrow> send_lib \<Rightarrow> 'i inmem_lib \<Rightarrow> 'i \<Rightarrow> bool" where
  "submit_409_carries_mismatch_marker L U T i \<longleftrightarrow>
     (case submit_one L U T i (ExpectPut ''/v1/messages/'' 409 (json_ids ''missingDevices'' ''2,3'')) of
        (Inl (BadResponse m), w) \<Rightarrow>
          starts_with ''MISMATCH 409 '' m \<and> \<not> mh_panicked (tw_http w)
          \<and> parse_mismatch U (drop (length ''MISMATCH 409 '') m) = Inr \<lparr>missing_devices = [2, 3], extra_devices = [], stale_devices = []\<rparr>
      | _ \<Rightarrow> False)"

definition submit_410_carries_mismatch_marker :: "libsignal \<Rightarrow> send_lib \<Rightarrow> 'i inmem_lib \<Rightarrow> 'i \<Rightarrow> bool" where
  "submit_410_carries_mismatch_marker L U T i \<longleftrightarrow>
     (case submit_one L U T i (ExpectPut ''/v1/messages/'' 410 (json_ids ''staleDevices'' ''4'')) of
        (Inl (BadResponse m), w) \<Rightarrow>
          starts_with ''MISMATCH 410 '' m \<and> \<not> mh_panicked (tw_http w)
          \<and> (case parse_mismatch U (drop (length ''MISMATCH 410 '') m) of Inl _ \<Rightarrow> False | Inr mm \<Rightarrow> stale_devices mm = [4])
      | _ \<Rightarrow> False)"

definition submit_transport_error_returns_transport :: "libsignal \<Rightarrow> send_lib \<Rightarrow> 'i inmem_lib \<Rightarrow> 'i \<Rightarrow> bool" where
  "submit_transport_error_returns_transport L U T i \<longleftrightarrow>
     (case submit_one L U T i TransportErr of (Inl (Transport _), w) \<Rightarrow> \<not> mh_panicked (tw_http w) | _ \<Rightarrow> False)"

definition submit_tests :: "libsignal \<Rightarrow> send_lib \<Rightarrow> 'i inmem_lib \<Rightarrow> 'i \<Rightarrow> bool" where
  "submit_tests L U T i \<longleftrightarrow>
     status_test L U T i 200 ''{}'' (Inr ())
   \<and> status_test L U T i 401 [] (Inl AuthFailed)
   \<and> status_test L U T i 404 [] (Inl ServiceIdNotFound)
   \<and> status_test L U T i 413 [] (Inl PayloadTooLarge)
   \<and> status_test L U T i 428 [] (Inl ChallengeRequired)
   \<and> status_test L U T i 502 [] (Inl (Unexpected 502))
   \<and> submit_409_carries_mismatch_marker L U T i
   \<and> submit_410_carries_mismatch_marker L U T i
   \<and> submit_transport_error_returns_transport L U T i"

definition submit_request_url_includes_uuid :: "libsignal \<Rightarrow> send_lib \<Rightarrow> 'i inmem_lib \<Rightarrow> 'i \<Rightarrow> bool" where
  "submit_request_url_includes_uuid L U T i \<longleftrightarrow>
     (case submit_one L U T i (ExpectPut (''/v1/messages/'' @ FAKE_PEER) 200 ''{}'') of
        (r, w) \<Rightarrow> r = Inr () \<and> mh_calls (tw_http w) = 1 \<and> \<not> mh_panicked (tw_http w))"

definition backoff_grows_then_caps :: bool where
  "backoff_grows_then_caps \<longleftrightarrow>
     map backoff [1, 2, 3, 4, 5, 20] = [500, 1000, 2000, 4000, 4000, 4000]"

definition classify_tests :: bool where
  "classify_tests \<longleftrightarrow>
     classify_attempt (Inr ()) = Done
   \<and> classify_attempt (Inl (BadResponse (''MISMATCH 409 '' @ json_ids ''missingDevices'' ''2''))) = Mismatch409 (json_ids ''missingDevices'' ''2'')
   \<and> classify_attempt (Inl (BadResponse (''MISMATCH 410 '' @ json_ids ''staleDevices'' ''3''))) = Mismatch410 (json_ids ''staleDevices'' ''3'')
   \<and> list_all (\<lambda>code. classify_attempt (Inl (Unexpected code)) = Backoff) [500, 502, 503, 599]
   \<and> classify_attempt (Inl (Unexpected 429)) = Backoff
   \<and> classify_attempt (Inl (Transport ''network down'')) = Backoff
   \<and> classify_attempt (Inl AuthFailed) = Fatal AuthFailed
   \<and> classify_attempt (Inl ServiceIdNotFound) = Fatal ServiceIdNotFound
   \<and> classify_attempt (Inl PayloadTooLarge) = Fatal PayloadTooLarge
   \<and> classify_attempt (Inl ChallengeRequired) = Fatal ChallengeRequired
   \<and> classify_attempt (Inl (Unexpected 418)) = Fatal (Unexpected 418)"

subsection \<open>The retry loop\<close>

definition alice_addr :: protocol_address where "alice_addr = \<lparr>pa_name = ''alice-uuid'', pa_device = 1\<rparr>"

definition bob_addr :: protocol_address where "bob_addr = \<lparr>pa_name = ''bob-uuid'', pa_device = 2\<rparr>"

text \<open>The submission of the retry tests, from the store \<open>alice\<close> of \<open>alice_with_session_to_bob\<close>.\<close>

definition retry_run ::
  "wire_codec \<Rightarrow> libsignal \<Rightarrow> send_lib \<Rightarrow> 'i inmem_lib \<Rightarrow> 'i \<Rightarrow> expect list \<Rightarrow> (('i, mock_http) test_world, send_error, unit) sres" where
  "retry_run W L U T alice program =
     submit_with_retry_generic W L U (test_env T mock_net) ''hello'' 1700000000000 bob_addr alice_addr fake_account
       (tracking_new alice [(''bob-uuid'', 2)] (mock_new program))"

definition bob_put :: "u16 \<Rightarrow> bytes \<Rightarrow> expect" where
  "bob_put status body = ExpectPut ''/v1/messages/bob-uuid'' status body"

definition retry_loop_happy_path_one_attempt :: "wire_codec \<Rightarrow> libsignal \<Rightarrow> send_lib \<Rightarrow> 'i inmem_lib \<Rightarrow> 'i \<Rightarrow> bool" where
  "retry_loop_happy_path_one_attempt W L U T alice \<longleftrightarrow>
     (case retry_run W L U T alice [bob_put 200 ''{}''] of
        (r, w) \<Rightarrow> r = Inr () \<and> mh_calls (tw_http w) = 1 \<and> tw_deletes w = [] \<and> \<not> mh_panicked (tw_http w))"

definition retry_loop_410_recovers_then_succeeds :: "wire_codec \<Rightarrow> libsignal \<Rightarrow> send_lib \<Rightarrow> 'i inmem_lib \<Rightarrow> 'i \<Rightarrow> bool" where
  "retry_loop_410_recovers_then_succeeds W L U T alice \<longleftrightarrow>
     (case retry_run W L U T alice [bob_put 410 (json_ids ''staleDevices'' ''2''), bob_put 200 ''{}''] of
        (r, w) \<Rightarrow> length (tw_deletes w) = 1 \<and> mh_calls (tw_http w) \<ge> 1 \<and> \<not> mh_panicked (tw_http w))"

definition retry_loop_5xx_exhausts_after_max_attempts :: "wire_codec \<Rightarrow> libsignal \<Rightarrow> send_lib \<Rightarrow> 'i inmem_lib \<Rightarrow> 'i \<Rightarrow> bool" where
  "retry_loop_5xx_exhausts_after_max_attempts W L U T alice \<longleftrightarrow>
     (case retry_run W L U T alice [bob_put 503 [], bob_put 503 [], bob_put 503 []] of
        (r, w) \<Rightarrow> r = Inl RetryExhausted \<and> mh_calls (tw_http w) = 3 \<and> \<not> mh_panicked (tw_http w))"

definition retry_loop_fails_immediately :: "wire_codec \<Rightarrow> libsignal \<Rightarrow> send_lib \<Rightarrow> 'i inmem_lib \<Rightarrow> 'i \<Rightarrow> u16 \<Rightarrow> send_error \<Rightarrow> bool" where
  "retry_loop_fails_immediately W L U T alice status e \<longleftrightarrow>
     (case retry_run W L U T alice [bob_put status []] of
        (r, w) \<Rightarrow> r = Inl e \<and> mh_calls (tw_http w) = 1 \<and> \<not> mh_panicked (tw_http w))"

definition retry_loop_network_error_then_200_succeeds :: "wire_codec \<Rightarrow> libsignal \<Rightarrow> send_lib \<Rightarrow> 'i inmem_lib \<Rightarrow> 'i \<Rightarrow> bool" where
  "retry_loop_network_error_then_200_succeeds W L U T alice \<longleftrightarrow>
     (case retry_run W L U T alice [TransportErr, bob_put 200 ''{}''] of
        (r, w) \<Rightarrow> r = Inr () \<and> mh_calls (tw_http w) = 2 \<and> \<not> mh_panicked (tw_http w))"

definition retry_tests :: "wire_codec \<Rightarrow> libsignal \<Rightarrow> send_lib \<Rightarrow> 'i inmem_lib \<Rightarrow> 'i \<Rightarrow> bool" where
  "retry_tests W L U T alice \<longleftrightarrow>
     retry_loop_happy_path_one_attempt W L U T alice
   \<and> retry_loop_410_recovers_then_succeeds W L U T alice
   \<and> retry_loop_5xx_exhausts_after_max_attempts W L U T alice
   \<and> retry_loop_fails_immediately W L U T alice 401 AuthFailed
   \<and> retry_loop_fails_immediately W L U T alice 404 ServiceIdNotFound
   \<and> retry_loop_network_error_then_200_succeeds W L U T alice"

definition send_with_stale_device_drops_session :: "wire_codec \<Rightarrow> libsignal \<Rightarrow> send_lib \<Rightarrow> 'i inmem_lib \<Rightarrow> 'i \<Rightarrow> bool" where
  "send_with_stale_device_drops_session W L U T alice \<longleftrightarrow>
     (case retry_run W L U T alice [bob_put 410 (json_ids ''staleDevices'' ''2''), bob_put 200 ''{}''] of
        (_, w) \<Rightarrow> length (tw_deletes w) = 1 \<and> \<not> mh_panicked (tw_http w))"

subsection \<open>Fan-out against the stateful server\<close>

definition put_devices :: "mock_json \<Rightarrow> stateful_mock \<Rightarrow> u32 list option" where
  "put_devices J h = Option.bind (sm_last_put_body h) (\<lambda>b. case mj_devices J b of Inl _ \<Rightarrow> None | Inr ds \<Rightarrow> Some ds)"

definition send_with_two_recipient_devices ::
  "wire_codec \<Rightarrow> libsignal \<Rightarrow> send_lib \<Rightarrow> 'i inmem_lib \<Rightarrow> mock_json \<Rightarrow> 'i \<Rightarrow> registered_device \<Rightarrow> registered_device \<Rightarrow> bool" where
  "send_with_two_recipient_devices W L U T J alice dev1 dev2 \<longleftrightarrow>
     (case submit_with_retry_generic W L U (test_env T (stateful_net J (\<lambda>_. 0))) ''hello'' 1700000000000 bob_addr alice_addr fake_account
         (tracking_new alice [(''bob-uuid'', 2)] (register_device ''bob-uuid'' dev2 (register_device ''bob-uuid'' dev1 stateful_new))) of
        (r, w) \<Rightarrow> r = Inr () \<and> sm_put_count (tw_http w) \<ge> 2 \<and> sm_get_count (tw_http w) \<ge> 1
          \<and> (case put_devices J (tw_http w) of None \<Rightarrow> False | Some ds \<Rightarrow> 1 \<in> set ds \<and> 2 \<in> set ds))"

definition sync_run ::
  "wire_codec \<Rightarrow> libsignal \<Rightarrow> send_lib \<Rightarrow> 'i inmem_lib \<Rightarrow> mock_json \<Rightarrow> 'i \<Rightarrow> (string \<times> u32) list \<Rightarrow> stateful_mock
     \<Rightarrow> (('i, stateful_mock) test_world, send_error, unit) sres" where
  "sync_run W L U T J alice seed h =
     submit_sync_transcript_generic W L U (test_env T (stateful_net J (\<lambda>_. 0))) ''hello sync'' ''bob-uuid'' 1700000000000 ''alice-uuid'' 1
       alice_addr fake_account (tracking_new alice seed h)"

definition sync_transcript_fans_out_to_own_other_devices ::
  "wire_codec \<Rightarrow> libsignal \<Rightarrow> send_lib \<Rightarrow> 'i inmem_lib \<Rightarrow> mock_json \<Rightarrow> 'i \<Rightarrow> registered_device \<Rightarrow> bool" where
  "sync_transcript_fans_out_to_own_other_devices W L U T J alice dev7 \<longleftrightarrow>
     (case sync_run W L U T J alice [(''alice-uuid'', 7)] (register_device ''alice-uuid'' dev7 stateful_new) of
        (r, w) \<Rightarrow> r = Inr () \<and> sm_put_count (tw_http w) = 1 \<and> put_devices J (tw_http w) = Some [7])"

definition sync_transcript_skipped_when_own_account_has_no_other_devices ::
  "wire_codec \<Rightarrow> libsignal \<Rightarrow> send_lib \<Rightarrow> 'i inmem_lib \<Rightarrow> mock_json \<Rightarrow> 'i \<Rightarrow> bool" where
  "sync_transcript_skipped_when_own_account_has_no_other_devices W L U T J alice \<longleftrightarrow>
     (case sync_run W L U T J alice [] stateful_new of
        (r, w) \<Rightarrow> r = Inr () \<and> sm_put_count (tw_http w) = 0 \<and> sm_get_count (tw_http w) = 1)"

lemma static_tests_pass: "backoff_grows_then_caps \<and> classify_tests"
  by code_simp

section \<open>The tests pass\<close>

lemma find_str_iff: "find_str n s \<noteq> None \<longleftrightarrow> (\<exists>a b. s = a @ n @ b)"
proof (induction s)
  case (Cons c cs)
  have "(\<exists>a b. c # cs = a @ n @ b) \<longleftrightarrow> starts_with n (c # cs) \<or> (\<exists>a b. cs = a @ n @ b)"
    by (auto simp: starts_with_iff Cons_eq_append_conv)
  with Cons show ?case by simp
qed auto

lemma str_contains_prefix: "str_contains s (n @ m) \<Longrightarrow> str_contains s n"
  unfolding str_contains_def find_str_iff by (metis append.assoc)

text \<open>What the tests rely on. The URL crate keeps a path segment of letters, digits and hyphens as it is; \<open>serde_json\<close>
  reads the literal bodies. \<open>has_session a i\<close>: the store holds a session for \<open>a\<close> that can send; \<open>trusts a b i\<close>: the
  identity store holds no identity for \<open>a\<close> other than that of the bundle \<open>b\<close>. For an address with a
  session, libsignal encrypts, the record it makes is stored, and neither takes away a session or the trust in another
  address.\<close>

definition plain_segment :: "string \<Rightarrow> bool" where
  "plain_segment s \<longleftrightarrow> list_all (\<lambda>c. c \<in> set ''abcdefghijklmnopqrstuvwxyzABCDEFGHIJKLMNOPQRSTUVWXYZ0123456789-'') s"

text \<open>What a successful call on \<open>a\<close> keeps from the store \<open>i\<close> to the store \<open>j\<close>.\<close>

definition store_kept ::
  "(protocol_address \<Rightarrow> 'i \<Rightarrow> bool) \<Rightarrow> (protocol_address \<Rightarrow> pre_key_bundle \<Rightarrow> 'i \<Rightarrow> bool) \<Rightarrow> protocol_address \<Rightarrow> 'i \<Rightarrow> 'i \<Rightarrow> bool" where
  "store_kept has_session trusts a i j \<longleftrightarrow>
     has_session a j \<and> (\<forall>b. has_session b i \<longrightarrow> has_session b j) \<and> (\<forall>b q. b \<noteq> a \<longrightarrow> trusts b q i \<longrightarrow> trusts b q j)"

locale test_stores = device_id_law L for L :: libsignal +
  fixes U :: send_lib and T :: "'i inmem_lib" and base :: url and has_session :: "protocol_address \<Rightarrow> 'i \<Rightarrow> bool"
    and trusts :: "protocol_address \<Rightarrow> pre_key_bundle \<Rightarrow> 'i \<Rightarrow> bool"
  assumes base: "chat_base_url U fake_account = Inr base"
    and json: "\<exists>b. sl_request_to_json U r = Inr b"
    and path: "plain_segment x \<Longrightarrow>
      str_contains (sl_url_as_str U (sl_url_set_path U (''/v1/messages/'' @ x) base)) (''/v1/messages/'' @ x)"
    and missing_json: "sl_mismatch_from_json U (json_ids ''missingDevices'' ''2,3'') = Inr \<lparr>missing_devices = [2, 3], extra_devices = [], stale_devices = []\<rparr>"
    and stale_json: "sl_mismatch_from_json U (json_ids ''staleDevices'' ''4'') = Inr \<lparr>missing_devices = [], extra_devices = [], stale_devices = [4]\<rparr>"
      "sl_mismatch_from_json U (json_ids ''staleDevices'' ''2'') = Inr \<lparr>missing_devices = [], extra_devices = [], stale_devices = [2]\<rparr>"
    and star_url: "split_second ''/v2/keys/'' (sl_url_as_str U (sl_url_set_path U (''/v2/keys/'' @ ''alice-uuid'' @ ''/*'') base)) = Some ''alice-uuid/*''"
    and device_two: "ls_device_id_new L 2 = Inr 2"
    and loads: "has_session a i \<Longrightarrow> \<exists>s k. il_load_session T a i = Inr (Some s) \<and> ls_remote_registration_id L s = Inr k"
    and encrypts: "has_session a i \<Longrightarrow>
      \<exists>c s i1 i2. il_message_encrypt T m a l i = (Inr (c, s), i1) \<and> (\<forall>t. c \<noteq> OtherCiphertext t)
        \<and> il_store_session T a s i1 = (Inr (), i2) \<and> store_kept has_session trusts a i i2"
begin

lemma plain_names: "plain_segment FAKE_PEER" "plain_segment ''bob-uuid''"
  by (simp_all add: plain_segment_def FAKE_PEER_def)

lemma ids_ascii: "from_utf8_lossy (json_ids ''missingDevices'' ''2,3'') = json_ids ''missingDevices'' ''2,3''"
  "from_utf8_lossy (json_ids ''staleDevices'' ''4'') = json_ids ''staleDevices'' ''4''"
  "from_utf8_lossy (json_ids ''staleDevices'' ''2'') = json_ids ''staleDevices'' ''2''"
  by code_simp+

text \<open>One request against the programmed client.\<close>

lemma submit_mock:
  assumes "mh_program (tw_http w) = e # es"
  shows "submit_messages L U (test_env T mock_net) x ents ts fake_account w =
    (case e of
       ExpectPut frag st b \<Rightarrow>
         if str_contains (sl_url_as_str U (sl_url_set_path U (''/v1/messages/'' @ x) base)) frag
         then (interpret_send_status \<lparr>hr_status = st, hr_body = b\<rparr>, w\<lparr>tw_http := (tw_http w)\<lparr>mh_calls := mh_calls (tw_http w) + 1, mh_program := es\<rparr>\<rparr>)
         else (Inl (Transport ''panic''), w\<lparr>tw_http := (tw_http w)\<lparr>mh_calls := mh_calls (tw_http w) + 1, mh_program := es, mh_panicked := True\<rparr>\<rparr>)
     | ExpectGet _ _ _ \<Rightarrow> (Inl (Transport ''panic''), w\<lparr>tw_http := (tw_http w)\<lparr>mh_calls := mh_calls (tw_http w) + 1, mh_program := es, mh_panicked := True\<rparr>\<rparr>)
     | TransportErr \<Rightarrow> (Inl (Transport ''simulated transport error''), w\<lparr>tw_http := (tw_http w)\<lparr>mh_calls := mh_calls (tw_http w) + 1, mh_program := es\<rparr>\<rparr>))"
proof -
  obtain b where "sl_request_to_json U \<lparr>smr_messages = ents, smr_online = False, smr_urgent = True, smr_timestamp = ts\<rparr> = Inr b"
    using json by blast
  then show ?thesis
    by (cases e) (simp_all add: submit_messages_def base Let_def test_env_def mock_net_def on_http_def mock_put_def mock_next_def
        assms mock_panic_def)
qed

lemma submit_one_eq:
  "submit_one L U T i (ExpectPut ''/v1/messages/'' st b) = (interpret_send_status \<lparr>hr_status = st, hr_body = b\<rparr>,
     tracking_new i [] \<lparr>mh_program = [], mh_calls = 1, mh_panicked = False\<rparr>)"
  "submit_one L U T i (ExpectPut (''/v1/messages/'' @ FAKE_PEER) st b) = (interpret_send_status \<lparr>hr_status = st, hr_body = b\<rparr>,
     tracking_new i [] \<lparr>mh_program = [], mh_calls = 1, mh_panicked = False\<rparr>)"
  "submit_one L U T i TransportErr = (Inl (Transport ''simulated transport error''),
     tracking_new i [] \<lparr>mh_program = [], mh_calls = 1, mh_panicked = False\<rparr>)"
  using path [OF plain_names(1)] str_contains_prefix [OF path [OF plain_names(1)]]
  by (simp_all add: submit_one_def submit_encrypted_message_def submit_mock mock_new_def tracking_new_def)

lemma submit_tests_pass: "submit_tests L U T i"
proof -
  have "status_test L U T i 200 ''{}'' (Inr ())" "status_test L U T i 401 [] (Inl AuthFailed)"
    "status_test L U T i 404 [] (Inl ServiceIdNotFound)" "status_test L U T i 413 [] (Inl PayloadTooLarge)"
    "status_test L U T i 428 [] (Inl ChallengeRequired)" "status_test L U T i 502 [] (Inl (Unexpected 502))"
    by (simp_all add: status_test_def submit_one_eq tracking_new_def interpret_send_status_def)
  moreover have "submit_409_carries_mismatch_marker L U T i"
    by (simp add: submit_409_carries_mismatch_marker_def submit_one_eq interpret_send_status_def ids_ascii starts_with_def
        parse_mismatch_def missing_json tracking_new_def)
  moreover have "submit_410_carries_mismatch_marker L U T i"
    by (simp add: submit_410_carries_mismatch_marker_def submit_one_eq interpret_send_status_def ids_ascii starts_with_def
        parse_mismatch_def stale_json tracking_new_def)
  moreover have "submit_transport_error_returns_transport L U T i"
    by (simp add: submit_transport_error_returns_transport_def submit_one_eq tracking_new_def)
  ultimately show ?thesis by (simp add: submit_tests_def)
qed

text \<open>One attempt of the retry tests: it encrypts for the one device and asks the client once.\<close>

lemma attempt_request:
  assumes "tw_seen w = [(''bob-uuid'', 2)]" "has_session bob_addr (tw_inner w)" "mh_program (tw_http w) = e # es"
    and "e = TransportErr \<and> out = Inl (Transport ''simulated transport error'') \<or> (\<exists>st b. e = bob_put st b \<and> out = interpret_send_status \<lparr>hr_status = st, hr_body = b\<rparr>)"
  shows "\<exists>ents w0 w1. encrypt_each L (test_env T mock_net) m ts ''bob-uuid'' l [2] w = (Inr ents, w0)
    \<and> submit_messages L U (test_env T mock_net) ''bob-uuid'' ents ts fake_account w0 = (out, w1)
    \<and> tw_seen w1 = [(''bob-uuid'', 2)] \<and> has_session bob_addr (tw_inner w1) \<and> tw_deletes w1 = tw_deletes w
    \<and> tw_http w1 = (tw_http w)\<lparr>mh_calls := mh_calls (tw_http w) + 1, mh_program := es\<rparr>"
proof -
  have dev: "checked_device L ''device id '' 2 = Inr 2" by (simp add: checked_device_def u8_try_from_def device_two)
  obtain s k where ld: "il_load_session T bob_addr (tw_inner w) = Inr (Some s)" "ls_remote_registration_id L s = Inr k" using loads [OF assms(2)] by blast
  obtain c q i1 i2 where en: "il_message_encrypt T m bob_addr l (tw_inner w) = (Inr (c, q), i1)" "\<forall>t. c \<noteq> OtherCiphertext t"
    and st: "il_store_session T bob_addr q i1 = (Inr (), i2)" "has_session bob_addr i2"
    using encrypts [OF assms(2), of m l] by (auto simp: store_kept_def)
  let ?w0 = "w\<lparr>tw_inner := i2\<rparr>"
  have "tracking_store T bob_addr q (w\<lparr>tw_inner := i1\<rparr>) = (Inr (), ?w0)"
    using st(1) assms(1) by (cases w) (simp add: tracking_store_def bob_addr_def)
  then have "\<exists>enc. encrypt_padded_for_recipient L (test_env T mock_net) m ts bob_addr l w = (Inr enc, ?w0)"
    using ld en by (cases c) (simp_all add: encrypt_padded_for_recipient_def test_env_def on_inner_def)
  then obtain ents where e: "encrypt_each L (test_env T mock_net) m ts ''bob-uuid'' l [2] w = (Inr ents, ?w0)"
    by (auto simp: dev bob_addr_def)
  have "str_contains (sl_url_as_str U (sl_url_set_path U (''/v1/messages/'' @ ''bob-uuid'') base)) ''/v1/messages/bob-uuid''"
    using path [OF plain_names(2)] by simp
  then have "submit_messages L U (test_env T mock_net) ''bob-uuid'' ents ts fake_account ?w0 =
      (out, ?w0\<lparr>tw_http := (tw_http w)\<lparr>mh_calls := mh_calls (tw_http w) + 1, mh_program := es\<rparr>\<rparr>)"
    using assms(3,4) by (auto simp: submit_mock bob_put_def)
  with e st(2) assms(1) show ?thesis by (intro exI conjI) (assumption | simp)+
qed

text \<open>The decision of that attempt.\<close>

lemma attempt_test:
  assumes "tw_seen w = [(''bob-uuid'', 2)]" "has_session bob_addr (tw_inner w)" "mh_program (tw_http w) = e # es"
    and "e = TransportErr \<and> out = Inl (Transport ''simulated transport error'') \<or> (\<exists>st b. e = bob_put st b \<and> out = interpret_send_status \<lparr>hr_status = st, hr_body = b\<rparr>)"
    and "step = (case classify_attempt out of Done \<Rightarrow> Return (Inr True) | Fatal x \<Rightarrow> Return (Inl x) | _ \<Rightarrow> Again)"
    and "classify_attempt out \<in> {Done, Backoff} \<union> range Fatal \<or> classify_attempt out = Mismatch410 (json_ids ''staleDevices'' ''2'')"
  shows "\<exists>w1. attempt_step L U (test_env T mock_net) m ts ''bob-uuid'' 2 None l fake_account n w = (step, w1)
    \<and> tw_seen w1 = [(''bob-uuid'', 2)] \<and> has_session bob_addr (tw_inner w1)
    \<and> length (tw_deletes w1) = length (tw_deletes w) + (case classify_attempt out of Mismatch410 _ \<Rightarrow> 1 | _ \<Rightarrow> 0)
    \<and> tw_http w1 = (tw_http w)\<lparr>mh_calls := mh_calls (tw_http w) + 1, mh_program := es\<rparr>"
proof -
  obtain ents w0 w1 where run: "encrypt_each L (test_env T mock_net) m ts ''bob-uuid'' l [2] w = (Inr ents, w0)"
    "submit_messages L U (test_env T mock_net) ''bob-uuid'' ents ts fake_account w0 = (out, w1)"
    "tw_seen w1 = [(''bob-uuid'', 2)]" "has_session bob_addr (tw_inner w1)" "tw_deletes w1 = tw_deletes w"
    "tw_http w1 = (tw_http w)\<lparr>mh_calls := mh_calls (tw_http w) + 1, mh_program := es\<rparr>"
    using attempt_request [OF assms(1-4), of m ts l] by blast
  have fan: "fan_out_devices (test_env T mock_net) ''bob-uuid'' 2 None w = Some [2]"
    using assms(1) by (simp add: fan_out_devices_def test_env_def tracking_ids_def)
  have dev: "checked_device L ''fallback device id '' 2 = Inr 2" by (simp add: checked_device_def u8_try_from_def device_two)
  have addr: "device_protocol_address L ''bob-uuid'' 2 = Some bob_addr"
    by (simp add: device_protocol_address_def u8_try_from_def device_two bob_addr_def)
  have slp: "sv_sleep (test_env T mock_net) k w1 = w1" for k by (simp add: test_env_def mock_net_def)
  have del: "sv_delete (test_env T mock_net) = counting_delete" by (simp add: test_env_def)
  show ?thesis
    using assms(5,6) run
    by (auto simp: attempt_step_def fan dev Let_def slp parse_mismatch_def stale_json handle_stale_devices_def drop_sessions_def addr
        del counting_delete_def simp del: encrypt_each.simps)
qed

lemma loop_test:
  assumes "tw_seen w = [(''bob-uuid'', 2)]" "has_session bob_addr (tw_inner w)" "mh_program (tw_http w) = e # es" "n < 3"
    and "e = TransportErr \<and> out = Inl (Transport ''simulated transport error'') \<or> (\<exists>st b. e = bob_put st b \<and> out = interpret_send_status \<lparr>hr_status = st, hr_body = b\<rparr>)"
    and "classify_attempt out \<in> {Done, Backoff} \<union> range Fatal \<or> classify_attempt out = Mismatch410 (json_ids ''staleDevices'' ''2'')"
  shows "\<exists>w1. retry_loop L U (test_env T mock_net) m ts ''bob-uuid'' 2 None l fake_account 0 n w =
      (case classify_attempt out of Done \<Rightarrow> (Inr True, w1) | Fatal x \<Rightarrow> (Inl x, w1)
       | _ \<Rightarrow> retry_loop L U (test_env T mock_net) m ts ''bob-uuid'' 2 None l fake_account 0 (Suc n) w1)
    \<and> tw_seen w1 = [(''bob-uuid'', 2)] \<and> has_session bob_addr (tw_inner w1)
    \<and> length (tw_deletes w1) = length (tw_deletes w) + (case classify_attempt out of Mismatch410 _ \<Rightarrow> 1 | _ \<Rightarrow> 0)
    \<and> tw_http w1 = (tw_http w)\<lparr>mh_calls := mh_calls (tw_http w) + 1, mh_program := es\<rparr>"
proof -
  obtain w1 where w1: "attempt_step L U (test_env T mock_net) m ts ''bob-uuid'' 2 None l fake_account (n + 1) w =
      (case classify_attempt out of Done \<Rightarrow> Return (Inr True) | Fatal x \<Rightarrow> Return (Inl x) | _ \<Rightarrow> Again, w1)"
    "tw_seen w1 = [(''bob-uuid'', 2)]" "has_session bob_addr (tw_inner w1)"
    "length (tw_deletes w1) = length (tw_deletes w) + (case classify_attempt out of Mismatch410 _ \<Rightarrow> 1 | _ \<Rightarrow> 0)"
    "tw_http w1 = (tw_http w)\<lparr>mh_calls := mh_calls (tw_http w) + 1, mh_program := es\<rparr>"
    using attempt_test [OF assms(1-3,5) refl assms(6), of m ts l "n + 1"] by blast
  have now: "sv_now_ms (test_env T mock_net) w = 0" by (simp add: test_env_def mock_net_def)
  have "retry_loop L U (test_env T mock_net) m ts ''bob-uuid'' 2 None l fake_account 0 n w =
      (case classify_attempt out of Done \<Rightarrow> (Inr True, w1) | Fatal x \<Rightarrow> (Inl x, w1)
       | _ \<Rightarrow> retry_loop L U (test_env T mock_net) m ts ''bob-uuid'' 2 None l fake_account 0 (Suc n) w1)"
    using assms(4) w1(1) by (subst retry_loop.simps) (simp add: now split: attempt_decision.split)
  with w1 show ?thesis by blast
qed

lemma loop_end: "retry_loop L U E m ts u fb excl l acct k 3 w = (Inl RetryExhausted, w)"
  by (subst retry_loop.simps) simp

lemma retry_run_eq:
  "retry_run W L U T alice program =
     sbind (retry_loop L U (test_env T mock_net) (build_padded_data_message_content W ''hello'' 1700000000000) 1700000000000
         ''bob-uuid'' 2 None alice_addr fake_account 0 0 (tracking_new alice [(''bob-uuid'', 2)] (mock_new program)))
       (\<lambda>_ w1. (Inr (), w1))"
  by (simp add: retry_run_def submit_with_retry_generic_def submit_padded_with_retry_generic_def bob_addr_def test_env_def mock_net_def)

lemma start_state:
  "tw_seen (tracking_new alice [(''bob-uuid'', 2)] h) = [(''bob-uuid'', 2)]" "tw_inner (tracking_new alice s h) = alice"
  "tw_http (tracking_new alice s h) = h" "tw_deletes (tracking_new alice s h) = []"
  "mh_program (mock_new p) = p" "mh_calls (mock_new p) = 0" "mh_panicked (mock_new p) = False"
  by (simp_all add: tracking_new_def mock_new_def)

text \<open>A final answer ends the loop in the first attempt.\<close>

lemma first_attempt:
  assumes "has_session bob_addr alice" "out = interpret_send_status \<lparr>hr_status = st, hr_body = b\<rparr>"
    and "r = (case classify_attempt out of Done \<Rightarrow> Inr () | Fatal x \<Rightarrow> Inl x | _ \<Rightarrow> undefined)"
    and "classify_attempt out \<in> insert Done (range Fatal)"
  shows "\<exists>w. retry_run W L U T alice [bob_put st b] = (r, w) \<and> mh_calls (tw_http w) = 1 \<and> tw_deletes w = [] \<and> \<not> mh_panicked (tw_http w)"
proof -
  let ?w = "tracking_new alice [(''bob-uuid'', 2)] (mock_new [bob_put st b])"
  have "\<exists>st' b'. bob_put st b = bob_put st' b' \<and> out = interpret_send_status \<lparr>hr_status = st', hr_body = b'\<rparr>" using assms(2) by blast
  moreover have "classify_attempt out \<in> {Done, Backoff} \<union> range Fatal" using assms(4) by blast
  ultimately show ?thesis
    using loop_test [of ?w "bob_put st b" "[]" 0 out "build_padded_data_message_content W ''hello'' 1700000000000" 1700000000000 alice_addr] assms
    by (fastforce simp: start_state retry_run_eq)
qed

lemma outcomes:
  "classify_attempt (interpret_send_status \<lparr>hr_status = 200, hr_body = b\<rparr>) = Done"
  "classify_attempt (interpret_send_status \<lparr>hr_status = 503, hr_body = b\<rparr>) = Backoff"
  "classify_attempt (interpret_send_status \<lparr>hr_status = 401, hr_body = b\<rparr>) = Fatal AuthFailed"
  "classify_attempt (interpret_send_status \<lparr>hr_status = 404, hr_body = b\<rparr>) = Fatal ServiceIdNotFound"
  "classify_attempt (interpret_send_status \<lparr>hr_status = 410, hr_body = json_ids ''staleDevices'' ''2''\<rparr>) = Mismatch410 (json_ids ''staleDevices'' ''2'')"
  by (simp_all add: status_routing transient_status_def ids_ascii)

text \<open>The first attempt does not decide; the second does.\<close>

lemma second_attempt:
  assumes "has_session bob_addr alice"
    and "e = TransportErr \<and> out = Inl (Transport ''simulated transport error'') \<or> (\<exists>st b. e = bob_put st b \<and> out = interpret_send_status \<lparr>hr_status = st, hr_body = b\<rparr>)"
    and "classify_attempt out = Backoff \<or> classify_attempt out = Mismatch410 (json_ids ''staleDevices'' ''2'')"
  shows "\<exists>w. retry_run W L U T alice [e, bob_put 200 b] = (Inr (), w) \<and> mh_calls (tw_http w) = 2
    \<and> length (tw_deletes w) = (if classify_attempt out = Backoff then 0 else 1) \<and> \<not> mh_panicked (tw_http w)"
proof -
  let ?m = "build_padded_data_message_content W ''hello'' 1700000000000" and ?w = "tracking_new alice [(''bob-uuid'', 2)] (mock_new [e, bob_put 200 b])"
  let ?loop = "\<lambda>n. retry_loop L U (test_env T mock_net) ?m 1700000000000 ''bob-uuid'' 2 None alice_addr fake_account 0 n"
  have cl: "classify_attempt out \<in> {Done, Backoff} \<union> range Fatal \<or> classify_attempt out = Mismatch410 (json_ids ''staleDevices'' ''2'')" using assms(3) by auto
  obtain w1 where w1: "?loop 0 ?w = ?loop (Suc 0) w1" "tw_seen w1 = [(''bob-uuid'', 2)]" "has_session bob_addr (tw_inner w1)"
    "length (tw_deletes w1) = (if classify_attempt out = Backoff then 0 else 1)" "mh_calls (tw_http w1) = 1" "mh_program (tw_http w1) = [bob_put 200 b]"
    "\<not> mh_panicked (tw_http w1)"
    using loop_test [of ?w e "[bob_put 200 b]" 0 out ?m 1700000000000 alice_addr, OF _ _ _ _ assms(2) cl] assms(1,3)
    by (fastforce simp: start_state)
  obtain w2 where w2: "?loop (Suc 0) w1 = (Inr True, w2)" "length (tw_deletes w2) = length (tw_deletes w1)" "mh_calls (tw_http w2) = 2"
    "\<not> mh_panicked (tw_http w2)"
    using loop_test [of w1 "bob_put 200 b" "[]" "Suc 0" "interpret_send_status \<lparr>hr_status = 200, hr_body = b\<rparr>" ?m 1700000000000 alice_addr] w1
    by (fastforce simp: outcomes)
  from w1 w2 show ?thesis by (simp add: retry_run_eq)
qed

lemma three_backoffs:
  assumes "has_session bob_addr alice"
  shows "\<exists>w. retry_run W L U T alice [bob_put 503 [], bob_put 503 [], bob_put 503 []] = (Inl RetryExhausted, w)
    \<and> mh_calls (tw_http w) = 3 \<and> \<not> mh_panicked (tw_http w)"
proof -
  let ?m = "build_padded_data_message_content W ''hello'' 1700000000000" and ?w = "tracking_new alice [(''bob-uuid'', 2)] (mock_new (replicate 3 (bob_put 503 [])))"
  let ?loop = "\<lambda>n. retry_loop L U (test_env T mock_net) ?m 1700000000000 ''bob-uuid'' 2 None alice_addr fake_account 0 n"
  have step: "\<exists>w1. ?loop n w = ?loop (Suc n) w1 \<and> tw_seen w1 = [(''bob-uuid'', 2)] \<and> has_session bob_addr (tw_inner w1)
      \<and> tw_http w1 = (tw_http w)\<lparr>mh_calls := mh_calls (tw_http w) + 1, mh_program := es\<rparr>"
    if "n < 3" "tw_seen w = [(''bob-uuid'', 2)]" "has_session bob_addr (tw_inner w)" "mh_program (tw_http w) = bob_put 503 [] # es" for n w es
    using loop_test [of w "bob_put 503 []" es n "interpret_send_status \<lparr>hr_status = 503, hr_body = []\<rparr>" ?m 1700000000000 alice_addr] that
    by (fastforce simp: outcomes)
  obtain w1 where w1: "?loop 0 ?w = ?loop (Suc 0) w1" "tw_seen w1 = [(''bob-uuid'', 2)]" "has_session bob_addr (tw_inner w1)"
    "tw_http w1 = \<lparr>mh_program = replicate 2 (bob_put 503 []), mh_calls = 1, mh_panicked = False\<rparr>"
    using step [of 0 ?w "replicate 2 (bob_put 503 [])"] assms by (auto simp: start_state mock_new_def numeral_eq_Suc)
  obtain w2 where w2: "?loop (Suc 0) w1 = ?loop (Suc (Suc 0)) w2" "tw_seen w2 = [(''bob-uuid'', 2)]" "has_session bob_addr (tw_inner w2)"
    "tw_http w2 = \<lparr>mh_program = [bob_put 503 []], mh_calls = 2, mh_panicked = False\<rparr>"
    using step [of "Suc 0" w1 "[bob_put 503 []]"] w1 by (auto simp: numeral_eq_Suc)
  obtain w3 where w3: "?loop (Suc (Suc 0)) w2 = ?loop 3 w3" "tw_http w3 = \<lparr>mh_program = [], mh_calls = 3, mh_panicked = False\<rparr>"
    using step [of "Suc (Suc 0)" w2 "[]"] w2 by (auto simp: numeral_eq_Suc)
  from w1(1) w2(1) w3 have "?loop 0 ?w = (Inl RetryExhausted, w3)" by (simp add: loop_end)
  with w3(2) show ?thesis by (simp add: retry_run_eq numeral_eq_Suc)
qed

lemma retry_tests_pass:
  assumes "has_session bob_addr alice"
  shows "retry_tests W L U T alice"
proof -
  have "retry_loop_happy_path_one_attempt W L U T alice"
    using first_attempt [OF assms refl, of _ 200 "''{}''" W] by (auto simp: retry_loop_happy_path_one_attempt_def outcomes)
  moreover have "retry_loop_410_recovers_then_succeeds W L U T alice"
  proof -
    let ?b = "json_ids ''staleDevices'' ''2''"
    have "\<exists>st b. bob_put 410 ?b = bob_put st b \<and> interpret_send_status \<lparr>hr_status = 410, hr_body = ?b\<rparr> = interpret_send_status \<lparr>hr_status = st, hr_body = b\<rparr>"
      by blast
    from second_attempt [OF assms disjI2 [OF this], of W "''{}''"] show ?thesis
      by (auto simp: retry_loop_410_recovers_then_succeeds_def outcomes)
  qed
  moreover have "retry_loop_5xx_exhausts_after_max_attempts W L U T alice"
    using three_backoffs [OF assms, of W] by (auto simp: retry_loop_5xx_exhausts_after_max_attempts_def)
  moreover have "retry_loop_fails_immediately W L U T alice 401 AuthFailed" "retry_loop_fails_immediately W L U T alice 404 ServiceIdNotFound"
    using first_attempt [OF assms refl, of _ 401 "[]" W] first_attempt [OF assms refl, of _ 404 "[]" W]
    by (auto simp: retry_loop_fails_immediately_def outcomes)
  moreover have "retry_loop_network_error_then_200_succeeds W L U T alice"
    using second_attempt [OF assms, of TransportErr "Inl (Transport ''simulated transport error'')" W "''{}''"]
    by (auto simp: retry_loop_network_error_then_200_succeeds_def)
  ultimately show ?thesis by (simp add: retry_tests_def)
qed

lemma no_devices_test: "sync_transcript_skipped_when_own_account_has_no_other_devices W L U T J alice"
proof -
  have "stateful_get J (sl_url_as_str U (sl_url_set_path U (''/v2/keys/'' @ ''alice-uuid'' @ ''/*'') base)) auth stateful_new =
      (Inr \<lparr>hr_status = 404, hr_body = []\<rparr>, stateful_new\<lparr>sm_get_count := 1\<rparr>)" for auth
    unfolding stateful_get_def star_url by (simp add: registered_devices_def stateful_new_def)
  then show ?thesis
    by (simp add: sync_transcript_skipped_when_own_account_has_no_other_devices_def sync_run_def submit_sync_transcript_generic_def
        test_env_def tracking_ids_def tracking_new_def discover_and_establish_account_devices_def base on_http_def stateful_net_def Let_def stateful_new_def)
qed

end

text \<open>The invariant of the runs against the stateful server: tracked devices have sessions, the identities of the registered
  devices that are not tracked yet are trusted, and a device that was not there at the start was asked for.\<close>

definition test_ready ::
  "libsignal \<Rightarrow> (protocol_address \<Rightarrow> 'i \<Rightarrow> bool) \<Rightarrow> (protocol_address \<Rightarrow> pre_key_bundle \<Rightarrow> 'i \<Rightarrow> bool) \<Rightarrow> string \<Rightarrow> registered_device list
     \<Rightarrow> (registered_device \<Rightarrow> pre_key_bundle) \<Rightarrow> u32 set \<Rightarrow> ('i, stateful_mock) test_world \<Rightarrow> bool" where
  "test_ready L has_session trusts u devs offer seed w \<longleftrightarrow>
     (\<forall>d. (u, d) \<in> set (tw_seen w) \<longrightarrow> device_valid L d \<and> has_session \<lparr>pa_name = u, pa_device = ucast d\<rparr> (tw_inner w))
     \<and> (\<forall>x \<in> set devs. (u, rd_device_id x) \<notin> set (tw_seen w) \<longrightarrow>
          trusts \<lparr>pa_name = u, pa_device = ucast (rd_device_id x)\<rparr> (offer x) (tw_inner w))
     \<and> registered_devices u (tw_http w) = devs
     \<and> ((\<forall>d. (u, d) \<in> set (tw_seen w) \<longrightarrow> d \<in> seed) \<or> 0 < sm_get_count (tw_http w))"

lemma set_tracking_ids: "set (tracking_ids u w) = {d. (u, d) \<in> set (tw_seen w)}"
  by (force simp: tracking_ids_def)

lemma stateful_put_gets: "stateful_put J url auth body h = (r, h1) \<Longrightarrow> sm_get_count h1 = sm_get_count h"
  by (auto simp: stateful_put_def Let_def split: sum.splits if_splits)

lemma stateful_get_gets: "stateful_get J url auth h = (r, h1) \<Longrightarrow> sm_get_count h1 = sm_get_count h + 1"
  by (auto simp: stateful_get_def Let_def split: option.splits list.splits if_splits)

text \<open>A bundle is processed, and the session made from it stored, when the identity store trusts its identity for the
  address; libsignal refuses any other with \<open>UntrustedIdentity\<close>.\<close>

locale test_server = test_stores L U T base has_session trusts + served_account L U J fake_account base u req_json devs offer
  for L U and T :: "'i inmem_lib" and base has_session trusts J u req_json devs offer +
  fixes seed :: "u32 set"
  assumes processes: "x \<in> set devs \<Longrightarrow> a = \<lparr>pa_name = u, pa_device = ucast (rd_device_id x)\<rparr> \<Longrightarrow> trusts a (offer x) i \<Longrightarrow>
    \<exists>s i1 i2. il_process_bundle T a (offer x) i = (Inr s, i1) \<and> il_store_session T a s i1 = (Inr (), i2)
      \<and> store_kept has_session trusts a i i2"
begin

lemma tracked:
  assumes "test_ready L has_session trusts u devs offer seed w" "device_valid L d" "registered_devices u h = devs"
    and "d \<in> seed \<or> (u, d) \<in> set (tw_seen w) \<or> 0 < sm_get_count h" "sm_get_count (tw_http w) \<le> sm_get_count h"
    and "il_store_session T \<lparr>pa_name = u, pa_device = ucast d\<rparr> q i1 = (Inr (), i2)"
    and "store_kept has_session trusts \<lparr>pa_name = u, pa_device = ucast d\<rparr> (tw_inner w) i2"
  shows "\<exists>w1. tracking_store T \<lparr>pa_name = u, pa_device = ucast d\<rparr> q (w\<lparr>tw_http := h, tw_inner := i1\<rparr>) = (Inr (), w1)
    \<and> test_ready L has_session trusts u devs offer seed w1 \<and> {e. (u, e) \<in> set (tw_seen w1)} = insert d {e. (u, e) \<in> set (tw_seen w)}
    \<and> tw_http w1 = h"
proof -
  let ?w1 = "w\<lparr>tw_http := h, tw_seen := List.insert (u, d) (tw_seen w), tw_inner := i2\<rparr>"
  have "tracking_store T \<lparr>pa_name = u, pa_device = ucast d\<rparr> q (w\<lparr>tw_http := h, tw_inner := i1\<rparr>) = (Inr (), ?w1)"
    using assms(6) device_narrow [OF assms(2)] by (simp add: tracking_store_def)
  moreover have other: "(ucast (rd_device_id x) :: u8) \<noteq> ucast d" if "x \<in> set devs" "rd_device_id x \<noteq> d" for x
    using device_narrow [OF devs_valid [OF that(1)]] device_narrow [OF assms(2)] that(2) by metis
  have "test_ready L has_session trusts u devs offer seed ?w1"
    using assms(1-5,7) other by (auto simp: test_ready_def store_kept_def)
  moreover have "{e. (u, e) \<in> set (tw_seen ?w1)} = insert d {e. (u, e) \<in> set (tw_seen w)}" by auto
  ultimately show ?thesis by (intro exI [of _ ?w1]) simp
qed

end

sublocale test_server < fan_out L U "test_env T (stateful_net J (\<lambda>_. 0))" fake_account base u req_json
  "test_ready L has_session trusts u devs offer seed" "\<lambda>w. {d. (u, d) \<in> set (tw_seen w)}" "rd_device_id ` set devs" "\<lambda>w. last_put J (tw_http w)"
proof
  show "chat_base_url U fake_account = Inr base" by (rule base_url)
  show "sl_request_to_json U r = Inr (req_json r)" for r by (rule to_json)
  show "d \<in> rd_device_id ` set devs \<Longrightarrow> device_valid L d" for d using devs_valid by auto
  show "test_ready L has_session trusts u devs offer seed w \<Longrightarrow> d \<in> {d. (u, d) \<in> set (tw_seen w)} \<Longrightarrow> device_valid L d" for w d
    by (auto simp: test_ready_def)
  show "set (sv_device_ids_for (test_env T (stateful_net J (\<lambda>_. 0))) u w) = {d. (u, d) \<in> set (tw_seen w)}" for w
    by (simp add: test_env_def set_tracking_ids)
next
  fix w m l and d :: u32
  assume w: "test_ready L has_session trusts u devs offer seed w" and d: "d \<in> {d. (u, d) \<in> set (tw_seen w)}"
  let ?a = "\<lparr>pa_name = u, pa_device = ucast d\<rparr>"
  have has: "has_session ?a (tw_inner w)" "device_valid L d" and reg: "registered_devices u (tw_http w) = devs"
    using w d by (auto simp: test_ready_def)
  obtain s k where ld: "il_load_session T ?a (tw_inner w) = Inr (Some s)" "ls_remote_registration_id L s = Inr k" using loads [OF has(1)] by blast
  obtain c q i1 i2 where en: "il_message_encrypt T m ?a l (tw_inner w) = (Inr (c, q), i1)" "\<forall>t. c \<noteq> OtherCiphertext t"
    "il_store_session T ?a q i1 = (Inr (), i2)" "store_kept has_session trusts ?a (tw_inner w) i2"
    using encrypts [OF has(1), of m l] by blast
  obtain w1 where w1: "tracking_store T ?a q (w\<lparr>tw_inner := i1\<rparr>) = (Inr (), w1)" "test_ready L has_session trusts u devs offer seed w1"
    "{e. (u, e) \<in> set (tw_seen w1)} = {e. (u, e) \<in> set (tw_seen w)}" "tw_http w1 = tw_http w"
    using tracked [OF w has(2) reg _ _ en(3,4)] d by (auto simp: insert_absorb)
  then show "\<exists>s i c w1. se_load_session (test_env T (stateful_net J (\<lambda>_. 0))) ?a w = Inr (Some s) \<and> ls_remote_registration_id L s = Inr i
      \<and> se_message_encrypt (test_env T (stateful_net J (\<lambda>_. 0))) m ?a l w = (Inr c, w1) \<and> (\<forall>t. c \<noteq> OtherCiphertext t)
      \<and> test_ready L has_session trusts u devs offer seed w1 \<and> {d. (u, d) \<in> set (tw_seen w1)} = {d. (u, d) \<in> set (tw_seen w)}
      \<and> last_put J (tw_http w1) = last_put J (tw_http w)"
    using ld en by (auto simp: test_env_def on_inner_def)
next
  fix w auth ts and es :: "outgoing_message_entity list"
  assume w: "test_ready L has_session trusts u devs offer seed w" and val: "\<And>e. e \<in> set es \<Longrightarrow> device_valid L (ome_destination_device_id e)"
  show "\<exists>resp w1. sv_put_json (test_env T (stateful_net J (\<lambda>_. 0))) (sl_url_as_str U (sl_url_set_path U (''/v1/messages/'' @ u) base)) auth
        (req_json \<lparr>smr_messages = es, smr_online = False, smr_urgent = True, smr_timestamp = ts\<rparr>) w = (Inr resp, w1)
      \<and> test_ready L has_session trusts u devs offer seed w1 \<and> {d. (u, d) \<in> set (tw_seen w1)} = {d. (u, d) \<in> set (tw_seen w)}
      \<and> last_put J (tw_http w1) = (fst (last_put J (tw_http w)) + 1, map ome_destination_device_id es)
      \<and> (if ome_destination_device_id ` set es = rd_device_id ` set devs then hr_status resp = 200 else hr_status resp = 409 \<and>
        (\<exists>mm. sl_mismatch_from_json U (from_utf8_lossy (hr_body resp)) = Inr mm \<and> distinct (missing_devices mm)
          \<and> set (missing_devices mm) = rd_device_id ` set devs - ome_destination_device_id ` set es
          \<and> set (extra_devices mm) = ome_destination_device_id ` set es - rd_device_id ` set devs))"
  proof -
    have reg: "registered_devices u (tw_http w) = devs" using w by (simp add: test_ready_def)
    obtain resp h1 where ans:
      "stateful_put J (sl_url_as_str U (sl_url_set_path U (''/v1/messages/'' @ u) base)) auth
        (req_json \<lparr>smr_messages = es, smr_online = False, smr_urgent = True, smr_timestamp = ts\<rparr>) (tw_http w) = (Inr resp, h1)"
      "registered_devices u h1 = devs" "last_put J h1 = (fst (last_put J (tw_http w)) + 1, map ome_destination_device_id es)"
      "if ome_destination_device_id ` set es = rd_device_id ` set devs then hr_status resp = 200 else hr_status resp = 409 \<and>
        (\<exists>mm. sl_mismatch_from_json U (from_utf8_lossy (hr_body resp)) = Inr mm \<and> distinct (missing_devices mm)
          \<and> set (missing_devices mm) = rd_device_id ` set devs - ome_destination_device_id ` set es
          \<and> set (extra_devices mm) = ome_destination_device_id ` set es - rd_device_id ` set devs)"
      using server_answers [where auth = auth and ts = ts, OF reg val] by blast
    moreover have "sm_get_count h1 = sm_get_count (tw_http w)" using stateful_put_gets [OF ans(1)] .
    ultimately show ?thesis
      using w by (intro exI [of _ resp] exI [of _ "w\<lparr>tw_http := h1\<rparr>"]) (simp add: test_env_def on_http_def stateful_net_def test_ready_def)
  qed
next
  fix w auth and d :: u32
  assume w: "test_ready L has_session trusts u devs offer seed w" and d: "d \<in> rd_device_id ` set devs"
    and new: "d \<notin> {d. (u, d) \<in> set (tw_seen w)}"
  show "\<exists>resp w1 pre entry i b w2. sv_get_json (test_env T (stateful_net J (\<lambda>_. 0)))
          (sl_url_as_str U (sl_url_set_path U (''/v2/keys/'' @ u @ ''/'' @ show_word d) base)) auth w = (Inr resp, w1)
        \<and> hr_status resp = 200 \<and> sl_prekeys_from_json U (hr_body resp) = Inr pre
        \<and> List.find (\<lambda>x. de_device_id x = d) (pkr_devices pre) = Some entry
        \<and> decode_identity_key L (pkr_identity_key pre) = Inr i \<and> build_prekey_bundle L U entry i = Inr b
        \<and> sv_process_prekey_bundle (test_env T (stateful_net J (\<lambda>_. 0))) \<lparr>pa_name = u, pa_device = ucast d\<rparr> b w1 = (Inr (), w2)
        \<and> test_ready L has_session trusts u devs offer seed w2 \<and> {d. (u, d) \<in> set (tw_seen w2)} = insert d {d. (u, d) \<in> set (tw_seen w)}
        \<and> last_put J (tw_http w2) = last_put J (tw_http w)"
  proof -
    have reg: "registered_devices u (tw_http w) = devs" using w by (simp add: test_ready_def)
    obtain x resp h1 pre entry i where x: "x \<in> set devs" "rd_device_id x = d"
      "stateful_get J (sl_url_as_str U (sl_url_set_path U (''/v2/keys/'' @ u @ ''/'' @ show_word d) base)) auth (tw_http w) = (Inr resp, h1)"
      "hr_status resp = 200" "sl_prekeys_from_json U (hr_body resp) = Inr pre" "List.find (\<lambda>x. de_device_id x = d) (pkr_devices pre) = Some entry"
      "decode_identity_key L (pkr_identity_key pre) = Inr i" "build_prekey_bundle L U entry i = Inr (offer x)"
      "registered_devices u h1 = devs" "last_put J h1 = last_put J (tw_http w)"
      using server_bundle [OF reg d, of auth] by blast
    have cnt: "sm_get_count h1 = sm_get_count (tw_http w) + 1" by (rule stateful_get_gets [OF x(3)])
    let ?a = "\<lparr>pa_name = u, pa_device = ucast d\<rparr>"
    have "trusts ?a (offer x) (tw_inner w)" using w x(1,2) new by (auto simp: test_ready_def)
    then obtain q i1 i2 where q: "il_process_bundle T ?a (offer x) (tw_inner w) = (Inr q, i1)"
      "il_store_session T ?a q i1 = (Inr (), i2)" "store_kept has_session trusts ?a (tw_inner w) i2"
      using processes [OF x(1), of ?a] x(2) by blast
    obtain w2 where w2: "tracking_store T \<lparr>pa_name = u, pa_device = ucast d\<rparr> q (w\<lparr>tw_http := h1, tw_inner := i1\<rparr>) = (Inr (), w2)"
      "test_ready L has_session trusts u devs offer seed w2" "{e. (u, e) \<in> set (tw_seen w2)} = insert d {e. (u, e) \<in> set (tw_seen w)}" "tw_http w2 = h1"
      using tracked [OF w _ x(9) _ _ q(2,3)] devs_valid [OF x(1)] x(2) cnt by auto
    have "sv_get_json (test_env T (stateful_net J (\<lambda>_. 0))) (sl_url_as_str U (sl_url_set_path U (''/v2/keys/'' @ u @ ''/'' @ show_word d) base)) auth w
        = (Inr resp, w\<lparr>tw_http := h1\<rparr>)" using x(3) by (simp add: test_env_def on_http_def stateful_net_def)
    moreover have "sv_process_prekey_bundle (test_env T (stateful_net J (\<lambda>_. 0))) \<lparr>pa_name = u, pa_device = ucast d\<rparr> (offer x) (w\<lparr>tw_http := h1\<rparr>) = (Inr (), w2)"
      using q(1) w2(1) by (simp add: test_env_def on_inner_def)
    ultimately show ?thesis using x(4-8,10) w2(2-4) by (intro exI conjI) (assumption | simp)+
  qed
qed

context test_server
begin

text \<open>A run whose sessions all belong to registered devices succeeds and addresses them all.\<close>

lemma run_reaches:
  assumes "\<And>d. (u, d) \<in> set seeds \<Longrightarrow> d \<in> rd_device_id ` set devs \<and> d \<in> seed \<and> has_session \<lparr>pa_name = u, pa_device = ucast d\<rparr> i"
    and "(u, d) \<in> set seeds" "registered_devices u h = devs" "device_valid L fb" "excl \<notin> Some ` rd_device_id ` set devs"
    and "\<And>x. x \<in> set devs \<Longrightarrow> (u, rd_device_id x) \<notin> set seeds \<Longrightarrow> trusts \<lparr>pa_name = u, pa_device = ucast (rd_device_id x)\<rparr> (offer x) i"
  shows "\<exists>w'. submit_padded_with_retry_generic L U (test_env T (stateful_net J (\<lambda>_. 0))) m ts u fb excl l fake_account (tracking_new i seeds h) = (Inr True, w')
    \<and> test_ready L has_session trusts u devs offer seed w' \<and> {d. (u, d) \<in> set (tw_seen w')} = rd_device_id ` set devs
    \<and> set (snd (last_put J (tw_http w'))) = rd_device_id ` set devs
    \<and> sm_put_count (tw_http w') = sm_put_count h + (if {d. (u, d) \<in> set seeds} = rd_device_id ` set devs then 1 else 2)
    \<and> ({d. (u, d) \<in> set seeds} = rd_device_id ` set devs \<longrightarrow> snd (last_put J (tw_http w')) = tracking_ids u (tracking_new i seeds h))"
proof -
  let ?w = "tracking_new i seeds h" and ?E = "test_env T (stateful_net J (\<lambda>_. 0))"
  have ready: "test_ready L has_session trusts u devs offer seed ?w"
    using assms(1,3,6) devs_valid by (fastforce simp: test_ready_def tracking_new_def)
  have known: "{d. (u, d) \<in> set (tw_seen ?w)} = {d. (u, d) \<in> set seeds}" by (simp add: tracking_new_def)
  have sub: "{d. (u, d) \<in> set seeds} \<subseteq> rd_device_id ` set devs" using assms(1) by blast
  have ne: "{d. (u, d) \<in> set (tw_seen ?w)} \<noteq> {}" "rd_device_id ` set devs \<noteq> {}" using assms(1,2) known by auto
  have ex: "excl \<notin> Some ` ({d. (u, d) \<in> set (tw_seen ?w)} \<union> rd_device_id ` set devs)" using assms(5) sub known by auto
  have fg: "forgets (test_ready L has_session trusts u devs offer seed) (\<lambda>w. {d. (u, d) \<in> set (tw_seen w)}) (\<lambda>w. last_put J (tw_http w))
      (drop_sessions L ?E u) (rd_device_id ` set devs) ?w" by (rule forgets_registered) (use sub known in simp)
  obtain r w' where run: "submit_padded_with_retry_generic L U ?E m ts u fb excl l fake_account ?w = (r, w')" by fastforce
  have "sv_now_ms ?E x = 0" "sv_device_ids_for ?E = tracking_ids" for x by (simp_all add: test_env_def stateful_net_def)
  then show ?thesis
    using converges [OF ready ne fg assms(4) ex run] run unfolding known
    by (auto simp: last_put_def tracking_new_def)
qed

end

lemma put_devices_last: "put_devices J h = Some (snd (last_put J h))" if "snd (last_put J h) \<noteq> []"
  using that by (auto simp: put_devices_def last_put_def split: option.splits sum.splits)

lemma two_devices_test:
  assumes "test_server L U T base has_session trusts J ''bob-uuid'' req [dev1, dev2] offer" "rd_device_id dev1 = 1" "rd_device_id dev2 = 2"
    and "has_session bob_addr alice" "trusts \<lparr>pa_name = ''bob-uuid'', pa_device = 1\<rparr> (offer dev1) alice"
  shows "send_with_two_recipient_devices W L U T J alice dev1 dev2"
proof -
  let ?h = "register_device ''bob-uuid'' dev2 (register_device ''bob-uuid'' dev1 stateful_new)"
  let ?m = "build_padded_data_message_content W ''hello'' 1700000000000"
  have ts: "test_stores L U T base has_session trusts" using assms(1) by (simp add: test_server_def)
  have reg: "registered_devices ''bob-uuid'' ?h = [dev1, dev2]" "sm_put_count ?h = 0"
    by (simp_all add: register_device_def registered_devices_def stateful_new_def)
  have two: "device_valid L 2" using test_stores.device_two [OF ts] by (simp add: device_valid_def)
  have tr: "trusts \<lparr>pa_name = ''bob-uuid'', pa_device = ucast (rd_device_id x)\<rparr> (offer x) alice"
    if "x \<in> set [dev1, dev2]" "(''bob-uuid'', rd_device_id x) \<notin> set [(''bob-uuid'', 2)]" for x
    using that assms(2,3,5) by auto
  obtain w' where w': "submit_padded_with_retry_generic L U (test_env T (stateful_net J (\<lambda>_. 0))) ?m 1700000000000 ''bob-uuid'' 2 None alice_addr fake_account
       (tracking_new alice [(''bob-uuid'', 2)] ?h) = (Inr True, w')"
    "test_ready L has_session trusts ''bob-uuid'' [dev1, dev2] offer {2} w'" "{d. (''bob-uuid'', d) \<in> set (tw_seen w')} = {1, 2}"
    "set (snd (last_put J (tw_http w'))) = {1, 2}" "sm_put_count (tw_http w') = 2"
    using test_server.run_reaches [OF assms(1), of "[(''bob-uuid'', 2)]" "{2}" alice 2 ?h 2 None ?m 1700000000000 alice_addr, OF _ _ _ _ _ tr] assms(2-4) reg two
    by (auto simp: bob_addr_def)
  have "(1 :: u32) \<notin> {2}" by simp
  then have "0 < sm_get_count (tw_http w')" using w'(2,3) unfolding test_ready_def by blast
  moreover have "put_devices J (tw_http w') = Some (snd (last_put J (tw_http w')))" using w'(4) by (intro put_devices_last) auto
  ultimately show ?thesis
    using w' by (simp add: send_with_two_recipient_devices_def submit_with_retry_generic_def bob_addr_def)
qed

lemma own_devices_test:
  assumes "test_server L U T base has_session trusts J ''alice-uuid'' req [dev7] offer" "rd_device_id dev7 = 7" "ls_device_id_new L 1 = Inr 1"
    and "has_session \<lparr>pa_name = ''alice-uuid'', pa_device = 7\<rparr> alice"
  shows "sync_transcript_fans_out_to_own_other_devices W L U T J alice dev7"
proof -
  let ?h = "register_device ''alice-uuid'' dev7 stateful_new" and ?E = "test_env T (stateful_net J (\<lambda>_. 0))"
  let ?m = "build_padded_sync_transcript_content W ''bob-uuid'' ''hello sync'' 1700000000000"
  have reg: "registered_devices ''alice-uuid'' ?h = [dev7]" "sm_put_count ?h = 0"
    by (simp_all add: register_device_def registered_devices_def stateful_new_def)
  have one: "device_valid L 1" using assms(3) by (simp add: device_valid_def)
  have ids: "tracking_ids ''alice-uuid'' (tracking_new alice [(''alice-uuid'', 7)] ?h) = [7]" by (simp add: tracking_ids_def tracking_new_def)
  obtain w' where w': "submit_padded_with_retry_generic L U ?E ?m 1700000000000 ''alice-uuid'' 1 (Some 1) alice_addr fake_account
       (tracking_new alice [(''alice-uuid'', 7)] ?h) = (Inr True, w')"
    "sm_put_count (tw_http w') = 1" "snd (last_put J (tw_http w')) = [7]"
    using test_server.run_reaches [OF assms(1), of "[(''alice-uuid'', 7)]" "{7}" alice 7 ?h 1 "Some 1" ?m 1700000000000 alice_addr] assms(2,4) reg one ids
    by auto
  have "sv_device_ids_for ?E = tracking_ids" by (simp add: test_env_def)
  then show ?thesis
    using w' ids put_devices_last [of J "tw_http w'"]
    by (simp add: sync_transcript_fans_out_to_own_other_devices_def sync_run_def submit_sync_transcript_generic_def Let_def)
qed

section \<open>Properties\<close>

text \<open>C22. The unit tests of the send path hold on the model: for every URL and JSON library and every libsignal that keep the
  laws of \<open>test_stores\<close> and \<open>test_server\<close>, from a store that can send to bob's device 2 and has no other identity for
  bob's device 1 than the one the server hands out, and one that can send to the own device 7, the status, retry,
  fan-out and sync-transcript tests pass and none of their doubles panics.\<close>

theorem send_tests_pass:
  assumes "test_server L U T base has_session trusts J ''bob-uuid'' req [dev1, dev2] offer" "rd_device_id dev1 = 1" "rd_device_id dev2 = 2"
    and "has_session bob_addr alice" "trusts \<lparr>pa_name = ''bob-uuid'', pa_device = 1\<rparr> (offer dev1) alice"
    and "test_server L U T base has_session trusts J ''alice-uuid'' req' [dev7] offer'" "rd_device_id dev7 = 7" "ls_device_id_new L 1 = Inr 1"
    and "has_session \<lparr>pa_name = ''alice-uuid'', pa_device = 7\<rparr> alice'"
  shows "submit_tests L U T i \<and> submit_request_url_includes_uuid L U T i \<and> retry_tests W L U T alice
    \<and> send_with_stale_device_drops_session W L U T alice
    \<and> send_with_two_recipient_devices W L U T J alice dev1 dev2
    \<and> sync_transcript_fans_out_to_own_other_devices W L U T J alice' dev7
    \<and> sync_transcript_skipped_when_own_account_has_no_other_devices W L U T J i"
proof -
  have ts: "test_stores L U T base has_session trusts" using assms(1) by (simp add: test_server_def)
  have retry: "retry_tests W L U T alice" by (rule test_stores.retry_tests_pass [OF ts assms(4)])
  then have "send_with_stale_device_drops_session W L U T alice"
    by (auto simp: retry_tests_def retry_loop_410_recovers_then_succeeds_def send_with_stale_device_drops_session_def split: prod.splits)
  moreover have "submit_request_url_includes_uuid L U T i"
    unfolding submit_request_url_includes_uuid_def test_stores.submit_one_eq(2) [OF ts] by (simp add: tracking_new_def interpret_send_status_def)
  moreover have "submit_tests L U T i" using ts by (rule test_stores.submit_tests_pass)
  moreover have "send_with_two_recipient_devices W L U T J alice dev1 dev2" using assms(1-5) by (rule two_devices_test)
  moreover have "sync_transcript_fans_out_to_own_other_devices W L U T J alice' dev7" using assms(6-9) by (rule own_devices_test)
  moreover have "sync_transcript_skipped_when_own_account_has_no_other_devices W L U T J i" using ts by (rule test_stores.no_devices_test)
  ultimately show ?thesis using retry by blast
qed

text \<open>An instance: lists of sessions and of identities (the text of a bundle stands for its identity), where a bundle with
  another identity than the one on record is refused, and the libraries of \<open>Fan_Out\<close> with the literal bodies of the tests.\<close>

type_synonym list_store = "(protocol_address \<times> session_record) list \<times> (protocol_address \<times> bytes) list"

fun list_trusts :: "protocol_address \<Rightarrow> pre_key_bundle \<Rightarrow> list_store \<Rightarrow> bool" where
  "list_trusts a (PreKeyBundle k) i \<longleftrightarrow> (case map_of (snd i) a of None \<Rightarrow> True | Some k' \<Rightarrow> k' = k)"

definition list_inmem :: "list_store inmem_lib" where
  "list_inmem =
     \<lparr>il_load_session = (\<lambda>a i. Inr (map_of (fst i) a)), il_store_session = (\<lambda>a r i. (Inr (), ((a, r) # fst i, snd i))),
      il_message_encrypt = (\<lambda>m a l i. case map_of (fst i) a of None \<Rightarrow> (Inl (SignalError ''SessionNotFound''), i) | Some r \<Rightarrow> (Inr (SignalMessage m, r), i)),
      il_process_bundle = (\<lambda>a b i. case b of PreKeyBundle k \<Rightarrow>
         if list_trusts a b i then (Inr (SessionRecord k), (fst i, (a, k) # snd i)) else (Inl (SignalError ''UntrustedIdentity''), i))\<rparr>"

definition list_session :: "protocol_address \<Rightarrow> list_store \<Rightarrow> bool" where
  "list_session a i \<longleftrightarrow> map_of (fst i) a \<noteq> None"

lemma list_kept: "store_kept list_session list_trusts a i ((a, r) # fst i, ks)"
  if "\<And>b. b \<noteq> a \<Longrightarrow> map_of ks b = map_of (snd i) b" for a i r ks
  using that by (auto simp: store_kept_def list_session_def elim!: list_trusts.elims)

lemma list_encrypts:
  "list_session a i \<Longrightarrow> \<exists>c s i1 i2. il_message_encrypt list_inmem m a l i = (Inr (c, s), i1) \<and> (\<forall>t. c \<noteq> OtherCiphertext t)
     \<and> il_store_session list_inmem a s i1 = (Inr (), i2) \<and> store_kept list_session list_trusts a i i2"
  using list_kept [of a "snd i" i] by (cases i) (auto simp: list_inmem_def list_session_def)

lemma list_processes:
  "list_trusts a b i \<Longrightarrow> \<exists>s i1 i2. il_process_bundle list_inmem a b i = (Inr s, i1)
     \<and> il_store_session list_inmem a s i1 = (Inr (), i2) \<and> store_kept list_session list_trusts a i i2"
  by (cases b) (use list_kept [of a _ i] in \<open>fastforce simp: list_inmem_def\<close>)

definition test_lib :: send_lib where
  "test_lib = letter_lib\<lparr>sl_mismatch_from_json := (\<lambda>b.
       if b = json_ids ''missingDevices'' ''2,3'' then Inr \<lparr>missing_devices = [2, 3], extra_devices = [], stale_devices = []\<rparr>
       else if b = json_ids ''staleDevices'' ''4'' then Inr \<lparr>missing_devices = [], extra_devices = [], stale_devices = [4]\<rparr>
       else if b = json_ids ''staleDevices'' ''2'' then Inr \<lparr>missing_devices = [], extra_devices = [], stale_devices = [2]\<rparr>
       else sl_mismatch_from_json letter_lib b)\<rparr>"

abbreviation (input) TEST_BASE :: url where "TEST_BASE \<equiv> Url ''https://chat.signal.org''"

definition letter_device :: "u32 \<Rightarrow> registered_device" where
  "letter_device d = \<lparr>rd_device_id = d, rd_prekey_response_body = [device_char d]\<rparr>"

lemma test_urls:
  "sl_url_as_str test_lib (sl_url_set_path test_lib p TEST_BASE) = ''https://chat.signal.org'' @ p"
  "chat_base_url test_lib fake_account = Inr TEST_BASE"
  by (simp_all add: test_lib_def letter_lib_def token_send_lib_def chat_base_url_def fake_account_def)

lemma test_keys_url:
  assumes "CHR ''v'' \<notin> set t"
  shows "split_second ''/v2/keys/'' (sl_url_as_str test_lib (sl_url_set_path test_lib (''/v2/keys/'' @ t) TEST_BASE)) = Some t"
proof -
  have "find_str ''/v2/keys/'' t = None" using assms by (intro find_str_missing [of "CHR ''v''"]) auto
  moreover have "find_str ''/v2/keys/'' (''https://chat.signal.org'' @ ''/v2/keys/'' @ t) = Some 23"
    by (subst find_str_skip) (auto simp: less_Suc_eq starts_with_def)
  ultimately show ?thesis unfolding test_urls by (simp add: split_second_def)
qed

lemma letter_no_json: "map device_char ms @ CHR 0x00 # map device_char xs \<noteq> json_ids ''missingDevices'' ''2,3''"
  "map device_char ms @ CHR 0x00 # map device_char xs \<noteq> json_ids ''staleDevices'' ''4''"
  "map device_char ms @ CHR 0x00 # map device_char xs \<noteq> json_ids ''staleDevices'' ''2''"
proof -
  have "CHR 0x00 \<in> set (map device_char ms @ CHR 0x00 # map device_char xs)" by simp
  moreover have "CHR 0x00 \<notin> set (json_ids ''missingDevices'' ''2,3'')" "CHR 0x00 \<notin> set (json_ids ''staleDevices'' ''4'')"
    "CHR 0x00 \<notin> set (json_ids ''staleDevices'' ''2'')" by (simp_all add: json_ids_def)
  ultimately show "map device_char ms @ CHR 0x00 # map device_char xs \<noteq> json_ids ''missingDevices'' ''2,3''"
    "map device_char ms @ CHR 0x00 # map device_char xs \<noteq> json_ids ''staleDevices'' ''4''"
    "map device_char ms @ CHR 0x00 # map device_char xs \<noteq> json_ids ''staleDevices'' ''2''" by metis+
qed

interpretation listed_sessions: test_stores token_libsignal test_lib list_inmem TEST_BASE list_session list_trusts
proof (unfold_locales, goal_cases)
  case 1
  show ?case by (rule test_urls(2))
next
  case (3 x)
  then show ?case unfolding test_urls str_contains_def find_str_iff by (metis append.right_neutral)
next
  case 7
  then show ?case using test_keys_url [of "''alice-uuid'' @ ''/*''"] by simp
next
  case (9 a i)
  then show ?case by (auto simp: list_session_def list_inmem_def token_libsignal_def)
next
  case (10 a i m l)
  then show ?case by (rule list_encrypts)
qed (auto simp: test_lib_def letter_lib_def list_inmem_def token_libsignal_def json_ids_def)

lemma test_message_uuid:
  "message_uuid (''https://chat.signal.org'' @ ''/v1/messages/'' @ ''bob-uuid'') = ''bob-uuid''"
  "message_uuid (''https://chat.signal.org'' @ ''/v1/messages/'' @ ''alice-uuid'') = ''alice-uuid''"
  by code_simp+

lemma valid_devices: "device_valid token_libsignal 1" "device_valid token_libsignal 2" "device_valid token_libsignal 7"
  by (simp_all add: device_valid_def token_libsignal_def)

text \<open>The laws of \<open>test_server\<close> for one of the two accounts and devices of the form \<open>letter_device d\<close>.\<close>

lemma letter_server:
  assumes "u = ''bob-uuid'' \<or> u = ''alice-uuid''" "\<And>d. d \<in> set ds \<Longrightarrow> device_valid token_libsignal d"
  shows "test_server token_libsignal test_lib list_inmem TEST_BASE list_session list_trusts letter_json u
    (\<lambda>r. map (device_char \<circ> ome_destination_device_id) (smr_messages r)) (map letter_device ds) (\<lambda>_. PreKeyBundle ''bundle'')"
proof (unfold_locales, goal_cases)
  case 1
  show ?case by (rule test_urls(2))
next
  case (3)
  show ?case using assms(1) test_message_uuid unfolding test_urls by blast
next
  case (4 d)
  have "CHR ''v'' \<notin> set (show_word d)" using show_word_digits [of "CHR ''v''" d] by (auto simp: is_digit_def)
  with assms(1) show ?case by (intro test_keys_url) auto
next
  case (6 r)
  then show ?case using valid_small(1) by (auto simp: letter_json_def)
next
  case (7 ms xs)
  then have "utf8_valid (map device_char ms @ CHR 0x00 # map device_char xs)"
    by (intro utf8_valid_ascii) (use valid_small(3) in force)
  then have eq: "sl_mismatch_from_json test_lib (from_utf8_lossy (mj_mismatch letter_json ms xs)) =
      sl_mismatch_from_json letter_lib (from_utf8_lossy (mj_mismatch letter_json ms xs))"
    using letter_no_json [of ms xs] by (simp add: test_lib_def letter_json_def from_utf8_lossy_valid)
  show ?case unfolding eq using 7 by (intro letter_mismatch) blast
next
  case (9 x)
  then obtain d where d: "x = letter_device d" "device_valid token_libsignal d" using assms(2) by auto
  have f: "sl_public_deserialize test_lib = sl_public_deserialize letter_lib" "sl_kem_deserialize test_lib = sl_kem_deserialize letter_lib"
    "sl_bundle_new test_lib = sl_bundle_new letter_lib" and pre: "sl_prekeys_from_json test_lib = sl_prekeys_from_json letter_lib"
    by (simp_all add: test_lib_def)
  have eq: "build_prekey_bundle token_libsignal test_lib y k = build_prekey_bundle token_libsignal letter_lib y k" for y k
    unfolding build_prekey_bundle_def decode_ec_public_def decode_kyber_public_def f ..
  have "char_device (device_char d) = d" using d(2) by (simp add: valid_small)
  with letter_bundle [of "device_char d"] d show ?case unfolding eq pre by (simp add: letter_device_def)
next
  case (10 x a i)
  then show ?case by (intro list_processes) simp
qed (use assms in \<open>auto simp: test_lib_def letter_lib_def list_inmem_def letter_device_def\<close>)

interpretation bob_server: test_server token_libsignal test_lib list_inmem TEST_BASE list_session list_trusts letter_json "''bob-uuid''"
  "\<lambda>r. map (device_char \<circ> ome_destination_device_id) (smr_messages r)" "[letter_device 1, letter_device 2]" "\<lambda>_. PreKeyBundle ''bundle''" "{2}"
  using letter_server [of "''bob-uuid''" "[1, 2]"] valid_devices by auto

interpretation alice_server: test_server token_libsignal test_lib list_inmem TEST_BASE list_session list_trusts letter_json "''alice-uuid''"
  "\<lambda>r. map (device_char \<circ> ome_destination_device_id) (smr_messages r)" "[letter_device 7]" "\<lambda>_. PreKeyBundle ''bundle''" "{7}"
  using letter_server [of "''alice-uuid''" "[7]"] valid_devices by auto

text \<open>The identity that alice holds for bob's device 2 is not the one of the server's bundles.\<close>

definition list_alice :: list_store where
  "list_alice = ([(bob_addr, SessionRecord ''S'')], [(bob_addr, ''earlier identity'')])"

theorem send_tests_pass_witness:
  "send_with_two_recipient_devices pb_wire token_libsignal test_lib list_inmem letter_json list_alice (letter_device 1) (letter_device 2)
   \<and> retry_tests pb_wire token_libsignal test_lib list_inmem list_alice"
proof -
  have one: "ls_device_id_new token_libsignal 1 = Inr 1" by (simp add: token_libsignal_def)
  have "list_trusts \<lparr>pa_name = ''bob-uuid'', pa_device = 1\<rparr> (PreKeyBundle ''bundle'') list_alice" by (simp add: list_alice_def bob_addr_def)
  from send_tests_pass [OF bob_server.test_server_axioms _ _ _ this alice_server.test_server_axioms _ one,
      of "([(\<lparr>pa_name = ''alice-uuid'', pa_device = 7\<rparr>, SessionRecord ''S'')], [])" "([], [])" pb_wire]
  show ?thesis by (simp add: letter_device_def list_alice_def list_session_def)
qed

end
