(* ===== verification/Spec2Isabelle.thy ===== *)
theory Spec2Isabelle
  imports Conversation Startup Store_Types Store_Tests Unit_Tests Transport Observer Getrandom_Systems Send_Tests
begin

text \<open>
  A verification library for xous-signal-client, a Signal client for the Xous operating system
  (Rust, \<open>src/src/\<close>).

  \<^bold>\<open>The program.\<close> The client is linked to an existing Signal account as a second device: it opens a
  provisioning WebSocket, shows a QR code, decrypts the provisioning message, registers with the
  server by REST and stores the account and its prekeys in the PDDB, the key-value store of Xous.
  After that a receive worker keeps an authenticated WebSocket open, decrypts envelopes and
  delivers them to the chat server, and the main loop posts what the user writes, encrypted for
  every device of the recipient, with a bounded retry. Conversations are summarised in the PDDB
  and picked from a list.

  \<^bold>\<open>The theories\<close>, in the order of the imports. Each opens with a text block of its own.

  \<^item> \<open>Prelude\<close>: results with state (\<open>sres\<close>, \<open>sbind\<close> for the question mark), byte strings, UTF-8,
    \<open>str\<close> slicing with its panics, number parsing; the simplification collection \<open>res_simps\<close>.
  \<^item> \<open>Pddb\<close>: the PDDB as the record \<open>pddb\<close> of its calls; the locale \<open>healthy_pddb\<close> is its contract
    when no call fails, with an abstract view, a map from dict and key to bytes. The in-memory
    instance \<open>mem_pddb\<close> interprets it.
  \<^item> \<open>Stores\<close> (\<open>manager/stores.rs\<close>): libsignal's protocol stores over the PDDB: identities, prekeys,
    signed and Kyber prekeys, sessions. Trust on first use, change reports, the rejection of a
    reused last-resort key, and the exactness of the device enumeration.
  \<^item> \<open>Proto\<close>: the protobuf messages of \<open>manager/main_ws.rs\<close>, \<open>manager/outgoing.rs\<close> by their fields, over a
    wire codec; the locale \<open>wire_format\<close>, interpreted by a real protobuf codec \<open>pb_wire\<close>.
  \<^item> \<open>Outgoing\<close> (\<open>manager/outgoing.rs\<close>): content and padding, encryption for one recipient, the
    recipient pointers, the demo recipient.
  \<^item> \<open>Send\<close> and \<open>Send_Bounds\<close> (\<open>manager/send.rs\<close>): the HTTP statuses, the 409 and 410 handlers, prekey
    bundles and the retry loop. The locale \<open>costed_env\<close> bounds any cost that PUTs and sleeps add to; it
    gives the bound on PUTs and sleeping time, and in \<open>Conversation\<close>, with the change of a key as
    the cost, what a submission leaves alone.
  \<^item> \<open>Peers\<close> (\<open>manager/peers.rs\<close>): conversation summaries and their hand-written JSON.
  \<^item> \<open>Signal_Ws\<close> (\<open>manager/signal_ws.rs\<close>): the WebSocket: how it is opened (TCP, TLS, the upgrade request,
    over the network \<open>net_lib\<close>), read and closed (over the open connection \<open>ws_lib\<close>). The two workers and
    \<open>Manager\<close> use these definitions, so a close that never returns, or the error kind of a failed
    connection, shows in their theorems.
  \<^item> \<open>Receive\<close> (\<open>manager/main_ws.rs\<close>): reconnect loop, session rounds, envelopes, delivery. \<open>landed\<close> says in
    which dialogue each post of a list of UI calls ends up, \<open>displayed\<close> which one is shown at its end.
  \<^item> \<open>Prekeys\<close> (\<open>manager/prekeys.rs\<close>, \<open>manager/prekey_replenish.rs\<close>): generation, ids, storage, upload.
  \<^item> \<open>Provisioning\<close> (\<open>manager/libsignal.rs\<close>): the provisioning cipher, the device name, AES-CTR.
  \<^item> \<open>Rest\<close> (\<open>manager/rest.rs\<close>, \<open>manager/account_attrs.rs\<close>): the REST calls and the request bodies.
    The locale \<open>recorded_rest\<close> is an HTTP agent that remembers its PUTs; \<open>link_requests\<close> are the lists of requests a
    device link may send.
  \<^item> \<open>Account\<close> (\<open>account.rs\<close>, \<open>account/service_environment.rs\<close>): the account and \<open>link\<close>, with all its requests.
  \<^item> \<open>Ws_Server\<close> (\<open>manager/ws_server.rs\<close>): the worker of the provisioning WebSocket as a state machine
    with an inductive set of reachable states, and its exit, which closes the socket.
  \<^item> \<open>Wifi\<close> (\<open>manager/wifi_observer.rs\<close>, \<open>manager/cancellation.rs\<close>): observer, watcher, tokens.
  \<^item> \<open>Manager\<close> (\<open>manager.rs\<close>, \<open>manager/config.rs\<close> and the three settings enumerations): a provisioning
    attempt as a composition of the main thread, \<open>Ws_Server\<close> (in its loop, closing its socket, or
    gone) and \<open>Wifi\<close> over every interleaving, the retry of \<open>link\<close>, and the threads of \<open>start_receive\<close>.
  \<^item> \<open>App\<close> (\<open>lib.rs\<close>, \<open>main.rs\<close>, \<open>api.rs\<close>): connecting, account set-up, the conversation list, posting, the
    event loop.
  \<^item> \<open>Conversation\<close>: the main thread and the receive thread together; who a post goes to.
  \<^item> \<open>Trng\<close> (\<open>getrandom_xous.rs\<close>): random bytes from the TRNG server.
  \<^item> \<open>Startup\<close> (\<open>main.rs\<close>): the set-up of the process before the event loop, and its exit.
  \<^item> \<open>Store_Types\<close>: the stores as a typed state. \<open>store_step\<close> is the step relation of all their operations,
    \<open>store_typed\<close> its invariant: what is read back always decodes.
  \<^item> \<open>Self_Test\<close> (\<open>bin/test_stores.rs\<close>): the store test binary, run on any PDDB without faults.
  \<^item> \<open>Store_Tests\<close> (the tests of \<open>manager/stores.rs\<close>): they share one PDDB, and pass in every order in which each runs
    once; the locale \<open>store_suite\<close> is what they need of libsignal's key generation.
  \<^item> \<open>Unit_Tests\<close>: the tests of \<open>manager/outgoing.rs\<close>, \<open>manager/main_ws.rs\<close>, \<open>manager/ws_server.rs\<close>, \<open>manager/peers.rs\<close>,
    \<open>manager/prekeys.rs\<close>, \<open>manager/prekey_replenish.rs\<close>, \<open>manager/account_attrs.rs\<close>, \<open>manager/libsignal.rs\<close>, \<open>manager/signal_ws.rs\<close>
    and the settings; \<open>device_ids\<close> is what those about recipients need of libsignal.
  \<^item> \<open>Transport\<close> (\<open>manager/signal_ws.rs\<close>, \<open>manager/send.rs\<close>, and the spawning and dropping in
    \<open>manager/wifi_observer.rs\<close>, \<open>manager/ws_server.rs\<close>, \<open>manager/main_ws.rs\<close>): the edges towards the network and the
    kernel. \<open>recorded_net\<close> is a network that remembers upgrade requests, \<open>kernel_table\<close> a kernel with a table of
    the handles it gave out, \<open>counted_agent\<close> makes an HTTP agent a \<open>counted_net\<close> of \<open>Send_Bounds\<close>.
  \<^item> \<open>Flap_Recovery\<close> (\<open>src/tests/wifi_flap_recovery.rs\<close>): a polling operation against injected link states, over
    every schedule.
  \<^item> \<open>Observer\<close>: the observer with its listeners as closures over shared cells, as the code has them; \<open>stands_for\<close> is the
    simulation relation to the records of \<open>Wifi\<close>. The unit tests of the two files are stated over it.
  \<^item> \<open>Getrandom\<close>, \<open>Getrandom_Host\<close> and \<open>Getrandom_Systems\<close> (\<open>src/imports/getrandom-02/src/\<close>): the vendored getrandom 0.2 with its
    errors and the Xous backend; the backends for Linux, the device file, RDRAND and a registered function; those
    of all other systems and of JavaScript, and the choice by the target. \<open>chunked\<close> is a loop over chunks of the buffer,
    \<open>writing_os\<close>, \<open>web_js\<close> and \<open>sound_machine\<close> are what the backends rely on of the systems. The locale \<open>backend\<close> is what \<open>getrandom_uninit\<close> needs of a backend before it casts the buffer.
  \<^item> \<open>Fan_Out\<close> and \<open>Send_Tests\<close> (the tests of \<open>manager/send.rs\<close>): the stateful server of the tests, which answers 409
    until every device of the account is addressed, and a send against it; the test doubles and scenarios. The
    locale \<open>fan_out\<close> is what a send needs of a server to reach every device; \<open>served_account\<close>, \<open>delivering\<close> and
    \<open>test_server\<close> give it, and \<open>test_stores\<close> is the contract of the in-memory stores (its \<open>trusts\<close> is when libsignal
    accepts the identity of a bundle).

  \<^bold>\<open>How the code is modelled.\<close> Definitions keep the names of the source. Strings and byte vectors
  are lists of characters, a character being an octet; integers are words of their width, except
  for sizes and durations that are compared with constants only, which are natural numbers.
  Fallible calls return a sum with the error on the left; a call that changes state returns the
  new state also when it fails. A panic is a value: \<open>None\<close>, or an error constructor of its own. Log
  lines are left out.

  Third-party code (libsignal, ureq, serde\_json, the url crate, tungstenite, the modals, the Xous
  kernel) is an argument: a record of functions. What the code relies on is stated as the assumption
  of a locale or as a hypothesis of the theorem; each such law has an instance on which the witness
  of the theorem runs (\<open>token_libsignal\<close>, \<open>pb_wire\<close>, \<open>mem_pddb\<close>, \<open>scripted\<close>, \<open>log_ws\<close>, \<open>token_crypto\<close>,
  \<open>script_rest\<close>, \<open>counter_trng\<close>, \<open>letter_lib\<close>, \<open>letter_json\<close> and others).

  \<^bold>\<open>Loops.\<close> The retry loop of a send, the padding, the counter mode and the TRNG loop are total with a
  measure. Loops that may run for ever are explicit about it: the session and reconnect loops of
  \<open>Receive\<close> take fuel, and the claims hold for every amount of it; \<open>flush_loop\<close> and \<open>wifi_loop\<close> are
  partial functions whose \<open>None\<close> is not returning, and \<open>close_returns_iff\<close> says when the first returns;
  \<open>worker_exit\<close> and \<open>run_session\<close>, which close a socket, are \<open>None\<close> with it.
  The worker of \<open>Ws_Server\<close>, the observer and the event loop consume the list of the messages they
  get; a theorem over all lists is one over all runs. The system-call loops of \<open>Getrandom_Host\<close>
  (\<open>sys_fill_exact\<close>, \<open>open_readonly\<close>, \<open>poll_ready\<close>) retry an interrupted call without a bound and are partial functions as
  well; \<open>fill_returns\<close> shows that finitely many interruptions are enough for the first to return. In \<open>Manager\<close> the turns of the other threads while
  the main thread is blocked are such a list.

  \<^bold>\<open>What the theorems show.\<close> Safety of the protocol state (identities, Kyber keys, prekey ids, the
  validation of sealed senders, the acceptance of provisioning messages), bounds of the send and link
  paths, round trips (sender to receiver, device name, summaries), refinement of the account dict by
  the account in memory, counter mode against a reference, the invariants of the two workers, the
  recovery of a link from a WiFi flap, and that posts reach the conversation on the screen. Some
  theorems state what goes wrong, where the code does: a transcript without an open conversation, a
  delivery that races with a switch, the byte slices of the conversation list, the lost flags of a
  linked account, a record lost by a failed write, the handles lost by a failed observer, and the
  requests for more than 4080 random bytes.

  \<^bold>\<open>Granularity.\<close> Each call of the PDDB is atomic, each delivery and each action of the user is one step
  in \<open>conversation\<close>; \<open>delivery_race_misplaces\<close> looks inside a delivery. Session deletion and
  encryption act on the PDDB through the stores, so \<open>dialogue_store\<close> assumes of libsignal only that it
  leaves the dialogue dict alone.

  \<^bold>\<open>Not modelled.\<close> The operations of \<open>manager.rs\<close> that are \<open>todo!()\<close>; the debug dumps of \<open>send.rs\<close> to the host; the
  unit tests whose expectation is the output of a library (AES and base64 bytes, the JSON of serde\_json, the
  URLs of the url crate, ratchet sessions of libsignal, the time-out of a TCP stream).
\<close>

end
